(* ===== verification/Prelude.thy ===== *)
theory Prelude
  imports Main "HOL-Library.Word" "HOL-Library.Sublist"
begin

text \<open>
  Shared ground of the development: the machine integers of the Rust sources, the part of
  Rust's string library the sources call (written as functions on \<^typ>\<open>string\<close>, one character
  per byte of ASCII text), number printing and parsing, and the generic lemmas about lists,
  splitting and searching that the component theories share.

  Texts are ASCII: \<open>trim\<close> and \<open>split_whitespace\<close> recognise the six ASCII white-space characters
  of \<open>char::is_whitespace\<close>, and a character is one byte, as \<open>str::len\<close> counts.
\<close>

named_theorems str_defs \<open>definitions of the string operations, for evaluation\<close>

type_synonym u8 = "8 word"
type_synonym u16 = "16 word"
type_synonym u32 = "32 word"
type_synonym u64 = "64 word"
type_synonym bytes = "u8 list"

text \<open>The \<open>std::io::ErrorKind\<close> values the sources tell apart.\<close>

datatype io_kind = NotFound | PermissionDenied | AddrInUse | Other_Kind

section \<open>Word bounds\<close>

lemma unat_u8_less [simp]: "unat (x :: u8) < 256"
  using unsigned_less [of x] by simp

lemma unat_u16_less [simp]: "unat (x :: u16) < 65536"
  using unsigned_less [of x] by simp

lemma unat_u8_eq: "unat (x :: u8) = n \<longleftrightarrow> x = of_nat n \<and> n < 256"
proof
  assume "unat x = n"
  then show "x = of_nat n \<and> n < 256" using unat_u8_less [of x] by auto
next
  assume "x = of_nat n \<and> n < 256"
  then show "unat x = n" by (simp add: unat_of_nat take_bit_nat_eq_self)
qed

section \<open>Characters\<close>

definition is_ws :: "char \<Rightarrow> bool" where
  "is_ws c \<longleftrightarrow> c \<in> {CHR 0x09, CHR 0x0A, CHR 0x0B, CHR 0x0C, CHR 0x0D, CHR '' ''}"

definition lower_char :: "char \<Rightarrow> char" where
  "lower_char c = (if 65 \<le> (of_char c :: nat) \<and> (of_char c :: nat) \<le> 90
                   then char_of ((of_char c :: nat) + 32) else c)"

definition to_ascii_lowercase :: "string \<Rightarrow> string" where
  "to_ascii_lowercase s = map lower_char s"

definition eq_ignore_ascii_case :: "string \<Rightarrow> string \<Rightarrow> bool" where
  "eq_ignore_ascii_case a b \<longleftrightarrow> to_ascii_lowercase a = to_ascii_lowercase b"

definition digit_val :: "char \<Rightarrow> nat option" where
  "digit_val c = (let n = (of_char c :: nat) in if 48 \<le> n \<and> n \<le> 57 then Some (n - 48) else None)"

definition hex_val :: "char \<Rightarrow> nat option" where
  "hex_val c = (let n = (of_char c :: nat) in
     if 48 \<le> n \<and> n \<le> 57 then Some (n - 48)
     else if 97 \<le> n \<and> n \<le> 102 then Some (n - 87)
     else if 65 \<le> n \<and> n \<le> 70 then Some (n - 55)
     else None)"

definition is_ascii_digit :: "char \<Rightarrow> bool" where
  "is_ascii_digit c \<longleftrightarrow> digit_val c \<noteq> None"

definition is_ascii_alphanumeric :: "char \<Rightarrow> bool" where
  "is_ascii_alphanumeric c \<longleftrightarrow> (let n = (of_char c :: nat) in
     (48 \<le> n \<and> n \<le> 57) \<or> (65 \<le> n \<and> n \<le> 90) \<or> (97 \<le> n \<and> n \<le> 122))"

lemmas [str_defs] = is_ws_def lower_char_def to_ascii_lowercase_def eq_ignore_ascii_case_def
  digit_val_def hex_val_def is_ascii_digit_def is_ascii_alphanumeric_def

section \<open>Trimming, prefixes and suffixes\<close>

definition trim_end_by :: "(char \<Rightarrow> bool) \<Rightarrow> string \<Rightarrow> string" where
  "trim_end_by p s = rev (dropWhile p (rev s))"

definition trim :: "string \<Rightarrow> string" where
  "trim s = trim_end_by is_ws (dropWhile is_ws s)"

definition trim_end_matches :: "char \<Rightarrow> string \<Rightarrow> string" where
  "trim_end_matches c s = trim_end_by (\<lambda>d. d = c) s"

definition trim_start_matches :: "char \<Rightarrow> string \<Rightarrow> string" where
  "trim_start_matches c s = dropWhile (\<lambda>d. d = c) s"

fun strip_prefix :: "'a list \<Rightarrow> 'a list \<Rightarrow> 'a list option" where
  "strip_prefix [] s = Some s"
| "strip_prefix (p # ps) [] = None"
| "strip_prefix (p # ps) (x # xs) = (if p = x then strip_prefix ps xs else None)"

definition starts_with :: "'a list \<Rightarrow> 'a list \<Rightarrow> bool" where
  "starts_with p s \<longleftrightarrow> strip_prefix p s \<noteq> None"

definition strip_suffix :: "'a list \<Rightarrow> 'a list \<Rightarrow> 'a list option" where
  "strip_suffix p s = map_option rev (strip_prefix (rev p) (rev s))"

definition ends_with :: "'a list \<Rightarrow> 'a list \<Rightarrow> bool" where
  "ends_with p s \<longleftrightarrow> strip_suffix p s \<noteq> None"

lemmas [str_defs] = trim_end_by_def trim_def trim_end_matches_def trim_start_matches_def
  starts_with_def strip_suffix_def ends_with_def

lemma strip_prefix_Some: "strip_prefix p s = Some r \<longleftrightarrow> s = p @ r"
  by (induction p s rule: strip_prefix.induct) auto

lemma strip_prefix_append [simp]: "strip_prefix p (p @ r) = Some r"
  by (simp add: strip_prefix_Some)

lemma starts_with_iff: "starts_with p s \<longleftrightarrow> (\<exists>r. s = p @ r)"
  unfolding starts_with_def by (cases "strip_prefix p s") (auto simp: strip_prefix_Some)

lemma starts_with_append [simp]: "starts_with p (p @ r)"
  by (auto simp: starts_with_iff)

lemma strip_suffix_Some: "strip_suffix p s = Some r \<longleftrightarrow> s = r @ p"
proof -
  have "strip_suffix p s = Some r \<longleftrightarrow> strip_prefix (rev p) (rev s) = Some (rev r)"
    by (auto simp: strip_suffix_def)
  also have "\<dots> \<longleftrightarrow> rev s = rev p @ rev r"
    by (rule strip_prefix_Some)
  also have "\<dots> \<longleftrightarrow> s = r @ p"
    by (metis rev_append rev_rev_ident)
  finally show ?thesis .
qed

lemma strip_suffix_append [simp]: "strip_suffix p (r @ p) = Some r"
  by (simp add: strip_suffix_Some)

lemma strip_suffix_None: "strip_suffix p s = None \<longleftrightarrow> \<not> (\<exists>r. s = r @ p)"
  by (cases "strip_suffix p s") (auto simp: strip_suffix_Some)

lemma ends_with_iff: "ends_with p s \<longleftrightarrow> (\<exists>r. s = r @ p)"
  unfolding ends_with_def by (cases "strip_suffix p s") (auto simp: strip_suffix_Some)

lemma ends_with_append [simp]: "ends_with p (r @ p)"
  by (auto simp: ends_with_iff)

lemma trim_end_by_decomp:
  "\<exists>t. s = trim_end_by p s @ t \<and> (\<forall>x \<in> set t. p x)"
proof -
  have "rev s = takeWhile p (rev s) @ dropWhile p (rev s)" by simp
  then have "s = rev (dropWhile p (rev s)) @ rev (takeWhile p (rev s))"
    by (metis rev_append rev_rev_ident)
  then show ?thesis
    unfolding trim_end_by_def by (metis set_rev set_takeWhileD)
qed

lemma trim_end_by_last: "trim_end_by p s \<noteq> [] \<Longrightarrow> \<not> p (last (trim_end_by p s))"
  by (simp add: trim_end_by_def last_rev hd_dropWhile)

lemma trim_end_by_id: "s = [] \<or> \<not> p (last s) \<Longrightarrow> trim_end_by p s = s"
  by (cases s rule: rev_cases) (auto simp: trim_end_by_def)

lemma trim_end_by_idem [simp]: "trim_end_by p (trim_end_by p s) = trim_end_by p s"
  using trim_end_by_id [of "trim_end_by p s" p] trim_end_by_last [of p s] by blast

lemma trim_Cons: "\<not> is_ws c \<Longrightarrow> \<exists>r. trim (c # s) = c # r"
proof -
  assume "\<not> is_ws c"
  moreover obtain t where t: "c # s = trim_end_by is_ws (c # s) @ t" "\<forall>x \<in> set t. is_ws x"
    using trim_end_by_decomp [of "c # s" is_ws] by blast
  ultimately show ?thesis
    by (cases "trim_end_by is_ws (c # s)") (auto simp: trim_def)
qed

lemma trim_word: "s \<noteq> [] \<Longrightarrow> \<not> is_ws (hd s) \<Longrightarrow> \<not> is_ws (last s) \<Longrightarrow> trim s = s"
  by (cases s) (simp_all add: trim_def trim_end_by_id)

lemma trim_end_matches_dot [simp]: "trim_end_matches c (s @ [c]) = trim_end_matches c s"
  by (simp add: trim_end_matches_def trim_end_by_def)

lemma char_of_letters [str_defs]:
  "char_of (97::nat) = CHR ''a''" "char_of (98::nat) = CHR ''b''" "char_of (99::nat) = CHR ''c''" "char_of (100::nat) = CHR ''d''"
  "char_of (101::nat) = CHR ''e''" "char_of (102::nat) = CHR ''f''" "char_of (103::nat) = CHR ''g''" "char_of (104::nat) = CHR ''h''"
  "char_of (105::nat) = CHR ''i''" "char_of (106::nat) = CHR ''j''" "char_of (107::nat) = CHR ''k''" "char_of (108::nat) = CHR ''l''"
  "char_of (109::nat) = CHR ''m''" "char_of (110::nat) = CHR ''n''" "char_of (111::nat) = CHR ''o''" "char_of (112::nat) = CHR ''p''"
  "char_of (113::nat) = CHR ''q''" "char_of (114::nat) = CHR ''r''" "char_of (115::nat) = CHR ''s''" "char_of (116::nat) = CHR ''t''"
  "char_of (117::nat) = CHR ''u''" "char_of (118::nat) = CHR ''v''" "char_of (119::nat) = CHR ''w''" "char_of (120::nat) = CHR ''x''"
  "char_of (121::nat) = CHR ''y''" "char_of (122::nat) = CHR ''z''"
  by code_simp+

lemma lower_char_idem [simp]: "lower_char (lower_char c) = lower_char c"
proof -
  have "(of_char c :: nat) < 256" by simp
  then show ?thesis
    by (simp add: lower_char_def)
qed

lemma to_ascii_lowercase_idem [simp]:
  "to_ascii_lowercase (to_ascii_lowercase s) = to_ascii_lowercase s"
  by (simp add: to_ascii_lowercase_def)

lemma to_ascii_lowercase_append [simp]:
  "to_ascii_lowercase (s @ t) = to_ascii_lowercase s @ to_ascii_lowercase t"
  by (simp add: to_ascii_lowercase_def)

lemma to_ascii_lowercase_Nil [simp]: "to_ascii_lowercase [] = []"
  by (simp add: to_ascii_lowercase_def)

lemma length_to_ascii_lowercase [simp]: "length (to_ascii_lowercase s) = length s"
  by (simp add: to_ascii_lowercase_def)

end
