(* ===== verification/Text.thy ===== *)
theory Text
  imports Prelude
begin

text \<open>
  The splitting, searching and number operations of Rust's \<open>str\<close> that the sources call:
  \<open>split\<close>, \<open>split_once\<close>, \<open>rsplit_once\<close>, \<open>lines\<close>, \<open>split_whitespace\<close>, \<open>contains\<close>, \<open>join\<close>,
  the \<open>Display\<close> of unsigned integers and \<open>parse::<uN>()\<close>, with the laws the component
  proofs use.
\<close>

section \<open>Splitting and joining\<close>

fun split_by :: "(char \<Rightarrow> bool) \<Rightarrow> string \<Rightarrow> string list" where
  "split_by p [] = [[]]"
| "split_by p (x # xs) =
     (if p x then [] # split_by p xs
      else (case split_by p xs of [] \<Rightarrow> [[x]] | w # ws \<Rightarrow> (x # w) # ws))"

definition split_on :: "char \<Rightarrow> string \<Rightarrow> string list" where
  "split_on c s = split_by (\<lambda>d. d = c) s"

definition split_whitespace :: "string \<Rightarrow> string list" where
  "split_whitespace s = filter (\<lambda>w. w \<noteq> []) (split_by is_ws s)"

fun str_join :: "string \<Rightarrow> string list \<Rightarrow> string" where
  "str_join sep [] = []"
| "str_join sep [x] = x"
| "str_join sep (x # y # ys) = x @ sep @ str_join sep (y # ys)"

fun split_once :: "char \<Rightarrow> string \<Rightarrow> (string \<times> string) option" where
  "split_once c [] = None"
| "split_once c (x # xs) =
     (if x = c then Some ([], xs) else map_option (\<lambda>(a, b). (x # a, b)) (split_once c xs))"

definition rsplit_once :: "char \<Rightarrow> string \<Rightarrow> (string \<times> string) option" where
  "rsplit_once c s = map_option (\<lambda>(a, b). (rev b, rev a)) (split_once c (rev s))"

definition strip_cr :: "string \<Rightarrow> string" where
  "strip_cr l = (case strip_suffix [CHR 0x0D] l of Some r \<Rightarrow> r | None \<Rightarrow> l)"

text \<open>
  \<open>str::lines\<close>: every line but an unterminated last one loses its newline and then one
  carriage return; no empty line follows a final newline.
\<close>

definition str_lines :: "string \<Rightarrow> string list" where
  "str_lines s = (let parts = split_on (CHR 0x0A) s in
     map strip_cr (butlast parts) @ (if last parts = [] then [] else [last parts]))"

fun str_contains :: "string \<Rightarrow> string \<Rightarrow> bool" where
  "str_contains p [] = (p = [])"
| "str_contains p (x # xs) = (starts_with p (x # xs) \<or> str_contains p xs)"

lemmas [str_defs] = split_on_def split_whitespace_def rsplit_once_def strip_cr_def str_lines_def

lemma split_by_not_Nil [simp]: "split_by p s \<noteq> []"
  by (cases s) (auto split: list.splits)

lemma split_on_not_Nil [simp]: "split_on c s \<noteq> []"
  by (simp add: split_on_def)

lemma split_by_none: "\<forall>x \<in> set s. \<not> p x \<Longrightarrow> split_by p s = [s]"
  by (induction s) auto

lemma split_by_append:
  "p x \<Longrightarrow> split_by p (a @ x # b) = split_by p a @ split_by p b"
  by (induction a) (auto split: list.splits)

lemma split_on_none: "c \<notin> set s \<Longrightarrow> split_on c s = [s]"
  unfolding split_on_def by (rule split_by_none) auto

lemma split_on_append: "split_on c (a @ c # b) = split_on c a @ split_on c b"
  unfolding split_on_def by (rule split_by_append) simp

lemma split_on_Cons_sep: "c \<notin> set a \<Longrightarrow> split_on c (a @ c # b) = a # split_on c b"
  by (simp add: split_on_append split_on_none)

lemma split_by_parts: "w \<in> set (split_by p s) \<Longrightarrow> x \<in> set w \<Longrightarrow> \<not> p x \<and> x \<in> set s"
proof (induction s arbitrary: w)
  case (Cons y s)
  obtain v vs where v: "split_by p s = v # vs" by (cases "split_by p s") auto
  then have "\<forall>u \<in> set (v # vs). x \<in> set u \<longrightarrow> \<not> p x \<and> x \<in> set s"
    using Cons.IH by simp
  with Cons.prems v show ?case by (auto split: if_splits)
qed simp

lemma split_on_parts: "w \<in> set (split_on c s) \<Longrightarrow> c \<notin> set w"
  unfolding split_on_def using split_by_parts by blast

lemma length_split_on: "length (split_on c s) = Suc (count_list s c)"
  unfolding split_on_def by (induction s) (auto split: list.splits)

lemma str_join_Cons: "xs \<noteq> [] \<Longrightarrow> str_join sep (x # xs) = x @ sep @ str_join sep xs"
  by (cases xs) auto

lemma str_join_append:
  "xs \<noteq> [] \<Longrightarrow> ys \<noteq> [] \<Longrightarrow> str_join sep (xs @ ys) = str_join sep xs @ sep @ str_join sep ys"
proof (induction xs)
  case (Cons x xs)
  then show ?case by (cases "xs = []") (auto simp: str_join_Cons)
qed simp

lemma join_split_on [simp]: "str_join [c] (split_on c s) = s"
proof (induction s)
  case (Cons x s)
  show ?case
  proof (cases "x = c")
    case True
    with Cons show ?thesis by (simp add: split_on_def str_join_Cons)
  next
    case False
    obtain w ws where w: "split_on c s = w # ws" by (cases "split_on c s") auto
    with False have "split_on c (x # s) = (x # w) # ws" by (simp add: split_on_def)
    with Cons w show ?thesis by (cases ws) auto
  qed
qed (simp add: split_on_def)

lemma split_on_join:
  "ws \<noteq> [] \<Longrightarrow> \<forall>w \<in> set ws. c \<notin> set w \<Longrightarrow> split_on c (str_join [c] ws) = ws"
proof (induction ws)
  case (Cons w ws)
  then show ?case
    by (cases "ws = []") (auto simp: split_on_none str_join_Cons split_on_Cons_sep)
qed simp

lemma split_on_inj: "split_on c s = split_on c t \<Longrightarrow> s = t"
  by (metis join_split_on)

lemma split_once_Some:
  "split_once c s = Some (a, b) \<longleftrightarrow> s = a @ c # b \<and> c \<notin> set a"
proof (induction s arbitrary: a)
  case (Cons x s)
  then show ?case by (cases a) auto
qed simp

lemma split_once_None: "split_once c s = None \<longleftrightarrow> c \<notin> set s"
  by (induction s) auto

lemma rsplit_once_Some:
  "rsplit_once c s = Some (a, b) \<longleftrightarrow> s = a @ c # b \<and> c \<notin> set b"
proof -
  have "rsplit_once c s = Some (a, b) \<longleftrightarrow> split_once c (rev s) = Some (rev b, rev a)"
    by (auto simp: rsplit_once_def)
  also have "\<dots> \<longleftrightarrow> rev s = rev b @ c # rev a \<and> c \<notin> set b"
    by (simp add: split_once_Some)
  also have "rev s = rev b @ c # rev a \<longleftrightarrow> s = a @ c # b"
    by (metis append_assoc append_Cons append_Nil rev.simps(2) rev_append rev_rev_ident)
  finally show ?thesis .
qed

lemma rsplit_once_None: "rsplit_once c s = None \<longleftrightarrow> c \<notin> set s"
  by (auto simp: rsplit_once_def split_once_None)

lemma last_split_on: "c \<notin> set b \<Longrightarrow> last (split_on c (a @ c # b)) = b"
  by (simp add: split_on_append split_on_none)

section \<open>Lines and words\<close>

abbreviation nl :: char where "nl \<equiv> CHR 0x0A"

lemma strip_cr_id: "CHR 0x0D \<notin> set l \<Longrightarrow> strip_cr l = l"
  by (auto simp: strip_cr_def strip_suffix_Some split: option.splits)

lemma strip_cr_set: "x \<in> set (strip_cr l) \<Longrightarrow> x \<in> set l"
  by (auto simp: strip_cr_def strip_suffix_Some split: option.splits)

lemma str_lines_Nil [simp]: "str_lines [] = []"
  by (simp add: str_lines_def split_on_def)

lemma str_lines_line:
  "nl \<notin> set l \<Longrightarrow> str_lines (l @ nl # s) = strip_cr l # str_lines s"
  by (simp add: str_lines_def split_on_Cons_sep Let_def)

lemma str_lines_last: "nl \<notin> set l \<Longrightarrow> l \<noteq> [] \<Longrightarrow> str_lines l = [l]"
  by (simp add: str_lines_def split_on_none Let_def)

lemma str_lines_no_nl: "l \<in> set (str_lines s) \<Longrightarrow> nl \<notin> set l"
proof -
  assume "l \<in> set (str_lines s)"
  then consider w where "w \<in> set (split_on nl s)" "l = strip_cr w" | "l \<in> set (split_on nl s)"
    by (auto simp: str_lines_def Let_def split: if_splits dest: in_set_butlastD)
  then show ?thesis
    by cases (auto dest: split_on_parts strip_cr_set)
qed

definition unlines :: "string list \<Rightarrow> string" where
  "unlines ls = concat (map (\<lambda>l. l @ [nl]) ls)"

lemma unlines_Nil [simp]: "unlines [] = []"
  by (simp add: unlines_def)

lemma unlines_append [simp]: "unlines (xs @ ys) = unlines xs @ unlines ys"
  by (simp add: unlines_def)

lemma unlines_single: "unlines [l] = l @ [nl]"
  by (simp add: unlines_def)

definition plain_line :: "string \<Rightarrow> bool" where
  "plain_line l \<longleftrightarrow> nl \<notin> set l \<and> (l = [] \<or> last l \<noteq> CHR 0x0D)"

lemma strip_cr_plain: "plain_line l \<Longrightarrow> strip_cr l = l"
  by (auto simp: strip_cr_def plain_line_def strip_suffix_Some split: option.splits)

lemma str_lines_unlines: "\<forall>l \<in> set ls. plain_line l \<Longrightarrow> str_lines (unlines ls) = ls"
proof (induction ls)
  case (Cons l ls)
  then have "str_lines (l @ nl # unlines ls) = strip_cr l # str_lines (unlines ls)"
    by (intro str_lines_line) (simp add: plain_line_def)
  with Cons show ?case by (simp add: unlines_def strip_cr_plain)
qed simp

lemma str_join_nl: "ls \<noteq> [] \<Longrightarrow> str_join [nl] ls @ [nl] = unlines ls"
proof (induction ls)
  case (Cons l ls)
  then show ?case by (cases "ls = []") (auto simp: unlines_def str_join_Cons)
qed simp

lemma split_whitespace_parts:
  "w \<in> set (split_whitespace s) \<Longrightarrow> w \<noteq> [] \<and> (\<forall>x \<in> set w. \<not> is_ws x \<and> x \<in> set s)"
  unfolding split_whitespace_def using split_by_parts by fastforce

lemma split_whitespace_word:
  assumes "w \<noteq> []" "\<forall>x \<in> set w. \<not> is_ws x" "is_ws c"
  shows "split_whitespace (w @ c # s) = w # split_whitespace s"
  using assms by (simp add: split_whitespace_def split_by_append split_by_none)

lemma split_whitespace_only:
  assumes "w \<noteq> []" "\<forall>x \<in> set w. \<not> is_ws x"
  shows "split_whitespace w = [w]"
  using assms by (simp add: split_whitespace_def split_by_none)

lemma split_whitespace_skip [simp]: "is_ws c \<Longrightarrow> split_whitespace (c # s) = split_whitespace s"
  by (simp add: split_whitespace_def)

section \<open>Searching\<close>

lemma str_contains_iff: "str_contains p s \<longleftrightarrow> (\<exists>a b. s = a @ p @ b)"
proof (induction s)
  case (Cons x s)
  have "str_contains p (x # s) \<longleftrightarrow> (\<exists>b. x # s = p @ b) \<or> (\<exists>a b. s = a @ p @ b)"
    by (simp add: Cons starts_with_iff)
  also have "\<dots> \<longleftrightarrow> (\<exists>a b. x # s = a @ p @ b)"
    by (metis append_Cons append_Nil list.exhaust list.inject)
  finally show ?case .
qed simp

lemma str_contains_append: "str_contains p (a @ p @ b)"
  by (auto simp: str_contains_iff)

end
