(* ===== verification/Numbers.thy ===== *)
theory Numbers
  imports Text
begin

text \<open>
  Printing and parsing of unsigned integers as Rust does it (\<open>to_string\<close>, \<open>{:x}\<close>,
  \<open>parse::<uN>()\<close>), with the round trip, and the big-endian reading of digit lists.
\<close>

section \<open>Printing\<close>

definition digit_char :: "nat \<Rightarrow> char" where
  "digit_char n = char_of (48 + n)"

definition hex_char :: "nat \<Rightarrow> char" where
  "hex_char n = (if n < 10 then char_of (48 + n) else char_of (87 + n))"

fun show_nat :: "nat \<Rightarrow> string" where
  "show_nat n = (if n < 10 then [digit_char n] else show_nat (n div 10) @ [digit_char (n mod 10)])"

fun show_hex :: "nat \<Rightarrow> string" where
  "show_hex n = (if n < 16 then [hex_char n] else show_hex (n div 16) @ [hex_char (n mod 16)])"

declare show_nat.simps [simp del] show_hex.simps [simp del]

section \<open>Big-endian digit values\<close>

definition horner :: "nat \<Rightarrow> nat list \<Rightarrow> nat" where
  "horner b ds = foldl (\<lambda>acc d. acc * b + d) 0 ds"

lemma horner_Nil [simp]: "horner b [] = 0"
  by (simp add: horner_def)

lemma horner_snoc [simp]: "horner b (ds @ [d]) = horner b ds * b + d"
  by (simp add: horner_def)

lemma horner_inj:
  assumes "length xs = length ys" "\<forall>x \<in> set xs. x < b" "\<forall>y \<in> set ys. y < b"
    and "horner b xs = horner b ys"
  shows "xs = ys"
  using assms
proof (induction xs arbitrary: ys rule: rev_induct)
  case (snoc x xs)
  from snoc.prems(1) obtain zs z where ys: "ys = zs @ [z]"
    by (cases ys rule: rev_cases) auto
  from snoc.prems ys have eq: "horner b xs * b + x = horner b zs * b + z" and "x < b" "z < b"
    by auto
  from eq \<open>x < b\<close> \<open>z < b\<close> have "x = z"
    by (metis mod_less mod_mult_self3)
  with eq \<open>x < b\<close> have "horner b xs = horner b zs" by auto
  with snoc ys \<open>x = z\<close> show ?case by auto
qed simp

lemma horner_less: "\<forall>d \<in> set ds. d < b \<Longrightarrow> horner b ds < b ^ length ds"
proof (induction ds rule: rev_induct)
  case (snoc d ds)
  then have "Suc (horner b ds) \<le> b ^ length ds" and "d < b" by auto
  then have "horner b ds * b + d < Suc (horner b ds) * b" by simp
  also have "\<dots> \<le> b ^ length ds * b"
    using \<open>Suc (horner b ds) \<le> b ^ length ds\<close> by (rule mult_le_mono1)
  finally show ?case by (simp add: mult.commute)
qed simp

section \<open>Parsing\<close>

fun digits_of :: "(char \<Rightarrow> nat option) \<Rightarrow> string \<Rightarrow> nat list option" where
  "digits_of f [] = Some []"
| "digits_of f (c # cs) =
     (case f c of None \<Rightarrow> None | Some d \<Rightarrow> map_option ((#) d) (digits_of f cs))"

text \<open>
  \<open>s.parse::<uN>()\<close>, with \<open>None\<close> for every error: one optional leading \<open>+\<close>, at least one
  decimal digit, leading zeros allowed, and a value below the bound \<open>2 ^ N\<close>.
\<close>

definition parse_uint :: "nat \<Rightarrow> string \<Rightarrow> nat option" where
  "parse_uint bound s =
     (let t = (if s \<noteq> [] \<and> hd s = CHR ''+'' then tl s else s) in
      if t = [] then None
      else (case digits_of digit_val t of
              None \<Rightarrow> None
            | Some ds \<Rightarrow> if horner 10 ds < bound then Some (horner 10 ds) else None))"

abbreviation parse_u8 :: "string \<Rightarrow> nat option" where "parse_u8 \<equiv> parse_uint 256"
abbreviation parse_u16 :: "string \<Rightarrow> nat option" where "parse_u16 \<equiv> parse_uint 65536"
abbreviation parse_u32 :: "string \<Rightarrow> nat option" where "parse_u32 \<equiv> parse_uint 4294967296"

lemma digits_of_append:
  "digits_of f (s @ t) =
     (case digits_of f s of None \<Rightarrow> None | Some ds \<Rightarrow> map_option ((@) ds) (digits_of f t))"
  by (induction s; cases "digits_of f t") (auto split: option.splits)

lemma digit_val_digit_char [simp]: "n < 10 \<Longrightarrow> digit_val (digit_char n) = Some n"
  by (simp add: digit_val_def digit_char_def Let_def)

lemma hex_val_hex_char [simp]: "n < 16 \<Longrightarrow> hex_val (hex_char n) = Some n"
  by (auto simp: hex_val_def hex_char_def Let_def)

lemma show_nat_less: "n < 10 \<Longrightarrow> show_nat n = [digit_char n]"
  by (subst show_nat.simps) simp

lemma show_nat_step: "10 \<le> n \<Longrightarrow> show_nat n = show_nat (n div 10) @ [digit_char (n mod 10)]"
  by (subst show_nat.simps) simp

lemma show_nat_not_Nil [simp]: "show_nat n \<noteq> []"
  by (subst show_nat.simps) simp

lemma show_hex_not_Nil [simp]: "show_hex n \<noteq> []"
  by (subst show_hex.simps) simp

lemma show_nat_digits: "\<exists>ds. digits_of digit_val (show_nat n) = Some ds \<and> horner 10 ds = n"
proof (induction n rule: show_nat.induct)
  case (1 n)
  show ?case
  proof (cases "n < 10")
    case True
    then show ?thesis by (simp add: show_nat_less horner_def)
  next
    case False
    with 1 obtain ds where "digits_of digit_val (show_nat (n div 10)) = Some ds" "horner 10 ds = n div 10"
      by auto
    then have "digits_of digit_val (show_nat n) = Some (ds @ [n mod 10])"
      using False by (simp add: show_nat_step digits_of_append)
    then show ?thesis
      using \<open>horner 10 ds = n div 10\<close> by (simp only: horner_snoc option.inject) auto
  qed
qed

lemma digits_of_digit: "digits_of f s = Some ds \<Longrightarrow> c \<in> set s \<Longrightarrow> \<exists>d. f c = Some d"
  by (induction s arbitrary: ds) (auto split: option.splits)

lemma show_nat_set: "c \<in> set (show_nat n) \<Longrightarrow> is_ascii_digit c"
  using show_nat_digits [of n] digits_of_digit [of digit_val "show_nat n" _ c]
  by (auto simp: is_ascii_digit_def)

lemma show_nat_no:
  assumes "\<not> is_ascii_digit c" shows "c \<notin> set (show_nat n)"
  using assms show_nat_set by blast

lemma plus_not_digit: "\<not> is_ascii_digit (CHR ''+'')"
  by (simp add: str_defs)

text \<open>The round trip: what \<open>to_string\<close> prints, \<open>parse\<close> reads back.\<close>

lemma parse_uint_show_nat: "n < b \<Longrightarrow> parse_uint b (show_nat n) = Some n"
proof -
  assume n: "n < b"
  obtain ds where ds: "digits_of digit_val (show_nat n) = Some ds" "horner 10 ds = n"
    using show_nat_digits by blast
  have "CHR ''+'' \<notin> set (show_nat n)" by (rule show_nat_no) (rule plus_not_digit)
  moreover have "hd (show_nat n) \<in> set (show_nat n)" by simp
  ultimately have "hd (show_nat n) \<noteq> CHR ''+''" by metis
  then have "(if show_nat n \<noteq> [] \<and> hd (show_nat n) = CHR ''+'' then tl (show_nat n) else show_nat n)
    = show_nat n" by presburger
  with n ds show ?thesis by (simp add: parse_uint_def del: char_of_eq_iff)
qed

lemma parse_uint_bound: "parse_uint b s = Some n \<Longrightarrow> n < b"
  by (auto simp: parse_uint_def Let_def split: option.splits if_splits)

lemma show_nat_inj: "show_nat m = show_nat n \<Longrightarrow> m = n"
  by (metis option.inject show_nat_digits)

lemma length_show_nat: "n < 10 ^ Suc k \<Longrightarrow> length (show_nat n) \<le> Suc k"
proof (induction k arbitrary: n)
  case 0
  then show ?case by (simp add: show_nat_less)
next
  case (Suc k)
  show ?case
  proof (cases "n < 10")
    case False
    have "n div 10 < 10 ^ Suc k" using Suc.prems by (simp add: less_mult_imp_div_less)
    then have "length (show_nat (n div 10)) \<le> Suc k" by (rule Suc.IH)
    with False show ?thesis by (simp add: show_nat_step)
  qed (simp add: show_nat_less)
qed

lemma hd_show_nat: "0 < n \<Longrightarrow> hd (show_nat n) \<noteq> CHR ''0''"
proof (induction n rule: show_nat.induct)
  case (1 n)
  show ?case
  proof (cases "n < 10")
    case True
    with 1 have "digit_val (digit_char n) = Some n" "0 < n" by auto
    moreover have "digit_val (CHR ''0'') = Some 0" by (simp add: str_defs)
    ultimately have "digit_char n \<noteq> CHR ''0''" by force
    with True show ?thesis by (simp add: show_nat_less)
  next
    case False
    with 1 show ?thesis by (simp add: show_nat_step)
  qed
qed

lemma digit_char_eval:
  "digit_char 0 = CHR ''0''" "digit_char 1 = CHR ''1''" "digit_char (Suc 0) = CHR ''1''" "digit_char 2 = CHR ''2''"
  "digit_char 3 = CHR ''3''" "digit_char 4 = CHR ''4''" "digit_char 5 = CHR ''5''" "digit_char 6 = CHR ''6''"
  "digit_char 7 = CHR ''7''" "digit_char 8 = CHR ''8''" "digit_char 9 = CHR ''9''"
  by code_simp+

lemmas show_nat_eval = show_nat_step show_nat_less digit_char_eval

section \<open>Debug of a string\<close>

definition escape_debug :: "char \<Rightarrow> string" where
  "escape_debug c =
     (if c = CHR 0x22 \<or> c = CHR 0x5C then [CHR 0x5C, c]
      else if c = CHR 0x09 then [CHR 0x5C, CHR ''t'']
      else if c = CHR 0x0A then [CHR 0x5C, CHR ''n'']
      else if c = CHR 0x0D then [CHR 0x5C, CHR ''r'']
      else if c = CHR 0x00 then [CHR 0x5C, CHR ''0'']
      else if (of_char c :: nat) < 32 \<or> c = CHR 0x7F
        then [CHR 0x5C, CHR ''u'', CHR 0x7B] @ show_hex (of_char c) @ [CHR 0x7D]
      else [c])"

definition debug_str :: "string \<Rightarrow> string" where
  "debug_str s = [CHR 0x22] @ concat (map escape_debug s) @ [CHR 0x22]"

end
