(* ===== verification/Policy.thy ===== *)
theory Policy
  imports Numbers
begin

text \<open>
  \<open>crates/dns-core/src/policy.rs\<close>: where one query goes. A DNS name (\<open>hickory_proto::rr::Name\<close>)
  is a value of a type parameter \<open>'n\<close>; the only operation the code uses of it here,
  \<open>Name::to_ascii\<close>, is the argument \<open>to_ascii\<close> of the definitions that use it.
\<close>

section \<open>The code\<close>

datatype route = Doh | SystemUpstream

definition LOCAL_SUFFIXES :: "string list" where
  "LOCAL_SUFFIXES =
     [''local'', ''lan'', ''home'', ''home.arpa'', ''internal'', ''intranet'', ''localdomain'',
      ''localhost'']"

record policy =
  default_doh :: bool
  force_doh :: "string list"
  force_local :: "string list"

definition policy_default :: policy where
  "policy_default = \<lparr>default_doh = True, force_doh = [], force_local = []\<rparr>"

definition normalise_str :: "string \<Rightarrow> string" where
  "normalise_str s = to_ascii_lowercase (trim_end_matches (CHR ''.'') s)"

definition normalise :: "('n \<Rightarrow> string) \<Rightarrow> 'n \<Rightarrow> string" where
  "normalise to_ascii name = normalise_str (to_ascii name)"

definition suffix_matches :: "string \<Rightarrow> string \<Rightarrow> bool" where
  "suffix_matches name suffix0 =
     (let sfx = normalise_str suffix0 in
      if sfx = [] then False
      else (case strip_prefix ''*.'' sfx of
        Some stripped \<Rightarrow>
          length stripped < length name \<and> ends_with stripped name \<and>
          name ! (length name - length stripped - 1) = CHR ''.''
      | None \<Rightarrow>
          name = sfx \<or>
          (length sfx < length name \<and> ends_with sfx name \<and>
           name ! (length name - length sfx - 1) = CHR ''.'')))"

definition is_private_v4_octets :: "string list \<Rightarrow> bool" where
  "is_private_v4_octets octets =
     (case rev octets of
        a # b # _ \<Rightarrow>
          (let pa = parse_u8 a; pb = parse_u8 b in
           if pa = Some 10 then True
           else if pa = Some 192 \<and> pb = Some 168 then True
           else if pa = Some 172 \<and> (case pb of Some n \<Rightarrow> 16 \<le> n \<and> n \<le> 31 | None \<Rightarrow> False) then True
           else if pa = Some 127 then True
           else if pa = Some 169 \<and> pb = Some 254 then True
           else False)
      | [a] \<Rightarrow> parse_u8 a = Some 10 \<or> parse_u8 a = Some 127
      | [] \<Rightarrow> False)"

text \<open>\<open>str::trim_end_matches\<close> with a string pattern: every trailing copy is removed.\<close>

function trim_end_matches_str :: "string \<Rightarrow> string \<Rightarrow> string" where
  "trim_end_matches_str p s =
     (if p = [] then s
      else (case strip_suffix p s of Some r \<Rightarrow> trim_end_matches_str p r | None \<Rightarrow> s))"
  by pat_completeness auto
termination
  by (relation "measure (\<lambda>(p, s). length s)") (auto simp: strip_suffix_Some)

declare trim_end_matches_str.simps [simp del]

definition is_private_reverse :: "string \<Rightarrow> bool" where
  "is_private_reverse name =
     (case strip_suffix ''.in-addr.arpa'' name of
        Some rest \<Rightarrow> is_private_v4_octets (split_on (CHR ''.'') rest)
      | None \<Rightarrow>
          if ends_with ''.ip6.arpa'' name then
            (case rev (split_on (CHR ''.'') (trim_end_matches_str ''.ip6.arpa'' name)) of
               d # c # _ \<Rightarrow>
                 (let prefix = d @ c in
                  starts_with ''fc'' prefix \<or> starts_with ''fd'' prefix \<or>
                  starts_with ''fe8'' prefix \<or> starts_with ''fe9'' prefix \<or>
                  starts_with ''fea'' prefix \<or> starts_with ''feb'' prefix)
             | _ \<Rightarrow> False)
          else False)"

definition is_builtin_local :: "string \<Rightarrow> bool" where
  "is_builtin_local name =
     (if list_ex (suffix_matches name) LOCAL_SUFFIXES then True
      else if CHR ''.'' \<notin> set name then True
      else is_private_reverse name)"

definition policy_route :: "('n \<Rightarrow> string) \<Rightarrow> policy \<Rightarrow> 'n \<Rightarrow> route" where
  "policy_route to_ascii p name =
     (let labels = normalise to_ascii name in
      if list_ex (suffix_matches labels) (force_local p) then SystemUpstream
      else if is_builtin_local labels then SystemUpstream
      else if list_ex (suffix_matches labels) (force_doh p) then Doh
      else if default_doh p then Doh
      else SystemUpstream)"

definition set_force_doh :: "policy \<Rightarrow> string list \<Rightarrow> policy" where
  "set_force_doh p domains = p\<lparr>force_doh := map normalise_str domains\<rparr>"

section \<open>Normal forms\<close>

lemma lower_char_dot: "lower_char c = CHR ''.'' \<longleftrightarrow> c = CHR ''.''"
proof (cases "65 \<le> (of_char c :: nat) \<and> (of_char c :: nat) \<le> 90")
  case True
  then have "of_char (lower_char c) = (of_char c + 32 :: nat)" by (simp add: lower_char_def)
  then have "lower_char c \<noteq> CHR ''.''" using True by auto
  moreover have "c \<noteq> CHR ''.''" using True by auto
  ultimately show ?thesis by simp
qed (auto simp: lower_char_def)

lemma normalise_str_last: "normalise_str s \<noteq> [] \<Longrightarrow> last (normalise_str s) \<noteq> CHR ''.''"
proof -
  assume ne: "normalise_str s \<noteq> []"
  then have ne': "trim_end_matches (CHR ''.'') s \<noteq> []"
    by (auto simp: normalise_str_def)
  then have "last (normalise_str s) = lower_char (last (trim_end_matches (CHR ''.'') s))"
    by (simp add: normalise_str_def to_ascii_lowercase_def last_map)
  with ne' show ?thesis
    using trim_end_by_last [of "\<lambda>d. d = CHR ''.''" s]
    by (simp add: trim_end_matches_def lower_char_dot)
qed

lemma normalise_str_idem [simp]: "normalise_str (normalise_str s) = normalise_str s"
proof -
  have "trim_end_matches (CHR ''.'') (normalise_str s) = normalise_str s"
    unfolding trim_end_matches_def
    by (rule trim_end_by_id) (use normalise_str_last [of s] in blast)
  then show ?thesis by (simp add: normalise_str_def [of "normalise_str s"]) (simp add: normalise_str_def)
qed

lemma suffix_matches_normalised [simp]:
  "suffix_matches name (normalise_str s) = suffix_matches name s"
  by (simp add: suffix_matches_def)

section \<open>Label semantics of suffix matching\<close>

abbreviation labels :: "string \<Rightarrow> string list" where
  "labels s \<equiv> split_on (CHR ''.'') s"

lemma boundary_iff:
  "(length t < length n \<and> ends_with t n \<and> n ! (length n - length t - 1) = CHR ''.'') \<longleftrightarrow>
   (\<exists>a. n = a @ CHR ''.'' # t)"
proof
  assume L: "length t < length n \<and> ends_with t n \<and> n ! (length n - length t - 1) = CHR ''.''"
  then obtain r where r: "n = r @ t" by (auto simp: ends_with_iff)
  with L obtain a x where "r = a @ [x]" by (cases r rule: rev_cases) auto
  with L r have "n = a @ CHR ''.'' # t" by (simp add: nth_append)
  then show "\<exists>a. n = a @ CHR ''.'' # t" ..
qed (auto simp: ends_with_iff nth_append intro: exI [of _ "_ @ [CHR ''.'']"])

lemma label_suffix_iff:
  "(\<exists>ws. ws \<noteq> [] \<and> labels n = ws @ labels t) \<longleftrightarrow> (\<exists>a. n = a @ CHR ''.'' # t)"
proof
  assume "\<exists>ws. ws \<noteq> [] \<and> labels n = ws @ labels t"
  then obtain ws where ws: "ws \<noteq> []" "labels n = ws @ labels t" by blast
  then have "n = str_join ''.'' (ws @ labels t)" by (metis join_split_on)
  also have "\<dots> = str_join ''.'' ws @ CHR ''.'' # t" using ws(1) by (simp add: str_join_append)
  finally show "\<exists>a. n = a @ CHR ''.'' # t" ..
next
  assume "\<exists>a. n = a @ CHR ''.'' # t"
  then obtain a where "labels n = labels a @ labels t" by (auto simp: split_on_append)
  then show "\<exists>ws. ws \<noteq> [] \<and> labels n = ws @ labels t" by (intro exI [of _ "labels a"]) simp
qed

text \<open>A rule \<open>sfx\<close>, read as labels: a plain rule matches when its labels end the name's.\<close>

lemma suffix_matches_plain:
  assumes "normalise_str sfx \<noteq> []" "\<not> starts_with ''*.'' (normalise_str sfx)"
  shows "suffix_matches name sfx \<longleftrightarrow> suffix (labels (normalise_str sfx)) (labels name)"
proof -
  from assms(2) have "strip_prefix ''*.'' (normalise_str sfx) = None"
    by (simp add: starts_with_def)
  then have "suffix_matches name sfx \<longleftrightarrow>
      name = normalise_str sfx \<or> (\<exists>a. name = a @ CHR ''.'' # normalise_str sfx)"
    using assms(1) boundary_iff [of "normalise_str sfx" name] by (simp add: suffix_matches_def Let_def)
  also have "\<dots> \<longleftrightarrow> labels name = labels (normalise_str sfx) \<or>
      (\<exists>ws. ws \<noteq> [] \<and> labels name = ws @ labels (normalise_str sfx))"
    unfolding label_suffix_iff using split_on_inj by metis
  also have "\<dots> \<longleftrightarrow> suffix (labels (normalise_str sfx)) (labels name)"
    by (auto simp: suffix_def)
  finally show ?thesis .
qed

lemma suffix_matches_wildcard:
  assumes "normalise_str sfx = ''*.'' @ t"
  shows "suffix_matches name sfx \<longleftrightarrow> strict_suffix (labels t) (labels name)"
proof -
  have "suffix_matches name sfx \<longleftrightarrow> (\<exists>a. name = a @ CHR ''.'' # t)"
    using assms boundary_iff [of t name] by (simp add: suffix_matches_def)
  also have "\<dots> \<longleftrightarrow> (\<exists>ws. ws \<noteq> [] \<and> labels name = ws @ labels t)"
    by (rule label_suffix_iff [symmetric])
  also have "\<dots> \<longleftrightarrow> strict_suffix (labels t) (labels name)"
    by (auto simp: strict_suffix_def suffix_def)
  finally show ?thesis .
qed

lemma local_suffix_plain:
  assumes "s \<in> set LOCAL_SUFFIXES"
  shows "normalise_str s = s \<and> s \<noteq> [] \<and> \<not> starts_with ''*.'' s"
proof -
  have "\<forall>s \<in> set LOCAL_SUFFIXES. normalise_str s = s \<and> s \<noteq> [] \<and> \<not> starts_with ''*.'' s"
    by (simp add: LOCAL_SUFFIXES_def normalise_str_def str_defs)
  with assms show ?thesis by blast
qed

lemma local_suffix_labels:
  "s \<in> set LOCAL_SUFFIXES \<Longrightarrow> suffix_matches name s \<longleftrightarrow> suffix (labels s) (labels name)"
  using local_suffix_plain [of s] suffix_matches_plain [of s name] by simp

lemma single_label: "CHR ''.'' \<notin> set name \<longleftrightarrow> length (labels name) = 1"
  by (simp add: length_split_on count_list_0_iff)

section \<open>Reverse zones\<close>

definition reverse_v4 :: "u8 \<Rightarrow> u8 \<Rightarrow> u8 \<Rightarrow> u8 \<Rightarrow> string" where
  "reverse_v4 a b c d =
     str_join ''.'' (map (\<lambda>x. show_nat (unat x)) [d, c, b, a]) @ ''.in-addr.arpa''"

definition private_v4 :: "u8 \<Rightarrow> u8 \<Rightarrow> bool" where
  "private_v4 a b \<longleftrightarrow>
     a = 10 \<or> a = 127 \<or> (a = 192 \<and> b = 168) \<or> (a = 169 \<and> b = 254) \<or>
     (a = 172 \<and> 16 \<le> b \<and> b \<le> 31)"

lemma labels_of_octets:
  "labels (str_join ''.'' (map (\<lambda>x. show_nat (unat x)) xs)) = map (\<lambda>x. show_nat (unat (x :: u8))) xs"
  if "xs \<noteq> []"
  using that show_nat_no [of "CHR ''.''"] by (intro split_on_join) (auto simp: str_defs)

lemma parse_u8_octet: "parse_u8 (show_nat (unat (x :: u8))) = Some (unat x)"
  by (simp add: parse_uint_show_nat)

lemma is_private_reverse_v4: "is_private_reverse (reverse_v4 a b c d) \<longleftrightarrow> private_v4 a b"
proof -
  have "is_private_reverse (reverse_v4 a b c d) \<longleftrightarrow>
      is_private_v4_octets (map (\<lambda>x. show_nat (unat x)) [d, c, b, a])"
    unfolding is_private_reverse_def reverse_v4_def
    by (simp only: strip_suffix_append option.case labels_of_octets [OF list.distinct(2)])
  also have "\<dots> \<longleftrightarrow> private_v4 a b"
    by (auto simp: is_private_v4_octets_def parse_u8_octet private_v4_def unat_u8_eq word_le_nat_alt)
  finally show ?thesis .
qed

text \<open>The reverse zone name of an IPv6 address: its 32 nibbles, last one first.\<close>

definition nibbles :: "u16 \<Rightarrow> nat list" where
  "nibbles g = [unat g div 4096, unat g div 256 mod 16, unat g div 16 mod 16, unat g mod 16]"

definition nibble_labels :: "u16 list \<Rightarrow> string list" where
  "nibble_labels gs = map (\<lambda>n. [hex_char n]) (rev (concat (map nibbles gs)))"

definition reverse_v6 :: "u16 list \<Rightarrow> string" where
  "reverse_v6 gs = str_join ''.'' (nibble_labels gs) @ ''.ip6.arpa''"

lemma hex_char_eq: "n < 16 \<Longrightarrow> hex_char n = c \<Longrightarrow> hex_val c = Some n"
  using hex_val_hex_char by blast

lemma nibbles_less: "n \<in> set (nibbles g) \<Longrightarrow> n < 16"
  using unat_u16_less [of g] by (auto simp: nibbles_def less_mult_imp_div_less)

lemma hex_char_plain: "n < 16 \<Longrightarrow> hex_char n \<noteq> CHR ''.'' \<and> lower_char (hex_char n) = hex_char n"
proof -
  assume n: "n < 16"
  have "\<forall>n \<in> set [0..<16]. hex_char n \<noteq> CHR ''.'' \<and> lower_char (hex_char n) = hex_char n"
    by code_simp
  with n show ?thesis by simp
qed

lemma nibble_labels_single:
  assumes "w \<in> set (nibble_labels gs)"
  shows "\<exists>n < 16. w = [hex_char n]"
proof -
  from assms obtain g n where "g \<in> set gs" "n \<in> set (nibbles g)" "w = [hex_char n]"
    by (auto simp: nibble_labels_def)
  then show ?thesis using nibbles_less by blast
qed

lemma nibble_labels_Cons:
  "nibble_labels (g # gs) = nibble_labels gs @ map (\<lambda>n. [hex_char n]) (rev (nibbles g))"
  by (simp add: nibble_labels_def)

lemma nibble_labels_not_Nil [simp]: "nibble_labels (g # gs) \<noteq> []"
  by (simp add: nibble_labels_Cons nibbles_def)

lemma labels_nibbles: "labels (str_join ''.'' (nibble_labels (g # gs))) = nibble_labels (g # gs)"
proof (rule split_on_join)
  show "\<forall>w \<in> set (nibble_labels (g # gs)). CHR ''.'' \<notin> set w"
  proof
    fix w assume "w \<in> set (nibble_labels (g # gs))"
    then obtain n where "n < 16" "w = [hex_char n]" using nibble_labels_single by blast
    then show "CHR ''.'' \<notin> set w" using hex_char_plain [of n] by force
  qed
qed simp

lemma trim_arpa_nibbles:
  "trim_end_matches_str ''.ip6.arpa'' (reverse_v6 (g # gs)) = str_join ''.'' (nibble_labels (g # gs))"
proof -
  let ?j = "str_join ''.'' (nibble_labels (g # gs))"
  have "strip_suffix ''.ip6.arpa'' ?j = None"
  proof (rule ccontr)
    assume "strip_suffix ''.ip6.arpa'' ?j \<noteq> None"
    then obtain r where "?j = r @ ''.ip6.arpa''" by (auto simp: strip_suffix_Some)
    then have "labels ?j = labels (r @ CHR ''.'' # ''ip6.arpa'')" by simp
    then have "nibble_labels (g # gs) = labels r @ labels ''ip6.arpa''"
      by (simp only: labels_nibbles split_on_append)
    then have "''arpa'' \<in> set (nibble_labels (g # gs))" by (simp add: split_on_def)
    then show False using nibble_labels_single by fastforce
  qed
  then have "trim_end_matches_str ''.ip6.arpa'' ?j = ?j"
    by (subst trim_end_matches_str.simps) simp
  moreover have "strip_suffix ''.ip6.arpa'' (reverse_v6 (g # gs)) = Some ?j"
    unfolding reverse_v6_def by (rule strip_suffix_append)
  ultimately show ?thesis
    by (subst trim_end_matches_str.simps) simp
qed

lemma hex_nibble_test:
  "n < 16 \<Longrightarrow> CHR ''f'' = hex_char n \<longleftrightarrow> n = 15"
  "n < 16 \<Longrightarrow> CHR ''c'' = hex_char n \<longleftrightarrow> n = 12"
  "n < 16 \<Longrightarrow> CHR ''d'' = hex_char n \<longleftrightarrow> n = 13"
proof -
  have "\<forall>n \<in> set [0..<16]. (CHR ''f'' = hex_char n \<longleftrightarrow> n = 15) \<and>
      (CHR ''c'' = hex_char n \<longleftrightarrow> n = 12) \<and> (CHR ''d'' = hex_char n \<longleftrightarrow> n = 13)"
    by code_simp
  then show "n < 16 \<Longrightarrow> CHR ''f'' = hex_char n \<longleftrightarrow> n = 15"
    and "n < 16 \<Longrightarrow> CHR ''c'' = hex_char n \<longleftrightarrow> n = 12"
    and "n < 16 \<Longrightarrow> CHR ''d'' = hex_char n \<longleftrightarrow> n = 13"
    by simp_all
qed

lemma ula_nibbles:
  "unat (g :: u16) div 4096 = 15 \<and> (unat g div 256 mod 16 = 12 \<or> unat g div 256 mod 16 = 13) \<longleftrightarrow>
   0xfc00 \<le> unat g \<and> unat g \<le> 0xfdff"
proof -
  define y where "y = unat g div 256"
  have y: "y < 256" using unat_u16_less [of g] by (simp add: y_def less_mult_imp_div_less)
  have "unat g div 4096 = y div 16" by (simp add: y_def div_mult2_eq [symmetric])
  moreover have "0xfc00 \<le> unat g \<and> unat g \<le> 0xfdff \<longleftrightarrow> y = 252 \<or> y = 253"
    unfolding y_def by linarith
  moreover have "y div 16 = 15 \<and> (y mod 16 = 12 \<or> y mod 16 = 13) \<longleftrightarrow> y = 252 \<or> y = 253"
  proof
    assume "y div 16 = 15 \<and> (y mod 16 = 12 \<or> y mod 16 = 13)"
    then show "y = 252 \<or> y = 253" using div_mult_mod_eq [of y 16] by linarith
  qed auto
  ultimately show ?thesis by (simp add: y_def)
qed

lemma is_private_reverse_v6:
  "is_private_reverse (reverse_v6 (g # gs)) \<longleftrightarrow> 0xfc00 \<le> unat g \<and> unat g \<le> 0xfdff"
proof -
  have not4: "strip_suffix ''.in-addr.arpa'' (reverse_v6 (g # gs)) = None"
    unfolding strip_suffix_None
  proof
    assume "\<exists>r. reverse_v6 (g # gs) = r @ ''.in-addr.arpa''"
    then obtain r where "str_join ''.'' (nibble_labels (g # gs)) @ ''.i'' @ ''p6.arpa'' = (r @ ''.in-a'') @ ''ddr.arpa''"
      by (auto simp: reverse_v6_def)
    then show False by (simp add: append_eq_append_conv2)
  qed
  have six: "ends_with ''.ip6.arpa'' (reverse_v6 (g # gs))"
    unfolding reverse_v6_def by (rule ends_with_append)
  obtain ws where ws: "rev (nibble_labels (g # gs)) =
      [hex_char (unat g div 4096)] # [hex_char (unat g div 256 mod 16)] # ws"
    by (simp add: nibble_labels_Cons nibbles_def)
  have "is_private_reverse (reverse_v6 (g # gs)) \<longleftrightarrow>
      CHR ''f'' = hex_char (unat g div 4096) \<and>
      (CHR ''c'' = hex_char (unat g div 256 mod 16) \<or> CHR ''d'' = hex_char (unat g div 256 mod 16))"
    unfolding is_private_reverse_def not4 option.case if_P [OF six] trim_arpa_nibbles
      labels_nibbles ws list.case Let_def starts_with_def append_Cons append_Nil
    by simp
  also have "\<dots> \<longleftrightarrow> 0xfc00 \<le> unat g \<and> unat g \<le> 0xfdff"
    unfolding ula_nibbles [symmetric]
    using nibbles_less [of "unat g div 4096" g] by (simp add: hex_nibble_test nibbles_def)
  finally show ?thesis .
qed

section \<open>Names under the reverse zones\<close>

lemma not_local_arpa:
  assumes "labels name = xs @ [zone, ''arpa'']" "zone \<noteq> ''home''"
  shows "\<not> list_ex (suffix_matches name) LOCAL_SUFFIXES"
proof -
  have "\<not> suffix_matches name s" if s: "s \<in> set LOCAL_SUFFIXES" for s
  proof
    assume "suffix_matches name s"
    then have "suffix (labels s) ((xs @ [zone]) @ [''arpa''])"
      using local_suffix_labels [OF s] assms(1) by simp
    then have "\<exists>zs. labels s = zs @ [''arpa''] \<and> suffix zs (xs @ [zone])"
      by (simp only: suffix_snoc split_on_not_Nil simp_thms)
    then obtain zs where zs: "labels s = zs @ [''arpa'']" "suffix zs (xs @ [zone])" by blast
    moreover have "\<forall>s \<in> set LOCAL_SUFFIXES. last (labels s) = ''arpa'' \<longrightarrow> labels s = [''home'', ''arpa'']"
      by (simp add: LOCAL_SUFFIXES_def split_on_def)
    ultimately have "zs = [''home'']" using s by force
    with zs(2) assms(2) show False by (simp add: suffix_snoc Cons_eq_append_conv)
  qed
  then show ?thesis by (auto simp: list_ex_iff)
qed

lemma lower_digit: "is_ascii_digit c \<Longrightarrow> lower_char c = c"
  by (auto simp: is_ascii_digit_def digit_val_def lower_char_def Let_def split: if_splits)

lemma normalise_str_fqdn:
  assumes "\<forall>c \<in> set s. lower_char c = c" "last s \<noteq> CHR ''.''"
  shows "normalise_str (s @ ''.'') = s"
proof -
  have "trim_end_matches (CHR ''.'') s = s"
    using assms(2) unfolding trim_end_matches_def by (intro trim_end_by_id) simp
  then have "trim_end_matches (CHR ''.'') (s @ ''.'') = s" by simp
  with assms(1) show ?thesis
    by (simp add: normalise_str_def to_ascii_lowercase_def map_idI)
qed

lemma lower_join:
  assumes "\<forall>w \<in> set ws. \<forall>c \<in> set w. lower_char c = c"
  shows "\<forall>c \<in> set (str_join ''.'' ws). lower_char c = c"
proof -
  have "lower_char (CHR ''.'') = CHR ''.''" by (simp add: lower_char_def)
  with assms show ?thesis
    by (induction "''.''" ws rule: str_join.induct) auto
qed

lemma normalise_reverse_v4: "normalise_str (reverse_v4 a b c d @ ''.'') = reverse_v4 a b c d"
proof (rule normalise_str_fqdn)
  have "\<forall>x \<in> set (str_join ''.'' (map (\<lambda>x. show_nat (unat x)) [d, c, b, a])). lower_char x = x"
    using lower_digit show_nat_set by (intro lower_join) fastforce
  moreover have "\<forall>x \<in> set ''.in-addr.arpa''. lower_char x = x" by (simp add: lower_char_def)
  ultimately show "\<forall>x \<in> set (reverse_v4 a b c d). lower_char x = x"
    by (auto simp only: reverse_v4_def set_append)
qed (simp_all add: reverse_v4_def)

lemma normalise_reverse_v6: "normalise_str (reverse_v6 (g # gs) @ ''.'') = reverse_v6 (g # gs)"
proof (rule normalise_str_fqdn)
  have "\<forall>w \<in> set (nibble_labels (g # gs)). \<forall>c \<in> set w. lower_char c = c"
    using nibble_labels_single hex_char_plain by fastforce
  then have "\<forall>x \<in> set (str_join ''.'' (nibble_labels (g # gs))). lower_char x = x"
    by (rule lower_join)
  moreover have "\<forall>x \<in> set ''.ip6.arpa''. lower_char x = x" by (simp add: lower_char_def)
  ultimately show "\<forall>x \<in> set (reverse_v6 (g # gs)). lower_char x = x"
    by (auto simp only: reverse_v6_def set_append)
qed (simp_all add: reverse_v6_def)

lemma route_default_arpa:
  assumes "normalise_str name = z" "labels z = xs @ [zone, ''arpa'']" "zone \<noteq> ''home''"
  shows "policy_route (\<lambda>s. s) policy_default name =
    (if is_private_reverse z then SystemUpstream else Doh)"
proof -
  have "1 < length (labels z)" using assms(2) by simp
  then have "CHR ''.'' \<in> set z" using single_label [of z] by auto
  with assms(1) not_local_arpa [OF assms(2,3)] show ?thesis
    by (simp add: policy_route_def normalise_def policy_default_def is_builtin_local_def)
qed

section \<open>Properties\<close>

text \<open>A rule matches a name exactly when the rule's labels are a suffix of the name's labels;
  with a leading \<open>*.\<close>, a proper suffix; an empty rule matches nothing.\<close>

theorem suffix_matches_labels:
  "suffix_matches name rule \<longleftrightarrow>
     (let r = normalise_str rule in
      case strip_prefix ''*.'' r of
        Some t \<Rightarrow> strict_suffix (labels t) (labels name)
      | None \<Rightarrow> r \<noteq> [] \<and> suffix (labels r) (labels name))"
proof (cases "strip_prefix ''*.'' (normalise_str rule)")
  case (Some t)
  then show ?thesis
    using suffix_matches_wildcard [of rule t name] by (simp add: strip_prefix_Some)
next
  case None
  then show ?thesis
    using suffix_matches_plain [of rule name]
    by (cases "normalise_str rule = []") (simp_all add: suffix_matches_def starts_with_def)
qed

text \<open>C13: A name is sent to DoH only when it is public: it has at least two labels, does not end in
  a built-in local suffix, is no private reverse zone, and no local override of the user
  matches it. No \<open>force_doh\<close> rule and no default can change that.\<close>

theorem route_doh_only_public:
  assumes "policy_route to_ascii p n = Doh"
  shows "2 \<le> length (labels (normalise to_ascii n)) \<and>
    (\<forall>s \<in> set LOCAL_SUFFIXES. \<not> suffix (labels s) (labels (normalise to_ascii n))) \<and>
    \<not> is_private_reverse (normalise to_ascii n) \<and>
    (\<forall>r \<in> set (force_local p). \<not> suffix_matches (normalise to_ascii n) r)"
proof -
  let ?n = "normalise to_ascii n"
  from assms have loc: "\<not> list_ex (suffix_matches ?n) (force_local p)" and built: "\<not> is_builtin_local ?n"
    by (auto simp: policy_route_def Let_def split: if_splits)
  from built have "\<not> list_ex (suffix_matches ?n) LOCAL_SUFFIXES" "length (labels ?n) \<noteq> 1"
    "\<not> is_private_reverse ?n"
    unfolding single_label [symmetric] by (auto simp: is_builtin_local_def split: if_splits)
  moreover from this(2) have "2 \<le> length (labels ?n)"
    using split_on_not_Nil [of "CHR ''.''" ?n] by (cases "labels ?n") (auto simp: Suc_le_eq)
  ultimately show ?thesis
    using loc local_suffix_labels [of _ ?n] by (auto simp: list_ex_iff)
qed

theorem route_doh_only_public_witness:
  "policy_route (\<lambda>s. s) policy_default ''example.com.'' = Doh \<and>
   2 \<le> length (labels (normalise (\<lambda>s. s) ''example.com.''))"
proof -
  have r: "policy_route (\<lambda>s. s) policy_default ''example.com.'' = Doh"
    by (simp add: policy_route_def normalise_def normalise_str_def str_defs policy_default_def
        is_builtin_local_def LOCAL_SUFFIXES_def suffix_matches_def is_private_reverse_def)
  show ?thesis using r route_doh_only_public [OF r] by simp
qed

text \<open>Reverse lookups of IPv4 addresses, for every address: under the default policy the PTR
  name of an address stays on the system resolver exactly when the address is private
  (RFC 1918), loopback or link-local, and goes to DoH otherwise.\<close>

theorem route_reverse_v4:
  "policy_route (\<lambda>s. s) policy_default (reverse_v4 a b c d @ ''.'') =
     (if private_v4 a b then SystemUpstream else Doh)"
proof -
  have "reverse_v4 a b c d =
      str_join ''.'' (map (\<lambda>x. show_nat (unat x)) [d, c, b, a]) @ CHR ''.'' # ''in-addr.arpa''"
    by (simp add: reverse_v4_def)
  then have "labels (reverse_v4 a b c d) =
      map (\<lambda>x. show_nat (unat x)) [d, c, b, a] @ labels ''in-addr.arpa''"
    by (simp only: split_on_append labels_of_octets [OF list.distinct(2)])
  then have "labels (reverse_v4 a b c d) =
      map (\<lambda>x. show_nat (unat x)) [d, c, b, a] @ [''in-addr'', ''arpa'']"
    by (simp add: split_on_def)
  then show ?thesis
    using route_default_arpa [OF normalise_reverse_v4] is_private_reverse_v4 by simp
qed


end
