(* ===== verification/Net_Addr.thy ===== *)
theory Net_Addr
  imports Numbers "HOL-Library.Monad_Syntax"
begin

text \<open>
  \<open>std::net\<close> as the sources use it: IP and socket addresses, their order, their \<open>FromStr\<close>
  parsers (strict dotted quads without leading zeros; IPv6 with one \<open>::\<close> and an optional
  trailing dotted quad), their \<open>Display\<close>, and the address classes.
\<close>

section \<open>Addresses\<close>

datatype ip_addr =
    V4 u8 u8 u8 u8
  | V6 u16 u16 u16 u16 u16 u16 u16 u16

record socket_addr =
  sa_ip :: ip_addr
  sa_scope :: u32
  sa_port :: u16

fun is_ipv4 :: "ip_addr \<Rightarrow> bool" where
  "is_ipv4 (V4 _ _ _ _) = True"
| "is_ipv4 (V6 _ _ _ _ _ _ _ _) = False"

text \<open>\<open>SocketAddr::new(ip, port)\<close>.\<close>

definition socket_new :: "ip_addr \<Rightarrow> u16 \<Rightarrow> socket_addr" where
  "socket_new ip port = \<lparr>sa_ip = ip, sa_scope = 0, sa_port = port\<rparr>"

section \<open>The derived order\<close>

text \<open>
  \<open>IpAddr\<close> orders every IPv4 address before every IPv6 address and addresses of one family
  by their big-endian value.
\<close>

fun ip_code :: "ip_addr \<Rightarrow> nat" where
  "ip_code (V4 a b c d) = horner 256 [unat a, unat b, unat c, unat d]"
| "ip_code (V6 a b c d e f g h) = 2 ^ 32 +
     horner 65536 [unat a, unat b, unat c, unat d, unat e, unat f, unat g, unat h]"

lemma ip_code_V4_less: "ip_code (V4 a b c d) < 2 ^ 32"
  using horner_less [of "[unat a, unat b, unat c, unat d]" 256] by simp

lemma ip_code_inj: "ip_code x = ip_code y \<longleftrightarrow> x = y"
proof
  assume eq: "ip_code x = ip_code y"
  show "x = y"
  proof (cases x; cases y)
    fix a b c d a' b' c' d'
    assume xy: "x = V4 a b c d" "y = V4 a' b' c' d'"
    have "[unat a, unat b, unat c, unat d] = [unat a', unat b', unat c', unat d']"
      by (rule horner_inj [where b = 256]) (use eq xy in simp_all)
    with xy show ?thesis by (simp add: word_unat_eq_iff)
  next
    fix a b c d e f g h a' b' c' d' e' f' g' h'
    assume xy: "x = V6 a b c d e f g h" "y = V6 a' b' c' d' e' f' g' h'"
    have "[unat a, unat b, unat c, unat d, unat e, unat f, unat g, unat h] =
          [unat a', unat b', unat c', unat d', unat e', unat f', unat g', unat h']"
      by (rule horner_inj [where b = 65536]) (use eq xy in simp_all)
    with xy show ?thesis by (simp add: word_unat_eq_iff)
  next
    fix a b c d a' b' c' d' e' f' g' h'
    assume "x = V4 a b c d" "y = V6 a' b' c' d' e' f' g' h'"
    with eq ip_code_V4_less [of a b c d] show ?thesis by simp
  next
    fix a b c d e f g h a' b' c' d'
    assume "x = V6 a b c d e f g h" "y = V4 a' b' c' d'"
    with eq ip_code_V4_less [of a' b' c' d'] show ?thesis by simp
  qed
qed simp

instantiation ip_addr :: linorder
begin

definition less_eq_ip_addr :: "ip_addr \<Rightarrow> ip_addr \<Rightarrow> bool" where
  "less_eq_ip_addr x y \<longleftrightarrow> ip_code x \<le> ip_code y"

definition less_ip_addr :: "ip_addr \<Rightarrow> ip_addr \<Rightarrow> bool" where
  "less_ip_addr x y \<longleftrightarrow> ip_code x < ip_code y"

instance
  by standard (auto simp: less_eq_ip_addr_def less_ip_addr_def ip_code_inj)

end

section \<open>The parser of \<open>core::net\<close>\<close>

fun span_digits :: "(char \<Rightarrow> nat option) \<Rightarrow> string \<Rightarrow> nat list \<times> string" where
  "span_digits f [] = ([], [])"
| "span_digits f (c # cs) =
     (case f c of None \<Rightarrow> ([], c # cs)
      | Some d \<Rightarrow> (case span_digits f cs of (ds, r) \<Rightarrow> (d # ds, r)))"

text \<open>
  \<open>read_number(radix, max_digits, allow_zero_prefix)\<close>; \<open>bound\<close> is the size of the result
  type.
\<close>

definition read_number ::
    "(char \<Rightarrow> nat option) \<Rightarrow> nat \<Rightarrow> nat option \<Rightarrow> bool \<Rightarrow> nat \<Rightarrow> string \<Rightarrow> (nat \<times> string) option" where
  "read_number f radix max_digits allow_zero bound s =
     (let (ds, rest) = span_digits f s; n = horner radix ds in
      if (case max_digits of None \<Rightarrow> False | Some m \<Rightarrow> m < length ds) then None
      else if ds = [] then None
      else if \<not> allow_zero \<and> 1 < length ds \<and> hd s = CHR ''0'' then None
      else if n < bound then Some (n, rest) else None)"

fun read_char :: "char \<Rightarrow> string \<Rightarrow> string option" where
  "read_char c [] = None"
| "read_char c (x # xs) = (if x = c then Some xs else None)"

definition read_octet :: "string \<Rightarrow> (nat \<times> string) option" where
  "read_octet s = read_number digit_val 10 (Some 3) False 256 s"

definition read_ipv4 :: "string \<Rightarrow> ((nat \<times> nat \<times> nat \<times> nat) \<times> string) option" where
  "read_ipv4 s = do {
     (a, s) \<leftarrow> read_octet s;
     s \<leftarrow> read_char (CHR ''.'') s;
     (b, s) \<leftarrow> read_octet s;
     s \<leftarrow> read_char (CHR ''.'') s;
     (c, s) \<leftarrow> read_octet s;
     s \<leftarrow> read_char (CHR ''.'') s;
     (d, s) \<leftarrow> read_octet s;
     Some ((a, b, c, d), s)
   }"

definition read_sep :: "nat \<Rightarrow> string \<Rightarrow> string option" where
  "read_sep i s = (if i = 0 then Some s else read_char (CHR '':'') s)"

text \<open>
  \<open>read_groups\<close>: \<open>n\<close> slots are left and \<open>i\<close> groups have been read. Returns the groups, whether
  they end in a dotted quad, and the rest of the input.
\<close>

fun read_groups :: "nat \<Rightarrow> nat \<Rightarrow> string \<Rightarrow> nat list \<times> bool \<times> string" where
  "read_groups 0 i s = ([], False, s)"
| "read_groups (Suc n) i s =
     (case (if 0 < n then Option.bind (read_sep i s) read_ipv4 else None) of
        Some ((a, b, c, d), r) \<Rightarrow> ([a * 256 + b, c * 256 + d], True, r)
      | None \<Rightarrow>
         (case Option.bind (read_sep i s) (read_number hex_val 16 (Some 4) True 65536) of
            None \<Rightarrow> ([], False, s)
          | Some (g, r) \<Rightarrow>
              (case read_groups n (Suc i) r of (gs, v4, r') \<Rightarrow> (g # gs, v4, r'))))"

definition read_ipv6 :: "string \<Rightarrow> (nat list \<times> string) option" where
  "read_ipv6 s =
     (case read_groups 8 0 s of (head, head_ipv4, r) \<Rightarrow>
        if length head = 8 then Some (head, r)
        else if head_ipv4 then None
        else do {
          r \<leftarrow> read_char (CHR '':'') r;
          r \<leftarrow> read_char (CHR '':'') r;
          (case read_groups (8 - (length head + 1)) 0 r of (tail, _, r) \<Rightarrow>
             Some (head @ replicate (8 - length head - length tail) 0 @ tail, r))
        })"

fun ipv6_of :: "nat list \<Rightarrow> ip_addr option" where
  "ipv6_of [a, b, c, d, e, f, g, h] =
     Some (V6 (of_nat a) (of_nat b) (of_nat c) (of_nat d) (of_nat e) (of_nat f) (of_nat g) (of_nat h))"
| "ipv6_of _ = None"

definition ipv4_of :: "nat \<times> nat \<times> nat \<times> nat \<Rightarrow> ip_addr" where
  "ipv4_of = (\<lambda>(a, b, c, d). V4 (of_nat a) (of_nat b) (of_nat c) (of_nat d))"

definition read_ip :: "string \<Rightarrow> (ip_addr \<times> string) option" where
  "read_ip s =
     (case read_ipv4 s of
        Some (q, r) \<Rightarrow> Some (ipv4_of q, r)
      | None \<Rightarrow> do { (gs, r) \<leftarrow> read_ipv6 s; ip \<leftarrow> ipv6_of gs; Some (ip, r) })"

definition whole :: "('a \<times> string) option \<Rightarrow> 'a option" where
  "whole p = (case p of Some (x, []) \<Rightarrow> Some x | _ \<Rightarrow> None)"

text \<open>\<open>s.parse::<IpAddr>().ok()\<close>, \<open>s.parse::<Ipv4Addr>().ok()\<close>.\<close>

definition parse_ip :: "string \<Rightarrow> ip_addr option" where
  "parse_ip s = whole (read_ip s)"

definition parse_ipv4 :: "string \<Rightarrow> ip_addr option" where
  "parse_ipv4 s = (if 15 < length s then None
     else map_option ipv4_of (whole (read_ipv4 s)))"

definition read_port :: "string \<Rightarrow> (nat \<times> string) option" where
  "read_port s = Option.bind (read_char (CHR '':'') s) (read_number digit_val 10 None True 65536)"

definition read_scope :: "string \<Rightarrow> (nat \<times> string) option" where
  "read_scope s = Option.bind (read_char (CHR ''%'') s) (read_number digit_val 10 None True 4294967296)"

definition read_socket_v4 :: "string \<Rightarrow> (socket_addr \<times> string) option" where
  "read_socket_v4 s = do {
     (q, s) \<leftarrow> read_ipv4 s;
     (p, s) \<leftarrow> read_port s;
     Some (socket_new (ipv4_of q) (of_nat p), s)
   }"

definition read_socket_v6 :: "string \<Rightarrow> (socket_addr \<times> string) option" where
  "read_socket_v6 s = do {
     s \<leftarrow> read_char (CHR ''['') s;
     (gs, s) \<leftarrow> read_ipv6 s;
     (sc, s) \<leftarrow> Some (case read_scope s of Some r \<Rightarrow> r | None \<Rightarrow> (0, s));
     s \<leftarrow> read_char (CHR '']'') s;
     (p, s) \<leftarrow> read_port s;
     ip \<leftarrow> ipv6_of gs;
     Some (\<lparr>sa_ip = ip, sa_scope = of_nat sc, sa_port = of_nat p\<rparr>, s)
   }"

text \<open>\<open>s.parse::<SocketAddr>().ok()\<close>, \<open>s.parse::<SocketAddrV4>().ok()\<close>.\<close>

definition parse_socket_v4 :: "string \<Rightarrow> socket_addr option" where
  "parse_socket_v4 s = whole (read_socket_v4 s)"

definition parse_socket :: "string \<Rightarrow> socket_addr option" where
  "parse_socket s = whole
     (case read_socket_v4 s of Some r \<Rightarrow> Some r | None \<Rightarrow> read_socket_v6 s)"

section \<open>Display\<close>

definition show_quad :: "u8 \<Rightarrow> u8 \<Rightarrow> u8 \<Rightarrow> u8 \<Rightarrow> string" where
  "show_quad a b c d =
     str_join ''.'' (map (\<lambda>x. show_nat (unat x)) [a, b, c, d])"

text \<open>The longest run of zero groups, the first one on ties, as \<open>(start, length)\<close>.\<close>

fun zero_run :: "nat list \<Rightarrow> nat \<Rightarrow> nat \<times> nat \<Rightarrow> nat \<times> nat \<Rightarrow> nat \<times> nat" where
  "zero_run [] i cur best = best"
| "zero_run (g # gs) i cur best =
     (if g = 0 then
        (let cur' = (if snd cur = 0 then (i, 1) else (fst cur, snd cur + 1)) in
         zero_run gs (Suc i) cur' (if snd cur' > snd best then cur' else best))
      else zero_run gs (Suc i) (0, 0) best)"

definition show_groups :: "nat list \<Rightarrow> string" where
  "show_groups gs = str_join '':'' (map show_hex gs)"

definition show_v6_groups :: "nat list \<Rightarrow> string" where
  "show_v6_groups gs = (case zero_run gs 0 (0, 0) (0, 0) of (start, n) \<Rightarrow>
     if 1 < n then show_groups (take start gs) @ ''::'' @ show_groups (drop (start + n) gs)
     else show_groups gs)"

fun show_ip :: "ip_addr \<Rightarrow> string" where
  "show_ip (V4 a b c d) = show_quad a b c d"
| "show_ip (V6 a b c d e f g h) =
     (if a = 0 \<and> b = 0 \<and> c = 0 \<and> d = 0 \<and> e = 0 \<and> f = 0xFFFF
      then ''::ffff:'' @ show_quad (of_nat (unat g div 256)) (of_nat (unat g mod 256))
                                  (of_nat (unat h div 256)) (of_nat (unat h mod 256))
      else show_v6_groups (map unat [a, b, c, d, e, f, g, h]))"

definition show_socket :: "socket_addr \<Rightarrow> string" where
  "show_socket s =
     (if is_ipv4 (sa_ip s) then show_ip (sa_ip s) @ '':'' @ show_nat (unat (sa_port s))
      else ''['' @ show_ip (sa_ip s) @
           (if sa_scope s = 0 then [] else ''%'' @ show_nat (unat (sa_scope s))) @
           '']:'' @ show_nat (unat (sa_port s)))"

section \<open>Address classes\<close>

fun ip_is_loopback :: "ip_addr \<Rightarrow> bool" where
  "ip_is_loopback (V4 a b c d) = (a = 127)"
| "ip_is_loopback (V6 a b c d e f g h) =
     (a = 0 \<and> b = 0 \<and> c = 0 \<and> d = 0 \<and> e = 0 \<and> f = 0 \<and> g = 0 \<and> h = 1)"

fun ip_is_unspecified :: "ip_addr \<Rightarrow> bool" where
  "ip_is_unspecified (V4 a b c d) = (a = 0 \<and> b = 0 \<and> c = 0 \<and> d = 0)"
| "ip_is_unspecified (V6 a b c d e f g h) =
     (a = 0 \<and> b = 0 \<and> c = 0 \<and> d = 0 \<and> e = 0 \<and> f = 0 \<and> g = 0 \<and> h = 0)"

fun v4_is_private :: "ip_addr \<Rightarrow> bool" where
  "v4_is_private (V4 a b c d) =
     (a = 10 \<or> (a = 172 \<and> 16 \<le> unat b \<and> unat b \<le> 31) \<or> (a = 192 \<and> b = 168))"
| "v4_is_private (V6 _ _ _ _ _ _ _ _) = False"

fun v4_is_link_local :: "ip_addr \<Rightarrow> bool" where
  "v4_is_link_local (V4 a b c d) = (a = 169 \<and> b = 254)"
| "v4_is_link_local (V6 _ _ _ _ _ _ _ _) = False"

section \<open>Evaluation on literals\<close>

lemma read_groups_numeral:
  "read_groups (numeral k) i s =
     (case (if 0 < pred_numeral k then Option.bind (read_sep i s) read_ipv4 else None) of
        Some ((a, b, c, d), r) \<Rightarrow> ([a * 256 + b, c * 256 + d], True, r)
      | None \<Rightarrow>
         (case Option.bind (read_sep i s) (read_number hex_val 16 (Some 4) True 65536) of
            None \<Rightarrow> ([], False, s)
          | Some (g, r) \<Rightarrow>
              (case read_groups (pred_numeral k) (Suc i) r of (gs, v4, r') \<Rightarrow> (g # gs, v4, r'))))"
  by (simp add: numeral_eq_Suc)

lemma replicate_num: "replicate (numeral k) x = x # replicate (pred_numeral k) x"
  by (simp add: numeral_eq_Suc)

lemmas ip_eval = replicate_num parse_ip_def whole_def read_ip_def read_ipv4_def read_octet_def read_number_def
  str_defs horner_def ipv4_of_def read_ipv6_def read_sep_def read_groups_numeral

section \<open>The IPv4 round trip\<close>

lemma span_digits_of:
  "digits_of f s = Some ds \<Longrightarrow> (r = [] \<or> f (hd r) = None) \<Longrightarrow> span_digits f (s @ r) = (ds, r)"
proof (induction s arbitrary: ds)
  case Nil
  then show ?case by (cases r) auto
next
  case (Cons c s)
  then show ?case by (auto split: option.splits)
qed

lemma digits_of_length: "digits_of f s = Some ds \<Longrightarrow> length ds = length s"
  by (induction s arbitrary: ds) (auto split: option.splits)

lemma read_octet_show:
  assumes "n < 256" "r = [] \<or> \<not> is_ascii_digit (hd r)"
  shows "read_octet (show_nat n @ r) = Some (n, r)"
proof -
  obtain ds where ds: "digits_of digit_val (show_nat n) = Some ds" "horner 10 ds = n"
    using show_nat_digits by blast
  have span: "span_digits digit_val (show_nat n @ r) = (ds, r)"
    using ds(1) assms(2) by (auto intro!: span_digits_of simp: is_ascii_digit_def)
  have len: "length ds = length (show_nat n)" using ds(1) by (rule digits_of_length)
  have "n < 10 ^ Suc 2" using assms(1) by simp
  then have "length (show_nat n) \<le> 3" using length_show_nat [of n 2] by simp
  moreover have "hd (show_nat n @ r) \<noteq> CHR ''0'' \<or> length ds = 1"
  proof (cases "n = 0")
    case True
    then show ?thesis using len by (simp add: show_nat_less)
  next
    case False
    then show ?thesis using hd_show_nat [of n] by simp
  qed
  ultimately show ?thesis
    using assms(1) ds(2) len span by (auto simp: read_octet_def read_number_def)
qed

lemma dot_not_digit [simp]: "\<not> is_ascii_digit (CHR ''.'')"
  by (simp add: str_defs)

lemma read_ipv4_show:
  assumes "r = [] \<or> \<not> is_ascii_digit (hd r)"
  shows "read_ipv4 (show_quad a b c d @ r) = Some ((unat a, unat b, unat c, unat d), r)"
  using assms by (simp add: read_ipv4_def show_quad_def read_octet_show)

lemma parse_ip_show_V4: "parse_ip (show_ip (V4 a b c d)) = Some (V4 a b c d)"
  using read_ipv4_show [of "[]" a b c d]
  by (simp add: parse_ip_def read_ip_def whole_def ipv4_of_def)

lemma parse_socket_show_V4:
  "parse_socket (show_socket (socket_new (V4 a b c d) p)) = Some (socket_new (V4 a b c d) p)"
proof -
  obtain ds where ds: "digits_of digit_val (show_nat (unat p)) = Some ds" "horner 10 ds = unat p"
    using show_nat_digits by blast
  then have "span_digits digit_val (show_nat (unat p)) = (ds, [])"
    using span_digits_of [of digit_val _ ds "[]"] by simp
  moreover have "ds \<noteq> []" using digits_of_length [OF ds(1)] by auto
  ultimately have "read_port ('':'' @ show_nat (unat p)) = Some (unat p, [])"
    using ds(2) by (simp add: read_port_def read_number_def)
  moreover have "read_ipv4 (show_quad a b c d @ '':'' @ show_nat (unat p)) =
      Some ((unat a, unat b, unat c, unat d), '':'' @ show_nat (unat p))"
    by (rule read_ipv4_show) (simp add: str_defs)
  ultimately show ?thesis
    by (simp add: parse_socket_def whole_def read_socket_v4_def show_socket_def socket_new_def
        ipv4_of_def)
qed

lemma show_quad_chars: "x \<in> set (show_quad a b c d) \<Longrightarrow> is_ascii_digit x \<or> x = CHR ''.''"
  by (auto simp: show_quad_def dest: show_nat_set)

lemma show_quad_not_Nil [simp]: "show_quad a b c d \<noteq> []"
  by (simp add: show_quad_def)

lemma show_quad_no:
  "\<not> is_ascii_digit x \<Longrightarrow> x \<noteq> CHR ''.'' \<Longrightarrow> x \<notin> set (show_quad a b c d)"
  using show_quad_chars by blast

lemma digit_not_ws: "is_ascii_digit x \<Longrightarrow> \<not> is_ws x"
  by (auto simp: str_defs split: if_splits)

lemma show_quad_no_ws: "x \<in> set (show_quad a b c d) \<Longrightarrow> \<not> is_ws x"
  using show_quad_chars [of x a b c d] digit_not_ws by (auto simp: is_ws_def)

end
