(* ===== verification/Provider.thy ===== *)
theory Provider
  imports Net_Addr
begin

text \<open>
  \<open>crates/dns-core/src/provider.rs\<close>: DoH providers with their pinned bootstrap addresses, the
  presets and the default fallback chain.
\<close>

record provider =
  p_name :: string
  p_url :: string
  p_bootstrap :: "ip_addr list"

definition provider_new :: "string \<Rightarrow> string \<Rightarrow> string list \<Rightarrow> provider" where
  "provider_new name url bootstrap =
     \<lparr>p_name = name, p_url = url, p_bootstrap = List.map_filter parse_ip bootstrap\<rparr>"

definition provider_host :: "provider \<Rightarrow> string option" where
  "provider_host p =
     (case strip_prefix ''https://'' (p_url p) of
        None \<Rightarrow> None
      | Some rest \<Rightarrow> Some (takeWhile (\<lambda>c. c \<noteq> CHR ''/'' \<and> c \<noteq> CHR '':'') rest))"

definition bootstrap_addrs :: "provider \<Rightarrow> socket_addr list" where
  "bootstrap_addrs p = map (\<lambda>ip. socket_new ip 443) (p_bootstrap p)"

definition cloudflare :: provider where
  "cloudflare = provider_new ''Cloudflare'' ''https://cloudflare-dns.com/dns-query''
     [''1.1.1.1'', ''1.0.0.1'', ''2606:4700:4700::1111'']"

definition google :: provider where
  "google = provider_new ''Google'' ''https://dns.google/dns-query''
     [''8.8.8.8'', ''8.8.4.4'', ''2001:4860:4860::8888'']"

definition quad9 :: provider where
  "quad9 = provider_new ''Quad9'' ''https://dns.quad9.net/dns-query''
     [''9.9.9.9'', ''149.112.112.112'']"

definition adguard :: provider where
  "adguard = provider_new ''AdGuard'' ''https://dns.adguard-dns.com/dns-query''
     [''94.140.14.14'', ''94.140.15.15'']"

definition mullvad :: provider where
  "mullvad = provider_new ''Mullvad'' ''https://dns.mullvad.net/dns-query'' [''194.242.2.2'']"

definition presets :: "provider list" where
  "presets = [cloudflare, quad9, google, adguard, mullvad]"

definition default_providers :: "provider list" where
  "default_providers = [cloudflare, quad9, google]"

section \<open>Lemmas\<close>

lemma provider_new_simps [simp]:
  "p_name (provider_new n u b) = n" "p_url (provider_new n u b) = u"
  "p_bootstrap (provider_new n u b) = List.map_filter parse_ip b"
  by (simp_all add: provider_new_def)

lemma provider_host_Some:
  "provider_host p = Some h \<longleftrightarrow>
     (\<exists>rest. p_url p = ''https://'' @ rest \<and> h = takeWhile (\<lambda>c. c \<noteq> CHR ''/'' \<and> c \<noteq> CHR '':'') rest)"
  unfolding provider_host_def by (auto simp: strip_prefix_Some split: option.splits)

lemma provider_host_None: "provider_host p = None \<longleftrightarrow> \<not> starts_with ''https://'' (p_url p)"
  unfolding provider_host_def starts_with_def by (auto split: option.splits)

lemma bootstrap_addrs_port: "a \<in> set (bootstrap_addrs p) \<Longrightarrow> sa_port a = 443"
  by (auto simp: bootstrap_addrs_def socket_new_def)

text \<open>
  The five presets, with the bootstrap literals parsed: each has an https endpoint, a
  non-empty host and at least one literal address.
\<close>

lemma parsed_literals:
  "parse_ip ''1.1.1.1'' = Some (V4 1 1 1 1)" "parse_ip ''1.0.0.1'' = Some (V4 1 0 0 1)"
  "parse_ip ''2606:4700:4700::1111'' = Some (V6 0x2606 0x4700 0x4700 0 0 0 0 0x1111)"
  "parse_ip ''8.8.8.8'' = Some (V4 8 8 8 8)" "parse_ip ''8.8.4.4'' = Some (V4 8 8 4 4)"
  "parse_ip ''2001:4860:4860::8888'' = Some (V6 0x2001 0x4860 0x4860 0 0 0 0 0x8888)"
  "parse_ip ''9.9.9.9'' = Some (V4 9 9 9 9)"
  "parse_ip ''149.112.112.112'' = Some (V4 149 112 112 112)"
  "parse_ip ''94.140.14.14'' = Some (V4 94 140 14 14)"
  "parse_ip ''94.140.15.15'' = Some (V4 94 140 15 15)"
  "parse_ip ''194.242.2.2'' = Some (V4 194 242 2 2)"
  by (simp_all add: ip_eval)

lemmas preset_defs = cloudflare_def quad9_def google_def adguard_def mullvad_def

lemma preset_bootstrap:
  "p_bootstrap cloudflare = [V4 1 1 1 1, V4 1 0 0 1, V6 0x2606 0x4700 0x4700 0 0 0 0 0x1111]"
  "p_bootstrap quad9 = [V4 9 9 9 9, V4 149 112 112 112]"
  "p_bootstrap google = [V4 8 8 8 8, V4 8 8 4 4, V6 0x2001 0x4860 0x4860 0 0 0 0 0x8888]"
  "p_bootstrap adguard = [V4 94 140 14 14, V4 94 140 15 15]"
  "p_bootstrap mullvad = [V4 194 242 2 2]"
  by (simp_all add: preset_defs List.map_filter_simps parsed_literals)

lemma preset_https:
  "p \<in> set presets \<Longrightarrow> starts_with ''https://'' (p_url p) \<and> p_name p \<noteq> []"
  by (auto simp: presets_def preset_defs starts_with_def)

lemma presets_ok:
  "p \<in> set presets \<Longrightarrow> provider_host p \<noteq> None \<and> p_bootstrap p \<noteq> [] \<and> p_name p \<noteq> []"
  using preset_https [of p] preset_bootstrap by (auto simp: provider_host_None presets_def)

lemma default_providers_subset: "set default_providers \<subseteq> set presets"
  by (auto simp: default_providers_def presets_def)

end
