(* ===== verification/Dns_Message.thy ===== *)
theory Dns_Message
  imports Net_Addr
begin

text \<open>
  The values of \<open>hickory_proto\<close> that the sources pass around: a DNS message with the fields
  they read and set, its records and questions. The library itself is not part of the
  repository: names are a type parameter \<open>'n\<close>, record data other than addresses a type
  parameter \<open>'d\<close>, and the wire codec (\<open>Message::to_vec\<close>, \<open>Message::from_bytes\<close>) is a value of
  type \<open>codec\<close>, an argument of every definition that encodes or decodes.
\<close>

datatype record_type = RT_A | RT_AAAA | RT_CNAME | RT_Other u16

datatype response_code = NoError | FormErr | ServFail | NXDomain | RC_Other u16

datatype message_type = MT_Query | MT_Response

datatype op_code = OP_Query | OP_Other u8

datatype 'd rdata =
    RD_A u8 u8 u8 u8
  | RD_AAAA u16 u16 u16 u16 u16 u16 u16 u16
  | RD_Other 'd

record ('n, 'd) rr =
  rr_name :: 'n
  rr_type :: record_type
  rr_ttl :: u32
  rr_data :: "'d rdata option"

record 'n question =
  q_name :: 'n
  q_type :: record_type

record ('n, 'd) message =
  m_id :: u16
  m_type :: message_type
  m_opcode :: op_code
  m_rcode :: response_code
  m_rd :: bool
  m_ra :: bool
  m_tc :: bool
  m_queries :: "'n question list"
  m_answers :: "('n, 'd) rr list"
  m_name_servers :: "('n, 'd) rr list"
  m_additionals :: "('n, 'd) rr list"
  m_edns_payload :: "u16 option"

text \<open>\<open>Message::new()\<close>.\<close>

definition message_new :: "('n, 'd) message" where
  "message_new = \<lparr>m_id = 0, m_type = MT_Query, m_opcode = OP_Query, m_rcode = NoError,
     m_rd = False, m_ra = False, m_tc = False, m_queries = [], m_answers = [],
     m_name_servers = [], m_additionals = [], m_edns_payload = None\<rparr>"

text \<open>The wire codec: an error is its \<open>Display\<close> text.\<close>

record ('n, 'd) codec =
  enc :: "('n, 'd) message \<Rightarrow> string + bytes"
  dec :: "bytes \<Rightarrow> string + ('n, 'd) message"

section \<open>Time\<close>

text \<open>\<open>Duration\<close> and \<open>Instant\<close> are counts of nanoseconds; \<open>saturating_duration_since\<close> and
  \<open>saturating_sub\<close> on them are subtraction on \<^typ>\<open>nat\<close>.\<close>

definition secs :: "nat \<Rightarrow> nat" where
  "secs n = n * 1000000000"

definition millis :: "nat \<Rightarrow> nat" where
  "millis n = n * 1000000"

definition as_secs :: "nat \<Rightarrow> nat" where
  "as_secs d = d div 1000000000"

definition as_millis :: "nat \<Rightarrow> nat" where
  "as_millis d = d div 1000000"

lemma as_secs_secs [simp]: "as_secs (secs n) = n"
  by (simp add: as_secs_def secs_def)

lemma as_secs_less: "d < secs n \<Longrightarrow> as_secs d < n"
  by (simp add: as_secs_def secs_def less_mult_imp_div_less)

lemma secs_le_iff: "secs m \<le> secs n \<longleftrightarrow> m \<le> n"
  by (simp add: secs_def)

end
