(* ===== verification/Cache.thy ===== *)
theory Cache
  imports Dns_Message "HOL-Library.AList"
begin

text \<open>
  \<open>crates/dns-core/src/cache.rs\<close>: the response cache. The \<open>HashMap\<close> is an association list
  whose order stands for the map's iteration order; the theorems hold for every order. The
  clock reading of \<open>Instant::now()\<close> is the argument \<open>now\<close>.
\<close>

section \<open>The code\<close>

definition MAX_TTL :: nat where "MAX_TTL = secs 3600"
definition MIN_TTL :: nat where "MIN_TTL = secs 5"
definition NEGATIVE_TTL :: nat where "NEGATIVE_TTL = secs 30"

record 'n key =
  k_name :: 'n
  k_type :: record_type

definition key_new :: "('n \<Rightarrow> 'n) \<Rightarrow> 'n \<Rightarrow> record_type \<Rightarrow> 'n key" where
  "key_new to_lowercase name rt = \<lparr>k_name = to_lowercase name, k_type = rt\<rparr>"

record ('n, 'd) entry =
  e_message :: "('n, 'd) message"
  e_stored_at :: nat
  e_ttl :: nat

record ('n, 'd) cache =
  c_entries :: "('n key \<times> ('n, 'd) entry) list"
  c_capacity :: nat

definition cache_new :: "nat \<Rightarrow> ('n, 'd) cache" where
  "cache_new capacity = \<lparr>c_entries = [], c_capacity = capacity\<rparr>"

definition saturating_sub32 :: "u32 \<Rightarrow> u32 \<Rightarrow> u32" where
  "saturating_sub32 a b = (if b \<le> a then a - b else 0)"

definition checked_sub :: "nat \<Rightarrow> nat \<Rightarrow> nat option" where
  "checked_sub a b = (if b \<le> a then Some (a - b) else None)"

definition spend_ttl :: "u32 \<Rightarrow> ('n, 'd) rr \<Rightarrow> ('n, 'd) rr" where
  "spend_ttl spent r = r\<lparr>rr_ttl := saturating_sub32 (rr_ttl r) spent\<rparr>"

definition cache_get_at :: "('n, 'd) cache \<Rightarrow> 'n key \<Rightarrow> nat \<Rightarrow> ('n, 'd) message option" where
  "cache_get_at c key now =
     (case map_of (c_entries c) key of
        None \<Rightarrow> None
      | Some entry \<Rightarrow>
          (let elapsed = now - e_stored_at entry in
           case checked_sub (e_ttl entry) elapsed of
             None \<Rightarrow> None
           | Some remaining \<Rightarrow>
               if remaining = 0 then None
               else (let message = e_message entry;
                         spent = (of_nat (as_secs elapsed) :: u32) in
                     Some (message\<lparr>m_answers := map (spend_ttl spent) (m_answers message),
                                   m_name_servers := map (spend_ttl spent) (m_name_servers message)\<rparr>))))"

fun min_by_key :: "('a \<Rightarrow> nat) \<Rightarrow> 'a list \<Rightarrow> 'a option" where
  "min_by_key f [] = None"
| "min_by_key f (x # xs) =
     (case min_by_key f xs of
        None \<Rightarrow> Some x
      | Some y \<Rightarrow> if f x \<le> f y then Some x else Some y)"

definition entry_remaining :: "nat \<Rightarrow> ('n, 'd) entry \<Rightarrow> nat" where
  "entry_remaining now e = e_ttl e - (now - e_stored_at e)"

definition cache_evict_one :: "('n, 'd) cache \<Rightarrow> nat \<Rightarrow> ('n, 'd) cache" where
  "cache_evict_one c now =
     (case map_option fst (min_by_key (\<lambda>(_, e). entry_remaining now e) (c_entries c)) of
        Some k \<Rightarrow> c\<lparr>c_entries := AList.delete k (c_entries c)\<rparr>
      | None \<Rightarrow> c)"

fun min_ttl :: "('n, 'd) rr list \<Rightarrow> u32 option" where
  "min_ttl [] = None"
| "min_ttl (r # rs) = (case min_ttl rs of None \<Rightarrow> Some (rr_ttl r) | Some t \<Rightarrow> Some (min (rr_ttl r) t))"

definition clamp :: "nat \<Rightarrow> nat \<Rightarrow> nat \<Rightarrow> nat" where
  "clamp lo hi x = (if x < lo then lo else if hi < x then hi else x)"

definition cacheable_ttl :: "('n, 'd) message \<Rightarrow> nat option" where
  "cacheable_ttl message =
     (case m_rcode message of
        NoError \<Rightarrow>
          (if m_answers message = [] then Some NEGATIVE_TTL
           else (case min_ttl (m_answers message) of
                   None \<Rightarrow> None
                 | Some t \<Rightarrow> Some (clamp MIN_TTL MAX_TTL (secs (unat t)))))
      | NXDomain \<Rightarrow> Some NEGATIVE_TTL
      | _ \<Rightarrow> None)"

definition cache_insert_at ::
    "('n, 'd) cache \<Rightarrow> 'n key \<Rightarrow> ('n, 'd) message \<Rightarrow> nat \<Rightarrow> ('n, 'd) cache \<times> nat option" where
  "cache_insert_at c key message now =
     (case cacheable_ttl message of
        None \<Rightarrow> (c, None)
      | Some ttl \<Rightarrow>
          (let c1 = (if c_capacity c \<le> length (c_entries c) \<and> map_of (c_entries c) key = None
                     then cache_evict_one c now else c) in
           (c1\<lparr>c_entries := AList.update key
                 \<lparr>e_message = message, e_stored_at = now, e_ttl = ttl\<rparr> (c_entries c1)\<rparr>,
            Some ttl)))"

definition cache_purge_expired :: "('n, 'd) cache \<Rightarrow> nat \<Rightarrow> ('n, 'd) cache" where
  "cache_purge_expired c now =
     c\<lparr>c_entries := filter (\<lambda>(_, e). now - e_stored_at e < e_ttl e) (c_entries c)\<rparr>"

definition cache_len :: "('n, 'd) cache \<Rightarrow> nat" where
  "cache_len c = length (c_entries c)"

definition cache_is_empty :: "('n, 'd) cache \<Rightarrow> bool" where
  "cache_is_empty c \<longleftrightarrow> c_entries c = []"

definition cache_clear :: "('n, 'd) cache \<Rightarrow> ('n, 'd) cache" where
  "cache_clear c = c\<lparr>c_entries := []\<rparr>"

section \<open>What a cache promises its clients\<close>

text \<open>
  The contract the resolver relies on: \<open>lookup\<close> at a time, \<open>store\<close> at a time, the lifetime of
  a value (\<open>None\<close>: never stored) and how a stored value ages.
\<close>

text \<open>Every value \<open>lookup\<close> serves was stored under the same key, has not outlived its lifetime,
  and is served aged by exactly the time it was held.\<close>

definition explained ::
    "('s \<Rightarrow> 'k \<Rightarrow> nat \<Rightarrow> 'v option) \<Rightarrow> ('v \<Rightarrow> nat option) \<Rightarrow> (nat \<Rightarrow> 'v \<Rightarrow> 'v) \<Rightarrow> ('k \<times> 'v \<times> nat) list \<Rightarrow> 's \<Rightarrow> bool"
where
  "explained lookup lifetime age hist s \<longleftrightarrow>
     (\<forall>k t w. lookup s k t = Some w \<longrightarrow>
        (\<exists>v t0 ttl. (k, v, t0) \<in> set hist \<and> lifetime v = Some ttl \<and> t - t0 < ttl \<and> w = age (t - t0) v))"

locale ttl_store =
  fixes lookup :: "'s \<Rightarrow> 'k \<Rightarrow> nat \<Rightarrow> 'v option"
    and store :: "'s \<Rightarrow> 'k \<Rightarrow> 'v \<Rightarrow> nat \<Rightarrow> 's"
    and lifetime :: "'v \<Rightarrow> nat option"
    and age :: "nat \<Rightarrow> 'v \<Rightarrow> 'v"
    and inv :: "'s \<Rightarrow> bool"
  assumes lookup_store_same:
      "inv s \<Longrightarrow> lifetime v = Some ttl \<Longrightarrow>
       lookup (store s k v t) k t' = (if t' - t < ttl then Some (age (t' - t) v) else None)"
    and store_uncacheable: "lifetime v = None \<Longrightarrow> store s k v t = s"
    and lookup_store_other:
      "inv s \<Longrightarrow> k' \<noteq> k \<Longrightarrow>
       lookup (store s k v t) k' t' = None \<or> lookup (store s k v t) k' t' = lookup s k' t'"
    and inv_store: "inv s \<Longrightarrow> inv (store s k v t)"
begin

text \<open>Every lookup stays explained by the history of stores: a store adds its own entry to the
  history, and an operation that only forgets values needs none.\<close>

lemma explained_store:
  assumes "inv s" "explained lookup lifetime age hist s"
  shows "explained lookup lifetime age ((k, v, t) # hist) (store s k v t)"
  unfolding explained_def
proof (intro allI impI)
  fix k' t' w assume l: "lookup (store s k v t) k' t' = Some w"
  show "\<exists>v' t0 ttl. (k', v', t0) \<in> set ((k, v, t) # hist) \<and> lifetime v' = Some ttl \<and> t' - t0 < ttl \<and>
      w = age (t' - t0) v'"
  proof (cases "lookup s k' t' = Some w")
    case True
    with assms(2) show ?thesis unfolding explained_def by (meson list.set_intros(2))
  next
    case False
    with l assms(1) have k: "k' = k" using lookup_store_other [of s k' k v t t'] by auto
    show ?thesis
    proof (cases "lifetime v")
      case None
      with l False show ?thesis by (simp add: store_uncacheable)
    next
      case (Some ttl)
      with l k assms(1) show ?thesis by (auto simp: lookup_store_same split: if_splits)
    qed
  qed
qed

lemma explained_forget:
  assumes "explained lookup lifetime age hist s" "\<And>k t. lookup s' k t = None \<or> lookup s' k t = lookup s k t"
  shows "explained lookup lifetime age hist s'"
  using assms unfolding explained_def by (metis option.distinct(1))

lemma explained_empty: "(\<And>k t. lookup s k t = None) \<Longrightarrow> explained lookup lifetime age [] s"
  by (simp add: explained_def)

end

section \<open>Lookups, insertions and evictions\<close>

definition aged :: "nat \<Rightarrow> ('n, 'd) message \<Rightarrow> ('n, 'd) message" where
  "aged d m = m\<lparr>m_answers := map (spend_ttl (of_nat (as_secs d))) (m_answers m),
                m_name_servers := map (spend_ttl (of_nat (as_secs d))) (m_name_servers m)\<rparr>"

lemma cache_get_at_eq:
  "cache_get_at c key now =
     (case map_of (c_entries c) key of
        None \<Rightarrow> None
      | Some e \<Rightarrow> if now - e_stored_at e < e_ttl e
                   then Some (aged (now - e_stored_at e) (e_message e)) else None)"
  by (auto simp: cache_get_at_def checked_sub_def aged_def Let_def split: option.splits)

lemma min_by_key_None: "min_by_key f xs = None \<longleftrightarrow> xs = []"
  by (cases xs) (auto split: option.splits)

lemma min_by_key_Some:
  "min_by_key f xs = Some x \<Longrightarrow> x \<in> set xs \<and> (\<forall>y \<in> set xs. f x \<le> f y)"
proof (induction xs arbitrary: x)
  case (Cons a xs)
  show ?case
  proof (cases "min_by_key f xs")
    case None
    with Cons.prems have "xs = []" "x = a" by (auto simp: min_by_key_None)
    then show ?thesis by simp
  next
    case (Some y)
    with Cons.IH have y: "y \<in> set xs" "\<forall>z \<in> set xs. f y \<le> f z" by auto
    from Cons.prems Some have "x = (if f a \<le> f y then a else y)" by (auto split: if_splits)
    with y show ?thesis by auto
  qed
qed simp

lemma cache_evict_one_capacity [simp]: "c_capacity (cache_evict_one c now) = c_capacity c"
  by (auto simp: cache_evict_one_def split: option.splits)

lemma cache_evict_one_cases:
  assumes "c_entries c \<noteq> []"
  obtains k e where "(k, e) \<in> set (c_entries c)"
    and "\<forall>(k', e') \<in> set (c_entries c). entry_remaining now e \<le> entry_remaining now e'"
    and "cache_evict_one c now = c\<lparr>c_entries := AList.delete k (c_entries c)\<rparr>"
proof -
  let ?f = "\<lambda>(_, e). entry_remaining now e"
  obtain k e where ke: "min_by_key ?f (c_entries c) = Some (k, e)"
    using assms min_by_key_None [of ?f "c_entries c"] by fastforce
  from min_by_key_Some [OF ke] have "(k, e) \<in> set (c_entries c)"
    and "\<forall>(k', e') \<in> set (c_entries c). entry_remaining now e \<le> entry_remaining now e'"
    by auto
  moreover from ke have "cache_evict_one c now = c\<lparr>c_entries := AList.delete k (c_entries c)\<rparr>"
    by (simp add: cache_evict_one_def)
  ultimately show thesis by (rule that)
qed

lemma cache_evict_one_lookup:
  "map_of (c_entries (cache_evict_one c now)) k = None \<or>
   map_of (c_entries (cache_evict_one c now)) k = map_of (c_entries c) k"
  by (auto simp: cache_evict_one_def delete_conv split: option.splits)

lemma cache_evict_one_distinct:
  "distinct (map fst (c_entries c)) \<Longrightarrow> distinct (map fst (c_entries (cache_evict_one c now)))"
  by (auto simp: cache_evict_one_def distinct_delete split: option.splits)

lemma length_delete_distinct:
  "distinct (map fst al) \<Longrightarrow> k \<in> fst ` set al \<Longrightarrow> length (AList.delete k al) = length al - 1"
proof (induction al)
  case (Cons a al)
  show ?case
  proof (cases "fst a = k")
    case True
    with Cons.prems have "k \<notin> fst ` set al" by auto
    then have "AList.delete k al = al" by (rule delete_id)
    with True show ?thesis by (cases a) (simp add: AList.delete_eq)
  next
    case False
    with Cons show ?thesis by (cases al) (auto simp: AList.delete_eq)
  qed
qed simp

lemma length_update:
  "length (AList.update k v al) = (if k \<in> fst ` set al then length al else Suc (length al))"
  by (induction al) auto

definition cache_inv :: "('n, 'd) cache \<Rightarrow> bool" where
  "cache_inv c \<longleftrightarrow> distinct (map fst (c_entries c)) \<and> length (c_entries c) \<le> max 1 (c_capacity c) \<and>
     (\<forall>(k, e) \<in> set (c_entries c). MIN_TTL \<le> e_ttl e \<and> e_ttl e \<le> MAX_TTL \<and>
        cacheable_ttl (e_message e) = Some (e_ttl e))"

lemma ttl_constants: "MIN_TTL \<le> NEGATIVE_TTL" "NEGATIVE_TTL \<le> MAX_TTL" "MIN_TTL \<le> MAX_TTL" "0 < MIN_TTL"
  by (simp_all add: MIN_TTL_def NEGATIVE_TTL_def MAX_TTL_def secs_def)

lemma cacheable_ttl_bounds: "cacheable_ttl m = Some t \<Longrightarrow> MIN_TTL \<le> t \<and> t \<le> MAX_TTL"
  using ttl_constants
  by (auto simp: cacheable_ttl_def clamp_def split: response_code.splits if_splits option.splits)

lemma update_set:
  "distinct (map fst al) \<Longrightarrow> (k', e') \<in> set (AList.update k e al) \<Longrightarrow>
   (k' = k \<and> e' = e) \<or> (k', e') \<in> set al"
proof -
  assume d: "distinct (map fst al)" and m: "(k', e') \<in> set (AList.update k e al)"
  have "distinct (map fst (AList.update k e al))" by (rule distinct_update [OF d])
  with m have "map_of (AList.update k e al) k' = Some e'" by simp
  then show ?thesis by (auto simp: update_conv map_of_SomeD split: if_splits)
qed

lemma cache_inv_new: "cache_inv (cache_new n)"
  by (simp add: cache_inv_def cache_new_def)

lemma cache_inv_evict: "cache_inv c \<Longrightarrow> cache_inv (cache_evict_one c now)"
proof (cases "c_entries c = []")
  case True
  then have "cache_evict_one c now = c" by (simp add: cache_evict_one_def)
  then show "cache_inv c \<Longrightarrow> ?thesis" by simp
next
  case False
  assume inv: "cache_inv c"
  obtain k where "cache_evict_one c now = c\<lparr>c_entries := AList.delete k (c_entries c)\<rparr>"
    using cache_evict_one_cases [OF False] by metis
  moreover have "set (AList.delete k (c_entries c)) \<subseteq> set (c_entries c)"
    by (auto simp: AList.delete_eq)
  moreover have "length (AList.delete k (c_entries c)) \<le> length (c_entries c)"
    by (simp add: AList.delete_eq)
  ultimately show ?thesis
    using inv by (auto simp: cache_inv_def distinct_delete)
qed

lemma cache_evict_one_length:
  assumes "cache_inv c" "c_entries c \<noteq> []"
  shows "length (c_entries (cache_evict_one c now)) = length (c_entries c) - 1"
proof -
  obtain k e where "(k, e) \<in> set (c_entries c)"
    and ev: "cache_evict_one c now = c\<lparr>c_entries := AList.delete k (c_entries c)\<rparr>"
    using cache_evict_one_cases [OF assms(2)] by metis
  then have "k \<in> fst ` set (c_entries c)" by force
  with assms(1) ev show ?thesis by (simp add: cache_inv_def length_delete_distinct)
qed

lemma cache_inv_insert: "cache_inv c \<Longrightarrow> cache_inv (fst (cache_insert_at c key m now))"
proof (cases "cacheable_ttl m")
  case None
  then show "cache_inv c \<Longrightarrow> ?thesis" by (simp add: cache_insert_at_def)
next
  case (Some ttl)
  assume inv: "cache_inv c"
  define c1 where "c1 = (if c_capacity c \<le> length (c_entries c) \<and> map_of (c_entries c) key = None
    then cache_evict_one c now else c)"
  define e where "e = \<lparr>e_message = m, e_stored_at = now, e_ttl = ttl\<rparr>"
  have ins: "fst (cache_insert_at c key m now) = c1\<lparr>c_entries := AList.update key e (c_entries c1)\<rparr>"
    using Some by (simp add: cache_insert_at_def c1_def e_def Let_def)
  have inv1: "cache_inv c1" using inv cache_inv_evict by (auto simp: c1_def)
  have cap: "c_capacity c1 = c_capacity c" by (simp add: c1_def)
  have "length (AList.update key e (c_entries c1)) \<le> max 1 (c_capacity c)"
  proof (cases "map_of (c_entries c) key = None \<and> c_capacity c \<le> length (c_entries c)")
    case True
    then have "c1 = cache_evict_one c now" by (simp add: c1_def)
    then have "length (c_entries c1) \<le> max 1 (c_capacity c) - 1"
      using inv cache_evict_one_length [OF inv, of now]
      by (cases "c_entries c = []") (auto simp: cache_inv_def cache_evict_one_def)
    then show ?thesis by (simp add: length_update) linarith
  next
    case False
    then have "c1 = c" by (auto simp: c1_def)
    moreover from False have "key \<in> fst ` set (c_entries c) \<or> length (c_entries c) < c_capacity c"
      by (auto simp: map_of_eq_None_iff)
    ultimately show ?thesis using inv by (auto simp: cache_inv_def length_update)
  qed
  moreover have "\<forall>(k, e) \<in> set (AList.update key e (c_entries c1)). MIN_TTL \<le> e_ttl e \<and>
      e_ttl e \<le> MAX_TTL \<and> cacheable_ttl (e_message e) = Some (e_ttl e)"
    using inv1 cacheable_ttl_bounds [OF Some] Some
    by (auto simp: cache_inv_def e_def dest!: update_set)
  ultimately show ?thesis
    using inv1 cap by (simp add: ins cache_inv_def distinct_update)
qed

lemma cache_inv_purge: "cache_inv c \<Longrightarrow> cache_inv (cache_purge_expired c now)"
  unfolding cache_inv_def cache_purge_expired_def
  by (auto simp: distinct_map_filter intro: le_trans [OF length_filter_le])

lemma cache_purge_lookup:
  assumes "distinct (map fst (c_entries c))"
  shows "cache_get_at (cache_purge_expired c now) k t = None \<or>
    cache_get_at (cache_purge_expired c now) k t = cache_get_at c k t"
proof (cases "map_of (c_entries (cache_purge_expired c now)) k")
  case (Some e)
  then have "(k, e) \<in> set (c_entries c)"
    using map_of_SomeD [OF Some] by (simp add: cache_purge_expired_def)
  with assms have "map_of (c_entries c) k = Some e" by simp
  with Some show ?thesis by (simp add: cache_get_at_eq)
qed (simp add: cache_get_at_eq)

lemma cache_inv_clear: "cache_inv (cache_clear c)"
  by (simp add: cache_inv_def cache_clear_def)

lemma cache_insert_same:
  assumes "cacheable_ttl m = Some ttl"
  shows "cache_get_at (fst (cache_insert_at c k m t)) k t' =
    (if t' - t < ttl then Some (aged (t' - t) m) else None)"
  using assms by (simp add: cache_insert_at_def cache_get_at_eq Let_def update_conv)

lemma cache_insert_other:
  assumes "k' \<noteq> k"
  shows "cache_get_at (fst (cache_insert_at c k m t)) k' t' = None \<or>
    cache_get_at (fst (cache_insert_at c k m t)) k' t' = cache_get_at c k' t'"
proof (cases "cacheable_ttl m")
  case (Some ttl)
  define c1 where "c1 = (if c_capacity c \<le> length (c_entries c) \<and> map_of (c_entries c) k = None
    then cache_evict_one c t else c)"
  have "map_of (c_entries (fst (cache_insert_at c k m t))) k' = map_of (c_entries c1) k'"
    using Some assms by (simp add: cache_insert_at_def Let_def update_conv c1_def)
  moreover have "map_of (c_entries c1) k' = None \<or> map_of (c_entries c1) k' = map_of (c_entries c) k'"
    using cache_evict_one_lookup [of c t k'] by (simp add: c1_def)
  ultimately have "map_of (c_entries (fst (cache_insert_at c k m t))) k' = None \<or>
      map_of (c_entries (fst (cache_insert_at c k m t))) k' = map_of (c_entries c) k'" by simp
  then show ?thesis by (elim disjE) (simp_all add: cache_get_at_eq)
qed (simp add: cache_insert_at_def)

interpretation dns_cache: ttl_store cache_get_at "\<lambda>c k m t. fst (cache_insert_at c k m t)"
  cacheable_ttl aged cache_inv
proof
  fix s :: "('a, 'b) cache" and k k' :: "'a key" and v :: "('a, 'b) message" and ttl t t' :: nat
  show "cacheable_ttl v = Some ttl \<Longrightarrow> cache_get_at (fst (cache_insert_at s k v t)) k t' =
      (if t' - t < ttl then Some (aged (t' - t) v) else None)"
    by (rule cache_insert_same)
  show "cacheable_ttl v = None \<Longrightarrow> fst (cache_insert_at s k v t) = s"
    by (simp add: cache_insert_at_def)
  show "k' \<noteq> k \<Longrightarrow> cache_get_at (fst (cache_insert_at s k v t)) k' t' = None \<or>
      cache_get_at (fst (cache_insert_at s k v t)) k' t' = cache_get_at s k' t'"
    by (rule cache_insert_other)
  show "cache_inv s \<Longrightarrow> cache_inv (fst (cache_insert_at s k v t))"
    by (rule cache_inv_insert)
qed

section \<open>Reachable caches\<close>

text \<open>
  The resolver's tasks and the purge loop interleave their operations on one cache behind a
  mutex; each rule is one operation under the lock, at any clock reading.
\<close>

inductive cache_reach :: "nat \<Rightarrow> ('n, 'd) cache \<Rightarrow> bool" for cap where
  reach_new: "cache_reach cap (cache_new cap)"
| reach_insert: "cache_reach cap c \<Longrightarrow> cache_reach cap (fst (cache_insert_at c k m now))"
| reach_purge: "cache_reach cap c \<Longrightarrow> cache_reach cap (cache_purge_expired c now)"
| reach_clear: "cache_reach cap c \<Longrightarrow> cache_reach cap (cache_clear c)"

lemma cache_insert_capacity [simp]: "c_capacity (fst (cache_insert_at c k m now)) = c_capacity c"
  by (auto simp: cache_insert_at_def Let_def split: option.splits)

lemma cache_reach_inv: "cache_reach cap c \<Longrightarrow> cache_inv c \<and> c_capacity c = cap"
proof (induction rule: cache_reach.induct)
  case reach_new
  then show ?case using cache_inv_new [of cap] by (simp add: cache_new_def)
next
  case (reach_insert c k m now)
  then show ?case by (simp add: cache_inv_insert)
next
  case (reach_purge c now)
  then show ?case using cache_inv_purge [of c now] by (simp add: cache_purge_expired_def)
next
  case (reach_clear c)
  then show ?case using cache_inv_clear [of c] by (simp add: cache_clear_def)
qed

lemma unat_saturating_sub32: "unat (saturating_sub32 a b) = unat a - unat b"
  by (auto simp: saturating_sub32_def unat_sub word_le_nat_alt)

lemma spent_exact:
  assumes "d < secs 3600"
  shows "unat (of_nat (as_secs d) :: u32) = as_secs d"
proof -
  have "as_secs d < 2 ^ 32" using as_secs_less [OF assms] by simp
  then show ?thesis by (simp add: unat_of_nat take_bit_nat_eq_self)
qed

section \<open>Properties\<close>

text \<open>C15: The cache's invariant, in every state reachable by any interleaving of insertions, purges
  and clears: keys are unique, the size never passes the capacity (one entry when the
  capacity is zero), and every entry is a cacheable response with a lifetime between five
  seconds and one hour.\<close>

theorem cache_reach_bounded:
  assumes "cache_reach cap c"
  shows "distinct (map fst (c_entries c)) \<and> cache_len c \<le> max 1 cap \<and>
    (\<forall>(k, e) \<in> set (c_entries c). secs 5 \<le> e_ttl e \<and> e_ttl e \<le> secs 3600 \<and>
       cacheable_ttl (e_message e) = Some (e_ttl e))"
  using cache_reach_inv [OF assms]
  by (auto simp: cache_inv_def cache_len_def MIN_TTL_def MAX_TTL_def)

definition sample_message :: "(string, unit) message" where
  "sample_message = message_new\<lparr>m_answers :=
     [\<lparr>rr_name = ''example.com.'', rr_type = RT_A, rr_ttl = 300, rr_data = Some (RD_A 93 184 216 34)\<rparr>]\<rparr>"

definition sample_key :: "string key" where
  "sample_key = \<lparr>k_name = ''example.com.'', k_type = RT_A\<rparr>"

lemma sample_cacheable: "cacheable_ttl sample_message = Some (secs 300)"
  by (simp add: cacheable_ttl_def sample_message_def message_new_def clamp_def MIN_TTL_def
      MAX_TTL_def secs_def)

theorem cache_reach_bounded_witness:
  "cache_len (fst (cache_insert_at (cache_new 2) sample_key sample_message 7)) \<le> max 1 2"
  using cache_reach_bounded [OF reach_insert [OF reach_new], of 2 sample_key sample_message 7] by blast

text \<open>C16: What a lookup serves: only an entry held for less than its lifetime (so less than an
  hour), with every answer and authority TTL reduced by the whole seconds held, never below
  zero and never wrapped. Additional records keep their original TTL.\<close>

theorem cache_get_counts_down:
  assumes "cache_inv c" "cache_get_at c key now = Some m"
  shows "\<exists>e. map_of (c_entries c) key = Some e \<and> now - e_stored_at e < e_ttl e \<and>
    now - e_stored_at e < secs 3600 \<and>
    map (\<lambda>r. unat (rr_ttl r)) (m_answers m) =
      map (\<lambda>r. unat (rr_ttl r) - as_secs (now - e_stored_at e)) (m_answers (e_message e)) \<and>
    map (\<lambda>r. unat (rr_ttl r)) (m_name_servers m) =
      map (\<lambda>r. unat (rr_ttl r) - as_secs (now - e_stored_at e)) (m_name_servers (e_message e)) \<and>
    m_additionals m = m_additionals (e_message e)"
proof -
  from assms(2) obtain e where e: "map_of (c_entries c) key = Some e"
      "now - e_stored_at e < e_ttl e" "m = aged (now - e_stored_at e) (e_message e)"
    by (auto simp: cache_get_at_eq split: option.splits if_splits)
  from assms(1) map_of_SomeD [OF e(1)] have "e_ttl e \<le> secs 3600"
    by (auto simp: cache_inv_def MAX_TTL_def)
  with e(2) have "now - e_stored_at e < secs 3600" by linarith
  with e spent_exact [of "now - e_stored_at e"] show ?thesis
    by (auto simp: aged_def spend_ttl_def unat_saturating_sub32)
qed

theorem cache_get_counts_down_witness:
  "map (\<lambda>r. unat (rr_ttl r)) (m_answers (aged (secs 100) sample_message)) = [200]"
proof -
  let ?c = "fst (cache_insert_at (cache_new 16) sample_key sample_message 0)"
  have inv: "cache_inv ?c" by (rule cache_inv_insert [OF cache_inv_new])
  have get: "cache_get_at ?c sample_key (secs 100) = Some (aged (secs 100) sample_message)"
    using cache_insert_same [OF sample_cacheable, of "cache_new 16" sample_key 0 "secs 100"]
    by (simp add: secs_def)
  have e: "map_of (c_entries ?c) sample_key =
      Some \<lparr>e_message = sample_message, e_stored_at = 0, e_ttl = secs 300\<rparr>"
    by (simp add: cache_insert_at_def sample_cacheable cache_new_def Let_def)
  from cache_get_counts_down [OF inv get] e show ?thesis
    by (auto simp: sample_message_def message_new_def)
qed

text \<open>Eviction: inserting a new key into a full cache drops exactly one entry, one that expires
  soonest, keeps every other entry, and adds the new one.\<close>

theorem cache_insert_evicts_soonest:
  assumes "cache_inv c" "c_capacity c = length (c_entries c)" "c_entries c \<noteq> []"
    and "map_of (c_entries c) key = None" "cacheable_ttl m = Some ttl"
  shows "\<exists>victim e. (victim, e) \<in> set (c_entries c) \<and>
    (\<forall>(k', e') \<in> set (c_entries c). entry_remaining now e \<le> entry_remaining now e') \<and>
    map_of (c_entries (fst (cache_insert_at c key m now))) =
      (map_of (c_entries c))(victim := None,
         key \<mapsto> \<lparr>e_message = m, e_stored_at = now, e_ttl = ttl\<rparr>) \<and>
    cache_len (fst (cache_insert_at c key m now)) = cache_len c"
proof -
  obtain k e where ke: "(k, e) \<in> set (c_entries c)"
    "\<forall>(k', e') \<in> set (c_entries c). entry_remaining now e \<le> entry_remaining now e'"
    "cache_evict_one c now = c\<lparr>c_entries := AList.delete k (c_entries c)\<rparr>"
    using cache_evict_one_cases [OF assms(3)] by metis
  let ?e = "\<lparr>e_message = m, e_stored_at = now, e_ttl = ttl\<rparr>"
  have ins: "c_entries (fst (cache_insert_at c key m now)) =
      AList.update key ?e (AList.delete k (c_entries c))"
    using assms(2,4,5) ke(3) by (simp add: cache_insert_at_def Let_def)
  have "key \<notin> fst ` set (c_entries c)" using assms(4) by (simp add: map_of_eq_None_iff)
  then have "key \<notin> fst ` set (AList.delete k (c_entries c))" by (auto simp: AList.delete_eq)
  moreover have "k \<in> fst ` set (c_entries c)" using ke(1) by force
  ultimately have "cache_len (fst (cache_insert_at c key m now)) = cache_len c"
    using assms(1,3) by (simp add: cache_len_def ins length_update length_delete_distinct cache_inv_def)
  with ke ins show ?thesis
    by (intro exI [of _ k] exI [of _ e]) (simp add: update_conv' delete_conv')
qed

theorem cache_insert_evicts_soonest_witness:
  "\<exists>c' :: (string, unit) cache. cache_len c' = 1 \<and>
     map_of (c_entries c') \<lparr>k_name = ''b.'', k_type = RT_A\<rparr> \<noteq> None \<and> map_of (c_entries c') sample_key = None"
proof -
  define c where "c = fst (cache_insert_at (cache_new 1) sample_key sample_message 0)"
  let ?k = "\<lparr>k_name = ''b.'', k_type = RT_A\<rparr>"
  have ents: "c_entries c = [(sample_key, \<lparr>e_message = sample_message, e_stored_at = 0, e_ttl = secs 300\<rparr>)]"
    by (simp add: c_def cache_insert_at_def sample_cacheable cache_new_def Let_def)
  have "cache_inv c" unfolding c_def by (rule cache_inv_insert [OF cache_inv_new])
  moreover have "c_capacity c = length (c_entries c)"
    using ents by (simp add: c_def cache_new_def)
  moreover have "c_entries c \<noteq> []" "map_of (c_entries c) ?k = None"
    unfolding ents by (simp_all add: sample_key_def)
  ultimately obtain victim e where v: "(victim, e) \<in> set (c_entries c)"
    and m: "map_of (c_entries (fst (cache_insert_at c ?k sample_message 5))) =
      (map_of (c_entries c))(victim := None,
         ?k \<mapsto> \<lparr>e_message = sample_message, e_stored_at = 5, e_ttl = secs 300\<rparr>)"
    and l: "cache_len (fst (cache_insert_at c ?k sample_message 5)) = cache_len c"
    using cache_insert_evicts_soonest [of c ?k sample_message "secs 300" 5] sample_cacheable by blast
  from v have "victim = sample_key" by (simp add: ents)
  with m l show ?thesis
    by (intro exI [of _ "fst (cache_insert_at c ?k sample_message 5)"])
      (simp add: cache_len_def ents sample_key_def)
qed

text \<open>The periodic purge is invisible: at the purge time and at every later one, every lookup
  answers as it would have without the purge.\<close>

theorem cache_purge_transparent:
  assumes "distinct (map fst (c_entries c))" "now \<le> later"
  shows "cache_get_at (cache_purge_expired c now) key later = cache_get_at c key later"
proof -
  let ?p = "\<lambda>(_, e). now - e_stored_at e < e_ttl e"
  have dist: "distinct (map fst (filter ?p (c_entries c)))"
    using assms(1) by (rule distinct_map_filter)
  show ?thesis
  proof (cases "map_of (c_entries c) key")
    case None
    then have "key \<notin> fst ` set (c_entries c)" by (simp add: map_of_eq_None_iff)
    then have "map_of (filter ?p (c_entries c)) key = None"
      by (auto simp: map_of_eq_None_iff)
    with None show ?thesis by (simp add: cache_get_at_eq cache_purge_expired_def)
  next
    case (Some e)
    show ?thesis
    proof (cases "now - e_stored_at e < e_ttl e")
      case True
      with Some have "(key, e) \<in> set (filter ?p (c_entries c))" by (auto dest: map_of_SomeD)
      with dist have "map_of (filter ?p (c_entries c)) key = Some e" by simp
      with Some show ?thesis by (simp add: cache_get_at_eq cache_purge_expired_def)
    next
      case False
      have "map_of (filter ?p (c_entries c)) key = None"
      proof (rule ccontr)
        assume "map_of (filter ?p (c_entries c)) key \<noteq> None"
        then obtain e' where e': "map_of (filter ?p (c_entries c)) key = Some e'" by blast
        from map_of_SomeD [OF this] have "(key, e') \<in> set (c_entries c)" "?p (key, e')" by auto
        with assms(1) Some have "e' = e" by simp
        with \<open>?p (key, e')\<close> False show False by simp
      qed
      moreover from False assms(2) have "\<not> later - e_stored_at e < e_ttl e" by linarith
      ultimately show ?thesis using Some by (simp add: cache_get_at_eq cache_purge_expired_def)
    qed
  qed
qed

theorem cache_purge_transparent_witness:
  "cache_get_at (cache_purge_expired (fst (cache_insert_at (cache_new 4) sample_key sample_message 0)) (secs 9))
     sample_key (secs 10) \<noteq> None"
proof -
  let ?c = "fst (cache_insert_at (cache_new 4) sample_key sample_message 0)"
  have "distinct (map fst (c_entries ?c))" using cache_inv_insert [OF cache_inv_new] by (auto simp: cache_inv_def)
  then have "cache_get_at (cache_purge_expired ?c (secs 9)) sample_key (secs 10) =
      cache_get_at ?c sample_key (secs 10)"
    by (rule cache_purge_transparent) (simp add: secs_def)
  then show ?thesis
    using cache_insert_same [OF sample_cacheable, of "cache_new 4" sample_key 0 "secs 10"]
    by (simp add: secs_def)
qed

end
