(* ===== verification/Fallback.thy ===== *)
theory Fallback
  imports Main
begin

text \<open>
  The contract two components share: an ordered list of servers is tried from the front, the
  first acceptable answer is returned, and the rest are never asked. The DoH resolver
  (providers) and the plain-DNS forwarder (system resolvers) both interpret it.
\<close>

locale fallback_chain =
  fixes attempt :: "'u \<Rightarrow> 'e + 'r"
    and run :: "'u list \<Rightarrow> 'r option"
  assumes run_Nil: "run [] = None"
    and run_accept: "attempt u = Inr r \<Longrightarrow> run (u # us) = Some r"
    and run_skip: "attempt u = Inl e \<Longrightarrow> run (u # us) = run us"
begin

lemma run_skips:
  "\<forall>x \<in> set xs. \<exists>e. attempt x = Inl e \<Longrightarrow> run (xs @ us) = run us"
  by (induction xs) (auto simp: run_skip)

lemma run_None: "run us = None \<longleftrightarrow> (\<forall>u \<in> set us. \<exists>e. attempt u = Inl e)"
proof (induction us)
  case (Cons u us)
  then show ?case by (cases "attempt u") (auto simp: run_accept run_skip)
qed (simp add: run_Nil)

lemma run_Some:
  "run us = Some r \<longleftrightarrow>
     (\<exists>xs u ys. us = xs @ u # ys \<and> (\<forall>x \<in> set xs. \<exists>e. attempt x = Inl e) \<and> attempt u = Inr r)"
proof (induction us)
  case (Cons u us)
  show ?case
  proof (cases "attempt u")
    case (Inl e)
    have "run (u # us) = Some r \<longleftrightarrow> run us = Some r" by (simp add: run_skip [OF Inl])
    also have "\<dots> \<longleftrightarrow> (\<exists>xs v ys. us = xs @ v # ys \<and> (\<forall>x \<in> set xs. \<exists>e. attempt x = Inl e) \<and> attempt v = Inr r)"
      by (rule Cons.IH)
    also have "\<dots> \<longleftrightarrow> (\<exists>xs v ys. u # us = xs @ v # ys \<and> (\<forall>x \<in> set xs. \<exists>e. attempt x = Inl e) \<and> attempt v = Inr r)"
      (is "?L \<longleftrightarrow> ?R")
    proof
      assume ?L
      then obtain xs v ys where "us = xs @ v # ys" "\<forall>x \<in> set xs. \<exists>e. attempt x = Inl e" "attempt v = Inr r"
        by blast
      with Inl show ?R by (intro exI [of _ "u # xs"] exI [of _ v] exI [of _ ys]) simp
    next
      assume ?R
      then obtain xs v ys where *: "u # us = xs @ v # ys" "\<forall>x \<in> set xs. \<exists>e. attempt x = Inl e" "attempt v = Inr r"
        by blast
      with Inl obtain zs where "xs = u # zs" by (cases xs) auto
      with * show ?L by auto
    qed
    finally show ?thesis .
  next
    case (Inr r')
    have "run (u # us) = Some r \<longleftrightarrow> r' = r" by (simp add: run_accept [OF Inr])
    also have "\<dots> \<longleftrightarrow> (\<exists>xs v ys. u # us = xs @ v # ys \<and> (\<forall>x \<in> set xs. \<exists>e. attempt x = Inl e) \<and> attempt v = Inr r)"
      (is "_ \<longleftrightarrow> ?R")
    proof
      assume "r' = r"
      with Inr show ?R by (intro exI [of _ "[]"] exI [of _ u] exI [of _ us]) simp
    next
      assume ?R
      then obtain xs v ys where *: "u # us = xs @ v # ys" "\<forall>x \<in> set xs. \<exists>e. attempt x = Inl e" "attempt v = Inr r"
        by blast
      with Inr have "xs = []" by (cases xs) auto
      with * Inr show "r' = r" by simp
    qed
    finally show ?thesis .
  qed
qed (simp add: run_Nil)

end

end
