(* ===== verification/Resolver.thy ===== *)
theory Resolver
  imports Cache Provider Fallback
begin

text \<open>
  \<open>crates/dns-core/src/resolver.rs\<close>: the DoH resolver. The HTTP client is \<open>reqwest\<close>, outside the
  repository: \<open>client_build\<close> (building a client that is pinned to addresses, or not) and
  \<open>post\<close> (one request over such a client) are arguments, clients a type parameter \<open>'c\<close>. The
  two critical sections of \<open>resolve\<close> on the shared cache are separate: \<open>interfere\<close> is what other
  tasks do to the cache between them.
\<close>

section \<open>The code\<close>

definition DNS_MESSAGE :: string where "DNS_MESSAGE = ''application/dns-message''"
definition DEFAULT_CACHE_CAPACITY :: nat where "DEFAULT_CACHE_CAPACITY = 4096"

datatype resolve_error =
    NoProviders
  | AllProvidersFailed nat resolve_error
  | HttpStatus string nat
  | BadContentType string "string option"
  | Transport string string
  | DecodeError string string
  | EncodeError string
  | BadEndpoint string string
  | ClientBuild string string

text \<open>\<open>Debug\<close> of a header value (visible ASCII or tabs), and the \<open>Display\<close> texts of the error type.\<close>

definition debug_char :: "char \<Rightarrow> string" where
  "debug_char c =
     (if c = CHR 0x22 then [CHR 0x5C, CHR 0x22]
      else if c = CHR 0x5C then [CHR 0x5C, CHR 0x5C]
      else if c = CHR 0x09 then [CHR 0x5C, CHR ''t'']
      else [c])"

definition debug_opt :: "string option \<Rightarrow> string" where
  "debug_opt s = (case s of None \<Rightarrow> ''None''
     | Some s \<Rightarrow> ''Some('' @ [CHR 0x22] @ concat (map debug_char s) @ [CHR 0x22] @ '')'')"

fun show_resolve_error :: "resolve_error \<Rightarrow> string" where
  "show_resolve_error NoProviders = ''no DoH providers configured''"
| "show_resolve_error (AllProvidersFailed tried source) =
     ''all '' @ show_nat tried @ '' provider(s) failed; last error: '' @ show_resolve_error source"
| "show_resolve_error (HttpStatus provider status) =
     ''provider '' @ provider @ '' returned HTTP '' @ show_nat status"
| "show_resolve_error (BadContentType provider content_type) =
     ''provider '' @ provider @ '' returned content-type '' @ debug_opt content_type @ '', expected '' @ DNS_MESSAGE"
| "show_resolve_error (Transport provider source) =
     ''transport error talking to '' @ provider @ '': '' @ source"
| "show_resolve_error (DecodeError provider source) =
     ''could not parse DNS response from '' @ provider @ '': '' @ source"
| "show_resolve_error (EncodeError source) = ''could not encode DNS query: '' @ source"
| "show_resolve_error (BadEndpoint provider url) =
     ''provider '' @ provider @ '' has no usable https endpoint ('' @ url @ '')''"
| "show_resolve_error (ClientBuild provider source) =
     ''failed to build HTTP client for '' @ provider @ '': '' @ source"

record 'c upstream =
  u_provider :: provider
  u_client :: 'c

record 'c doh_resolver =
  r_upstreams :: "'c upstream list"

record http_response =
  h_status :: nat
  h_content_type :: "string option"
  h_body :: "string + bytes"

type_synonym 'c client_builder = "(string \<times> socket_addr list) option \<Rightarrow> string + 'c"
type_synonym 'c http_post = "'c \<Rightarrow> string \<Rightarrow> bytes \<Rightarrow> string + http_response"

definition build_upstream :: "'c client_builder \<Rightarrow> provider \<Rightarrow> resolve_error + 'c upstream" where
  "build_upstream client_build provider =
     (case provider_host provider of
        None \<Rightarrow> Inl (BadEndpoint (p_name provider) (p_url provider))
      | Some host \<Rightarrow>
          (let addrs = bootstrap_addrs provider;
               pin = (if addrs \<noteq> [] then Some (host, addrs) else None) in
           case client_build pin of
             Inl source \<Rightarrow> Inl (ClientBuild (p_name provider) source)
           | Inr client \<Rightarrow> Inr \<lparr>u_provider = provider, u_client = client\<rparr>))"

fun build_upstreams :: "'c client_builder \<Rightarrow> provider list \<Rightarrow> resolve_error + 'c upstream list" where
  "build_upstreams client_build [] = Inr []"
| "build_upstreams client_build (p # ps) =
     (case build_upstream client_build p of
        Inl e \<Rightarrow> Inl e
      | Inr u \<Rightarrow> (case build_upstreams client_build ps of Inl e \<Rightarrow> Inl e | Inr us \<Rightarrow> Inr (u # us)))"

definition resolver_with_capacity ::
    "'c client_builder \<Rightarrow> provider list \<Rightarrow> nat \<Rightarrow> resolve_error + ('c doh_resolver \<times> ('n, 'd) cache)" where
  "resolver_with_capacity client_build providers cache_capacity =
     (if providers = [] then Inl NoProviders
      else (case build_upstreams client_build providers of
              Inl e \<Rightarrow> Inl e
            | Inr us \<Rightarrow> Inr (\<lparr>r_upstreams = us\<rparr>, cache_new cache_capacity)))"

definition resolver_new ::
    "'c client_builder \<Rightarrow> provider list \<Rightarrow> resolve_error + ('c doh_resolver \<times> ('n, 'd) cache)" where
  "resolver_new client_build providers =
     resolver_with_capacity client_build providers DEFAULT_CACHE_CAPACITY"

definition provider_names :: "'c doh_resolver \<Rightarrow> string list" where
  "provider_names r = map (\<lambda>u. p_name (u_provider u)) (r_upstreams r)"

definition build_query :: "'n \<Rightarrow> record_type \<Rightarrow> ('n, 'd) message" where
  "build_query name rt = message_new\<lparr>m_id := 0, m_type := MT_Query, m_opcode := OP_Query,
     m_rd := True, m_queries := [\<lparr>q_name = name, q_type = rt\<rparr>]\<rparr>"

definition query_one ::
    "('n, 'd) codec \<Rightarrow> 'c http_post \<Rightarrow> 'c upstream \<Rightarrow> ('n, 'd) message \<Rightarrow> resolve_error + ('n, 'd) message" where
  "query_one codec post u query =
     (let name = p_name (u_provider u) in
      case enc codec query of
        Inl e \<Rightarrow> Inl (EncodeError e)
      | Inr body \<Rightarrow>
          (case post (u_client u) (p_url (u_provider u)) body of
             Inl source \<Rightarrow> Inl (Transport name source)
           | Inr response \<Rightarrow>
               if \<not> (200 \<le> h_status response \<and> h_status response < 300)
               then Inl (HttpStatus name (h_status response))
               else if \<not> (case h_content_type response of
                             Some c \<Rightarrow> starts_with DNS_MESSAGE c | None \<Rightarrow> False)
               then Inl (BadContentType name (h_content_type response))
               else (case h_body response of
                       Inl source \<Rightarrow> Inl (Transport name source)
                     | Inr bytes \<Rightarrow>
                         (case dec codec bytes of
                            Inl source \<Rightarrow> Inl (DecodeError name source)
                          | Inr m \<Rightarrow> Inr m))))"

fun resolve_loop ::
    "('n, 'd) codec \<Rightarrow> 'c http_post \<Rightarrow> ('n, 'd) message \<Rightarrow> 'c upstream list \<Rightarrow> resolve_error option \<Rightarrow>
     resolve_error option + ('n, 'd) message" where
  "resolve_loop codec post query [] lst = Inl lst"
| "resolve_loop codec post query (u # us) lst =
     (case query_one codec post u query of
        Inr response \<Rightarrow>
          (if m_rcode response = ServFail
           then resolve_loop codec post query us (Some (HttpStatus (p_name (u_provider u)) 502))
           else Inr response)
      | Inl err \<Rightarrow> resolve_loop codec post query us (Some err))"

definition resolve_uncached ::
    "('n, 'd) codec \<Rightarrow> 'c http_post \<Rightarrow> 'c doh_resolver \<Rightarrow> ('n, 'd) message \<Rightarrow> resolve_error + ('n, 'd) message" where
  "resolve_uncached codec post r query =
     (case resolve_loop codec post query (r_upstreams r) None of
        Inr m \<Rightarrow> Inr m
      | Inl lst \<Rightarrow> Inl (AllProvidersFailed (length (r_upstreams r))
                      (case lst of Some e \<Rightarrow> e | None \<Rightarrow> NoProviders)))"

definition resolve ::
    "('n, 'd) codec \<Rightarrow> 'c http_post \<Rightarrow> ('n \<Rightarrow> 'n) \<Rightarrow> (('n, 'd) cache \<Rightarrow> ('n, 'd) cache) \<Rightarrow> 'c doh_resolver \<Rightarrow>
     'n \<Rightarrow> record_type \<Rightarrow> nat \<Rightarrow> nat \<Rightarrow> ('n, 'd) cache \<Rightarrow> (resolve_error + ('n, 'd) message) \<times> ('n, 'd) cache" where
  "resolve codec post to_lowercase interfere r name rt now1 now2 c =
     (let key = key_new to_lowercase name rt in
      case cache_get_at c key now1 of
        Some hit \<Rightarrow> (Inr hit, c)
      | None \<Rightarrow>
          (case resolve_uncached codec post r (build_query name rt) of
             Inl e \<Rightarrow> (Inl e, interfere c)
           | Inr response \<Rightarrow>
               (Inr response, fst (cache_insert_at (interfere c) key response now2))))"

section \<open>The provider chain\<close>

definition accepted ::
    "('n, 'd) codec \<Rightarrow> 'c http_post \<Rightarrow> ('n, 'd) message \<Rightarrow> 'c upstream \<Rightarrow> resolve_error + ('n, 'd) message" where
  "accepted codec post query u =
     (case query_one codec post u query of
        Inl e \<Rightarrow> Inl e
      | Inr m \<Rightarrow> if m_rcode m = ServFail then Inl (HttpStatus (p_name (u_provider u)) 502) else Inr m)"

definition chain_answer ::
    "('n, 'd) codec \<Rightarrow> 'c http_post \<Rightarrow> ('n, 'd) message \<Rightarrow> 'c upstream list \<Rightarrow> ('n, 'd) message option" where
  "chain_answer codec post query us =
     (case resolve_loop codec post query us None of Inr m \<Rightarrow> Some m | Inl _ \<Rightarrow> None)"

lemma resolve_loop_last:
  "(case resolve_loop codec post query us l of Inr m \<Rightarrow> Some m | Inl _ \<Rightarrow> None) =
   chain_answer codec post query us"
proof (induction us arbitrary: l)
  case (Cons u us)
  then show ?case
    by (cases "query_one codec post u query") (simp_all add: chain_answer_def)
qed (simp add: chain_answer_def)

lemma chain_answer_Cons:
  "chain_answer codec post query (u # us) =
     (case accepted codec post query u of Inr m \<Rightarrow> Some m | Inl _ \<Rightarrow> chain_answer codec post query us)"
  by (cases "query_one codec post u query")
    (simp_all add: chain_answer_def [of _ _ _ "u # us"] resolve_loop_last accepted_def)

interpretation doh: fallback_chain "accepted codec post query" "chain_answer codec post query"
  for codec post query
  by standard (simp_all add: chain_answer_Cons, simp add: chain_answer_def)

lemma resolve_loop_error:
  "resolve_loop codec post query us l = Inl l' \<Longrightarrow>
   l' = (if us = [] then l
         else Some (projl (accepted codec post query (last us))))"
proof (induction us arbitrary: l)
  case (Cons u us)
  then show ?case
    by (cases "query_one codec post u query")
      (auto simp: accepted_def split: if_splits sum.splits)
qed simp

lemma resolve_uncached_Inr:
  "resolve_uncached codec post r query = Inr m \<longleftrightarrow> chain_answer codec post query (r_upstreams r) = Some m"
  by (auto simp: resolve_uncached_def chain_answer_def split: sum.splits)

lemma accepted_Inr:
  "accepted codec post query u = Inr m \<longleftrightarrow> query_one codec post u query = Inr m \<and> m_rcode m \<noteq> ServFail"
  by (auto simp: accepted_def split: sum.splits if_splits)

section \<open>Runs of the resolver\<close>

text \<open>
  Every state of the shared cache while the program runs, with the replies inserted so far
  (key, reply, time). A step is one critical section of one task: the insertion that ends a
  cache miss (the network is any \<open>post\<close>, a new one at each step), the purge loop, or a clear.
\<close>

inductive resolver_run ::
    "('n, 'd) codec \<Rightarrow> ('n \<Rightarrow> 'n) \<Rightarrow> 'c doh_resolver \<Rightarrow> nat \<Rightarrow>
     ('n key \<times> ('n, 'd) message \<times> nat) list \<Rightarrow> ('n, 'd) cache \<Rightarrow> bool"
  for codec to_lowercase r cap where
  run_start: "resolver_run codec to_lowercase r cap [] (cache_new cap)"
| run_insert:
    "resolver_run codec to_lowercase r cap hist c \<Longrightarrow>
     resolve_uncached codec post r (build_query name rt) = Inr m \<Longrightarrow>
     resolver_run codec to_lowercase r cap ((key_new to_lowercase name rt, m, now) # hist)
       (fst (cache_insert_at c (key_new to_lowercase name rt) m now))"
| run_purge:
    "resolver_run codec to_lowercase r cap hist c \<Longrightarrow>
     resolver_run codec to_lowercase r cap hist (cache_purge_expired c now)"
| run_clear:
    "resolver_run codec to_lowercase r cap hist c \<Longrightarrow>
     resolver_run codec to_lowercase r cap hist (cache_clear c)"

lemma resolver_run_inv:
  "resolver_run codec to_lowercase r cap hist c \<Longrightarrow> cache_inv c"
  by (induction rule: resolver_run.induct)
    (simp_all add: cache_inv_new cache_inv_insert cache_inv_purge cache_inv_clear)

lemma resolver_run_explained:
  "resolver_run codec to_lowercase r cap hist c \<Longrightarrow> explained cache_get_at cacheable_ttl aged hist c"
proof (induction rule: resolver_run.induct)
  case run_start
  show ?case by (rule dns_cache.explained_empty) (simp add: cache_get_at_eq cache_new_def)
next
  case (run_insert hist c post name rt m now)
  then show ?case by (intro dns_cache.explained_store resolver_run_inv)
next
  case (run_purge hist c now)
  then have "cache_get_at (cache_purge_expired c now) k t = None \<or>
      cache_get_at (cache_purge_expired c now) k t = cache_get_at c k t" for k t
    using resolver_run_inv [OF run_purge.hyps]
    by (intro cache_purge_lookup) (simp add: cache_inv_def)
  with run_purge.IH show ?case by (rule dns_cache.explained_forget)
next
  case (run_clear hist c)
  show ?case
    by (rule dns_cache.explained_forget [OF run_clear.IH]) (simp add: cache_get_at_eq cache_clear_def)
qed

lemma resolve_uncached_not_servfail:
  "resolve_uncached codec post r query = Inr m \<Longrightarrow> m_rcode m \<noteq> ServFail"
  by (auto simp: resolve_uncached_Inr doh.run_Some accepted_Inr)

lemma resolve_stays_in_run:
  assumes "resolver_run codec to_lowercase r cap hist (interfere c)"
    and "cache_get_at c (key_new to_lowercase name rt) now1 = None"
  shows "\<exists>hist'. resolver_run codec to_lowercase r cap hist'
    (snd (resolve codec post to_lowercase interfere r name rt now1 now2 c))"
proof (cases "resolve_uncached codec post r (build_query name rt)")
  case (Inl e)
  with assms show ?thesis by (auto simp: resolve_def Let_def)
next
  case (Inr m)
  from run_insert [OF assms(1) this] assms(2) Inr show ?thesis
    by (intro exI) (simp add: resolve_def Let_def)
qed

section \<open>Properties\<close>

text \<open>C6: Provider fallback: an uncached resolution answers with the reply of the first provider
  whose reply is accepted (transport, 2xx status, DNS content type, decodable, not SERVFAIL),
  every provider before it having been rejected; and it fails exactly when every provider is
  rejected, reporting how many were tried and the last one's error.\<close>

theorem resolve_uncached_first_accepted:
  "(resolve_uncached codec post r query = Inr m \<longleftrightarrow>
     (\<exists>xs u ys. r_upstreams r = xs @ u # ys \<and> (\<forall>x \<in> set xs. \<exists>e. accepted codec post query x = Inl e) \<and>
        query_one codec post u query = Inr m \<and> m_rcode m \<noteq> ServFail)) \<and>
   (resolve_uncached codec post r query = Inl e \<longleftrightarrow>
     (\<forall>x \<in> set (r_upstreams r). \<exists>e'. accepted codec post query x = Inl e') \<and>
     e = AllProvidersFailed (length (r_upstreams r))
           (if r_upstreams r = [] then NoProviders
            else projl (accepted codec post query (last (r_upstreams r)))))"
proof
  show "resolve_uncached codec post r query = Inr m \<longleftrightarrow>
     (\<exists>xs u ys. r_upstreams r = xs @ u # ys \<and> (\<forall>x \<in> set xs. \<exists>e. accepted codec post query x = Inl e) \<and>
        query_one codec post u query = Inr m \<and> m_rcode m \<noteq> ServFail)"
    by (simp add: resolve_uncached_Inr doh.run_Some accepted_Inr)
  have none: "(\<forall>x \<in> set (r_upstreams r). \<exists>e'. accepted codec post query x = Inl e') \<longleftrightarrow>
      (\<exists>l. resolve_loop codec post query (r_upstreams r) None = Inl l)"
    unfolding doh.run_None [symmetric] by (auto simp: chain_answer_def split: sum.splits)
  show "resolve_uncached codec post r query = Inl e \<longleftrightarrow>
     (\<forall>x \<in> set (r_upstreams r). \<exists>e'. accepted codec post query x = Inl e') \<and>
     e = AllProvidersFailed (length (r_upstreams r))
           (if r_upstreams r = [] then NoProviders
            else projl (accepted codec post query (last (r_upstreams r))))"
    unfolding none
    by (cases "resolve_loop codec post query (r_upstreams r) None")
      (auto simp: resolve_uncached_def dest!: resolve_loop_error)
qed

text \<open>C1: Provenance, under any interleaving of lookups, insertions, purges and clears: an answer of
  \<open>resolve\<close> is either the fresh reply of the provider chain, or a reply the chain gave
  earlier to the same (lower-cased) name and type, held for less than its cacheable lifetime
  (at most an hour), with its TTLs counted down by the time held. SERVFAIL is never served.\<close>

theorem resolve_provenance:
  assumes "resolver_run codec to_lowercase r cap hist c"
    and "fst (resolve codec post to_lowercase interfere r name rt now1 now2 c) = Inr m"
  shows "m_rcode m \<noteq> ServFail \<and>
    (resolve_uncached codec post r (build_query name rt) = Inr m \<or>
     (\<exists>m0 t ttl. (key_new to_lowercase name rt, m0, t) \<in> set hist \<and> cacheable_ttl m0 = Some ttl \<and>
        now1 - t < ttl \<and> ttl \<le> secs 3600 \<and> m = aged (now1 - t) m0))"
proof (cases "cache_get_at c (key_new to_lowercase name rt) now1")
  case None
  with assms(2) have "resolve_uncached codec post r (build_query name rt) = Inr m"
    by (auto simp: resolve_def Let_def split: sum.splits)
  then show ?thesis using resolve_uncached_not_servfail by blast
next
  case (Some hit)
  with assms(2) have "hit = m" by (simp add: resolve_def Let_def)
  with Some resolver_run_explained [OF assms(1)] obtain m0 t ttl where
    *: "(key_new to_lowercase name rt, m0, t) \<in> set hist" "cacheable_ttl m0 = Some ttl"
       "now1 - t < ttl" "m = aged (now1 - t) m0"
    unfolding explained_def by blast
  then have "m_rcode m \<noteq> ServFail" "ttl \<le> secs 3600"
    using cacheable_ttl_bounds [OF *(2)]
    by (auto simp: cacheable_ttl_def aged_def MAX_TTL_def split: response_code.splits)
  with * show ?thesis by blast
qed

definition sample_codec :: "(string, unit) codec" where
  "sample_codec = \<lparr>enc = (\<lambda>_. Inr []), dec = (\<lambda>_. Inr sample_message)\<rparr>"

definition sample_post :: "unit http_post" where
  "sample_post _ _ _ =
     Inr \<lparr>h_status = 200, h_content_type = Some ''application/dns-message'', h_body = Inr []\<rparr>"

definition sample_resolver :: "unit doh_resolver" where
  "sample_resolver = \<lparr>r_upstreams = [\<lparr>u_provider = cloudflare, u_client = ()\<rparr>]\<rparr>"

lemma sample_uncached:
  "resolve_uncached sample_codec sample_post sample_resolver (build_query ''example.com.'' RT_A) = Inr sample_message"
  by (simp add: resolve_uncached_def sample_resolver_def query_one_def sample_codec_def
      sample_post_def starts_with_def DNS_MESSAGE_def sample_message_def message_new_def Let_def)

theorem resolve_provenance_witness:
  "m_rcode (aged (secs 7) sample_message) \<noteq> ServFail"
proof -
  let ?k = "key_new id ''example.com.'' RT_A"
  let ?c = "fst (cache_insert_at (cache_new 8) ?k sample_message (secs 1))"
  have run: "resolver_run sample_codec id sample_resolver 8 [(?k, sample_message, secs 1)] ?c"
    by (rule run_insert [OF run_start sample_uncached])
  have "cache_get_at ?c ?k (secs 8) = Some (aged (secs 7) sample_message)"
    using cache_insert_same [OF sample_cacheable, of "cache_new 8" ?k "secs 1" "secs 8"]
    by (simp add: secs_def)
  then have "fst (resolve sample_codec sample_post id id sample_resolver ''example.com.'' RT_A
      (secs 8) (secs 8) ?c) = Inr (aged (secs 7) sample_message)"
    by (simp add: resolve_def Let_def)
  from resolve_provenance [OF run this] show ?thesis by blast
qed

theorem resolve_uncached_first_accepted_witness:
  "\<exists>xs u ys. r_upstreams sample_resolver = xs @ u # ys \<and>
     query_one sample_codec sample_post u (build_query ''example.com.'' RT_A) = Inr sample_message"
  using resolve_uncached_first_accepted [THEN conjunct1, THEN iffD1, OF sample_uncached] by blast

text \<open>Construction: a resolver is built only from a non-empty provider list, keeps the providers in
  order, and every provider that lists bootstrap addresses got a client pinned to its own host
  with exactly those addresses on port 443, so that its name is never looked up.\<close>

lemma built_upstreams:
  assumes "resolver_new client_build providers = Inr (r, c)"
  shows "providers \<noteq> [] \<and> map u_provider (r_upstreams r) = providers \<and> cache_reach 4096 c \<and>
    (\<forall>u \<in> set (r_upstreams r). \<exists>host. provider_host (u_provider u) = Some host \<and>
       client_build (if p_bootstrap (u_provider u) = [] then None
                     else Some (host, map (\<lambda>ip. socket_new ip 443) (p_bootstrap (u_provider u)))) = Inr (u_client u))"
proof -
  have up: "u_provider u = p \<and> (\<exists>host. provider_host p = Some host \<and>
      client_build (if p_bootstrap p = [] then None
                    else Some (host, map (\<lambda>ip. socket_new ip 443) (p_bootstrap p))) = Inr (u_client u))"
    if "build_upstream client_build p = Inr u" for p u
    using that by (auto simp: build_upstream_def bootstrap_addrs_def Let_def split: option.splits sum.splits if_splits)
  have ups: "map u_provider us = ps \<and> (\<forall>u \<in> set us. \<exists>p. build_upstream client_build p = Inr u)"
    if "build_upstreams client_build ps = Inr us" for ps us
    using that
  proof (induction ps arbitrary: us)
    case (Cons p ps)
    then obtain u us' where "build_upstream client_build p = Inr u"
      "build_upstreams client_build ps = Inr us'" "us = u # us'"
      by (auto split: sum.splits)
    with Cons.IH up show ?case by auto
  qed simp
  from assms have "providers \<noteq> []" "build_upstreams client_build providers = Inr (r_upstreams r)"
    "c = cache_new 4096"
    by (auto simp: resolver_new_def resolver_with_capacity_def DEFAULT_CACHE_CAPACITY_def split: if_splits sum.splits)
  with ups up show ?thesis by (metis reach_new)
qed

end
