(* ===== verification/Filesystem.thy ===== *)
theory Filesystem
  imports Prelude
begin

text \<open>
  The file system calls of the takeover code, as functions on an explicit world. A path is the
  list of its components from the root; a node is a regular file (text and mode), a symbolic
  link or a directory. Every call may be made to fail by the world's fault script, an
  interrupted write or \<open>create_dir_all\<close> leaving part of its effect behind, and every state the
  disk goes through is recorded, so that a crash after any call is a state of the trace.
  Directories on the way to a path are real directories, not links.
\<close>

section \<open>Nodes and paths\<close>

type_synonym path = "string list"

datatype link_target = Absolute path | Relative path

datatype node = File string nat | Link link_target | Dir

type_synonym files = "path \<Rightarrow> node option"

definition display :: "path \<Rightarrow> string" where
  "display p = (if p = [] then ''/'' else concat (map (\<lambda>c. CHR ''/'' # c) p))"

definition target_path :: "path \<Rightarrow> link_target \<Rightarrow> path" where
  "target_path dir t =
     (case t of
        Absolute p \<Rightarrow> p
      | Relative p \<Rightarrow> foldl (\<lambda>d c. if c = ''..'' then butlast d else if c = ''.'' then d else d @ [c]) dir p)"

text \<open>The path a name denotes after its links are followed; the kernel gives up after forty.\<close>

fun real_path :: "nat \<Rightarrow> files \<Rightarrow> path \<Rightarrow> path option" where
  "real_path 0 t p = None"
| "real_path (Suc n) t p =
     (case t p of Some (Link l) \<Rightarrow> real_path n t (target_path (butlast p) l) | _ \<Rightarrow> Some p)"

definition stat :: "files \<Rightarrow> path \<Rightarrow> node option" where
  "stat t p = (case real_path 41 t p of None \<Rightarrow> None | Some q \<Rightarrow> t q)"

definition is_link :: "files \<Rightarrow> path \<Rightarrow> bool" where
  "is_link t p \<longleftrightarrow> (\<exists>l. t p = Some (Link l))"

lemma real_path_self: "\<not> is_link t p \<Longrightarrow> real_path (Suc n) t p = Some p"
  by (auto simp: is_link_def split: option.splits node.splits)

lemma real_path_41: "\<not> is_link t p \<Longrightarrow> real_path 41 t p = Some p"
  using real_path_self [of t p 40] by simp

lemma stat_self: "\<not> is_link t p \<Longrightarrow> stat t p = t p"
  by (simp add: stat_def real_path_41)

text \<open>A path where a call can only find nothing or a regular file.\<close>

definition plain_node :: "node option \<Rightarrow> bool" where
  "plain_node x \<longleftrightarrow> x = None \<or> (\<exists>c k. x = Some (File c k))"

lemma plain_node_simps [simp]:
  "plain_node None" "plain_node (Some (File c k))" "\<not> plain_node (Some Dir)" "\<not> plain_node (Some (Link l))"
  by (simp_all add: plain_node_def)

lemma plain_not_link: "plain_node (t p) \<Longrightarrow> \<not> is_link t p"
  by (auto simp: plain_node_def is_link_def)

section \<open>The world and its calls\<close>

datatype fault = Fault io_kind nat

record world =
  w_fs :: files
  w_faults :: "fault option list"
  w_trace :: "files list"

type_synonym ('e, 'a) io = "world \<Rightarrow> ('e + 'a) \<times> world"

definition put :: "files \<Rightarrow> world \<Rightarrow> world" where
  "put t w = w\<lparr>w_fs := t, w_trace := t # w_trace w\<rparr>"

text \<open>One call: its effect, and what it leaves behind when it is interrupted.\<close>

definition next_fault :: "world \<Rightarrow> fault option" where
  "next_fault w = (case w_faults w of [] \<Rightarrow> None | x # _ \<Rightarrow> x)"

definition sys :: "(nat \<Rightarrow> files \<Rightarrow> files) \<Rightarrow> (files \<Rightarrow> io_kind + ('a \<times> files)) \<Rightarrow> (io_kind, 'a) io" where
  "sys partial f w =
     (let w1 = w\<lparr>w_faults := tl (w_faults w)\<rparr> in
      case next_fault w of
        Some (Fault k n) \<Rightarrow> (Inl k, put (partial n (w_fs w)) w1)
      | None \<Rightarrow> (case f (w_fs w) of Inl k \<Rightarrow> (Inl k, w1) | Inr (x, t) \<Rightarrow> (Inr x, put t w1)))"

definition query :: "(files \<Rightarrow> io_kind + 'a) \<Rightarrow> (io_kind, 'a) io" where
  "query f = sys (\<lambda>_ t. t) (\<lambda>t. case f t of Inl k \<Rightarrow> Inl k | Inr x \<Rightarrow> Inr (x, t))"

definition return_io :: "'a \<Rightarrow> ('e, 'a) io" where
  "return_io x w = (Inr x, w)"

definition fail_io :: "'e \<Rightarrow> ('e, 'a) io" where
  "fail_io e w = (Inl e, w)"

definition bind_io :: "('e, 'a) io \<Rightarrow> ('a \<Rightarrow> ('e, 'b) io) \<Rightarrow> ('e, 'b) io" where
  "bind_io m f w = (case m w of (Inl e, w') \<Rightarrow> (Inl e, w') | (Inr x, w') \<Rightarrow> f x w')"

definition map_err :: "('e \<Rightarrow> 'f) \<Rightarrow> ('e, 'a) io \<Rightarrow> ('f, 'a) io" where
  "map_err g m w = (case m w of (Inl e, w') \<Rightarrow> (Inl (g e), w') | (Inr x, w') \<Rightarrow> (Inr x, w'))"

definition attempt :: "('e, 'a) io \<Rightarrow> ('f, 'e + 'a) io" where
  "attempt m w = (case m w of (r, w') \<Rightarrow> (Inr r, w'))"

definition ignore :: "('e, 'a) io \<Rightarrow> ('f, unit) io" where
  "ignore m w = (case m w of (r, w') \<Rightarrow> (Inr (), w'))"

definition ok :: "('e, 'a) io \<Rightarrow> ('f, 'a option) io" where
  "ok m w = (case m w of (Inl e, w') \<Rightarrow> (Inr None, w') | (Inr x, w') \<Rightarrow> (Inr (Some x), w'))"

definition read_to_string :: "path \<Rightarrow> (io_kind, string) io" where
  "read_to_string p = query (\<lambda>t. case stat t p of
     None \<Rightarrow> Inl NotFound | Some (File c m) \<Rightarrow> Inr c | Some _ \<Rightarrow> Inl Other_Kind)"

text \<open>\<open>exists\<close> and \<open>is_dir\<close> answer false when the call itself fails.\<close>

definition path_exists :: "path \<Rightarrow> ('e, bool) io" where
  "path_exists p w = (case query (\<lambda>t. Inr (stat t p \<noteq> None)) w of
     (Inr b, w') \<Rightarrow> (Inr b, w') | (Inl _, w') \<Rightarrow> (Inr False, w'))"

definition path_is_dir :: "path \<Rightarrow> ('e, bool) io" where
  "path_is_dir p w = (case query (\<lambda>t. Inr (stat t p = Some Dir)) w of
     (Inr b, w') \<Rightarrow> (Inr b, w') | (Inl _, w') \<Rightarrow> (Inr False, w'))"

definition symlink_metadata :: "path \<Rightarrow> (io_kind, node) io" where
  "symlink_metadata p = query (\<lambda>t. case t p of None \<Rightarrow> Inl NotFound | Some n \<Rightarrow> Inr n)"

definition read_link :: "path \<Rightarrow> (io_kind, link_target) io" where
  "read_link p = query (\<lambda>t. case t p of
     None \<Rightarrow> Inl NotFound | Some (Link l) \<Rightarrow> Inr l | Some _ \<Rightarrow> Inl Other_Kind)"

definition make_dirs :: "path \<Rightarrow> files \<Rightarrow> files" where
  "make_dirs p t = (\<lambda>q. if prefix q p \<and> t q = None then Some Dir else t q)"

definition create_dir_all :: "path \<Rightarrow> (io_kind, unit) io" where
  "create_dir_all p = sys (\<lambda>n. make_dirs (take n p))
     (\<lambda>t. if list_all (\<lambda>n. stat t (take n p) \<in> {None, Some Dir}) [0..<Suc (length p)]
          then Inr ((), make_dirs p t) else Inl Other_Kind)"

text \<open>Opening for writing (create, truncate) follows links; the handle is the path it opened. A new
  file gets the mode given, which is 0644 for \<open>File::create\<close>.\<close>

definition file_open :: "nat \<Rightarrow> path \<Rightarrow> (io_kind, path) io" where
  "file_open mode p = sys (\<lambda>_ t. t)
     (\<lambda>t. case real_path 41 t p of
        None \<Rightarrow> Inl Other_Kind
      | Some q \<Rightarrow>
          if stat t (butlast q) \<noteq> Some Dir then Inl NotFound
          else (case t q of
                  None \<Rightarrow> Inr (q, t(q \<mapsto> File [] mode))
                | Some (File c m) \<Rightarrow> Inr (q, t(q \<mapsto> File [] m))
                | Some _ \<Rightarrow> Inl Other_Kind))"

abbreviation file_create :: "path \<Rightarrow> (io_kind, path) io" where
  "file_create \<equiv> file_open 420"

definition file_write_all :: "path \<Rightarrow> string \<Rightarrow> (io_kind, unit) io" where
  "file_write_all h s =
     (let effect = (\<lambda>s t. case t h of Some (File c m) \<Rightarrow> t(h \<mapsto> File (c @ s) m) | _ \<Rightarrow> t) in
      sys (\<lambda>n. effect (take n s)) (\<lambda>t. Inr ((), effect s t)))"

definition sync_all :: "(io_kind, unit) io" where
  "sync_all = query (\<lambda>_. Inr ())"

definition set_permissions :: "path \<Rightarrow> nat \<Rightarrow> (io_kind, unit) io" where
  "set_permissions h mode = sys (\<lambda>_ t. t)
     (\<lambda>t. Inr ((), case t h of Some (File c m) \<Rightarrow> t(h \<mapsto> File c mode) | _ \<Rightarrow> t))"

definition rename_file :: "path \<Rightarrow> path \<Rightarrow> (io_kind, unit) io" where
  "rename_file src dst = sys (\<lambda>_ t. t)
     (\<lambda>t. case t src of
        None \<Rightarrow> Inl NotFound
      | Some n \<Rightarrow> if t dst = Some Dir then Inl Other_Kind else Inr ((), (t(src := None))(dst \<mapsto> n)))"

definition remove_file :: "path \<Rightarrow> (io_kind, unit) io" where
  "remove_file p = sys (\<lambda>_ t. t)
     (\<lambda>t. case t p of None \<Rightarrow> Inl NotFound | Some Dir \<Rightarrow> Inl Other_Kind | Some _ \<Rightarrow> Inr ((), t(p := None)))"

definition make_symlink :: "link_target \<Rightarrow> path \<Rightarrow> (io_kind, unit) io" where
  "make_symlink target p = sys (\<lambda>_ t. t)
     (\<lambda>t. if t p = None then Inr ((), t(p \<mapsto> Link target)) else Inl Other_Kind)"

text \<open>\<open>fs::write\<close>.\<close>

definition fs_write :: "path \<Rightarrow> string \<Rightarrow> (io_kind, unit) io" where
  "fs_write p s = bind_io (file_create p) (\<lambda>file. file_write_all file s)"

section \<open>Frames\<close>

text \<open>
  \<open>frames Q S m\<close>: from a disk that satisfies \<open>Q\<close>, whatever fails, \<open>m\<close> keeps \<open>Q\<close> and goes only
  through disks that satisfy it and agree with the first one outside \<open>S\<close>.
\<close>

definition frames :: "(files \<Rightarrow> bool) \<Rightarrow> path set \<Rightarrow> ('e, 'a) io \<Rightarrow> bool" where
  "frames Q S m \<longleftrightarrow> (\<forall>w r w'. Q (w_fs w) \<longrightarrow> m w = (r, w') \<longrightarrow>
     (\<exists>new. w_trace w' = new @ w_trace w \<and>
        (\<forall>t \<in> insert (w_fs w') (set new). Q t \<and> (\<forall>p. p \<notin> S \<longrightarrow> t p = w_fs w p))))"

lemma framesI:
  assumes "\<And>w r w'. Q (w_fs w) \<Longrightarrow> m w = (r, w') \<Longrightarrow>
    \<exists>new. w_trace w' = new @ w_trace w \<and>
      (\<forall>t \<in> insert (w_fs w') (set new). Q t \<and> (\<forall>p. p \<notin> S \<longrightarrow> t p = w_fs w p))"
  shows "frames Q S m"
  using assms unfolding frames_def by blast

lemma framesE:
  assumes "frames Q S m" "Q (w_fs w)" "m w = (r, w')"
  obtains new where "w_trace w' = new @ w_trace w"
    "\<And>t. t \<in> insert (w_fs w') (set new) \<Longrightarrow> Q t"
    "\<And>t p. t \<in> insert (w_fs w') (set new) \<Longrightarrow> p \<notin> S \<Longrightarrow> t p = w_fs w p"
  using assms unfolding frames_def by blast

named_theorems frame_intros \<open>frame rules of calls and combinators\<close>

lemma frames_return [frame_intros]: "frames Q S (return_io x)"
  by (rule framesI) (auto simp: return_io_def)

lemma frames_fail [frame_intros]: "frames Q S (fail_io e)"
  by (rule framesI) (auto simp: fail_io_def)

lemma frames_bind_dep:
  assumes "frames Q S m" "\<And>w x w'. Q (w_fs w) \<Longrightarrow> m w = (Inr x, w') \<Longrightarrow> frames Q S (f x)"
  shows "frames Q S (bind_io m f)"
proof (rule framesI)
  fix w r w' assume q: "Q (w_fs w)" and run: "bind_io m f w = (r, w')"
  obtain r1 w1 where m: "m w = (r1, w1)" by fastforce
  from assms(1) q m obtain new1 where 1: "w_trace w1 = new1 @ w_trace w"
    "\<And>t. t \<in> insert (w_fs w1) (set new1) \<Longrightarrow> Q t"
    "\<And>t p. t \<in> insert (w_fs w1) (set new1) \<Longrightarrow> p \<notin> S \<Longrightarrow> t p = w_fs w p"
    by (rule framesE) blast
  show "\<exists>new. w_trace w' = new @ w_trace w \<and>
      (\<forall>t \<in> insert (w_fs w') (set new). Q t \<and> (\<forall>p. p \<notin> S \<longrightarrow> t p = w_fs w p))"
  proof (cases r1)
    case (Inl e)
    with run m have "w' = w1" by (simp add: bind_io_def)
    with 1 show ?thesis by (intro exI [of _ new1]) blast
  next
    case (Inr x)
    with run m have f: "f x w1 = (r, w')" by (simp add: bind_io_def)
    have "Q (w_fs w1)" using 1 by blast
    moreover have "frames Q S (f x)" using assms(2) [OF q] m Inr by blast
    ultimately obtain new2 where 2: "w_trace w' = new2 @ w_trace w1"
      "\<And>t. t \<in> insert (w_fs w') (set new2) \<Longrightarrow> Q t"
      "\<And>t p. t \<in> insert (w_fs w') (set new2) \<Longrightarrow> p \<notin> S \<Longrightarrow> t p = w_fs w1 p"
      using f unfolding frames_def by (metis (no_types, lifting))
    have "Q t \<and> (\<forall>p. p \<notin> S \<longrightarrow> t p = w_fs w p)" if "t \<in> insert (w_fs w') (set (new2 @ new1))" for t
      using that 1(2) 2(2) 1(3) 2(3) 1(3) [of "w_fs w1"] by (metis Un_iff insert_iff set_append)
    then show ?thesis using 1(1) 2(1) by (intro exI [of _ "new2 @ new1"]) simp
  qed
qed

lemma frames_bind [frame_intros]:
  assumes "frames Q S m" "\<And>x. frames Q S (f x)"
  shows "frames Q S (bind_io m f)"
  using assms by (rule frames_bind_dep)

lemma frames_mono: "frames Q S m \<Longrightarrow> S \<subseteq> S' \<Longrightarrow> frames Q S' m"
  unfolding frames_def by (meson subsetD)

lemma frames_if [frame_intros]:
  "(b \<Longrightarrow> frames Q S m) \<Longrightarrow> (\<not> b \<Longrightarrow> frames Q S m') \<Longrightarrow> frames Q S (if b then m else m')"
  by simp

lemma frames_wrap:
  assumes "frames Q S m" "\<And>w. snd (m' w) = snd (m w)"
  shows "frames Q S m'"
proof (rule framesI)
  fix w r w' assume q: "Q (w_fs w)" and run: "m' w = (r, w')"
  from assms(2) [of w] run obtain r1 where "m w = (r1, w')" by (cases "m w") simp
  from assms(1) q this show "\<exists>new. w_trace w' = new @ w_trace w \<and>
      (\<forall>t \<in> insert (w_fs w') (set new). Q t \<and> (\<forall>p. p \<notin> S \<longrightarrow> t p = w_fs w p))"
    unfolding frames_def by blast
qed

lemma frames_wrappers [frame_intros]:
  assumes "frames Q S m"
  shows "frames Q S (map_err g m)" "frames Q S (attempt m)" "frames Q S (ignore m)" "frames Q S (ok m)"
  by (rule frames_wrap [OF assms]; simp add: map_err_def attempt_def ignore_def ok_def split: prod.splits sum.splits)+

lemma frames_sys:
  assumes "\<And>t n. Q t \<Longrightarrow> Q (partial n t) \<and> (\<forall>p. p \<notin> S \<longrightarrow> partial n t p = t p)"
    and "\<And>t x t'. Q t \<Longrightarrow> f t = Inr (x, t') \<Longrightarrow> Q t' \<and> (\<forall>p. p \<notin> S \<longrightarrow> t' p = t p)"
  shows "frames Q S (sys partial f)"
proof (rule framesI)
  fix w r w' assume q: "Q (w_fs w)" and run: "sys partial f w = (r, w')"
  show "\<exists>new. w_trace w' = new @ w_trace w \<and>
      (\<forall>t \<in> insert (w_fs w') (set new). Q t \<and> (\<forall>p. p \<notin> S \<longrightarrow> t p = w_fs w p))"
  proof (cases "next_fault w")
    case (Some ft)
    then obtain k n where "next_fault w = Some (Fault k n)" by (cases ft) simp
    with run have "w_fs w' = partial n (w_fs w)" "w_trace w' = [partial n (w_fs w)] @ w_trace w"
      by (auto simp: sys_def put_def)
    with assms(1) [OF q] show ?thesis by (intro exI [of _ "[partial n (w_fs w)]"]) auto
  next
    case None
    show ?thesis
    proof (cases "f (w_fs w)")
      case (Inl k)
      with run None q show ?thesis by (intro exI [of _ "[]"]) (auto simp: sys_def)
    next
      case (Inr xt)
      then obtain x t where xt: "f (w_fs w) = Inr (x, t)" by (cases xt) simp
      with run None have "w_fs w' = t" "w_trace w' = [t] @ w_trace w" by (auto simp: put_def sys_def)
      with assms(2) [OF q xt] show ?thesis by (intro exI [of _ "[t]"]) auto
    qed
  qed
qed

lemma frames_query [frame_intros]: "frames Q S (query f)"
  unfolding query_def by (rule frames_sys) (auto split: sum.splits)

lemma frames_queries [frame_intros]:
  "frames Q S (read_to_string p)" "frames Q S (symlink_metadata p)" "frames Q S (read_link p)"
  "frames Q S sync_all"
  by (simp_all add: read_to_string_def symlink_metadata_def read_link_def sync_all_def frame_intros)

lemma frames_tests [frame_intros]: "frames Q S (path_exists p)" "frames Q S (path_is_dir p)"
proof -
  show "frames Q S (path_exists p)"
    by (rule frames_wrap [OF frames_query [of Q S "\<lambda>t. Inr (stat t p \<noteq> None)"]])
      (simp add: path_exists_def split: prod.splits sum.splits)
  show "frames Q S (path_is_dir p)"
    by (rule frames_wrap [OF frames_query [of Q S "\<lambda>t. Inr (stat t p = Some Dir)"]])
      (simp add: path_is_dir_def split: prod.splits sum.splits)
qed

section \<open>Successful calls\<close>

lemma bind_io_Inr:
  assumes "bind_io m f w = (Inr y, w')"
  obtains x w1 where "m w = (Inr x, w1)" "f x w1 = (Inr y, w')"
  using assms by (auto simp: bind_io_def split: prod.splits sum.splits)

lemma map_err_Inr: "map_err g m w = (Inr x, w') \<longleftrightarrow> m w = (Inr x, w')"
  by (auto simp: map_err_def split: prod.splits sum.splits)

lemma attempt_Inr: "attempt m w = (Inr r, w') \<longleftrightarrow> m w = (r, w')"
  by (auto simp: attempt_def split: prod.splits)

lemma sys_Inr:
  assumes "sys partial f w = (Inr x, w')"
  shows "f (w_fs w) = Inr (x, w_fs w')"
  using assms by (auto simp: sys_def put_def Let_def split: option.splits fault.splits sum.splits)

lemma query_Inr:
  assumes "query f w = (Inr x, w')"
  shows "f (w_fs w) = Inr x \<and> w_fs w' = w_fs w"
  using sys_Inr [OF assms [unfolded query_def]] by (auto split: sum.splits)

lemma query_fs: "w_fs (snd (query f w)) = w_fs w"
  by (auto simp: query_def sys_def put_def Let_def split: option.splits fault.splits sum.splits)

text \<open>Without faults a call succeeds exactly when its own conditions hold.\<close>

lemma sys_quiet:
  "w_faults w = [] \<Longrightarrow> f (w_fs w) = Inr (x, t) \<Longrightarrow>
   sys partial f w = (Inr x, w\<lparr>w_fs := t, w_trace := t # w_trace w\<rparr>)"
  by (simp add: sys_def next_fault_def put_def)

lemma sys_quiet_error:
  "w_faults w = [] \<Longrightarrow> f (w_fs w) = Inl k \<Longrightarrow> sys partial f w = (Inl k, w)"
  by (simp add: sys_def next_fault_def)

lemma sys_step:
  "next_fault w = None \<Longrightarrow> f (w_fs w) = Inr (x, t) \<Longrightarrow>
   sys partial f w = (Inr x, put t (w\<lparr>w_faults := tl (w_faults w)\<rparr>))"
  by (simp add: sys_def Let_def)

lemma sys_fault:
  "next_fault w = Some (Fault e n) \<Longrightarrow>
   sys partial f w = (Inl e, put (partial n (w_fs w)) (w\<lparr>w_faults := tl (w_faults w)\<rparr>))"
  by (simp add: sys_def Let_def)

lemma put_simps [simp]:
  "w_fs (put t w) = t" "w_faults (put t w) = w_faults w" "w_trace (put t w) = t # w_trace w"
  by (simp_all add: put_def)

section \<open>Frames of the calls that change files\<close>

text \<open>A disk predicate that survives writing or removing a regular file at a path.\<close>

definition closed_at :: "(files \<Rightarrow> bool) \<Rightarrow> path \<Rightarrow> bool" where
  "closed_at Q p \<longleftrightarrow> (\<forall>t x. Q t \<longrightarrow> plain_node x \<longrightarrow> Q (t(p := x)))"

lemma closed_atD: "closed_at Q p \<Longrightarrow> Q t \<Longrightarrow> plain_node x \<Longrightarrow> Q (t(p := x))"
  by (simp add: closed_at_def)

lemma frames_create:
  assumes "closed_at Q p" "\<And>t. Q t \<Longrightarrow> plain_node (t p)"
  shows "frames Q {p} (file_open mode p)"
  unfolding file_open_def
  by (rule frames_sys)
    (use assms in \<open>auto simp: real_path_41 plain_not_link split: if_splits option.splits node.splits
      intro: closed_atD\<close>)

lemma frames_write_all:
  assumes "closed_at Q p" shows "frames Q {p} (file_write_all p s)"
  unfolding file_write_all_def Let_def
  by (rule frames_sys) (auto split: option.splits node.splits intro: closed_atD [OF assms])

lemma frames_set_permissions:
  assumes "closed_at Q p" shows "frames Q {p} (set_permissions p k)"
  unfolding set_permissions_def
  by (rule frames_sys) (auto split: option.splits node.splits intro: closed_atD [OF assms])

lemma frames_remove:
  assumes "closed_at Q p" shows "frames Q {p} (remove_file p)"
  unfolding remove_file_def
  by (rule frames_sys) (auto split: option.splits node.splits intro: closed_atD [OF assms])

lemma frames_rename:
  assumes "closed_at Q src" "closed_at Q dst" "\<And>t. Q t \<Longrightarrow> plain_node (t src)"
  shows "frames Q {src, dst} (rename_file src dst)"
  unfolding rename_file_def
proof (rule frames_sys)
  fix t x t'
  assume q: "Q t" and f: "(case t src of None \<Rightarrow> Inl NotFound
      | Some n \<Rightarrow> if t dst = Some Dir then Inl Other_Kind else Inr ((), (t(src := None))(dst \<mapsto> n))) = Inr (x, t')"
  then obtain n where n: "t src = Some n" "t' = (t(src := None))(dst \<mapsto> n)"
    by (auto split: option.splits if_splits)
  have "plain_node (Some n)" using assms(3) [OF q] n(1) by simp
  then have "Q t'" unfolding n(2) by (intro closed_atD [OF assms(2)] closed_atD [OF assms(1)] q) simp_all
  with n(2) show "Q t' \<and> (\<forall>p. p \<notin> {src, dst} \<longrightarrow> t' p = t p)" by simp
qed simp

section \<open>Every disk on the way\<close>

text \<open>\<open>always P m w\<close>: every disk that \<open>m\<close> leaves behind, from the first call to the last, satisfies \<open>P\<close>.\<close>

definition always :: "(files \<Rightarrow> bool) \<Rightarrow> ('e, 'a) io \<Rightarrow> world \<Rightarrow> bool" where
  "always P m w \<longleftrightarrow> (\<exists>new. w_trace (snd (m w)) = new @ w_trace w \<and>
     (\<forall>t \<in> insert (w_fs (snd (m w))) (set new). P t))"

lemma always_frames: "frames Q S m \<Longrightarrow> Q (w_fs w) \<Longrightarrow> always (\<lambda>t. Q t \<and> (\<forall>p. p \<notin> S \<longrightarrow> t p = w_fs w p)) m w"
  unfolding always_def frames_def by (cases "m w") simp

lemma always_mono: "always P m w \<Longrightarrow> (\<And>t. P t \<Longrightarrow> P' t) \<Longrightarrow> always P' m w"
  unfolding always_def by (meson)

lemma always_conj: "always P m w \<Longrightarrow> always P' m w \<Longrightarrow> always (\<lambda>t. P t \<and> P' t) m w"
  unfolding always_def by auto

lemma always_final: "always P m w \<Longrightarrow> m w = (r, w') \<Longrightarrow> P (w_fs w')"
  unfolding always_def by auto

lemma always_return: "P (w_fs w) \<Longrightarrow> always P (return_io x) w"
  unfolding always_def return_io_def by simp

lemma always_fail: "P (w_fs w) \<Longrightarrow> always P (fail_io x) w"
  unfolding always_def fail_io_def by simp

lemma always_bind:
  assumes "always P m w" "\<And>x w1. m w = (Inr x, w1) \<Longrightarrow> P (w_fs w1) \<Longrightarrow> always P (f x) w1"
  shows "always P (bind_io m f) w"
proof -
  obtain r w1 where m: "m w = (r, w1)" by fastforce
  from assms(1) m obtain n1 where 1: "w_trace w1 = n1 @ w_trace w" "\<forall>t \<in> insert (w_fs w1) (set n1). P t"
    by (auto simp: always_def)
  show ?thesis
  proof (cases r)
    case (Inl e)
    with m 1 show ?thesis by (auto simp: always_def bind_io_def)
  next
    case (Inr x)
    with assms(2) m 1 have "always P (f x) w1" by simp
    then obtain n2 where "w_trace (snd (f x w1)) = n2 @ w_trace w1"
      "\<forall>t \<in> insert (w_fs (snd (f x w1))) (set n2). P t" by (auto simp: always_def)
    with m Inr 1 show ?thesis
      unfolding always_def by (intro exI [of _ "n2 @ n1"]) (auto simp: bind_io_def)
  qed
qed

lemma always_wrappers:
  "always P (map_err g m) w = always P m w" "always P (attempt m :: ('f, 'e + 'a) io) w = always P m w"
  "always P (ignore m :: ('f, unit) io) w = always P m w" "always P (ok m :: ('f, 'a option) io) w = always P m w"
  by (simp_all add: always_def map_err_def attempt_def ignore_def ok_def split: prod.splits sum.splits)

lemma always_bind_via:
  assumes "always A m w" "\<And>t. A t \<Longrightarrow> P t"
    and "\<And>x w1. m w = (Inr x, w1) \<Longrightarrow> A (w_fs w1) \<Longrightarrow> always P (f x) w1"
  shows "always P (bind_io m f) w"
proof (rule always_bind)
  show "always P m w" using assms(1,2) by (rule always_mono)
  show "always P (f x) w1" if "m w = (Inr x, w1)" for x w1
    using assms(3) [OF that always_final [OF assms(1) that]] .
qed

text \<open>\<open>outcome P R m w\<close>: besides, a successful run ends with a value and a disk that satisfy \<open>R\<close>.\<close>

definition outcome :: "(files \<Rightarrow> bool) \<Rightarrow> ('a \<Rightarrow> files \<Rightarrow> bool) \<Rightarrow> ('e, 'a) io \<Rightarrow> world \<Rightarrow> bool" where
  "outcome P R m w \<longleftrightarrow> always P m w \<and> (\<forall>x w'. m w = (Inr x, w') \<longrightarrow> R x (w_fs w'))"

lemma outcome_bind:
  assumes "outcome P R m w" "\<And>x w1. R x (w_fs w1) \<Longrightarrow> outcome P R' (f x) w1"
  shows "outcome P R' (bind_io m f) w"
  unfolding outcome_def
proof (intro conjI allI impI)
  show "always P (bind_io m f) w"
    by (rule always_bind) (use assms in \<open>auto simp: outcome_def\<close>)
  fix y w' assume "bind_io m f w = (Inr y, w')"
  then obtain x w1 where "m w = (Inr x, w1)" "f x w1 = (Inr y, w')" by (rule bind_io_Inr)
  with assms show "R' y (w_fs w')" by (auto simp: outcome_def)
qed

lemma outcome_return: "P (w_fs w) \<Longrightarrow> R x (w_fs w) \<Longrightarrow> outcome P R (return_io x) w"
  unfolding outcome_def by (auto simp: always_return) (simp add: return_io_def)

lemma outcome_frames:
  assumes "frames Q S m" "Q (w_fs w)"
    and "\<And>t. Q t \<Longrightarrow> (\<And>p. p \<notin> S \<Longrightarrow> t p = w_fs w p) \<Longrightarrow> P t"
    and "\<And>x t. Q t \<Longrightarrow> (\<And>p. p \<notin> S \<Longrightarrow> t p = w_fs w p) \<Longrightarrow> R x t"
  shows "outcome P R m w"
  unfolding outcome_def
proof (intro conjI allI impI)
  note al = always_frames [OF assms(1,2)]
  show "always P m w" by (rule always_mono [OF al]) (use assms(3) in blast)
  show "R x (w_fs w')" if "m w = (Inr x, w')" for x w'
    using always_final [OF al that] assms(4) by blast
qed

lemma outcome_map_err: "outcome P R m w \<Longrightarrow> outcome P R (map_err g m) w"
  by (simp add: outcome_def always_wrappers map_err_Inr)

lemma outcome_weaken:
  "outcome P R m w \<Longrightarrow> (\<And>t. P t \<Longrightarrow> P' t) \<Longrightarrow> (\<And>x t. R x t \<Longrightarrow> R' x t) \<Longrightarrow> outcome P' R' m w"
  unfolding outcome_def by (meson always_mono)

lemma outcome_ok:
  assumes "outcome P R m w"
  shows "outcome P (\<lambda>y t. P t \<and> (\<forall>x. y = Some x \<longrightarrow> R x t)) (ok m) w"
  unfolding outcome_def
proof (intro conjI allI impI)
  show "always P (ok m) w" using assms by (simp add: outcome_def always_wrappers)
  fix y w' assume run: "ok m w = (Inr y, w')"
  then obtain r where r: "m w = (r, w')" by (auto simp: ok_def split: prod.splits sum.splits)
  then show "P (w_fs w')" using assms by (auto simp: outcome_def dest: always_final)
  show "R x (w_fs w')" if "y = Some x" for x
    using that run r assms by (auto simp: outcome_def ok_def split: prod.splits sum.splits)
qed

lemma outcome_attempt:
  assumes "outcome P R m w"
  shows "outcome P (\<lambda>y t. P t \<and> (\<forall>x. y = Inr x \<longrightarrow> R x t)) (attempt m) w"
  unfolding outcome_def
proof (intro conjI allI impI)
  show "always P (attempt m) w" using assms by (simp add: outcome_def always_wrappers)
  fix y w' assume "attempt m w = (Inr y, w')"
  then have r: "m w = (y, w')" by (simp add: attempt_Inr)
  then show "P (w_fs w')" using assms by (auto simp: outcome_def dest: always_final)
  show "R x (w_fs w')" if "y = Inr x" for x
    using that r assms by (auto simp: outcome_def)
qed

lemma outcome_fail: "P (w_fs w) \<Longrightarrow> outcome P R (fail_io e) w"
  unfolding outcome_def by (auto simp: always_fail) (simp add: fail_io_def)

lemma outcome_query:
  assumes "P (w_fs w)" "\<And>x. f (w_fs w) = Inr x \<Longrightarrow> R x (w_fs w)"
  shows "outcome P R (query f) w"
proof -
  have "always (\<lambda>t. t = w_fs w) (query f) w"
    using always_frames [OF frames_query [of "\<lambda>t. t = w_fs w" "{}" f] refl] by (rule always_mono) simp
  then have "always P (query f) w" by (rule always_mono) (simp add: assms(1))
  then show ?thesis using assms(2) by (auto simp: outcome_def dest!: query_Inr)
qed

lemma frames_create_dir_all:
  assumes "\<And>t k. Q t \<Longrightarrow> Q (make_dirs (take k p) t)"
  shows "frames Q {q. prefix q p} (create_dir_all p)"
  unfolding create_dir_all_def
proof (rule frames_sys)
  have all: "Q (make_dirs p t)" if "Q t" for t using assms [of t "length p"] that by simp
  show "Q (make_dirs (take n p) t) \<and> (\<forall>q. q \<notin> {q. prefix q p} \<longrightarrow> make_dirs (take n p) t q = t q)" if "Q t" for t n
    using assms [OF that] take_is_prefix [of n p] prefix_order.trans by (auto simp: make_dirs_def)
  show "Q t' \<and> (\<forall>q. q \<notin> {q. prefix q p} \<longrightarrow> t' q = t q)"
    if "Q t" "(if list_all (\<lambda>n. stat t (take n p) \<in> {None, Some Dir}) [0..<Suc (length p)]
       then Inr ((), make_dirs p t) else Inl Other_Kind) = Inr (x, t')" for t x t'
    using that all [OF that(1)] by (auto simp: make_dirs_def split: if_splits)
qed

text \<open>What is found by following links is still found on a disk with more files.\<close>

lemma stat_mono:
  assumes "stat t p = Some x" "\<And>q. t q \<noteq> None \<Longrightarrow> t' q = t q"
  shows "stat t' p = Some x"
proof -
  have "real_path n t p = Some q \<Longrightarrow> t q = Some x \<Longrightarrow> real_path n t' p = Some q \<and> t' q = Some x" for n q
  proof (induction n arbitrary: p)
    case (Suc n)
    then show ?case using assms(2) [of p] assms(2) [of q]
      by (cases "t p") (auto split: node.splits)
  qed simp
  then show ?thesis using assms(1) by (force simp: stat_def split: option.splits)
qed

lemma stat_keep:
  assumes "real_path 41 t p = Some e" "t e = Some x" "\<And>q. is_link t q \<Longrightarrow> t' q = t q" "t' e = Some x"
  shows "real_path 41 t' p = Some e" "stat t' p = Some x"
proof -
  have "real_path n t p = Some e \<Longrightarrow> real_path n t' p = Some e" for n
  proof (induction n arbitrary: p)
    case (Suc n)
    show ?case
    proof (cases "is_link t p")
      case True
      with Suc assms(3) [OF True] show ?thesis by (auto simp: is_link_def)
    next
      case False
      with Suc.prems have "p = e" using real_path_self [OF False] by simp
      moreover from False \<open>p = e\<close> have "\<not> is_link t' p" using assms(2,4) by (simp add: is_link_def)
      ultimately show ?thesis using real_path_self by blast
    qed
  qed simp
  with assms(1) show "real_path 41 t' p = Some e" by blast
  then show "stat t' p = Some x" using assms(4) by (simp add: stat_def)
qed

section \<open>Runs without faults\<close>

text \<open>A world without faults to come, whose disk is on its trace.\<close>

definition quiet :: "world \<Rightarrow> bool" where
  "quiet w \<longleftrightarrow> w_faults w = [] \<and> w_fs w \<in> set (w_trace w)"

definition yields :: "('e, 'a) io \<Rightarrow> world \<Rightarrow> 'a \<Rightarrow> files \<Rightarrow> bool" where
  "yields m w x t \<longleftrightarrow> fst (m w) = Inr x \<and> quiet (snd (m w)) \<and> w_fs (snd (m w)) = t"

lemma yields_return: "quiet w \<Longrightarrow> yields (return_io x) w x (w_fs w)"
  by (simp add: yields_def return_io_def)

lemma yields_bind:
  assumes "yields m w x t" "\<And>w1. w_fs w1 = t \<Longrightarrow> quiet w1 \<Longrightarrow> yields (f x) w1 y t'"
  shows "yields (bind_io m f) w y t'"
  using assms by (cases "m w") (auto simp: yields_def bind_io_def)

lemma yields_map_err: "yields m w x t \<Longrightarrow> yields (map_err g m) w x t"
  by (cases "m w") (auto simp: yields_def map_err_def)

lemma yields_ok: "yields m w x t \<Longrightarrow> yields (ok m) w (Some x) t"
  by (cases "m w") (auto simp: yields_def ok_def)

lemma yields_ignore: "yields m w x t \<Longrightarrow> yields (ignore m) w () t"
  by (cases "m w") (auto simp: yields_def ignore_def)

lemma yields_attempt: "yields m w x t \<Longrightarrow> yields (attempt m) w (Inr x) t"
  by (cases "m w") (auto simp: yields_def attempt_def)

lemma yields_sys: "quiet w \<Longrightarrow> f (w_fs w) = Inr (x, t) \<Longrightarrow> yields (sys partial f) w x t"
  by (simp add: yields_def quiet_def sys_quiet)

lemma yields_query: "quiet w \<Longrightarrow> f (w_fs w) = Inr x \<Longrightarrow> yields (query f) w x (w_fs w)"
  unfolding query_def by (rule yields_sys) simp_all

lemma yields_exists: "quiet w \<Longrightarrow> yields (path_exists p) w (stat (w_fs w) p \<noteq> None) (w_fs w)"
  using yields_query [of w "\<lambda>t. Inr (stat t p \<noteq> None)"]
  by (auto simp: yields_def path_exists_def split: prod.splits)

lemma yields_is_dir: "quiet w \<Longrightarrow> yields (path_is_dir p) w (stat (w_fs w) p = Some Dir) (w_fs w)"
  using yields_query [of w "\<lambda>t. Inr (stat t p = Some Dir)"]
  by (auto simp: yields_def path_is_dir_def split: prod.splits)

lemma yields_read: "quiet w \<Longrightarrow> stat (w_fs w) p = Some (File c k) \<Longrightarrow> yields (read_to_string p) w c (w_fs w)"
  unfolding read_to_string_def by (rule yields_query) simp_all

lemma make_dirs_dir:
  "\<forall>k. t (take k p) \<in> {None, Some Dir} \<Longrightarrow> make_dirs p t p = Some Dir"
  by (auto simp: make_dirs_def dest: spec [of _ "length p"])

lemma create_dirs_step:
  assumes "next_fault w = None" "\<forall>k. w_fs w (take k p) \<in> {None, Some Dir}"
  shows "create_dir_all p w = (Inr (), put (make_dirs p (w_fs w)) (w\<lparr>w_faults := tl (w_faults w)\<rparr>))"
proof -
  have "stat (w_fs w) (take n p) \<in> {None, Some Dir}" for n
    using assms(2) by (subst stat_self) (auto simp: is_link_def dest: spec [of _ n])
  then show ?thesis
    unfolding create_dir_all_def by (intro sys_step assms(1)) (simp add: list_all_iff)
qed

lemma file_open_step:
  assumes "next_fault w = None" "plain_node (w_fs w p)" "stat (w_fs w) (butlast p) = Some Dir"
  shows "file_open mode p w = (Inr p, put ((w_fs w)(p \<mapsto> File [] (case w_fs w p of Some (File _ k) \<Rightarrow> k | _ \<Rightarrow> mode)))
    (w\<lparr>w_faults := tl (w_faults w)\<rparr>))"
  unfolding file_open_def using assms
  by (intro sys_step) (auto simp: real_path_41 plain_not_link plain_node_def split: option.splits)

lemma file_write_step:
  assumes "next_fault w = None" "w_fs w p = Some (File c k)"
  shows "file_write_all p s w = (Inr (), put ((w_fs w)(p \<mapsto> File (c @ s) k)) (w\<lparr>w_faults := tl (w_faults w)\<rparr>))"
  unfolding file_write_all_def Let_def using assms by (intro sys_step) simp_all

lemma file_open_yields:
  assumes "quiet w" "plain_node (w_fs w p)" "stat (w_fs w) (butlast p) = Some Dir"
  obtains k where "yields (file_open mode p) w p ((w_fs w)(p \<mapsto> File [] k))" "w_fs w p = None \<Longrightarrow> k = mode"
    "\<And>c k'. w_fs w p = Some (File c k') \<Longrightarrow> k = k'"
proof (cases "w_fs w p")
  case None
  then have "yields (file_open mode p) w p ((w_fs w)(p \<mapsto> File [] mode))"
    unfolding file_open_def using assms by (intro yields_sys) (simp_all add: real_path_41 plain_not_link)
  with None show ?thesis by (intro that [of mode]) simp_all
next
  case (Some x)
  with assms(2) obtain c k where x: "x = File c k" by (auto simp: plain_node_def)
  with Some have "yields (file_open mode p) w p ((w_fs w)(p \<mapsto> File [] k))"
    unfolding file_open_def using assms by (intro yields_sys) (simp_all add: real_path_41 plain_not_link)
  with Some x show ?thesis by (intro that [of k]) simp_all
qed

lemma file_write_yields:
  "quiet w \<Longrightarrow> w_fs w p = Some (File c k) \<Longrightarrow> yields (file_write_all p s) w () ((w_fs w)(p \<mapsto> File (c @ s) k))"
  unfolding file_write_all_def Let_def by (rule yields_sys) simp_all

lemma fs_write_yields:
  assumes "quiet w" "plain_node (w_fs w p)" "stat (w_fs w) (butlast p) = Some Dir"
  obtains k where "yields (fs_write p s) w () ((w_fs w)(p \<mapsto> File s k))" "w_fs w p = None \<Longrightarrow> k = 420"
proof -
  obtain k where k: "yields (file_create p) w p ((w_fs w)(p \<mapsto> File [] k))" "w_fs w p = None \<Longrightarrow> k = 420"
    using file_open_yields [OF assms] by metis
  have "yields (fs_write p s) w () ((w_fs w)(p \<mapsto> File s k))"
    unfolding fs_write_def
  proof (rule yields_bind [OF k(1)])
    fix w1 :: world assume "w_fs w1 = (w_fs w)(p \<mapsto> File [] k)" "quiet w1"
    with file_write_yields [of w1 p "[]" k s] show "yields (file_write_all p s) w1 () ((w_fs w)(p \<mapsto> File s k))" by simp
  qed
  then show thesis using k(2) by (rule that)
qed

lemma set_permissions_yields:
  assumes "quiet w" "w_fs w p = Some (File c k)"
  shows "yields (set_permissions p mode) w () ((w_fs w)(p \<mapsto> File c mode))"
  unfolding set_permissions_def by (rule yields_sys [OF assms(1)]) (simp add: assms(2))

lemma dirs_yields:
  assumes "quiet w" "\<forall>k. w_fs w (take k p) \<in> {None, Some Dir}"
  shows "yields (create_dir_all p) w () (make_dirs p (w_fs w))"
  unfolding create_dir_all_def
proof (rule yields_sys [OF assms(1)])
  have "stat (w_fs w) (take n p) \<in> {None, Some Dir}" for n
    using assms(2) by (subst stat_self) (auto simp: is_link_def dest: spec [of _ n])
  then show "(if list_all (\<lambda>n. stat (w_fs w) (take n p) \<in> {None, Some Dir}) [0..<Suc (length p)]
      then Inr ((), make_dirs p (w_fs w)) else Inl Other_Kind) = Inr ((), make_dirs p (w_fs w))"
    by (simp add: list_all_iff)
qed

text \<open>Removing a file that may be there and is not a directory, with the result ignored.\<close>

lemma yields_ignore_remove:
  assumes "quiet w" "w_fs w p \<noteq> Some Dir"
  shows "yields (ignore (remove_file p)) w () ((w_fs w)(p := None))"
proof (cases "w_fs w p")
  case None
  then have "remove_file p w = (Inl NotFound, w)"
    unfolding remove_file_def using assms(1) by (intro sys_quiet_error) (simp_all add: quiet_def)
  moreover have "(w_fs w)(p := None) = w_fs w" using None by auto
  ultimately show ?thesis using assms(1) by (simp add: yields_def ignore_def)
next
  case (Some n)
  then have "yields (remove_file p) w () ((w_fs w)(p := None))"
    unfolding remove_file_def using assms by (intro yields_sys) (auto split: node.splits)
  then show ?thesis by (rule yields_ignore)
qed

section \<open>The trace only grows\<close>

definition grows :: "('e, 'a) io \<Rightarrow> bool" where
  "grows m \<longleftrightarrow> (\<forall>w. set (w_trace w) \<subseteq> set (w_trace (snd (m w))))"

named_theorems grow_intros \<open>trace rules of calls and combinators\<close>

lemma grows_basic [grow_intros]: "grows (return_io x)" "grows (fail_io e)" "grows (sys partial f)"
  by (auto simp: grows_def return_io_def fail_io_def sys_def put_def Let_def split: option.splits fault.splits sum.splits)

lemma grows_calls [grow_intros]:
  "grows (query g)" "grows (read_to_string p)" "grows sync_all" "grows (file_open mode p)" "grows (file_write_all p s)"
  "grows (set_permissions p k)" "grows (rename_file p q)" "grows (remove_file p)" "grows (make_symlink l p)"
  by (simp_all add: query_def read_to_string_def sync_all_def file_open_def file_write_all_def
      set_permissions_def rename_file_def remove_file_def make_symlink_def Let_def grow_intros)

lemma grows_bind [grow_intros]: "grows m \<Longrightarrow> (\<And>x. grows (f x)) \<Longrightarrow> grows (bind_io m f)"
  unfolding grows_def bind_io_def by (fastforce split: prod.splits sum.splits)

lemma grows_wrappers [grow_intros]:
  "grows m \<Longrightarrow> grows (map_err g m)" "grows m \<Longrightarrow> grows (attempt m :: ('f, 'e + 'a) io)"
  "grows m \<Longrightarrow> grows (ignore m :: ('f, unit) io)" "grows m \<Longrightarrow> grows (ok m :: ('f, 'a option) io)"
  unfolding grows_def map_err_def attempt_def ignore_def ok_def by (fastforce split: prod.splits sum.splits)+

lemma path_exists_grows: "grows (path_exists p :: ('e, bool) io)"
proof -
  have "snd ((path_exists p :: ('e, bool) io) w) = snd (query (\<lambda>t. Inr (stat t p \<noteq> None)) w)" for w
    by (simp add: path_exists_def split: prod.split sum.split)
  then show ?thesis using grows_calls(1) [of "\<lambda>t. Inr (stat t p \<noteq> None)"] by (simp add: grows_def)
qed

text \<open>\<open>visits c m w\<close>: the disk \<open>c\<close> is one that \<open>m\<close> leaves behind on its way.\<close>

definition visits :: "files \<Rightarrow> ('e, 'a) io \<Rightarrow> world \<Rightarrow> bool" where
  "visits c m w \<longleftrightarrow> c \<in> set (w_trace (snd (m w)))"

lemma visits_yields: "yields m w x c \<Longrightarrow> visits c m w"
  by (auto simp: yields_def visits_def quiet_def)

lemma visits_now: "visits c m w \<Longrightarrow> (\<And>x. grows (f x)) \<Longrightarrow> visits c (bind_io m f) w"
  unfolding visits_def grows_def bind_io_def by (fastforce split: prod.splits sum.splits)

lemma visits_later:
  assumes "yields m w x t" "\<And>w1. w_fs w1 = t \<Longrightarrow> quiet w1 \<Longrightarrow> visits c (f x) w1"
  shows "visits c (bind_io m f) w"
  using assms by (cases "m w") (auto simp: yields_def visits_def bind_io_def)

section \<open>Calls keep a quiet world quiet\<close>

definition keeps_quiet :: "('e, 'a) io \<Rightarrow> bool" where
  "keeps_quiet m \<longleftrightarrow> (\<forall>w. quiet w \<longrightarrow> quiet (snd (m w)))"

named_theorems quiet_intros \<open>quietness rules of calls and combinators\<close>

lemma keeps_quiet_basic [quiet_intros]: "keeps_quiet (return_io x)" "keeps_quiet (fail_io e)" "keeps_quiet (sys partial f)"
  by (auto simp: keeps_quiet_def quiet_def return_io_def fail_io_def sys_def next_fault_def put_def Let_def split: sum.splits)

lemma keeps_quiet_calls [quiet_intros]:
  "keeps_quiet (create_dir_all p)" "keeps_quiet (file_open mode p)" "keeps_quiet (file_write_all p s)"
  "keeps_quiet (set_permissions p k)" "keeps_quiet (rename_file p q)" "keeps_quiet (remove_file p)"
  by (simp_all add: create_dir_all_def file_open_def file_write_all_def set_permissions_def rename_file_def
      remove_file_def Let_def quiet_intros)

lemma keeps_quiet_bind [quiet_intros]:
  "keeps_quiet m \<Longrightarrow> (\<And>x. keeps_quiet (f x)) \<Longrightarrow> keeps_quiet (bind_io m f)"
  unfolding keeps_quiet_def bind_io_def by (auto split: prod.splits sum.splits)

lemma keeps_quiet_wrappers [quiet_intros]:
  "keeps_quiet m \<Longrightarrow> keeps_quiet (map_err g m)" "keeps_quiet m \<Longrightarrow> keeps_quiet (ignore m :: ('f, unit) io)"
  unfolding keeps_quiet_def map_err_def ignore_def by (auto split: prod.splits sum.splits)

lemma yieldsE:
  assumes "yields m w x t"
  obtains w' where "m w = (Inr x, w')" "quiet w'" "w_fs w' = t"
  using assms by (cases "m w") (auto simp: yields_def)

end
