(* ===== verification/Config.thy ===== *)
theory Config
  imports Policy Provider Resolver Filesystem
begin

text \<open>
  \<open>crates/dns-core/src/config.rs\<close>: the configuration with its defaults, validation, profiles and
  its file. The TOML codec (\<open>toml\<close>, with serde's derives) is an argument: \<open>to_toml\<close> and \<open>of_toml\<close>
  give a text or a value, or the message of an error.
\<close>

section \<open>The code\<close>

record app_profile =
  ap_id :: string
  ap_name :: string
  ap_domains :: "string list"
  ap_launch_command :: "string option"
  ap_launch_args :: "string list"
  ap_notes :: "string option"

record tunnel_app =
  ta_name :: string
  ta_command :: string
  ta_args :: "string list"
  ta_process :: "string option"

definition tunnel_app_new :: "string \<Rightarrow> string \<Rightarrow> tunnel_app" where
  "tunnel_app_new name command = \<lparr>ta_name = name, ta_command = command, ta_args = [], ta_process = None\<rparr>"

definition process_name :: "tunnel_app \<Rightarrow> string" where
  "process_name a = (case ta_process a of Some p \<Rightarrow> p | None \<Rightarrow> last (split_on (CHR ''/'') (ta_command a)))"

definition default_tunnel_apps :: "tunnel_app list" where
  "default_tunnel_apps = [tunnel_app_new ''Brave'' ''brave'', tunnel_app_new ''Steam'' ''steam'']"

record config =
  c_listen :: string
  c_providers :: "provider list"
  c_policy :: policy
  c_profiles :: "app_profile list"
  c_tunnel_apps :: "tunnel_app list"

definition default_listen :: string where "default_listen = ''127.0.0.53:53''"

definition config_default :: config where
  "config_default = \<lparr>c_listen = default_listen, c_providers = default_providers, c_policy = policy_default,
     c_profiles = [], c_tunnel_apps = default_tunnel_apps\<rparr>"

datatype config_error =
    Config_Io string io_kind
  | Config_Parse string string
  | Config_Serialize string
  | NoConfigDir

text \<open>\<open>fs::rename\<close> of a directory to a name that is not taken moves everything below it.\<close>

definition rename_tree :: "path \<Rightarrow> path \<Rightarrow> (io_kind, unit) io" where
  "rename_tree src dst = sys (\<lambda>_ t. t)
     (\<lambda>t. if t src = None then Inl NotFound
          else if t dst \<noteq> None then Inl Other_Kind
          else Inr ((), \<lambda>q. if prefix dst q then t (src @ drop (length dst) q)
                            else if prefix src q then None else t q))"

definition default_path :: "path option \<Rightarrow> path option \<Rightarrow> (config_error, path) io" where
  "default_path xdg_config_home home =
     (case (case xdg_config_home of Some b \<Rightarrow> Some b | None \<Rightarrow> map_option (\<lambda>h. h @ [''.config'']) home) of
        None \<Rightarrow> fail_io NoConfigDir
      | Some base \<Rightarrow>
          (let dir = base @ [''detour'']; legacy = base @ [''wuwa-dns''] in
           bind_io (path_exists dir) (\<lambda>e.
           bind_io (if e then return_io False else path_is_dir legacy) (\<lambda>move.
           bind_io (if move then ignore (rename_tree legacy dir) else return_io ()) (\<lambda>_.
             return_io (dir @ [''config.toml'']))))))"

definition load :: "(string \<Rightarrow> string + config) \<Rightarrow> path \<Rightarrow> (config_error, config) io" where
  "load of_toml path = bind_io (attempt (read_to_string path)) (\<lambda>r.
     case r of
       Inr text \<Rightarrow> (case of_toml text of
           Inl source \<Rightarrow> fail_io (Config_Parse (display path) source) | Inr c \<Rightarrow> return_io c)
     | Inl NotFound \<Rightarrow> return_io config_default
     | Inl source \<Rightarrow> fail_io (Config_Io (display path) source))"

definition save :: "(config \<Rightarrow> string + string) \<Rightarrow> config \<Rightarrow> path \<Rightarrow> (config_error, unit) io" where
  "save to_toml c path =
     bind_io (if path = [] then return_io ()
              else map_err (Config_Io (display (butlast path))) (create_dir_all (butlast path))) (\<lambda>_.
       case to_toml c of
         Inl e \<Rightarrow> fail_io (Config_Serialize e)
       | Inr text \<Rightarrow> map_err (Config_Io (display path)) (fs_write path text))"

fun check_providers :: "provider list \<Rightarrow> string + unit" where
  "check_providers [] = Inr ()"
| "check_providers (p # ps) =
     (if trim (p_name p) = [] then Inl ''every provider needs a name''
      else if provider_host p = None then Inl (p_name p @ '': the URL must start with https://'')
      else if p_bootstrap p = [] then
        Inl (p_name p @ '': needs at least one bootstrap IP, so resolving the provider '' @
             ''never depends on DNS that is itself being redirected here'')
      else check_providers ps)"

definition validate :: "config \<Rightarrow> string + unit" where
  "validate c =
     (if c_providers c = [] then Inl ''at least one DoH provider is required''
      else (case check_providers (c_providers c) of
              Inl e \<Rightarrow> Inl e
            | Inr _ \<Rightarrow>
                (case parse_socket (c_listen c) of
                   None \<Rightarrow> Inl (''listen address '' @ debug_str (c_listen c) @ '' is not IP:port'')
                 | Some _ \<Rightarrow> Inr ())))"

definition tunnel_app_of :: "config \<Rightarrow> string \<Rightarrow> tunnel_app option" where
  "tunnel_app_of c name = find (\<lambda>a. ta_name a = name) (c_tunnel_apps c)"

definition profile :: "config \<Rightarrow> string \<Rightarrow> app_profile option" where
  "profile c pid = find (\<lambda>p. ap_id p = pid) (c_profiles c)"

definition policy_for :: "config \<Rightarrow> string option \<Rightarrow> policy" where
  "policy_for c profile_id =
     (case Option.bind profile_id (profile c) of
        None \<Rightarrow> c_policy c
      | Some p \<Rightarrow> set_force_doh (c_policy c) (force_doh (c_policy c) @ ap_domains p))"

section \<open>Validation\<close>

lemma check_providers_ok:
  "check_providers ps = Inr () \<longleftrightarrow>
   (\<forall>p \<in> set ps. trim (p_name p) \<noteq> [] \<and> provider_host p \<noteq> None \<and> p_bootstrap p \<noteq> [])"
  by (induction ps) auto

lemma validate_ok:
  "validate c = Inr () \<longleftrightarrow> c_providers c \<noteq> [] \<and>
   (\<forall>p \<in> set (c_providers c). trim (p_name p) \<noteq> [] \<and> provider_host p \<noteq> None \<and> p_bootstrap p \<noteq> []) \<and>
   parse_socket (c_listen c) \<noteq> None"
  using check_providers_ok [of "c_providers c"]
  by (auto simp: validate_def split: sum.splits option.splits)

lemma build_upstreams_total:
  assumes "\<forall>p \<in> set ps. provider_host p \<noteq> None" "\<forall>pin. \<exists>x. client_build pin = Inr x"
  shows "\<exists>us. build_upstreams client_build ps = Inr us"
  using assms(1)
proof (induction ps)
  case (Cons p ps)
  then obtain us host where "build_upstreams client_build ps = Inr us" "provider_host p = Some host" by auto
  moreover obtain x where "client_build (if bootstrap_addrs p \<noteq> [] then Some (host, bootstrap_addrs p) else None) = Inr x"
    using assms(2) by blast
  ultimately show ?case by (simp add: build_upstream_def Let_def)
qed simp

lemma default_valid: "validate config_default = Inr ()"
proof -
  have "parse_socket default_listen \<noteq> None"
    using parse_socket_show_V4 [of 127 0 0 53 53]
    by (simp add: default_listen_def show_socket_def socket_new_def show_quad_def show_nat_eval)
  moreover have "\<forall>p \<in> set presets. trim (p_name p) = p_name p"
    by (simp add: presets_def preset_defs trim_word is_ws_def)
  ultimately show ?thesis
    using default_providers_subset presets_ok by (auto simp: validate_ok config_default_def default_providers_def)
qed

lemma list_ex_normalised:
  "list_ex (suffix_matches n) (map normalise_str ds) \<longleftrightarrow> list_ex (suffix_matches n) ds"
  by (simp add: list_ex_iff)

section \<open>Properties\<close>

text \<open>A configuration that passes \<open>validate\<close> gives a listen address and, whenever the HTTP client
  can be built, a resolver with all its providers, every client of which is pinned to its own
  host at its bootstrap addresses, of which there is at least one. The default configuration passes.\<close>

theorem validate_builds_resolver:
  assumes "validate c = Inr ()" "\<forall>pin. \<exists>x. client_build pin = Inr x"
  shows "(\<exists>addr. parse_socket (c_listen c) = Some addr) \<and>
    (\<exists>r k. resolver_new client_build (c_providers c) = Inr (r, k) \<and>
       map u_provider (r_upstreams r) = c_providers c \<and>
       (\<forall>u \<in> set (r_upstreams r). p_bootstrap (u_provider u) \<noteq> [] \<and>
          (\<exists>host. provider_host (u_provider u) = Some host \<and>
             client_build (Some (host, map (\<lambda>ip. socket_new ip 443) (p_bootstrap (u_provider u)))) = Inr (u_client u))))"
proof -
  from assms(1) have ok: "c_providers c \<noteq> []" "\<forall>p \<in> set (c_providers c). provider_host p \<noteq> None \<and> p_bootstrap p \<noteq> []"
    "parse_socket (c_listen c) \<noteq> None" by (auto simp: validate_ok)
  obtain us where "build_upstreams client_build (c_providers c) = Inr us"
    using build_upstreams_total [OF _ assms(2)] ok(2) by blast
  then have r: "resolver_new client_build (c_providers c) = Inr (\<lparr>r_upstreams = us\<rparr>, cache_new 4096)"
    using ok(1) by (simp add: resolver_new_def resolver_with_capacity_def DEFAULT_CACHE_CAPACITY_def)
  note built = built_upstreams [OF r, unfolded doh_resolver.select_convs]
  then have "map u_provider us = c_providers c"
    and pins: "\<forall>u \<in> set us. \<exists>host. provider_host (u_provider u) = Some host \<and>
      client_build (if p_bootstrap (u_provider u) = [] then None
        else Some (host, map (\<lambda>ip. socket_new ip 443) (p_bootstrap (u_provider u)))) = Inr (u_client u)"
    by blast+
  moreover from this(1) have "\<forall>u \<in> set us. p_bootstrap (u_provider u) \<noteq> []" using ok(2) by (metis imageI list.set_map)
  ultimately have "\<forall>u \<in> set us. p_bootstrap (u_provider u) \<noteq> [] \<and> (\<exists>host. provider_host (u_provider u) = Some host \<and>
      client_build (Some (host, map (\<lambda>ip. socket_new ip 443) (p_bootstrap (u_provider u)))) = Inr (u_client u))"
    by simp
  with r ok(3) \<open>map u_provider us = c_providers c\<close> show ?thesis by auto
qed

theorem validate_builds_resolver_witness:
  "\<exists>r k. resolver_new (\<lambda>pin. Inr pin) (c_providers config_default) = Inr (r, k)"
  using validate_builds_resolver [OF default_valid, of "\<lambda>pin. Inr pin"] by auto

text \<open>An active profile only ever moves names from the system resolvers to DoH, and only names that
  match one of its domains and no local rule; local names keep their route, and without such
  a profile the policy is the user's own.\<close>

theorem policy_for_only_adds_doh:
  "policy_route to_ascii (policy_for c pid) n =
     (case Option.bind pid (profile c) of
        None \<Rightarrow> policy_route to_ascii (c_policy c) n
      | Some p \<Rightarrow>
          let labels = normalise to_ascii n in
          if list_ex (suffix_matches labels) (ap_domains p) \<and> \<not> is_builtin_local labels \<and>
             \<not> list_ex (suffix_matches labels) (force_local (c_policy c))
          then Doh else policy_route to_ascii (c_policy c) n)"
  by (auto simp: policy_for_def policy_route_def set_force_doh_def Let_def list_ex_normalised split: option.splits)

section \<open>The file\<close>

lemma save_yields:
  assumes "quiet w" "path \<noteq> []" "plain_node (w_fs w path)"
    "\<forall>k. w_fs w (take k (butlast path)) \<in> {None, Some Dir}" "to_toml c = Inr text"
  obtains k where "yields (save to_toml c path) w () ((make_dirs (butlast path) (w_fs w))(path \<mapsto> File text k))"
proof -
  let ?d = "make_dirs (butlast path) (w_fs w)"
  have np: "\<not> prefix path (butlast path)" using assms(2) by (cases path rule: rev_cases) (auto dest: prefix_length_le)
  have d: "stat ?d (butlast path) = Some Dir" "plain_node (?d path)"
    using assms(3) make_dirs_dir [OF assms(4)] np by (subst stat_self, simp_all add: is_link_def) (simp add: make_dirs_def)
  obtain w1 where w1: "create_dir_all (butlast path) w = (Inr (), w1)" "quiet w1" "w_fs w1 = ?d"
    by (rule yieldsE [OF dirs_yields [OF assms(1,4)]])
  obtain k where wr: "yields (fs_write path text) w1 () (?d(path \<mapsto> File text k))"
    using fs_write_yields [OF w1(2), of path "text"] d unfolding w1(3) by blast
  have "yields (save to_toml c path) w () (?d(path \<mapsto> File text k))"
    using yields_map_err [OF wr] w1(1) assms(2,5)
    by (simp add: save_def yields_def bind_io_def map_err_def)
  then show thesis by (rule that)
qed

lemma load_yields:
  assumes "quiet w" "stat (w_fs w) path = Some (File text k)" "of_toml text = Inr c"
  shows "yields (load of_toml path) w c (w_fs w)"
  unfolding load_def
proof (rule yields_bind [OF yields_attempt [OF yields_read [OF assms(1,2)]]])
  fix w1 :: world assume "w_fs w1 = w_fs w" "quiet w1"
  then show "yields (case Inr text of Inr text \<Rightarrow> (case of_toml text of
       Inl source \<Rightarrow> fail_io (Config_Parse (display path) source) | Inr c \<Rightarrow> return_io c)
     | Inl NotFound \<Rightarrow> return_io config_default
     | Inl source \<Rightarrow> fail_io (Config_Io (display path) source)) w1 c (w_fs w)"
    using yields_return [of w1 c] by (simp add: assms(3))
qed

text \<open>Saving a configuration and loading the file gives the configuration back, also when the
  directories did not exist, provided that the TOML codec reads back what it wrote.\<close>

theorem save_load_roundtrip:
  assumes "quiet w" "path \<noteq> []" "plain_node (w_fs w path)"
    "\<forall>k. w_fs w (take k (butlast path)) \<in> {None, Some Dir}"
    "to_toml c = Inr text" "of_toml text = Inr c"
  shows "\<exists>t. yields (bind_io (save to_toml c path) (\<lambda>_. load of_toml path)) w c t \<and>
    (\<forall>p. p \<noteq> path \<longrightarrow> t p = make_dirs (butlast path) (w_fs w) p)"
proof -
  let ?d = "make_dirs (butlast path) (w_fs w)"
  obtain k where "yields (save to_toml c path) w () (?d(path \<mapsto> File text k))"
    by (rule save_yields [where to_toml = to_toml, OF assms(1-5)])
  moreover have "yields (load of_toml path) w2 c (?d(path \<mapsto> File text k))"
    if w2: "w_fs w2 = ?d(path \<mapsto> File text k)" "quiet w2" for w2
    using load_yields [OF w2(2), where of_toml = of_toml, OF _ assms(6)] w2(1) by (simp add: stat_self is_link_def)
  ultimately have "yields (bind_io (save to_toml c path) (\<lambda>_. load of_toml path)) w c (?d(path \<mapsto> File text k))"
    by (rule yields_bind)
  then show ?thesis by auto
qed

theorem save_load_roundtrip_witness:
  "\<exists>t. yields (bind_io (save (\<lambda>_. Inr ''x'') config_default [''cfg'', ''config.toml''])
      (\<lambda>_. load (\<lambda>_. Inr config_default) [''cfg'', ''config.toml'']))
    \<lparr>w_fs = Map.empty, w_faults = [], w_trace = [Map.empty]\<rparr> config_default t"
  using save_load_roundtrip [of "\<lparr>w_fs = Map.empty, w_faults = [], w_trace = [Map.empty]\<rparr>" "[''cfg'', ''config.toml'']"
      "\<lambda>_. Inr ''x''" config_default "''x''" "\<lambda>_. Inr config_default"]
  by (auto simp: quiet_def)

end
