(* ===== verification/Resolvconf.thy ===== *)
theory Resolvconf
  imports Filesystem Net_Addr Text "HOL-Library.Countable"
begin

text \<open>
  \<open>crates/dns-helper/src/resolvconf.rs\<close>: the takeover of \<open>/etc/resolv.conf\<close>, on the file system
  of \<open>Filesystem\<close>. The process environment (pid, clock, \<open>kill(pid, 0)\<close>) and the JSON codec of
  the state file (\<open>serde_json\<close>) are the argument \<open>host\<close>.
\<close>

section \<open>The code\<close>

definition RESOLV_CONF :: path where "RESOLV_CONF = [''etc'', ''resolv.conf'']"
definition STATE_DIR :: path where "STATE_DIR = [''var'', ''lib'', ''detour'']"
definition NM_DROPIN :: path where
  "NM_DROPIN = [''etc'', ''NetworkManager'', ''conf.d'', ''00-detour.conf'']"

definition NM_DROPIN_BODY :: string where
  "NM_DROPIN_BODY = unlines
     [''# Written by Detour while Detour DNS protection is active.'',
      ''# Removed automatically when protection is turned off.'',
      ''[main]'', ''dns=none'', ''rc-manager=unmanaged'']"

datatype resolv_error =
    Denied string
  | Io_At string io_kind
  | CorruptState string
  | AlreadyActive u32
  | NoBackup

definition io_err :: "path \<Rightarrow> io_kind \<Rightarrow> resolv_error" where
  "io_err p source = (if source = PermissionDenied then Denied (display p) else Io_At (display p) source)"

record takeover_state =
  ts_pid :: u32
  ts_taken_over_at :: u64
  ts_original_nameservers :: "ip_addr list"
  ts_original_symlink_target :: "link_target option"
  ts_wrote_nm_dropin :: bool

record host =
  h_pid :: u32
  h_now :: u64
  h_kill0 :: "int \<Rightarrow> bool"
  h_ser :: "takeover_state \<Rightarrow> string"
  h_de :: "string \<Rightarrow> takeover_state option"

record manager =
  resolv_path :: path
  state_dir :: path
  nm_dropin :: path

definition manager_default :: manager where
  "manager_default = \<lparr>resolv_path = RESOLV_CONF, state_dir = STATE_DIR, nm_dropin = NM_DROPIN\<rparr>"

definition backup_path :: "manager \<Rightarrow> path" where
  "backup_path m = state_dir m @ [''resolv.conf.backup'']"

definition state_path :: "manager \<Rightarrow> path" where
  "state_path m = state_dir m @ [''state.json'']"

definition process_is_alive :: "host \<Rightarrow> u32 \<Rightarrow> bool" where
  "process_is_alive h pid = (if pid = 0 then False else h_kill0 h (sint pid))"

definition PROXY_ADDR :: string where "PROXY_ADDR = ''127.0.0.53''"

definition is_our_proxy :: "ip_addr \<Rightarrow> bool" where
  "is_our_proxy ip \<longleftrightarrow> show_ip ip = PROXY_ADDR"

definition head_opt :: "'a list \<Rightarrow> 'a option" where
  "head_opt xs = (case xs of [] \<Rightarrow> None | x # _ \<Rightarrow> Some x)"

definition parse_nameservers :: "string \<Rightarrow> ip_addr list" where
  "parse_nameservers text =
     filter (\<lambda>ip. \<not> is_our_proxy ip)
       (List.map_filter (\<lambda>addr. parse_ip (case head_opt (split_on (CHR ''%'') addr) of Some a \<Rightarrow> a | None \<Rightarrow> addr))
         (List.map_filter (\<lambda>rest. head_opt (split_whitespace (trim rest)))
           (List.map_filter (strip_prefix ''nameserver'')
             (filter (\<lambda>l. \<not> starts_with ''#'' l \<and> \<not> starts_with '';'' l) (map trim (str_lines text))))))"

definition to_socket_addrs :: "ip_addr list \<Rightarrow> socket_addr list" where
  "to_socket_addrs servers = map (\<lambda>ip. socket_new ip 53) servers"

definition tmp_path :: "path \<Rightarrow> path" where
  "tmp_path p = butlast p @ [''.'' @ (if p = [] then ''tmp'' else last p) @ ''.detour.tmp'']"

definition fill_tmp :: "path \<Rightarrow> string \<Rightarrow> nat \<Rightarrow> (resolv_error, unit) io" where
  "fill_tmp tmp contents mode =
     bind_io (map_err (io_err tmp) (file_create tmp)) (\<lambda>file.
     bind_io (map_err (io_err tmp) (file_write_all file contents)) (\<lambda>_.
     bind_io (map_err (io_err tmp) sync_all) (\<lambda>_.
       map_err (io_err tmp) (set_permissions file mode))))"

definition write_atomic :: "path \<Rightarrow> string \<Rightarrow> nat \<Rightarrow> (resolv_error, unit) io" where
  "write_atomic p contents mode =
     (let tmp = tmp_path p in
      bind_io (fill_tmp tmp contents mode) (\<lambda>_.
      bind_io (attempt (rename_file tmp p)) (\<lambda>renamed.
        case renamed of
          Inl e \<Rightarrow> bind_io (ignore (remove_file tmp)) (\<lambda>_. fail_io (io_err p e))
        | Inr _ \<Rightarrow>
            bind_io (ok sync_all) (\<lambda>dir.
              case dir of Some _ \<Rightarrow> ignore sync_all | None \<Rightarrow> return_io ()))))"

definition read_state :: "host \<Rightarrow> manager \<Rightarrow> (resolv_error, takeover_state option) io" where
  "read_state h m =
     bind_io (attempt (read_to_string (state_path m))) (\<lambda>r.
       case r of
         Inr text \<Rightarrow>
           (case h_de h text of
              Some s \<Rightarrow> return_io (Some s)
            | None \<Rightarrow> fail_io (CorruptState (display (state_path m))))
       | Inl NotFound \<Rightarrow> return_io None
       | Inl e \<Rightarrow> fail_io (io_err (state_path m) e))"

definition is_active :: "host \<Rightarrow> manager \<Rightarrow> (resolv_error, bool) io" where
  "is_active h m = bind_io (read_state h m) (\<lambda>s.
     return_io (case s of Some s \<Rightarrow> process_is_alive h (ts_pid s) | None \<Rightarrow> False))"

definition current_nameservers :: "manager \<Rightarrow> (resolv_error, ip_addr list) io" where
  "current_nameservers m =
     bind_io (map_err (io_err (resolv_path m)) (read_to_string (resolv_path m)))
       (\<lambda>text. return_io (parse_nameservers text))"

definition write_nm_dropin :: "manager \<Rightarrow> (resolv_error, bool) io" where
  "write_nm_dropin m =
     (if nm_dropin m = [] then return_io False
      else bind_io (path_is_dir (butlast (nm_dropin m))) (\<lambda>d.
        if \<not> d then return_io False
        else bind_io (path_exists (nm_dropin m)) (\<lambda>x.
          if x then return_io False
          else bind_io (write_atomic (nm_dropin m) NM_DROPIN_BODY 420) (\<lambda>_. return_io True))))"

definition restore :: "host \<Rightarrow> manager \<Rightarrow> (resolv_error, unit) io" where
  "restore h m =
     (let backup = backup_path m in
      bind_io (path_exists backup) (\<lambda>x.
        if \<not> x then bind_io (ignore (remove_file (state_path m))) (\<lambda>_. fail_io NoBackup)
        else
          bind_io (ok (read_state h m)) (\<lambda>st.
            let state = (case st of Some s \<Rightarrow> s | None \<Rightarrow> None) in
            bind_io (map_err (io_err backup) (read_to_string backup)) (\<lambda>contents.
            bind_io
              (case (case state of Some s \<Rightarrow> ts_original_symlink_target s | None \<Rightarrow> None) of
                 Some target \<Rightarrow>
                   bind_io (ignore (remove_file (resolv_path m))) (\<lambda>_.
                     map_err (io_err (resolv_path m)) (make_symlink target (resolv_path m)))
               | None \<Rightarrow> write_atomic (resolv_path m) contents 420) (\<lambda>_.
            bind_io
              (if (case state of Some s \<Rightarrow> ts_wrote_nm_dropin s | None \<Rightarrow> True)
               then ignore (remove_file (nm_dropin m)) else return_io ()) (\<lambda>_.
            bind_io (ignore (remove_file (state_path m))) (\<lambda>_.
              ignore (remove_file backup))))))))"

definition reconcile_after_crash :: "host \<Rightarrow> manager \<Rightarrow> (resolv_error, takeover_state option) io" where
  "reconcile_after_crash h m =
     bind_io (read_state h m) (\<lambda>st.
       case st of
         None \<Rightarrow> return_io None
       | Some state \<Rightarrow>
           if process_is_alive h (ts_pid state) then fail_io (AlreadyActive (ts_pid state))
           else bind_io (restore h m) (\<lambda>_. return_io (Some state)))"

text \<open>The two halves of \<open>take_over\<close> after the check for an earlier run: everything up to the state
  file, then the redirection.\<close>

definition take_over_prepare :: "host \<Rightarrow> manager \<Rightarrow> (resolv_error, takeover_state) io" where
  "take_over_prepare h m =
     bind_io (map_err (io_err (state_dir m)) (create_dir_all (state_dir m))) (\<lambda>_.
     bind_io (ok (symlink_metadata (resolv_path m))) (\<lambda>meta.
     bind_io
       (case meta of
          Some (Link _) \<Rightarrow> ok (read_link (resolv_path m))
        | _ \<Rightarrow> return_io None) (\<lambda>symlink_target.
     bind_io (map_err (io_err (resolv_path m)) (read_to_string (resolv_path m))) (\<lambda>original.
     bind_io (write_atomic (backup_path m) original 384) (\<lambda>_.
     bind_io (write_nm_dropin m) (\<lambda>wrote_nm_dropin.
       let state = \<lparr>ts_pid = h_pid h, ts_taken_over_at = h_now h,
                    ts_original_nameservers = parse_nameservers original,
                    ts_original_symlink_target = symlink_target, ts_wrote_nm_dropin = wrote_nm_dropin\<rparr> in
       bind_io (write_atomic (state_path m) (h_ser h state) 384) (\<lambda>_. return_io state)))))))"

definition redirect_body :: "manager \<Rightarrow> ip_addr \<Rightarrow> string" where
  "redirect_body m listen_addr = unlines
     [''# Managed by Detour. The original file is backed up at'',
      ''# '' @ display (backup_path m),
      ''# and is restored automatically when DNS protection is turned off.'',
      ''nameserver '' @ show_ip listen_addr,
      ''options edns0 trust-ad'']"

definition take_over_redirect :: "manager \<Rightarrow> ip_addr \<Rightarrow> takeover_state \<Rightarrow> (resolv_error, takeover_state) io" where
  "take_over_redirect m listen_addr state =
     bind_io (write_atomic (resolv_path m) (redirect_body m listen_addr) 420) (\<lambda>_. return_io state)"

definition take_over :: "host \<Rightarrow> manager \<Rightarrow> ip_addr \<Rightarrow> (resolv_error, takeover_state) io" where
  "take_over h m listen_addr =
     bind_io (read_state h m) (\<lambda>st.
     bind_io
       (case st of
          Some existing \<Rightarrow>
            if process_is_alive h (ts_pid existing) then fail_io (AlreadyActive (ts_pid existing))
            else restore h m
        | None \<Rightarrow> return_io ()) (\<lambda>_.
     bind_io (take_over_prepare h m) (take_over_redirect m listen_addr)))"

section \<open>Atomic writes\<close>

lemma file_create_plain:
  assumes "plain_node (w_fs w p)" "file_create p w = (Inr q, w')"
  shows "q = p \<and> (\<exists>k. w_fs w' = (w_fs w)(p \<mapsto> File [] k))"
  using sys_Inr [OF assms(2) [unfolded file_open_def]] assms(1)
  by (auto simp: real_path_41 [OF plain_not_link [of "w_fs w" p, OF assms(1)]] plain_node_def
      dest!: sym [of _ "w_fs w'"] split: option.splits if_splits node.splits)

lemma frames_fill_tmp:
  assumes "closed_at Q p" "\<And>t. Q t \<Longrightarrow> plain_node (t p)"
  shows "frames Q {p} (fill_tmp p c k)"
  unfolding fill_tmp_def
proof (rule frames_bind_dep)
  show "frames Q {p} (map_err (io_err p) (file_create p))"
    by (intro frames_wrappers frames_create assms)
next
  fix w q w' assume "Q (w_fs w)" "map_err (io_err p) (file_create p) w = (Inr q, w')"
  with file_create_plain [of w p q w'] assms(2) have "q = p" by (simp add: map_err_Inr)
  then show "frames Q {p} (bind_io (map_err (io_err p) (file_write_all q c))
      (\<lambda>_. bind_io (map_err (io_err p) sync_all) (\<lambda>_. map_err (io_err p) (set_permissions q k))))"
    by (simp add: frames_bind frames_wrappers frames_write_all frames_set_permissions frames_queries assms(1))
qed

lemma fill_tmp_Inr:
  assumes "plain_node (w_fs w p)" "fill_tmp p c k w = (Inr u, w')"
  shows "w_fs w' = (w_fs w)(p \<mapsto> File c k)"
proof -
  from assms(2) obtain q w1 u2 w2 u3 w3 where
    c: "file_create p w = (Inr q, w1)" and wr: "file_write_all q c w1 = (Inr u2, w2)"
    and sy: "sync_all w2 = (Inr u3, w3)" and pe: "set_permissions q k w3 = (Inr u, w')"
    unfolding fill_tmp_def by (auto simp: map_err_Inr elim!: bind_io_Inr)
  from file_create_plain [OF assms(1) c] obtain k0 where 1: "q = p" "w_fs w1 = (w_fs w)(p \<mapsto> File [] k0)" by blast
  from sys_Inr [OF wr [unfolded file_write_all_def Let_def]] 1 have 2: "w_fs w2 = (w_fs w)(p \<mapsto> File c k0)" by simp
  from query_Inr [OF sy [unfolded sync_all_def]] have 3: "w_fs w3 = w_fs w2" by simp
  from sys_Inr [OF pe [unfolded set_permissions_def]] 1 2 3 show ?thesis by simp
qed

lemma frames_write_atomic:
  assumes "closed_at Q (tmp_path p)" "closed_at Q p" "\<And>t. Q t \<Longrightarrow> plain_node (t (tmp_path p))"
  shows "frames Q {tmp_path p, p} (write_atomic p c k)"
proof -
  have 1: "frames Q {tmp_path p, p} (fill_tmp (tmp_path p) c k)"
    by (rule frames_mono [OF frames_fill_tmp]) (use assms in auto)
  have 2: "frames Q {tmp_path p, p} (remove_file (tmp_path p))"
    by (rule frames_mono [OF frames_remove]) (use assms in auto)
  have 3: "frames Q {tmp_path p, p} (rename_file (tmp_path p) p)"
    by (rule frames_rename) (use assms in auto)
  show ?thesis
    unfolding write_atomic_def Let_def
    by (intro frames_bind 1 frames_wrappers 3)
      (auto intro!: frames_bind frames_wrappers frames_fail frames_return frames_queries 2 split: sum.splits option.splits)
qed

lemma write_atomic_Inr:
  assumes "plain_node (w_fs w (tmp_path p))" "p \<noteq> tmp_path p" "write_atomic p c k w = (Inr u, w')"
  shows "w_fs w' = (w_fs w)(tmp_path p := None, p \<mapsto> File c k)"
proof -
  from assms(3) obtain u1 w1 r w2 where
    f: "fill_tmp (tmp_path p) c k w = (Inr u1, w1)" and re: "rename_file (tmp_path p) p w1 = (r, w2)"
    and rest: "(case r of Inl e \<Rightarrow> bind_io (ignore (remove_file (tmp_path p))) (\<lambda>_. fail_io (io_err p e))
        | Inr _ \<Rightarrow> bind_io (ok sync_all) (\<lambda>dir. case dir of Some _ \<Rightarrow> ignore sync_all | None \<Rightarrow> return_io ())) w2
      = (Inr u, w')"
    unfolding write_atomic_def Let_def
    by (elim bind_io_Inr) (rule that, assumption, simp only: attempt_Inr, assumption)
  from fill_tmp_Inr [OF assms(1) f] have 1: "w_fs w1 = (w_fs w)(tmp_path p \<mapsto> File c k)" .
  obtain u3 where r: "r = Inr u3"
    using rest by (cases r) (auto elim!: bind_io_Inr simp: fail_io_def)
  with re have "rename_file (tmp_path p) p w1 = (Inr u3, w2)" by simp
  from sys_Inr [OF this [unfolded rename_file_def]] 1 have 2: "w_fs w2 = (w_fs w)(tmp_path p := None, p \<mapsto> File c k)"
    by (auto split: if_splits)
  have "frames (\<lambda>t. t = w_fs w2) {} (bind_io (ok sync_all) (\<lambda>dir. case dir of Some _ \<Rightarrow> ignore sync_all | None \<Rightarrow> return_io ()))"
    by (auto intro!: frames_bind frames_wrappers frames_return frames_queries split: option.splits)
  from always_final [OF always_frames [OF this refl] rest [unfolded r sum.case]] 2 show ?thesis by simp
qed

lemma tmp_path_neq [simp]: "tmp_path p \<noteq> p" "p \<noteq> tmp_path p"
proof -
  have "length (last (tmp_path p)) \<noteq> length (last p) \<or> p = []" "tmp_path p \<noteq> []"
    by (simp_all add: tmp_path_def)
  then show "tmp_path p \<noteq> p" "p \<noteq> tmp_path p" by metis+
qed

lemma closed_at_plain: "closed_at (\<lambda>t. plain_node (t p)) p"
  by (simp add: closed_at_def)

lemma write_atomic_yields:
  assumes "quiet w" "plain_node (w_fs w (tmp_path p))" "w_fs w (butlast p) = Some Dir" "w_fs w p \<noteq> Some Dir"
  shows "yields (write_atomic p c k) w () ((w_fs w)(tmp_path p := None, p \<mapsto> File c k))"
proof -
  let ?q = "tmp_path p"
  have par: "butlast ?q = butlast p" by (simp add: tmp_path_def)
  have dir: "stat (w_fs w) (butlast p) = Some Dir"
    using assms(3) by (subst stat_self) (auto simp: is_link_def)
  obtain k0 where 1: "yields (file_create ?q) w ?q ((w_fs w)(?q \<mapsto> File [] k0))"
    using file_open_yields [OF assms(1,2)] dir par by metis
  have 2: "yields (file_write_all ?q c) w1 () ((w_fs w)(?q \<mapsto> File c k0))"
    if "w_fs w1 = (w_fs w)(?q \<mapsto> File [] k0)" "quiet w1" for w1
    unfolding file_write_all_def Let_def by (rule yields_sys) (simp_all add: that)
  have 3: "yields sync_all w1 () (w_fs w1)" if "quiet w1" for w1
    unfolding sync_all_def by (rule yields_query) (simp_all add: that)
  have 4: "yields (set_permissions ?q k) w1 () ((w_fs w)(?q \<mapsto> File c k))"
    if "w_fs w1 = (w_fs w)(?q \<mapsto> File c k0)" "quiet w1" for w1
    unfolding set_permissions_def by (rule yields_sys) (simp_all add: that)
  have fill: "yields (fill_tmp ?q c k) w () ((w_fs w)(?q \<mapsto> File c k))"
    unfolding fill_tmp_def
    by (rule yields_bind [OF yields_map_err [OF 1]], rule yields_bind [OF yields_map_err [OF 2]], assumption, assumption,
        rule yields_bind [OF yields_map_err [OF 3]], assumption, rule yields_map_err, rule 4) simp_all
  have 5: "yields (rename_file ?q p) w1 () ((w_fs w)(?q := None, p \<mapsto> File c k))"
    if "w_fs w1 = (w_fs w)(?q \<mapsto> File c k)" "quiet w1" for w1
    unfolding rename_file_def by (rule yields_sys) (simp_all add: that assms(4))
  show ?thesis
    unfolding write_atomic_def Let_def
  proof (rule yields_bind [OF fill], rule yields_bind [OF yields_attempt [OF 5]], assumption, assumption)
    fix w1 :: world
    assume w1: "w_fs w1 = (w_fs w)(?q := None, p \<mapsto> File c k)" "quiet w1"
    show "yields (case Inr () of Inl e \<Rightarrow> bind_io (ignore (remove_file ?q)) (\<lambda>_. fail_io (io_err p e))
        | Inr _ \<Rightarrow> bind_io (ok sync_all) (\<lambda>dir. case dir of None \<Rightarrow> return_io () | Some _ \<Rightarrow> ignore sync_all))
      w1 () ((w_fs w)(?q := None, p \<mapsto> File c k))"
      unfolding sum.case
      by (rule yields_bind [OF yields_ok [OF 3]], rule w1(2), simp, rule yields_ignore [where x = "()"])
        (use w1 3 in \<open>metis\<close>)
  qed
qed

text \<open>Whatever fails and wherever it stops, the target holds its old node or the whole new file.\<close>

lemma write_atomic_always:
  assumes "plain_node (w_fs w (tmp_path p))"
  shows "always (\<lambda>t. t p = w_fs w p \<or> t p = Some (File c k)) (write_atomic p c k) w"
proof -
  let ?q = "tmp_path p" and ?Q = "\<lambda>t. plain_node (t (tmp_path p))"
  have fill: "frames ?Q {?q} (fill_tmp ?q c k)"
    by (rule frames_fill_tmp [OF closed_at_plain])
  have rem: "frames ?Q {?q} (remove_file ?q)"
    by (rule frames_remove [OF closed_at_plain])
  show ?thesis
    unfolding write_atomic_def Let_def
  proof (rule always_bind_via [where A = "\<lambda>t. ?Q t \<and> (\<forall>q. q \<notin> {?q} \<longrightarrow> t q = w_fs w q)"])
    show "always (\<lambda>t. ?Q t \<and> (\<forall>q. q \<notin> {?q} \<longrightarrow> t q = w_fs w q)) (fill_tmp ?q c k) w"
      by (rule always_frames [OF fill]) (rule assms)
    show "t p = w_fs w p \<or> t p = Some (File c k)" if "?Q t \<and> (\<forall>q. q \<notin> {?q} \<longrightarrow> t q = w_fs w q)" for t
      using that by simp
  next
    fix u w1
    assume run: "fill_tmp ?q c k w = (Inr u, w1)" and "?Q (w_fs w1) \<and> (\<forall>q. q \<notin> {?q} \<longrightarrow> w_fs w1 q = w_fs w q)"
    then have w1: "?Q (w_fs w1)" "w_fs w1 p = w_fs w p" "w_fs w1 ?q = Some (File c k)"
      using fill_tmp_Inr [of w ?q c k u w1] assms by simp_all
    have ren: "always (\<lambda>t. t p = w_fs w p \<and> ?Q t \<or> t p = Some (File c k)) (rename_file ?q p) w1"
      using w1 unfolding rename_file_def always_def
      by (auto simp: sys_def put_def Let_def split: option.splits fault.splits)
    show "always (\<lambda>t. t p = w_fs w p \<or> t p = Some (File c k))
      (bind_io (attempt (rename_file ?q p)) (\<lambda>renamed. case renamed of
          Inl e \<Rightarrow> bind_io (ignore (remove_file ?q)) (\<lambda>_. fail_io (io_err p e))
        | Inr _ \<Rightarrow> bind_io (ok sync_all) (\<lambda>dir. case dir of None \<Rightarrow> return_io () | Some _ \<Rightarrow> ignore sync_all))) w1"
    proof (rule always_bind_via)
      show "always (\<lambda>t. t p = w_fs w p \<and> ?Q t \<or> t p = Some (File c k)) (attempt (rename_file ?q p)) w1"
        unfolding always_wrappers by (rule ren)
    next
      fix r w2
      assume "attempt (rename_file ?q p) w1 = (Inr r, w2)"
        and w2: "w_fs w2 p = w_fs w p \<and> ?Q (w_fs w2) \<or> w_fs w2 p = Some (File c k)"
      show "always (\<lambda>t. t p = w_fs w p \<or> t p = Some (File c k)) (case r of
          Inl e \<Rightarrow> bind_io (ignore (remove_file ?q)) (\<lambda>_. fail_io (io_err p e))
        | Inr _ \<Rightarrow> bind_io (ok sync_all) (\<lambda>dir. case dir of None \<Rightarrow> return_io () | Some _ \<Rightarrow> ignore sync_all)) w2"
      proof (rule always_mono)
        have "frames (\<lambda>_. True) {?q} (remove_file ?q)"
          by (rule frames_remove) (simp add: closed_at_def)
        then have "frames (\<lambda>_. True) {?q} (case r of
          Inl e \<Rightarrow> bind_io (ignore (remove_file ?q)) (\<lambda>_. fail_io (io_err p e))
        | Inr _ \<Rightarrow> bind_io (ok sync_all) (\<lambda>dir. case dir of None \<Rightarrow> return_io () | Some _ \<Rightarrow> ignore sync_all))"
          by (auto intro!: frames_bind frames_wrappers frames_fail frames_return frames_queries split: sum.splits option.splits)
        from always_frames [OF this]
        show "always (\<lambda>t. True \<and> (\<forall>q. q \<notin> {?q} \<longrightarrow> t q = w_fs w2 q)) (case r of
          Inl e \<Rightarrow> bind_io (ignore (remove_file ?q)) (\<lambda>_. fail_io (io_err p e))
        | Inr _ \<Rightarrow> bind_io (ok sync_all) (\<lambda>dir. case dir of None \<Rightarrow> return_io () | Some _ \<Rightarrow> ignore sync_all)) w2" by simp
        show "t p = w_fs w p \<or> t p = Some (File c k)" if "True \<and> (\<forall>q. q \<notin> {?q} \<longrightarrow> t q = w_fs w2 q)" for t
          using that w2 by auto
      qed
    qed auto
  qed
qed

section \<open>The manager's files\<close>

definition own_files :: "manager \<Rightarrow> path list" where
  "own_files m = [resolv_path m, backup_path m, state_path m, nm_dropin m,
     tmp_path (resolv_path m), tmp_path (backup_path m), tmp_path (state_path m), tmp_path (nm_dropin m)]"

text \<open>The files are different ones, none is a directory on the way to the state directory, and none
  is the directory of \<open>resolv.conf\<close>.\<close>

definition layout :: "manager \<Rightarrow> bool" where
  "layout m \<longleftrightarrow> distinct (own_files m) \<and> list_all (\<lambda>p. \<not> prefix p (state_dir m)) (own_files m) \<and>
     butlast (resolv_path m) \<notin> set (own_files m) \<and> butlast (nm_dropin m) \<notin> set (own_files m) \<and>
     nm_dropin m \<noteq> []"

lemma layout_default: "layout manager_default"
  by (simp add: layout_def own_files_def manager_default_def RESOLV_CONF_def STATE_DIR_def NM_DROPIN_def
      backup_path_def state_path_def tmp_path_def)

text \<open>The temporary names are not taken by links or directories, the drop-in is not a directory, and
  \<open>resolv.conf\<close> has a directory.\<close>

definition sane :: "manager \<Rightarrow> files \<Rightarrow> bool" where
  "sane m t \<longleftrightarrow> (\<forall>p \<in> {resolv_path m, backup_path m, state_path m, nm_dropin m}. plain_node (t (tmp_path p))) \<and>
     t (butlast (resolv_path m)) = Some Dir \<and> t (nm_dropin m) \<noteq> Some Dir"

lemma sane_closed: "layout m \<Longrightarrow> p \<in> set (own_files m) \<Longrightarrow> closed_at (sane m) p"
  by (auto simp: closed_at_def sane_def layout_def)

lemma sane_make_dirs:
  assumes "layout m" "sane m t" shows "sane m (make_dirs (take k (state_dir m)) t)"
proof -
  have "\<not> prefix p (take k (state_dir m))" if "p \<in> set (own_files m)" for p
    using assms(1) that take_is_prefix [of k "state_dir m"] prefix_order.trans
    by (auto simp: layout_def list_all_iff)
  then have "make_dirs (take k (state_dir m)) t p = t p" if "p \<in> set (own_files m)" for p
    using that by (simp add: make_dirs_def)
  then show ?thesis using assms(2) by (simp add: sane_def own_files_def make_dirs_def)
qed

lemma sane_tmp:
  "sane m t \<Longrightarrow> p \<in> {resolv_path m, backup_path m, state_path m, nm_dropin m} \<Longrightarrow> plain_node (t (tmp_path p))"
  by (auto simp: sane_def)

lemma frames_write_own:
  assumes "layout m" "p \<in> {resolv_path m, backup_path m, state_path m, nm_dropin m}"
  shows "frames (sane m) {tmp_path p, p} (write_atomic p c k)"
  by (rule frames_write_atomic)
    (use assms sane_tmp in \<open>auto intro!: sane_closed simp: own_files_def\<close>)

lemma frames_nm_dropin:
  assumes "layout m"
  shows "frames (sane m) {tmp_path (nm_dropin m), nm_dropin m} (write_nm_dropin m)"
  unfolding write_nm_dropin_def
  by (intro frames_if frames_return frames_bind frames_tests frames_write_own [OF assms]) simp

lemma frames_state_dir:
  assumes "layout m"
  shows "frames (sane m) {q. prefix q (state_dir m)} (create_dir_all (state_dir m))"
  by (rule frames_create_dir_all) (rule sane_make_dirs [OF assms])

lemma layout_distinct:
  assumes "layout m"
  shows "distinct (own_files m)" "p \<in> set (own_files m) \<Longrightarrow> \<not> prefix p (state_dir m)"
  using assms by (auto simp: layout_def list_all_iff)

lemma own_simps:
  "resolv_path m \<in> set (own_files m)" "backup_path m \<in> set (own_files m)" "state_path m \<in> set (own_files m)"
  "nm_dropin m \<in> set (own_files m)" "tmp_path (resolv_path m) \<in> set (own_files m)"
  "tmp_path (backup_path m) \<in> set (own_files m)" "tmp_path (state_path m) \<in> set (own_files m)"
  "tmp_path (nm_dropin m) \<in> set (own_files m)"
  by (simp_all add: own_files_def)

lemma own_neqs:
  assumes "layout m"
  shows "resolv_path m \<noteq> backup_path m" "resolv_path m \<noteq> state_path m"
    "resolv_path m \<noteq> nm_dropin m" "resolv_path m \<noteq> tmp_path (backup_path m)"
    "resolv_path m \<noteq> tmp_path (state_path m)" "resolv_path m \<noteq> tmp_path (nm_dropin m)"
    "backup_path m \<noteq> resolv_path m" "backup_path m \<noteq> state_path m"
    "backup_path m \<noteq> nm_dropin m" "backup_path m \<noteq> tmp_path (resolv_path m)"
    "backup_path m \<noteq> tmp_path (state_path m)" "backup_path m \<noteq> tmp_path (nm_dropin m)"
    "state_path m \<noteq> resolv_path m" "state_path m \<noteq> backup_path m"
    "state_path m \<noteq> nm_dropin m" "state_path m \<noteq> tmp_path (resolv_path m)"
    "state_path m \<noteq> tmp_path (backup_path m)" "state_path m \<noteq> tmp_path (nm_dropin m)"
    "nm_dropin m \<noteq> resolv_path m" "nm_dropin m \<noteq> backup_path m"
    "nm_dropin m \<noteq> state_path m" "nm_dropin m \<noteq> tmp_path (resolv_path m)"
    "nm_dropin m \<noteq> tmp_path (backup_path m)" "nm_dropin m \<noteq> tmp_path (state_path m)"
    "tmp_path (resolv_path m) \<noteq> backup_path m" "tmp_path (resolv_path m) \<noteq> state_path m"
    "tmp_path (resolv_path m) \<noteq> nm_dropin m"
    "tmp_path (resolv_path m) \<noteq> tmp_path (backup_path m)"
    "tmp_path (resolv_path m) \<noteq> tmp_path (state_path m)"
    "tmp_path (resolv_path m) \<noteq> tmp_path (nm_dropin m)"
    "tmp_path (backup_path m) \<noteq> resolv_path m" "tmp_path (backup_path m) \<noteq> state_path m"
    "tmp_path (backup_path m) \<noteq> nm_dropin m"
    "tmp_path (backup_path m) \<noteq> tmp_path (resolv_path m)"
    "tmp_path (backup_path m) \<noteq> tmp_path (state_path m)"
    "tmp_path (backup_path m) \<noteq> tmp_path (nm_dropin m)" "tmp_path (state_path m) \<noteq> resolv_path m"
    "tmp_path (state_path m) \<noteq> backup_path m" "tmp_path (state_path m) \<noteq> nm_dropin m"
    "tmp_path (state_path m) \<noteq> tmp_path (resolv_path m)"
    "tmp_path (state_path m) \<noteq> tmp_path (backup_path m)"
    "tmp_path (state_path m) \<noteq> tmp_path (nm_dropin m)" "tmp_path (nm_dropin m) \<noteq> resolv_path m"
    "tmp_path (nm_dropin m) \<noteq> backup_path m" "tmp_path (nm_dropin m) \<noteq> state_path m"
    "tmp_path (nm_dropin m) \<noteq> tmp_path (resolv_path m)"
    "tmp_path (nm_dropin m) \<noteq> tmp_path (backup_path m)"
    "tmp_path (nm_dropin m) \<noteq> tmp_path (state_path m)"
  by (insert layout_distinct(1) [OF assms, unfolded own_files_def distinct.simps list.set insert_iff empty_iff de_Morgan_disj],
      (elim conjE, (assumption | erule not_sym))+)

lemma dir_neqs:
  assumes "layout m"
  shows "resolv_path m \<noteq> state_dir m" "state_dir m \<noteq> resolv_path m"
    "resolv_path m \<noteq> butlast (nm_dropin m)" "butlast (nm_dropin m) \<noteq> resolv_path m"
    "resolv_path m \<noteq> butlast (resolv_path m)" "butlast (resolv_path m) \<noteq> resolv_path m"
    "backup_path m \<noteq> state_dir m" "state_dir m \<noteq> backup_path m"
    "backup_path m \<noteq> butlast (nm_dropin m)" "butlast (nm_dropin m) \<noteq> backup_path m"
    "backup_path m \<noteq> butlast (resolv_path m)" "butlast (resolv_path m) \<noteq> backup_path m"
    "state_path m \<noteq> state_dir m" "state_dir m \<noteq> state_path m"
    "state_path m \<noteq> butlast (nm_dropin m)" "butlast (nm_dropin m) \<noteq> state_path m"
    "state_path m \<noteq> butlast (resolv_path m)" "butlast (resolv_path m) \<noteq> state_path m"
    "nm_dropin m \<noteq> state_dir m" "state_dir m \<noteq> nm_dropin m"
    "nm_dropin m \<noteq> butlast (nm_dropin m)" "butlast (nm_dropin m) \<noteq> nm_dropin m"
    "nm_dropin m \<noteq> butlast (resolv_path m)" "butlast (resolv_path m) \<noteq> nm_dropin m"
    "tmp_path (resolv_path m) \<noteq> state_dir m" "state_dir m \<noteq> tmp_path (resolv_path m)"
    "tmp_path (resolv_path m) \<noteq> butlast (nm_dropin m)"
    "butlast (nm_dropin m) \<noteq> tmp_path (resolv_path m)"
    "tmp_path (resolv_path m) \<noteq> butlast (resolv_path m)"
    "butlast (resolv_path m) \<noteq> tmp_path (resolv_path m)" "tmp_path (backup_path m) \<noteq> state_dir m"
    "state_dir m \<noteq> tmp_path (backup_path m)" "tmp_path (backup_path m) \<noteq> butlast (nm_dropin m)"
    "butlast (nm_dropin m) \<noteq> tmp_path (backup_path m)"
    "tmp_path (backup_path m) \<noteq> butlast (resolv_path m)"
    "butlast (resolv_path m) \<noteq> tmp_path (backup_path m)" "tmp_path (state_path m) \<noteq> state_dir m"
    "state_dir m \<noteq> tmp_path (state_path m)" "tmp_path (state_path m) \<noteq> butlast (nm_dropin m)"
    "butlast (nm_dropin m) \<noteq> tmp_path (state_path m)"
    "tmp_path (state_path m) \<noteq> butlast (resolv_path m)"
    "butlast (resolv_path m) \<noteq> tmp_path (state_path m)" "tmp_path (nm_dropin m) \<noteq> state_dir m"
    "state_dir m \<noteq> tmp_path (nm_dropin m)" "tmp_path (nm_dropin m) \<noteq> butlast (nm_dropin m)"
    "butlast (nm_dropin m) \<noteq> tmp_path (nm_dropin m)"
    "tmp_path (nm_dropin m) \<noteq> butlast (resolv_path m)"
    "butlast (resolv_path m) \<noteq> tmp_path (nm_dropin m)"
proof -
  have "p \<noteq> state_dir m" if "p \<in> set (own_files m)" for p
    using layout_distinct(2) [OF assms that] by auto
  moreover have "p \<noteq> butlast (nm_dropin m)" "p \<noteq> butlast (resolv_path m)" if "p \<in> set (own_files m)" for p
    using assms that by (auto simp: layout_def)
  ultimately show "resolv_path m \<noteq> state_dir m"
    "state_dir m \<noteq> resolv_path m"
    "resolv_path m \<noteq> butlast (nm_dropin m)"
    "butlast (nm_dropin m) \<noteq> resolv_path m"
    "resolv_path m \<noteq> butlast (resolv_path m)"
    "butlast (resolv_path m) \<noteq> resolv_path m"
    "backup_path m \<noteq> state_dir m"
    "state_dir m \<noteq> backup_path m"
    "backup_path m \<noteq> butlast (nm_dropin m)"
    "butlast (nm_dropin m) \<noteq> backup_path m"
    "backup_path m \<noteq> butlast (resolv_path m)"
    "butlast (resolv_path m) \<noteq> backup_path m"
    "state_path m \<noteq> state_dir m"
    "state_dir m \<noteq> state_path m"
    "state_path m \<noteq> butlast (nm_dropin m)"
    "butlast (nm_dropin m) \<noteq> state_path m"
    "state_path m \<noteq> butlast (resolv_path m)"
    "butlast (resolv_path m) \<noteq> state_path m"
    "nm_dropin m \<noteq> state_dir m"
    "state_dir m \<noteq> nm_dropin m"
    "nm_dropin m \<noteq> butlast (nm_dropin m)"
    "butlast (nm_dropin m) \<noteq> nm_dropin m"
    "nm_dropin m \<noteq> butlast (resolv_path m)"
    "butlast (resolv_path m) \<noteq> nm_dropin m"
    "tmp_path (resolv_path m) \<noteq> state_dir m"
    "state_dir m \<noteq> tmp_path (resolv_path m)"
    "tmp_path (resolv_path m) \<noteq> butlast (nm_dropin m)"
    "butlast (nm_dropin m) \<noteq> tmp_path (resolv_path m)"
    "tmp_path (resolv_path m) \<noteq> butlast (resolv_path m)"
    "butlast (resolv_path m) \<noteq> tmp_path (resolv_path m)"
    "tmp_path (backup_path m) \<noteq> state_dir m"
    "state_dir m \<noteq> tmp_path (backup_path m)"
    "tmp_path (backup_path m) \<noteq> butlast (nm_dropin m)"
    "butlast (nm_dropin m) \<noteq> tmp_path (backup_path m)"
    "tmp_path (backup_path m) \<noteq> butlast (resolv_path m)"
    "butlast (resolv_path m) \<noteq> tmp_path (backup_path m)"
    "tmp_path (state_path m) \<noteq> state_dir m"
    "state_dir m \<noteq> tmp_path (state_path m)"
    "tmp_path (state_path m) \<noteq> butlast (nm_dropin m)"
    "butlast (nm_dropin m) \<noteq> tmp_path (state_path m)"
    "tmp_path (state_path m) \<noteq> butlast (resolv_path m)"
    "butlast (resolv_path m) \<noteq> tmp_path (state_path m)"
    "tmp_path (nm_dropin m) \<noteq> state_dir m"
    "state_dir m \<noteq> tmp_path (nm_dropin m)"
    "tmp_path (nm_dropin m) \<noteq> butlast (nm_dropin m)"
    "butlast (nm_dropin m) \<noteq> tmp_path (nm_dropin m)"
    "tmp_path (nm_dropin m) \<noteq> butlast (resolv_path m)"
    "butlast (resolv_path m) \<noteq> tmp_path (nm_dropin m)"
    using own_simps [of m] by metis+
qed

lemmas layout_neqs = own_neqs dir_neqs

section \<open>Every disk during a takeover\<close>

text \<open>
  What a crash may leave behind, for an original \<open>resolv.conf\<close> node \<open>n0\<close> with text \<open>orig\<close>:
  either no state file, and \<open>resolv.conf\<close> untouched; or a complete state file of this process
  beside a complete backup, and \<open>resolv.conf\<close> either untouched or redirected.
\<close>

definition good_state :: "host \<Rightarrow> node option \<Rightarrow> takeover_state \<Rightarrow> bool" where
  "good_state h n0 st \<longleftrightarrow> ts_pid st = h_pid h \<and>
     (case ts_original_symlink_target st of None \<Rightarrow> True | Some l \<Rightarrow> n0 = Some (Link l))"

definition recoverable :: "host \<Rightarrow> manager \<Rightarrow> node option \<Rightarrow> string \<Rightarrow> string \<Rightarrow> files \<Rightarrow> bool" where
  "recoverable h m n0 orig body t \<longleftrightarrow> sane m t \<and>
     ((t (state_path m) = None \<and> t (resolv_path m) = n0) \<or>
      (\<exists>st. t (state_path m) = Some (File (h_ser h st) 384) \<and> t (backup_path m) = Some (File orig 384) \<and>
         good_state h n0 st \<and> (t (resolv_path m) = n0 \<or> t (resolv_path m) = Some (File body 420))))"

definition untouched :: "manager \<Rightarrow> node option \<Rightarrow> files \<Rightarrow> bool" where
  "untouched m n0 t \<longleftrightarrow> sane m t \<and> t (resolv_path m) = n0 \<and> t (state_path m) = None"

definition backed_up :: "manager \<Rightarrow> node option \<Rightarrow> string \<Rightarrow> files \<Rightarrow> bool" where
  "backed_up m n0 orig t \<longleftrightarrow> untouched m n0 t \<and> t (backup_path m) = Some (File orig 384)"

definition prepared :: "host \<Rightarrow> manager \<Rightarrow> node option \<Rightarrow> string \<Rightarrow> takeover_state \<Rightarrow> files \<Rightarrow> bool" where
  "prepared h m n0 orig st t \<longleftrightarrow> sane m t \<and> t (resolv_path m) = n0 \<and>
     t (state_path m) = Some (File (h_ser h st) 384) \<and> t (backup_path m) = Some (File orig 384) \<and> good_state h n0 st"

lemma untouched_recoverable: "untouched m n0 t \<Longrightarrow> recoverable h m n0 orig body t"
  by (simp add: untouched_def recoverable_def)

lemma prepared_recoverable: "prepared h m n0 orig st t \<Longrightarrow> recoverable h m n0 orig body t"
  by (auto simp: prepared_def recoverable_def)

text \<open>A step that stays outside some files leaves what is known of them.\<close>

lemma always_outside:
  assumes "frames (sane m) S act" "sane m (w_fs w)"
  shows "always (\<lambda>t. sane m t \<and> (\<forall>p. p \<notin> S \<longrightarrow> t p = w_fs w p)) act w"
  using always_frames [OF assms] .

lemma redirect_always:
  assumes lay: "layout m" and prep: "prepared h m n0 orig st (w_fs w)"
  shows "always (recoverable h m n0 orig (redirect_body m addr)) (take_over_redirect m addr st) w"
  unfolding take_over_redirect_def
proof (rule always_bind)
  let ?r = "resolv_path m" and ?b = "redirect_body m addr"
  have sane: "sane m (w_fs w)" using prep by (simp add: prepared_def)
  note d = layout_distinct(1) [OF lay, unfolded own_files_def]
  have "always (\<lambda>t. sane m t \<and> (\<forall>p. p \<notin> {tmp_path ?r, ?r} \<longrightarrow> t p = w_fs w p)) (write_atomic ?r ?b 420) w"
    by (rule always_outside [OF frames_write_own [OF lay] sane]) simp
  moreover have "always (\<lambda>t. t ?r = w_fs w ?r \<or> t ?r = Some (File ?b 420)) (write_atomic ?r ?b 420) w"
    by (rule write_atomic_always) (use sane in \<open>simp add: sane_def\<close>)
  ultimately have "always (\<lambda>t. (sane m t \<and> (\<forall>p. p \<notin> {tmp_path ?r, ?r} \<longrightarrow> t p = w_fs w p)) \<and>
      (t ?r = w_fs w ?r \<or> t ?r = Some (File ?b 420))) (write_atomic ?r ?b 420) w"
    by (rule always_conj)
  then show "always (recoverable h m n0 orig ?b) (write_atomic ?r ?b 420) w"
    by (rule always_mono) (use prep d in \<open>auto simp: prepared_def recoverable_def\<close>)
next
  fix x and w1 :: world assume "recoverable h m n0 orig (redirect_body m addr) (w_fs w1)"
  then show "always (recoverable h m n0 orig (redirect_body m addr)) (return_io st) w1" by (rule always_return)
qed

lemma state_write_outcome:
  assumes lay: "layout m" and b: "backed_up m n0 orig (w_fs w)" and st: "good_state h n0 st"
  shows "outcome (recoverable h m n0 orig body) (prepared h m n0 orig)
    (bind_io (write_atomic (state_path m) (h_ser h st) 384) (\<lambda>_. return_io st)) w"
proof -
  let ?s = "state_path m" and ?c = "h_ser h st"
  have sane: "sane m (w_fs w)" using b by (simp add: backed_up_def untouched_def)
  note d = layout_distinct(1) [OF lay, unfolded own_files_def]
  have "always (\<lambda>t. sane m t \<and> (\<forall>p. p \<notin> {tmp_path ?s, ?s} \<longrightarrow> t p = w_fs w p)) (write_atomic ?s ?c 384) w"
    by (rule always_outside [OF frames_write_own [OF lay] sane]) simp
  moreover have "always (\<lambda>t. t ?s = w_fs w ?s \<or> t ?s = Some (File ?c 384)) (write_atomic ?s ?c 384) w"
    by (rule write_atomic_always) (use sane in \<open>simp add: sane_def\<close>)
  ultimately have al: "always (\<lambda>t. (sane m t \<and> (\<forall>p. p \<notin> {tmp_path ?s, ?s} \<longrightarrow> t p = w_fs w p)) \<and>
      (t ?s = w_fs w ?s \<or> t ?s = Some (File ?c 384))) (write_atomic ?s ?c 384) w"
    by (rule always_conj)
  then have "always (recoverable h m n0 orig body) (write_atomic ?s ?c 384) w"
    by (rule always_mono) (use b st d in \<open>auto simp: backed_up_def untouched_def recoverable_def\<close>)
  moreover have "prepared h m n0 orig st (w_fs w1)" if run: "write_atomic ?s ?c 384 w = (Inr u, w1)" for u w1
  proof -
    have "w_fs w1 ?s = Some (File ?c 384)"
      using write_atomic_Inr [OF _ _ run] sane by (simp add: sane_def)
    with always_final [OF al run] b st d show ?thesis
      by (auto simp: backed_up_def untouched_def prepared_def)
  qed
  ultimately have "outcome (recoverable h m n0 orig body) (\<lambda>_ t. prepared h m n0 orig st t) (write_atomic ?s ?c 384) w"
    by (simp add: outcome_def)
  then show ?thesis
    by (rule outcome_bind) (rule outcome_return [OF prepared_recoverable])
qed

lemma nm_dropin_outcome:
  assumes lay: "layout m" and b: "backed_up m n0 orig (w_fs w)"
  shows "outcome (recoverable h m n0 orig body) (\<lambda>_. backed_up m n0 orig) (write_nm_dropin m) w"
proof (rule outcome_frames [OF frames_nm_dropin [OF lay]])
  note d = layout_distinct(1) [OF lay, unfolded own_files_def]
  show "sane m (w_fs w)" using b by (simp add: backed_up_def untouched_def)
  show fin: "backed_up m n0 orig t" if "sane m t" "\<And>p. p \<notin> {tmp_path (nm_dropin m), nm_dropin m} \<Longrightarrow> t p = w_fs w p" for t
    using that b d by (auto simp: backed_up_def untouched_def)
  then show "recoverable h m n0 orig body t" if "sane m t" "\<And>p. p \<notin> {tmp_path (nm_dropin m), nm_dropin m} \<Longrightarrow> t p = w_fs w p" for t
    using that fin by (intro untouched_recoverable) (auto simp: backed_up_def)
qed

lemma backup_outcome:
  assumes lay: "layout m" and u: "untouched m n0 (w_fs w)"
  shows "outcome (recoverable h m n0 orig body) (\<lambda>_. backed_up m n0 orig) (write_atomic (backup_path m) orig 384) w"
proof -
  let ?b = "backup_path m"
  have sane: "sane m (w_fs w)" using u by (simp add: untouched_def)
  note d = layout_distinct(1) [OF lay, unfolded own_files_def]
  have al: "always (\<lambda>t. sane m t \<and> (\<forall>p. p \<notin> {tmp_path ?b, ?b} \<longrightarrow> t p = w_fs w p)) (write_atomic ?b orig 384) w"
    by (rule always_outside [OF frames_write_own [OF lay] sane]) simp
  have unt: "untouched m n0 t" if "sane m t \<and> (\<forall>p. p \<notin> {tmp_path ?b, ?b} \<longrightarrow> t p = w_fs w p)" for t
    using that u d by (auto simp: untouched_def)
  have "backed_up m n0 orig (w_fs w1)" if run: "write_atomic ?b orig 384 w = (Inr x, w1)" for x w1
    using unt [OF always_final [OF al run]] write_atomic_Inr [OF _ _ run] sane
    by (simp add: backed_up_def sane_def)
  moreover have "always (recoverable h m n0 orig body) (write_atomic ?b orig 384) w"
    by (rule always_mono [OF al]) (rule untouched_recoverable, rule unt)
  ultimately show ?thesis by (simp add: outcome_def)
qed

text \<open>Before the backup is written: nothing of ours is there, and \<open>resolv.conf\<close> reads as at the start.\<close>

abbreviation still :: "manager \<Rightarrow> node option \<Rightarrow> string \<Rightarrow> nat \<Rightarrow> files \<Rightarrow> bool" where
  "still m n0 orig k0 t \<equiv> untouched m n0 t \<and> stat t (resolv_path m) = Some (File orig k0)"

lemma prepare_dirs:
  assumes lay: "layout m" and u: "still m n0 orig k0 (w_fs w)"
  shows "outcome (recoverable h m n0 orig body) (\<lambda>_. still m n0 orig k0) (create_dir_all (state_dir m)) w"
proof -
  let ?r = "resolv_path m" and ?Q = "\<lambda>t. sane m t \<and> (\<forall>q. w_fs w q \<noteq> None \<longrightarrow> t q = w_fs w q)"
  have own: "?r \<in> set (own_files m)" "state_path m \<in> set (own_files m)" by (simp_all add: own_files_def)
  have fr: "frames ?Q {q. prefix q (state_dir m)} (create_dir_all (state_dir m))"
    by (rule frames_create_dir_all) (auto simp: sane_make_dirs [OF lay], auto simp: make_dirs_def)
  have R: "still m n0 orig k0 t" if "?Q t" "\<And>p. p \<notin> {q. prefix q (state_dir m)} \<Longrightarrow> t p = w_fs w p" for t
  proof -
    have "t ?r = w_fs w ?r" "t (state_path m) = w_fs w (state_path m)"
      using that(2) layout_distinct(2) [OF lay own(1)] layout_distinct(2) [OF lay own(2)] by simp_all
    moreover have "stat t ?r = Some (File orig k0)"
      by (rule stat_mono [OF conjunct2 [OF u]]) (use that(1) in blast)
    ultimately show ?thesis using that(1) u by (simp add: untouched_def)
  qed
  have "sane m (w_fs w)" using u by (simp add: untouched_def)
  with R untouched_recoverable show ?thesis by (intro outcome_frames [OF fr]) auto
qed

lemma prepare_target:
  assumes "still m n0 orig k0 (w_fs w)" "\<forall>n. meta = Some n \<longrightarrow> n0 = Some n"
  shows "outcome (recoverable h m n0 orig body) (\<lambda>tgt t. still m n0 orig k0 t \<and> (\<forall>l. tgt = Some l \<longrightarrow> n0 = Some (Link l)))
    (case meta of None \<Rightarrow> return_io None | Some (Link _) \<Rightarrow> ok (read_link (resolv_path m)) | Some _ \<Rightarrow> return_io None) w"
proof (cases "\<exists>l. meta = Some (Link l)")
  case True
  have "outcome (still m n0 orig k0) (\<lambda>l t. still m n0 orig k0 t \<and> n0 = Some (Link l)) (read_link (resolv_path m)) w"
    unfolding read_link_def
    by (rule outcome_query) (use assms in \<open>auto simp: untouched_def split: option.splits node.splits\<close>)
  then have "outcome (recoverable h m n0 orig body) (\<lambda>tgt t. still m n0 orig k0 t \<and> (\<forall>l. tgt = Some l \<longrightarrow> n0 = Some (Link l)))
      (ok (read_link (resolv_path m))) w"
    by (rule outcome_weaken [OF outcome_ok]) (use untouched_recoverable in blast)+
  with True show ?thesis by auto
next
  case False
  with assms untouched_recoverable show ?thesis by (auto split: option.splits node.splits intro!: outcome_return)
qed

lemma prepare_record:
  assumes lay: "layout m" and w: "still m n0 orig k0 (w_fs w)" "\<forall>l. tgt = Some l \<longrightarrow> n0 = Some (Link l)"
  shows "outcome (recoverable h m n0 orig body) (prepared h m n0 orig)
    (bind_io (map_err (io_err (resolv_path m)) (read_to_string (resolv_path m))) (\<lambda>original.
     bind_io (write_atomic (backup_path m) original 384) (\<lambda>_. bind_io (write_nm_dropin m) (\<lambda>wrote.
       let state = \<lparr>ts_pid = h_pid h, ts_taken_over_at = h_now h,
                  ts_original_nameservers = parse_nameservers original,
                  ts_original_symlink_target = tgt, ts_wrote_nm_dropin = wrote\<rparr> in
       bind_io (write_atomic (state_path m) (h_ser h state) 384) (\<lambda>_. return_io state))))) w"
proof (rule outcome_bind)
  have "outcome (still m n0 orig k0) (\<lambda>c t. still m n0 orig k0 t \<and> c = orig) (read_to_string (resolv_path m)) w"
    unfolding read_to_string_def
    by (rule outcome_query) (use w in \<open>auto split: option.splits node.splits\<close>)
  then show "outcome (recoverable h m n0 orig body) (\<lambda>c t. still m n0 orig k0 t \<and> c = orig)
      (map_err (io_err (resolv_path m)) (read_to_string (resolv_path m))) w"
    by (intro outcome_map_err) (erule outcome_weaken, auto intro: untouched_recoverable)
next
  fix c and w3 :: world
  assume w3: "still m n0 orig k0 (w_fs w3) \<and> c = orig"
  show "outcome (recoverable h m n0 orig body) (prepared h m n0 orig)
      (bind_io (write_atomic (backup_path m) c 384) (\<lambda>_. bind_io (write_nm_dropin m) (\<lambda>wrote.
       let state = \<lparr>ts_pid = h_pid h, ts_taken_over_at = h_now h,
                  ts_original_nameservers = parse_nameservers c,
                  ts_original_symlink_target = tgt, ts_wrote_nm_dropin = wrote\<rparr> in
       bind_io (write_atomic (state_path m) (h_ser h state) 384) (\<lambda>_. return_io state)))) w3"
  proof (rule outcome_bind)
    show "outcome (recoverable h m n0 orig body) (\<lambda>_. backed_up m n0 orig) (write_atomic (backup_path m) c 384) w3"
      using backup_outcome [OF lay] w3 by simp
  next
    fix w4 :: world assume "backed_up m n0 orig (w_fs w4)"
    then show "outcome (recoverable h m n0 orig body) (prepared h m n0 orig) (bind_io (write_nm_dropin m) (\<lambda>wrote.
       let state = \<lparr>ts_pid = h_pid h, ts_taken_over_at = h_now h,
                  ts_original_nameservers = parse_nameservers c,
                  ts_original_symlink_target = tgt, ts_wrote_nm_dropin = wrote\<rparr> in
       bind_io (write_atomic (state_path m) (h_ser h state) 384) (\<lambda>_. return_io state))) w4"
      unfolding Let_def
      by (intro outcome_bind [OF nm_dropin_outcome [OF lay]] state_write_outcome [OF lay])
        (use w in \<open>auto simp: good_state_def split: option.splits\<close>)
  qed
qed

lemma prepare_outcome:
  assumes lay: "layout m" and u: "untouched m n0 (w_fs w)"
    and orig: "stat (w_fs w) (resolv_path m) = Some (File orig k0)"
  shows "outcome (recoverable h m n0 orig body) (prepared h m n0 orig) (take_over_prepare h m) w"
  unfolding take_over_prepare_def
proof (rule outcome_bind [OF outcome_map_err [OF prepare_dirs [OF lay conjI [OF u orig]]]], rule outcome_bind)
  fix w1 :: world assume R: "still m n0 orig k0 (w_fs w1)"
  have "outcome (still m n0 orig k0) (\<lambda>n t. still m n0 orig k0 t \<and> n0 = Some n) (symlink_metadata (resolv_path m)) w1"
    unfolding symlink_metadata_def
    by (rule outcome_query) (use R in \<open>auto simp: untouched_def split: option.splits\<close>)
  then show "outcome (recoverable h m n0 orig body) (\<lambda>y t. still m n0 orig k0 t \<and> (\<forall>n. y = Some n \<longrightarrow> n0 = Some n))
      (ok (symlink_metadata (resolv_path m))) w1"
    by (rule outcome_weaken [OF outcome_ok]) (use untouched_recoverable in blast)+
next
  fix meta and w1 :: world
  assume m: "still m n0 orig k0 (w_fs w1) \<and> (\<forall>n. meta = Some n \<longrightarrow> n0 = Some n)"
  show "outcome (recoverable h m n0 orig body) (prepared h m n0 orig)
    (bind_io (case meta of None \<Rightarrow> return_io None | Some (Link _) \<Rightarrow> ok (read_link (resolv_path m)) | Some _ \<Rightarrow> return_io None) (\<lambda>symlink_target.
     bind_io (map_err (io_err (resolv_path m)) (read_to_string (resolv_path m))) (\<lambda>original.
     bind_io (write_atomic (backup_path m) original 384) (\<lambda>_. bind_io (write_nm_dropin m) (\<lambda>wrote.
       let state = \<lparr>ts_pid = h_pid h, ts_taken_over_at = h_now h,
                  ts_original_nameservers = parse_nameservers original,
                  ts_original_symlink_target = symlink_target, ts_wrote_nm_dropin = wrote\<rparr> in
       bind_io (write_atomic (state_path m) (h_ser h state) 384) (\<lambda>_. return_io state)))))) w1"
    by (rule outcome_bind [OF prepare_target [OF conjunct1 [OF m] conjunct2 [OF m]]], rule prepare_record [OF lay]) auto
qed

section \<open>Restoring\<close>

lemma read_state_none:
  assumes "quiet w" "w_fs w (state_path m) = None"
  shows "yields (read_state h m) w None (w_fs w)"
proof -
  have "query (\<lambda>t. case stat t (state_path m) of None \<Rightarrow> Inl NotFound | Some (File c k) \<Rightarrow> Inr c | Some _ \<Rightarrow> Inl Other_Kind) w
      = (Inl NotFound, w)"
    unfolding query_def using assms
    by (intro sys_quiet_error) (simp_all add: quiet_def stat_self is_link_def)
  then show ?thesis
    using assms(1) by (simp add: read_state_def read_to_string_def yields_def bind_io_def attempt_def return_io_def)
qed

lemma read_state_some:
  assumes "quiet w" "w_fs w (state_path m) = Some (File c k)" "h_de h c = Some st"
  shows "yields (read_state h m) w (Some st) (w_fs w)"
  unfolding read_state_def
proof (rule yields_bind [OF yields_attempt [OF yields_read [OF assms(1)]]])
  show "stat (w_fs w) (state_path m) = Some (File c k)"
    using assms(2) by (subst stat_self) (auto simp: is_link_def)
  fix w1 :: world assume "w_fs w1 = w_fs w" "quiet w1"
  then show "yields (case Inr c of Inr text \<Rightarrow> (case h_de h text of Some s \<Rightarrow> return_io (Some s)
        | None \<Rightarrow> fail_io (CorruptState (display (state_path m))))
      | Inl NotFound \<Rightarrow> return_io None | Inl e \<Rightarrow> fail_io (io_err (state_path m) e)) w1 (Some st) (w_fs w)"
    using yields_return [of w1 "Some st"] by (simp add: assms(3))
qed

text \<open>The disk after a restore from state \<open>st\<close> and backup text \<open>orig\<close>.\<close>

definition restored :: "manager \<Rightarrow> takeover_state \<Rightarrow> string \<Rightarrow> files \<Rightarrow> files" where
  "restored m st orig t =
     ((if ts_wrote_nm_dropin st then (\<lambda>t. t(nm_dropin m := None)) else (\<lambda>t. t))
       (case ts_original_symlink_target st of
          Some l \<Rightarrow> t(resolv_path m \<mapsto> Link l)
        | None \<Rightarrow> t(tmp_path (resolv_path m) := None, resolv_path m \<mapsto> File orig 420)))
     (state_path m := None, backup_path m := None)"

text \<open>Putting \<open>resolv.conf\<close> back, and removing what the takeover has left.\<close>

lemma put_back_yields:
  assumes sane: "sane m (w_fs w)" and r: "w_fs w (resolv_path m) \<noteq> Some Dir" and q: "quiet w"
  shows "yields (case sto of
        Some target \<Rightarrow> bind_io (ignore (remove_file (resolv_path m))) (\<lambda>_. map_err (io_err (resolv_path m)) (make_symlink target (resolv_path m)))
      | None \<Rightarrow> write_atomic (resolv_path m) orig 420) w ()
    (case sto of
        Some l \<Rightarrow> (w_fs w)(resolv_path m \<mapsto> Link l)
      | None \<Rightarrow> (w_fs w)(tmp_path (resolv_path m) := None, resolv_path m \<mapsto> File orig 420))"
proof (cases sto)
  case None
  then show ?thesis using write_atomic_yields [OF q, of "resolv_path m" orig 420] sane r by (simp add: sane_def)
next
  case (Some l)
  let ?r = "resolv_path m"
  have "yields (bind_io (ignore (remove_file ?r)) (\<lambda>_. map_err (io_err ?r) (make_symlink l ?r))) w () ((w_fs w)(?r \<mapsto> Link l))"
  proof (rule yields_bind [OF yields_ignore_remove [OF q r]])
    fix w2 :: world assume "w_fs w2 = (w_fs w)(?r := None)" "quiet w2"
    then have "yields (make_symlink l ?r) w2 () ((w_fs w)(?r \<mapsto> Link l))"
      unfolding make_symlink_def by (intro yields_sys) simp_all
    then show "yields (map_err (io_err ?r) (make_symlink l ?r)) w2 () ((w_fs w)(?r \<mapsto> Link l))" by (rule yields_map_err)
  qed
  with Some show ?thesis by simp
qed

lemma clean_up_yields:
  assumes "quiet w" "w_fs w p \<noteq> Some Dir" "w_fs w q \<noteq> Some Dir"
  shows "yields (bind_io (ignore (remove_file p)) (\<lambda>_. ignore (remove_file q))) w () ((w_fs w)(p := None, q := None))"
proof (rule yields_bind [OF yields_ignore_remove [OF assms(1,2)]])
  fix w2 :: world assume "w_fs w2 = (w_fs w)(p := None)" "quiet w2"
  moreover from this assms(3) have "w_fs w2 q \<noteq> Some Dir" by simp
  ultimately show "yields (ignore (remove_file q)) w2 () ((w_fs w)(p := None, q := None))"
    using yields_ignore_remove [of w2 q] by simp
qed

lemma restore_yields:
  assumes lay: "layout m" and q: "quiet w" and sane: "sane m (w_fs w)"
    and st: "w_fs w (state_path m) = Some (File c k)" "h_de h c = Some st"
    and b: "w_fs w (backup_path m) = Some (File orig k')" and r: "w_fs w (resolv_path m) \<noteq> Some Dir"
  shows "yields (restore h m) w () (restored m st orig (w_fs w))"
proof -
  let ?r = "resolv_path m" and ?b = "backup_path m" and ?s = "state_path m" and ?n = "nm_dropin m"
  note d = layout_distinct(1) [OF lay, unfolded own_files_def]
  have sb: "stat (w_fs w) ?b = Some (File orig k')"
    using b by (subst stat_self) (auto simp: is_link_def)
  define t1 where "t1 = (case ts_original_symlink_target st of
      Some l \<Rightarrow> (w_fs w)(?r \<mapsto> Link l)
    | None \<Rightarrow> (w_fs w)(tmp_path ?r := None, ?r \<mapsto> File orig 420))"
  define t2 where "t2 = (if ts_wrote_nm_dropin st then t1(?n := None) else t1)"
  have 1: "yields (case ts_original_symlink_target st of
        Some target \<Rightarrow> bind_io (ignore (remove_file ?r)) (\<lambda>_. map_err (io_err ?r) (make_symlink target ?r))
      | None \<Rightarrow> write_atomic ?r orig 420) w1 () t1" if w1: "w_fs w1 = w_fs w" "quiet w1" for w1
    using put_back_yields [of m w1 orig "ts_original_symlink_target st", unfolded w1(1)] w1(2) sane r by (simp add: t1_def)
  have n1: "t1 ?n = w_fs w ?n" "t1 ?s = Some (File c k)" "t1 ?b = Some (File orig k')"
    using d st b by (auto simp: t1_def split: option.splits)
  have 2: "yields (if ts_wrote_nm_dropin st then ignore (remove_file ?n) else return_io ()) w1 () t2"
    if w1: "w_fs w1 = t1" "quiet w1" for w1
    using yields_ignore_remove [OF w1(2), of ?n] yields_return [OF w1(2), of "()"] n1(1) sane
    by (auto simp: t2_def w1(1) sane_def)
  have n2: "t2 ?s = Some (File c k)" "t2 ?b = Some (File orig k')" using n1 d by (auto simp: t2_def)
  have 3: "yields (bind_io (ignore (remove_file ?s)) (\<lambda>_. ignore (remove_file ?b))) w1 () (t2(?s := None, ?b := None))"
    if w1: "w_fs w1 = t2" "quiet w1" for w1
    using clean_up_yields [OF w1(2), of ?s ?b] n2 by (simp add: w1(1))
  have eq: "restored m st orig (w_fs w) = t2(?s := None, ?b := None)"
    by (simp add: restored_def t1_def t2_def)
  show ?thesis
    unfolding restore_def Let_def
  proof (rule yields_bind [OF yields_exists [OF q]])
    fix w1 :: world assume w1: "w_fs w1 = w_fs w" "quiet w1"
    have rs: "yields (read_state h m) w1 (Some st) (w_fs w)"
      using read_state_some [OF w1(2)] st w1(1) by simp
    have rd: "yields (read_to_string ?b) w2 orig (w_fs w)" if "w_fs w2 = w_fs w" "quiet w2" for w2
      using yields_read [OF that(2)] sb that(1) by simp
    show "yields (if \<not> stat (w_fs w) ?b \<noteq> None then bind_io (ignore (remove_file ?s)) (\<lambda>_. fail_io NoBackup)
        else bind_io (ok (read_state h m)) (\<lambda>sto. bind_io (map_err (io_err ?b) (read_to_string ?b)) (\<lambda>contents.
          bind_io (case (case (case sto of Some s \<Rightarrow> s | None \<Rightarrow> None) of Some s \<Rightarrow> ts_original_symlink_target s | None \<Rightarrow> None) of
                 Some target \<Rightarrow> bind_io (ignore (remove_file ?r)) (\<lambda>_. map_err (io_err ?r) (make_symlink target ?r))
               | None \<Rightarrow> write_atomic ?r contents 420) (\<lambda>_.
          bind_io (if (case (case sto of Some s \<Rightarrow> s | None \<Rightarrow> None) of Some s \<Rightarrow> ts_wrote_nm_dropin s | None \<Rightarrow> True)
               then ignore (remove_file ?n) else return_io ()) (\<lambda>_.
          bind_io (ignore (remove_file ?s)) (\<lambda>_. ignore (remove_file ?b))))))) w1 () (restored m st orig (w_fs w))"
      unfolding sb eq
      by (simp, rule yields_bind [OF yields_ok [OF rs]], rule yields_bind [OF yields_map_err [OF rd]], assumption, assumption,
          simp only: option.case, rule yields_bind [OF 1], assumption, assumption, rule yields_bind [OF 2], assumption, assumption,
          rule 3)
  qed
qed

section \<open>Taking over\<close>

lemma redirect_outcome:
  assumes lay: "layout m" and prep: "prepared h m n0 orig st (w_fs w)"
  shows "outcome (recoverable h m n0 orig (redirect_body m addr))
    (\<lambda>_ t. t (resolv_path m) = Some (File (redirect_body m addr) 420)) (take_over_redirect m addr st) w"
  unfolding outcome_def
proof (intro conjI allI impI)
  show "always (recoverable h m n0 orig (redirect_body m addr)) (take_over_redirect m addr st) w"
    by (rule redirect_always [OF assms])
  fix x w' assume "take_over_redirect m addr st w = (Inr x, w')"
  then obtain u w1 where run: "write_atomic (resolv_path m) (redirect_body m addr) 420 w = (Inr u, w1)" and "w' = w1"
    unfolding take_over_redirect_def by (auto simp: return_io_def elim: bind_io_Inr)
  with write_atomic_Inr [OF _ _ run] prep show "w_fs w' (resolv_path m) = Some (File (redirect_body m addr) 420)"
    by (simp add: prepared_def sane_def)
qed

lemma take_over_outcome:
  assumes lay: "layout m" and u: "untouched m n0 (w_fs w)" and orig: "stat (w_fs w) (resolv_path m) = Some (File orig k0)"
  shows "outcome (recoverable h m n0 orig (redirect_body m addr))
    (\<lambda>_ t. t (resolv_path m) = Some (File (redirect_body m addr) 420)) (take_over h m addr) w"
proof -
  let ?R = "\<lambda>t. untouched m n0 t \<and> stat t (resolv_path m) = Some (File orig k0)"
  let ?P = "recoverable h m n0 orig (redirect_body m addr)"
  have R: "?R (w_fs w)" using u orig by simp
  have "outcome ?R (\<lambda>x t. False) (read_to_string (state_path m)) w"
    unfolding read_to_string_def
    by (rule outcome_query) (use R in \<open>auto simp: untouched_def stat_self is_link_def split: option.splits node.splits\<close>)
  then have "outcome ?R (\<lambda>y t. ?R t \<and> (\<forall>x. y = Inr x \<longrightarrow> False)) (attempt (read_to_string (state_path m))) w"
    by (rule outcome_attempt)
  then have "outcome ?R (\<lambda>st t. ?R t \<and> st = None) (read_state h m) w"
    unfolding read_state_def
    by (rule outcome_bind) (auto split: sum.splits io_kind.splits intro: outcome_return outcome_fail)
  then have rs: "outcome ?P (\<lambda>st t. ?R t \<and> st = None) (read_state h m) w"
    by (rule outcome_weaken) (auto intro: untouched_recoverable)
  show ?thesis
    unfolding take_over_def
    by (rule outcome_bind [OF rs], rule outcome_bind [where R = "\<lambda>_. ?R"])
      (auto intro!: outcome_return outcome_bind [OF prepare_outcome [OF lay]] redirect_outcome [OF lay]
        intro: untouched_recoverable)
qed

text \<open>Recovery at the next start, on a disk that a crash left behind.\<close>

lemma reconcile_nothing:
  assumes "quiet w" "w_fs w (state_path m) = None"
  shows "yields (reconcile_after_crash h m) w None (w_fs w)"
  unfolding reconcile_after_crash_def
proof (rule yields_bind [OF read_state_none [OF assms]])
  show "yields (case None of None \<Rightarrow> return_io None
      | Some state \<Rightarrow> if process_is_alive h (ts_pid state) then fail_io (AlreadyActive (ts_pid state))
         else bind_io (restore h m) (\<lambda>_. return_io (Some state))) w1 None (w_fs w)"
    if "w_fs w1 = w_fs w" "quiet w1" for w1 :: world
    using yields_return [OF that(2), of None] that(1) by simp
qed

lemma reconcile_recovers:
  assumes lay: "layout m" and rec: "recoverable h m n0 orig body (w_fs w)" and q: "quiet w"
    and codec: "\<And>st. h_de h' (h_ser h st) = Some st" and dead: "\<not> process_is_alive h' (h_pid h)"
    and n0: "n0 \<noteq> Some Dir"
  shows "\<exists>res t. yields (reconcile_after_crash h' m) w res t \<and> t (state_path m) = None \<and>
    (t (resolv_path m) = n0 \<or> t (resolv_path m) = Some (File orig 420))"
proof -
  let ?r = "resolv_path m"
  note d = layout_distinct(1) [OF lay, unfolded own_files_def]
  consider "w_fs w (state_path m) = None" "w_fs w ?r = n0"
    | st where "w_fs w (state_path m) = Some (File (h_ser h st) 384)" "w_fs w (backup_path m) = Some (File orig 384)"
        "good_state h n0 st" "w_fs w ?r = n0 \<or> w_fs w ?r = Some (File body 420)"
    using rec by (auto simp: recoverable_def)
  then show ?thesis
  proof cases
    case 1
    have "yields (reconcile_after_crash h' m) w None (w_fs w)" by (rule reconcile_nothing [OF q 1(1)])
    with 1 show ?thesis by blast
  next
    case (2 st)
    let ?t = "restored m st orig (w_fs w)"
    have sane: "sane m (w_fs w)" using rec by (simp add: recoverable_def)
    have r: "w_fs w ?r \<noteq> Some Dir" using 2(4) n0 by auto
    have pid: "ts_pid st = h_pid h" using 2(3) by (simp add: good_state_def)
    have run: "yields (restore h' m) w1 () ?t" if "w_fs w1 = w_fs w" "quiet w1" for w1
      using restore_yields [OF lay that(2), of "h_ser h st" 384 h' st orig 384] 2 sane r codec that(1) by simp
    have "yields (reconcile_after_crash h' m) w (Some st) ?t"
      unfolding reconcile_after_crash_def
    proof (rule yields_bind [OF read_state_some [OF q 2(1) codec]])
      fix w1 :: world assume w1: "w_fs w1 = w_fs w" "quiet w1"
      have "yields (bind_io (restore h' m) (\<lambda>_. return_io (Some st))) w1 (Some st) ?t"
        by (rule yields_bind [OF run [OF w1]]) (metis yields_return)
      then show "yields (case Some st of None \<Rightarrow> return_io None
          | Some state \<Rightarrow> if process_is_alive h' (ts_pid state) then fail_io (AlreadyActive (ts_pid state))
             else bind_io (restore h' m) (\<lambda>_. return_io (Some state))) w1 (Some st) ?t"
        using dead pid by simp
    qed
    moreover have "?t (state_path m) = None" by (simp add: restored_def)
    moreover have "?t ?r = n0 \<or> ?t ?r = Some (File orig 420)"
      using d 2(3) by (auto simp: restored_def good_state_def split: option.splits)
    ultimately show ?thesis by blast
  qed
qed

section \<open>A takeover without faults\<close>

definition fresh :: "manager \<Rightarrow> string \<Rightarrow> files \<Rightarrow> bool" where
  "fresh m orig t \<longleftrightarrow> sane m t \<and> t (state_path m) = None \<and> plain_node (t (backup_path m)) \<and>
     plain_node (t (nm_dropin m)) \<and> \<not> is_link t (butlast (nm_dropin m)) \<and>
     (\<forall>k. t (take k (state_dir m)) \<in> {None, Some Dir}) \<and> (\<exists>k e. real_path 41 t (resolv_path m) = Some e \<and> t e = Some (File orig k) \<and>
        e \<notin> set (own_files m) - {resolv_path m})"

definition writes_dropin :: "manager \<Rightarrow> files \<Rightarrow> bool" where
  "writes_dropin m t \<longleftrightarrow> make_dirs (state_dir m) t (butlast (nm_dropin m)) = Some Dir \<and> t (nm_dropin m) = None"

definition recorded :: "host \<Rightarrow> manager \<Rightarrow> string \<Rightarrow> files \<Rightarrow> takeover_state" where
  "recorded h m orig t = \<lparr>ts_pid = h_pid h, ts_taken_over_at = h_now h,
     ts_original_nameservers = parse_nameservers orig,
     ts_original_symlink_target = (case t (resolv_path m) of Some (Link l) \<Rightarrow> Some l | _ \<Rightarrow> None),
     ts_wrote_nm_dropin = writes_dropin m t\<rparr>"

definition disk_backup :: "manager \<Rightarrow> string \<Rightarrow> files \<Rightarrow> files" where
  "disk_backup m orig t =
     (make_dirs (state_dir m) t)(tmp_path (backup_path m) := None, backup_path m \<mapsto> File orig 384)"

definition disk_dropin :: "manager \<Rightarrow> string \<Rightarrow> files \<Rightarrow> files" where
  "disk_dropin m orig t =
     (if writes_dropin m t
      then (disk_backup m orig t)(tmp_path (nm_dropin m) := None, nm_dropin m \<mapsto> File NM_DROPIN_BODY 420)
      else disk_backup m orig t)"

definition disk_state :: "host \<Rightarrow> manager \<Rightarrow> string \<Rightarrow> files \<Rightarrow> files" where
  "disk_state h m orig t = (disk_dropin m orig t)
     (tmp_path (state_path m) := None, state_path m \<mapsto> File (h_ser h (recorded h m orig t)) 384)"

definition disk_redirected :: "host \<Rightarrow> manager \<Rightarrow> ip_addr \<Rightarrow> string \<Rightarrow> files \<Rightarrow> files" where
  "disk_redirected h m addr orig t = (disk_state h m orig t)
     (tmp_path (resolv_path m) := None, resolv_path m \<mapsto> File (redirect_body m addr) 420)"

lemma make_dirs_own: "layout m \<Longrightarrow> p \<in> set (own_files m) \<Longrightarrow> make_dirs (state_dir m) t p = t p"
  using layout_distinct(2) by (simp add: make_dirs_def)

lemma sane_dirs: "layout m \<Longrightarrow> sane m t \<Longrightarrow> sane m (make_dirs (state_dir m) t)"
  using sane_make_dirs [of m t "length (state_dir m)"] by simp

lemma butlast_backup: "butlast (backup_path m) = state_dir m" "butlast (state_path m) = state_dir m"
  by (simp_all add: backup_path_def state_path_def)

lemma sane_upd:
  assumes "layout m" "sane m t" "p \<in> set (own_files m)" "plain_node x"
  shows "sane m (t(p := x))"
  using closed_atD [OF sane_closed [OF assms(1,3)] assms(2,4)] .

lemma disk_sane:
  assumes "layout m" "sane m t"
  shows "sane m (disk_backup m orig t)" "sane m (disk_dropin m orig t)" "sane m (disk_state h m orig t)"
    "sane m (disk_redirected h m addr orig t)"
  by (auto simp: disk_backup_def disk_dropin_def disk_state_def disk_redirected_def
      intro!: sane_upd [OF assms(1)] sane_dirs assms own_simps)

lemma state_dir_made:
  assumes "layout m" "fresh m orig t"
  shows "disk_backup m orig t (state_dir m) = Some Dir" "disk_dropin m orig t (state_dir m) = Some Dir"
proof -
  have "make_dirs (state_dir m) t (state_dir m) = Some Dir"
    using assms(2) by (auto simp: make_dirs_def fresh_def dest: spec [of _ "length (state_dir m)"])
  then show "disk_backup m orig t (state_dir m) = Some Dir" "disk_dropin m orig t (state_dir m) = Some Dir"
    by (simp_all add: disk_backup_def disk_dropin_def layout_neqs [OF assms(1)])
qed

lemma nm_dropin_yields:
  assumes lay: "layout m" and fr: "fresh m orig t" and q: "quiet w" and w: "w_fs w = disk_backup m orig t"
  shows "yields (write_nm_dropin m) w (writes_dropin m t) (disk_dropin m orig t)"
proof -
  let ?n = "nm_dropin m" and ?t = "disk_backup m orig t"
  note neq = layout_neqs [OF lay]
  have tn: "?t ?n = t ?n" by (simp add: disk_backup_def neq make_dirs_own [OF lay own_simps(4)])
  have pt: "?t (butlast ?n) = make_dirs (state_dir m) t (butlast ?n)" by (simp add: disk_backup_def neq)
  have nl: "\<not> is_link ?t (butlast ?n)" "\<not> is_link ?t ?n"
    using fr by (auto simp: is_link_def pt tn make_dirs_def fresh_def plain_node_def split: if_splits)
  have stat: "stat ?t (butlast ?n) = make_dirs (state_dir m) t (butlast ?n)" "stat ?t ?n = t ?n"
    using stat_self [OF nl(1)] stat_self [OF nl(2)] by (simp_all add: pt tn)
  have ne: "?n \<noteq> []" using lay by (simp add: layout_def)
  show ?thesis
    unfolding write_nm_dropin_def if_not_P [OF ne]
  proof (rule yields_bind [OF yields_is_dir [OF q]])
    fix w1 :: world assume w1: "w_fs w1 = w_fs w" "quiet w1"
    show "yields (if \<not> stat (w_fs w) (butlast ?n) = Some Dir then return_io False
        else bind_io (path_exists ?n) (\<lambda>x. if x then return_io False
          else bind_io (write_atomic ?n NM_DROPIN_BODY 420) (\<lambda>_. return_io True))) w1 (writes_dropin m t) (disk_dropin m orig t)"
    proof (cases "make_dirs (state_dir m) t (butlast ?n) = Some Dir")
      case False
      then show ?thesis
        using yields_return [OF w1(2), of False] by (simp add: w w1(1) stat disk_dropin_def writes_dropin_def)
    next
      case dir: True
      have "yields (bind_io (path_exists ?n) (\<lambda>x. if x then return_io False
          else bind_io (write_atomic ?n NM_DROPIN_BODY 420) (\<lambda>_. return_io True))) w1 (writes_dropin m t) (disk_dropin m orig t)"
      proof (rule yields_bind [OF yields_exists [OF w1(2)]])
        fix w2 :: world assume w2: "w_fs w2 = w_fs w1" "quiet w2"
        show "yields (if stat (w_fs w1) ?n \<noteq> None then return_io False
            else bind_io (write_atomic ?n NM_DROPIN_BODY 420) (\<lambda>_. return_io True)) w2 (writes_dropin m t) (disk_dropin m orig t)"
        proof (cases "t ?n = None")
          case False
          then have "\<not> writes_dropin m t" by (simp add: writes_dropin_def)
          then show ?thesis
            using False yields_return [OF w2(2), of False] by (simp add: w w1(1) w2(1) stat disk_dropin_def)
        next
          case True
          with dir have wr: "writes_dropin m t" by (simp add: writes_dropin_def)
          have "plain_node (?t (tmp_path ?n))"
            using disk_sane(1) [OF lay, of t orig] fr by (simp add: fresh_def sane_def)
          then have "yields (write_atomic ?n NM_DROPIN_BODY 420) w2 () (disk_dropin m orig t)"
            using write_atomic_yields [OF w2(2), of ?n NM_DROPIN_BODY 420] dir True wr
            by (simp add: w w1(1) w2(1) pt tn disk_dropin_def)
          then have "yields (bind_io (write_atomic ?n NM_DROPIN_BODY 420) (\<lambda>_. return_io True)) w2 True (disk_dropin m orig t)"
            by (rule yields_bind) (metis yields_return)
          with True wr show ?thesis by (simp add: w w1(1) stat)
        qed
      qed
      with dir show ?thesis by (simp add: w stat)
    qed
  qed
qed

text \<open>The steps of \<open>take_over_prepare\<close> up to the drop-in, and the two writes after it.\<close>

lemma fresh_resolv:
  assumes "fresh m orig t"
  obtains k where "stat t (resolv_path m) = Some (File orig k)" "t (resolv_path m) \<noteq> None" "t (resolv_path m) \<noteq> Some Dir"
proof -
  from assms obtain k where k: "stat t (resolv_path m) = Some (File orig k)" by (auto simp: fresh_def stat_def)
  moreover have "t (resolv_path m) \<noteq> None" "t (resolv_path m) \<noteq> Some Dir"
    using k by (auto simp: stat_def numeral_eq_Suc split: option.splits)
  ultimately show thesis using that by blast
qed

lemma meta_yields:
  assumes "layout m" "fresh m orig t" "w_fs w = make_dirs (state_dir m) t" "quiet w"
  shows "yields (ok (symlink_metadata (resolv_path m))) w (t (resolv_path m)) (make_dirs (state_dir m) t)"
proof -
  from assms(2) obtain n where n: "t (resolv_path m) = Some n" by (blast elim: fresh_resolv)
  have "yields (symlink_metadata (resolv_path m)) w n (w_fs w)"
    unfolding symlink_metadata_def
    by (rule yields_query) (simp_all add: assms make_dirs_own [OF assms(1) own_simps(1)] n)
  from yields_ok [OF this] show ?thesis by (simp add: assms n)
qed

lemma link_yields:
  assumes "layout m" "w_fs w = make_dirs (state_dir m) t" "quiet w"
  shows "yields (case t (resolv_path m) of None \<Rightarrow> return_io None
      | Some (Link _) \<Rightarrow> ok (read_link (resolv_path m)) | Some _ \<Rightarrow> return_io None) w
    (ts_original_symlink_target (recorded h m orig t)) (make_dirs (state_dir m) t)"
proof (cases "\<exists>l. t (resolv_path m) = Some (Link l)")
  case True
  then obtain l where l: "t (resolv_path m) = Some (Link l)" by blast
  have "yields (read_link (resolv_path m)) w l (w_fs w)"
    unfolding read_link_def
    by (rule yields_query) (simp_all add: assms make_dirs_own [OF assms(1) own_simps(1)] l)
  from yields_ok [OF this] show ?thesis by (simp add: assms l recorded_def)
next
  case False
  with yields_return [OF assms(3), of None] assms(2) show ?thesis
    by (auto simp: recorded_def split: option.splits node.splits)
qed

lemma contents_yields:
  assumes "fresh m orig t" "w_fs w = make_dirs (state_dir m) t" "quiet w"
  shows "yields (map_err (io_err (resolv_path m)) (read_to_string (resolv_path m))) w orig (make_dirs (state_dir m) t)"
proof -
  from assms(1) obtain k where "stat t (resolv_path m) = Some (File orig k)" by (blast elim: fresh_resolv)
  then have "stat (make_dirs (state_dir m) t) (resolv_path m) = Some (File orig k)"
    by (rule stat_mono) (simp add: make_dirs_def)
  then show ?thesis using yields_map_err [OF yields_read [OF assms(3)]] assms(2) by metis
qed

lemma backup_yields:
  assumes "layout m" "fresh m orig t" "w_fs w = make_dirs (state_dir m) t" "quiet w"
  shows "yields (write_atomic (backup_path m) orig 384) w () (disk_backup m orig t)"
proof -
  from assms(2) have f: "sane m t" "plain_node (t (backup_path m))" "\<forall>k. t (take k (state_dir m)) \<in> {None, Some Dir}"
    by (simp_all add: fresh_def)
  have "make_dirs (state_dir m) t (state_dir m) = Some Dir"
    using f(3) by (auto simp: make_dirs_def dest: spec [of _ "length (state_dir m)"])
  moreover have "plain_node (make_dirs (state_dir m) t (tmp_path (backup_path m)))"
    "make_dirs (state_dir m) t (backup_path m) \<noteq> Some Dir"
    using sane_dirs [OF assms(1) f(1)] f(2) make_dirs_own [OF assms(1) own_simps(2), of t] by (auto simp: sane_def)
  ultimately show ?thesis
    using write_atomic_yields [OF assms(4), of "backup_path m" orig 384] assms(3)
    by (simp add: disk_backup_def butlast_backup)
qed

lemma state_yields:
  assumes "layout m" "fresh m orig t" "w_fs w = disk_dropin m orig t" "quiet w"
  shows "yields (write_atomic (state_path m) (h_ser h (recorded h m orig t)) 384) w () (disk_state h m orig t)"
proof -
  have "disk_dropin m orig t (state_path m) = None"
    using assms(2) make_dirs_own [OF assms(1) own_simps(3), of t]
    by (simp add: disk_dropin_def disk_backup_def layout_neqs [OF assms(1)] fresh_def)
  moreover have "plain_node (disk_dropin m orig t (tmp_path (state_path m)))"
    using disk_sane(2) [OF assms(1)] assms(2) by (simp add: sane_def fresh_def)
  ultimately show ?thesis
    using write_atomic_yields [OF assms(4), of "state_path m" "h_ser h (recorded h m orig t)" 384] assms(3)
      state_dir_made [OF assms(1,2)]
    by (simp add: disk_state_def butlast_backup)
qed

lemma redirect_yields:
  assumes "layout m" "fresh m orig t" "w_fs w = disk_state h m orig t" "quiet w"
  shows "yields (take_over_redirect m addr st) w st (disk_redirected h m addr orig t)"
proof -
  have "disk_state h m orig t (resolv_path m) = t (resolv_path m)"
    using make_dirs_own [OF assms(1) own_simps(1), of t]
    by (simp add: disk_state_def disk_dropin_def disk_backup_def layout_neqs [OF assms(1)])
  moreover have "t (resolv_path m) \<noteq> Some Dir" using assms(2) by (blast elim: fresh_resolv)
  ultimately have "yields (write_atomic (resolv_path m) (redirect_body m addr) 420) w () (disk_redirected h m addr orig t)"
    using write_atomic_yields [OF assms(4), of "resolv_path m" "redirect_body m addr" 420] assms(2,3)
      disk_sane(3) [OF assms(1), of t h orig]
    by (simp add: disk_redirected_def sane_def fresh_def)
  then show ?thesis
    unfolding take_over_redirect_def by (rule yields_bind) (metis yields_return)
qed

text \<open>\<open>take_over_prepare\<close> after the drop-in, and the fact that it reaches that point.\<close>

definition prepare_end :: "host \<Rightarrow> manager \<Rightarrow> string \<Rightarrow> link_target option \<Rightarrow> bool \<Rightarrow> (resolv_error, takeover_state) io" where
  "prepare_end h m original symlink_target wrote_nm_dropin =
     (let state = \<lparr>ts_pid = h_pid h, ts_taken_over_at = h_now h,
                    ts_original_nameservers = parse_nameservers original,
                    ts_original_symlink_target = symlink_target, ts_wrote_nm_dropin = wrote_nm_dropin\<rparr> in
      bind_io (write_atomic (state_path m) (h_ser h state) 384) (\<lambda>_. return_io state))"

lemma prepare_fold:
  "take_over_prepare h m =
     bind_io (map_err (io_err (state_dir m)) (create_dir_all (state_dir m))) (\<lambda>_.
     bind_io (ok (symlink_metadata (resolv_path m))) (\<lambda>meta.
     bind_io (case meta of None \<Rightarrow> return_io None
       | Some (Link _) \<Rightarrow> ok (read_link (resolv_path m)) | Some _ \<Rightarrow> return_io None) (\<lambda>symlink_target.
     bind_io (map_err (io_err (resolv_path m)) (read_to_string (resolv_path m))) (\<lambda>original.
     bind_io (write_atomic (backup_path m) original 384) (\<lambda>_.
     bind_io (write_nm_dropin m) (prepare_end h m original symlink_target))))))"
  unfolding take_over_prepare_def prepare_end_def [abs_def] by (rule refl)

lemma prepare_end_yields:
  assumes "layout m" "fresh m orig t" "w_fs w = disk_dropin m orig t" "quiet w"
  shows "yields (prepare_end h m orig (ts_original_symlink_target (recorded h m orig t)) (writes_dropin m t)) w
    (recorded h m orig t) (disk_state h m orig t)"
proof -
  have "\<lparr>ts_pid = h_pid h, ts_taken_over_at = h_now h, ts_original_nameservers = parse_nameservers orig,
      ts_original_symlink_target = ts_original_symlink_target (recorded h m orig t), ts_wrote_nm_dropin = writes_dropin m t\<rparr>
      = recorded h m orig t"
    by (simp add: recorded_def)
  moreover have "yields (bind_io (write_atomic (state_path m) (h_ser h (recorded h m orig t)) 384)
      (\<lambda>_. return_io (recorded h m orig t))) w (recorded h m orig t) (disk_state h m orig t)"
    by (rule yields_bind [OF state_yields [OF assms]]) (metis yields_return)
  ultimately show ?thesis by (simp add: prepare_end_def Let_def)
qed

lemma fresh_dirs: "fresh m orig t \<Longrightarrow> \<forall>k. t (take k (state_dir m)) \<in> {None, Some Dir}"
  by (simp add: fresh_def)

lemma prepare_yields:
  assumes "layout m" "fresh m orig (w_fs w)" "quiet w"
  shows "yields (take_over_prepare h m) w (recorded h m orig (w_fs w)) (disk_state h m orig (w_fs w))"
  unfolding prepare_fold
  by (rule yields_bind [OF yields_map_err [OF dirs_yields [OF assms(3) fresh_dirs [OF assms(2)]]]],
      rule yields_bind [OF meta_yields [OF assms(1,2)]], assumption, assumption,
      rule yields_bind [OF link_yields [OF assms(1)]], assumption, assumption,
      rule yields_bind [OF contents_yields [OF assms(2)]], assumption, assumption,
      rule yields_bind [OF backup_yields [OF assms(1,2)]], assumption, assumption,
      rule yields_bind [OF nm_dropin_yields [OF assms(1,2)]], assumption, assumption,
      rule prepare_end_yields [OF assms(1,2)])

lemma grows_write_atomic [grow_intros]: "grows (write_atomic p c k)"
  unfolding write_atomic_def fill_tmp_def Let_def by (auto intro!: grow_intros split: sum.splits option.splits)

lemma prepare_visits:
  assumes "layout m" "fresh m orig (w_fs w)" "quiet w"
  shows "visits (disk_dropin m orig (w_fs w)) (take_over_prepare h m) w"
  unfolding prepare_fold
  by (rule visits_later [OF yields_map_err [OF dirs_yields [OF assms(3) fresh_dirs [OF assms(2)]]]],
      rule visits_later [OF meta_yields [OF assms(1,2)]], assumption, assumption,
      rule visits_later [OF link_yields [OF assms(1)]], assumption, assumption,
      rule visits_later [OF contents_yields [OF assms(2)]], assumption, assumption,
      rule visits_later [OF backup_yields [OF assms(1,2)]], assumption, assumption,
      rule visits_now [OF visits_yields [OF nm_dropin_yields [OF assms(1,2)]]], assumption, assumption)
    (auto simp: prepare_end_def Let_def intro!: grow_intros)

lemma first_start_yields:
  assumes "quiet w" "w_fs w (state_path m) = None"
    and "\<And>w1. w_fs w1 = w_fs w \<Longrightarrow> quiet w1 \<Longrightarrow> yields (bind_io (take_over_prepare h m) (take_over_redirect m addr)) w1 x t"
  shows "yields (take_over h m addr) w x t"
  unfolding take_over_def
  by (rule yields_bind [OF read_state_none [OF assms(1,2)]], rule yields_bind, simp only: option.case,
      erule yields_return, rule assms(3)) simp_all

lemma take_over_yields:
  assumes "layout m" "fresh m orig (w_fs w)" "quiet w"
  shows "yields (take_over h m addr) w (recorded h m orig (w_fs w)) (disk_redirected h m addr orig (w_fs w))"
proof (rule first_start_yields [OF assms(3)])
  show "w_fs w (state_path m) = None" using assms(2) by (simp add: fresh_def)
  fix w1 :: world assume w1: "w_fs w1 = w_fs w" "quiet w1"
  show "yields (bind_io (take_over_prepare h m) (take_over_redirect m addr)) w1
      (recorded h m orig (w_fs w)) (disk_redirected h m addr orig (w_fs w))"
    by (rule yields_bind [OF prepare_yields [OF assms(1) _ w1(2), of orig, unfolded w1(1), OF assms(2)]])
      (rule redirect_yields [OF assms(1,2)])
qed

lemma take_over_visits:
  assumes "layout m" "fresh m orig (w_fs w)" "quiet w"
  shows "visits (disk_dropin m orig (w_fs w)) (take_over h m addr) w"
  unfolding take_over_def
proof (rule visits_later [OF read_state_none [OF assms(3)]])
  show "w_fs w (state_path m) = None" using assms(2) by (simp add: fresh_def)
  fix w1 :: world assume w1: "w_fs w1 = w_fs w" "quiet w1"
  show "visits (disk_dropin m orig (w_fs w)) (bind_io (case None of None \<Rightarrow> return_io () | Some existing \<Rightarrow>
        if process_is_alive h (ts_pid existing) then fail_io (AlreadyActive (ts_pid existing)) else restore h m)
      (\<lambda>_. bind_io (take_over_prepare h m) (take_over_redirect m addr))) w1"
    unfolding option.case
  proof (rule visits_later [OF yields_return [OF w1(2)]])
    fix w2 :: world assume "w_fs w2 = w_fs w1" "quiet w2"
    with w1 have w2: "w_fs w2 = w_fs w" "quiet w2" by simp_all
    show "visits (disk_dropin m orig (w_fs w)) (bind_io (take_over_prepare h m) (take_over_redirect m addr)) w2"
      by (rule visits_now [OF prepare_visits [OF assms(1) _ w2(2), of orig, unfolded w2(1), OF assms(2)]])
        (auto simp: take_over_redirect_def intro!: grow_intros)
  qed
qed

lemma recorded_restored:
  assumes lay: "layout m" and fr: "fresh m orig (w_fs w)" and q: "quiet w" and codec: "\<And>st. h_de h (h_ser h st) = Some st"
  shows "yields (bind_io (take_over h m addr) (\<lambda>_. restore h m)) w ()
    (restored m (recorded h m orig (w_fs w)) orig (disk_redirected h m addr orig (w_fs w)))"
proof (rule yields_bind [OF take_over_yields [OF lay fr q]])
  let ?t = "w_fs w" and ?d = "disk_redirected h m addr orig (w_fs w)" and ?st = "recorded h m orig (w_fs w)"
  note neq = layout_neqs [OF lay]
  have sane: "sane m ?d" using disk_sane(4) [OF lay] fr by (simp add: fresh_def)
  have "?d (state_path m) = Some (File (h_ser h ?st) 384)" "?d (resolv_path m) = Some (File (redirect_body m addr) 420)"
    by (simp_all add: disk_redirected_def disk_state_def neq)
  moreover have "?d (backup_path m) = Some (File orig 384)"
    by (simp add: disk_redirected_def disk_state_def disk_dropin_def disk_backup_def neq)
  moreover fix w1 :: world assume "w_fs w1 = ?d" "quiet w1"
  ultimately show "yields (restore h m) w1 () (restored m ?st orig ?d)"
    using restore_yields [OF lay, of w1 "h_ser h ?st" 384 h ?st orig 384] sane codec by simp
qed

lemma fresh_disk_dropin:
  assumes lay: "layout m" and fr: "fresh m orig t"
  shows "fresh m orig (disk_dropin m orig t)"
  unfolding fresh_def
proof (intro conjI allI)
  note neq = layout_neqs [OF lay]
  let ?d = "disk_dropin m orig t"
  show "sane m ?d" using disk_sane(2) [OF lay] fr by (simp add: fresh_def)
  show "?d (state_path m) = None" "plain_node (?d (backup_path m))" "plain_node (?d (nm_dropin m))"
    using fr make_dirs_own [OF lay own_simps(3), of t] make_dirs_own [OF lay own_simps(4), of t]
    by (simp_all add: disk_dropin_def disk_backup_def neq fresh_def)
  have other: "?d p = make_dirs (state_dir m) t p" if "p \<notin> set (own_files m)" for p
    using that own_simps [of m] by (auto simp: disk_dropin_def disk_backup_def)
  have "?d (butlast (nm_dropin m)) = make_dirs (state_dir m) t (butlast (nm_dropin m))"
    using lay by (intro other) (simp add: layout_def)
  then show "\<not> is_link ?d (butlast (nm_dropin m))"
    using fr by (auto simp: is_link_def make_dirs_def fresh_def split: if_splits)
  show "?d (take k (state_dir m)) \<in> {None, Some Dir}" for k
  proof -
    have "take k (state_dir m) \<notin> set (own_files m)"
      using layout_distinct(2) [OF lay] take_is_prefix [of k "state_dir m"] by blast
    from other [OF this] show ?thesis
      using fr spec [of "\<lambda>k. t (take k (state_dir m)) \<in> {None, Some Dir}" k] by (auto simp: make_dirs_def fresh_def)
  qed
  from fr obtain k e where e: "real_path 41 t (resolv_path m) = Some e" "t e = Some (File orig k)"
    "e \<notin> set (own_files m) - {resolv_path m}" by (auto simp: fresh_def)
  have dr: "?d (resolv_path m) = t (resolv_path m)"
    using make_dirs_own [OF lay own_simps(1), of t] by (simp add: disk_dropin_def disk_backup_def neq)
  have "?d e = t e"
  proof (cases "e = resolv_path m")
    case False
    with e(3) have "e \<notin> set (own_files m)" by simp
    with other [of e] e(2) show ?thesis by (simp add: make_dirs_def)
  qed (simp add: dr)
  moreover have "?d q = t q" if "is_link t q" for q
  proof (cases "q = resolv_path m")
    case False
    have "plain_node (t p)" if "p \<in> set (own_files m)" "p \<noteq> resolv_path m" for p
      using that fr by (auto simp: own_files_def fresh_def sane_def)
    then have "q \<notin> set (own_files m)" using \<open>is_link t q\<close> False plain_not_link by blast
    with other [of q] \<open>is_link t q\<close> show ?thesis by (auto simp: make_dirs_def is_link_def)
  qed (simp add: dr)
  ultimately show "\<exists>k e. real_path 41 ?d (resolv_path m) = Some e \<and> ?d e = Some (File orig k) \<and>
      e \<notin> set (own_files m) - {resolv_path m}"
    using stat_keep(1) [OF e(1,2), of ?d] e by (intro exI [of _ k] exI [of _ e]) auto
qed

section \<open>Properties\<close>

text \<open>Atomic writes: whatever call fails and wherever the process dies, the target is the old
  node or the complete new file, never a partial one; and a successful write leaves the new
  file and no temporary one.\<close>

theorem write_atomic_all_or_nothing:
  assumes "plain_node (w_fs w (tmp_path p))"
  shows "always (\<lambda>t. t p = w_fs w p \<or> t p = Some (File c k)) (write_atomic p c k) w \<and>
    (\<forall>w'. write_atomic p c k w = (Inr (), w') \<longrightarrow> w_fs w' = (w_fs w)(tmp_path p := None, p \<mapsto> File c k))"
  using write_atomic_always [OF assms] write_atomic_Inr [OF assms tmp_path_neq(2)] by blast

text \<open>A machine with NetworkManager and a regular \<open>resolv.conf\<close>, and a process on it.\<close>

definition demo_disk :: files where
  "demo_disk = map_of
     [([], Dir), ([''etc''], Dir), ([''etc'', ''resolv.conf''], File ''nameserver 8.8.8.8'' 420),
      ([''etc'', ''NetworkManager''], Dir), ([''etc'', ''NetworkManager'', ''conf.d''], Dir),
      ([''var''], Dir), ([''var'', ''lib''], Dir)]"

definition demo_host :: "(takeover_state \<Rightarrow> string) \<Rightarrow> (string \<Rightarrow> takeover_state option) \<Rightarrow> host" where
  "demo_host ser de = \<lparr>h_pid = 77, h_now = 0, h_kill0 = \<lambda>_. False, h_ser = ser, h_de = de\<rparr>"

definition demo_world :: "fault option list \<Rightarrow> world" where
  "demo_world script = \<lparr>w_fs = demo_disk, w_faults = script, w_trace = [demo_disk]\<rparr>"

lemmas manager_eval = manager_default_def RESOLV_CONF_def STATE_DIR_def NM_DROPIN_def backup_path_def
  state_path_def tmp_path_def own_files_def

lemma demo_nodes:
  "demo_disk (resolv_path manager_default) = Some (File ''nameserver 8.8.8.8'' 420)"
  "sane manager_default demo_disk" "demo_disk (state_path manager_default) = None"
  by (simp_all add: demo_disk_def sane_def manager_eval)

lemma demo_take: "demo_disk (take k STATE_DIR) \<in> {None, Some Dir}"
proof -
  have "k = 0 \<or> k = 1 \<or> k = 2 \<or> 3 \<le> k" by linarith
  then show ?thesis by (auto simp: demo_disk_def STATE_DIR_def numeral_eq_Suc)
qed

lemma demo_fresh: "fresh manager_default ''nameserver 8.8.8.8'' demo_disk"
proof -
  have "real_path 41 demo_disk (resolv_path manager_default) = Some (resolv_path manager_default)"
    by (rule real_path_41) (simp add: is_link_def demo_nodes)
  moreover have "demo_disk (take k (state_dir manager_default)) \<in> {None, Some Dir}" for k
    using demo_take by (simp add: manager_default_def)
  moreover have "plain_node (demo_disk (backup_path manager_default))" "plain_node (demo_disk (nm_dropin manager_default))"
    "\<not> is_link demo_disk (butlast (nm_dropin manager_default))"
    by (simp_all add: demo_disk_def manager_eval is_link_def)
  ultimately show ?thesis using demo_nodes by (auto simp: fresh_def)
qed

lemma demo_quiet: "quiet (demo_world [])"
  by (simp add: quiet_def demo_world_def)

theorem write_atomic_all_or_nothing_witness:
  "always (\<lambda>t. t RESOLV_CONF = Some (File ''nameserver 8.8.8.8'' 420) \<or> t RESOLV_CONF = Some (File ''new'' 420))
     (write_atomic RESOLV_CONF ''new'' 420) (demo_world [None, Some (Fault PermissionDenied 2)])"
proof -
  have "plain_node (w_fs (demo_world [None, Some (Fault PermissionDenied 2)]) (tmp_path RESOLV_CONF))"
    by (simp add: demo_world_def demo_disk_def RESOLV_CONF_def tmp_path_def)
  from write_atomic_all_or_nothing [OF this, of "''new''" 420] show ?thesis
    by (simp add: demo_world_def demo_disk_def RESOLV_CONF_def)
qed

text \<open>Crash safety of the takeover: starting without a recorded takeover, for every way calls may
  fail and for every moment the process may die, the disk either has no state file and an
  untouched \<open>resolv.conf\<close>, or a complete state file naming this process and a complete backup
  of the original text, with \<open>resolv.conf\<close> untouched or completely redirected; it is never
  redirected before the backup and the state are on disk.\<close>

theorem take_over_crash_safe:
  assumes "layout m" "sane m (w_fs w)" "w_fs w (state_path m) = None"
    and "stat (w_fs w) (resolv_path m) = Some (File orig k)"
  shows "always (recoverable h m (w_fs w (resolv_path m)) orig (redirect_body m addr)) (take_over h m addr) w \<and>
    (\<forall>st w'. take_over h m addr w = (Inr st, w') \<longrightarrow>
       w_fs w' (resolv_path m) = Some (File (redirect_body m addr) 420))"
proof -
  have "untouched m (w_fs w (resolv_path m)) (w_fs w)" using assms(2,3) by (simp add: untouched_def)
  from take_over_outcome [OF assms(1) this assms(4)] show ?thesis by (simp add: outcome_def)
qed

lemma demo_stat: "stat demo_disk (resolv_path manager_default) = Some (File ''nameserver 8.8.8.8'' 420)"
  using demo_nodes(1) by (subst stat_self) (simp_all add: is_link_def)

theorem take_over_crash_safe_witness:
  "\<forall>script ser de addr. always (recoverable (demo_host ser de) manager_default
     (Some (File ''nameserver 8.8.8.8'' 420)) ''nameserver 8.8.8.8'' (redirect_body manager_default addr))
     (take_over (demo_host ser de) manager_default addr) (demo_world script)"
proof (intro allI)
  fix script ser de addr
  have "sane manager_default (w_fs (demo_world script))" "w_fs (demo_world script) (state_path manager_default) = None"
    "stat (w_fs (demo_world script)) (resolv_path manager_default) = Some (File ''nameserver 8.8.8.8'' 420)"
    using demo_nodes demo_stat by (simp_all add: demo_world_def)
  from take_over_crash_safe [OF layout_default this] demo_nodes(1)
  show "always (recoverable (demo_host ser de) manager_default
     (Some (File ''nameserver 8.8.8.8'' 420)) ''nameserver 8.8.8.8'' (redirect_body manager_default addr))
     (take_over (demo_host ser de) manager_default addr) (demo_world script)"
    by (simp add: demo_world_def)
qed

text \<open>C2: Crash recovery: after a takeover died at any moment, under any failures, the next start
  (when the recorded process is gone and calls succeed) ends with the original \<open>resolv.conf\<close>:
  the original node, or a regular file with the original text, and no state file.\<close>

theorem reconcile_after_any_crash:
  assumes "layout m" "sane m (w_fs w)" "w_fs w (state_path m) = None"
    and "stat (w_fs w) (resolv_path m) = Some (File orig k)"
    and "\<forall>st. h_de h' (h_ser h st) = Some st" "\<not> process_is_alive h' (h_pid h)"
  shows "always (\<lambda>crashed. \<forall>w1. w_fs w1 = crashed \<and> quiet w1 \<longrightarrow>
      (\<exists>res t. yields (reconcile_after_crash h' m) w1 res t \<and> t (state_path m) = None \<and>
         (t (resolv_path m) = w_fs w (resolv_path m) \<or> t (resolv_path m) = Some (File orig 420))))
    (take_over h m addr) w"
proof -
  have u: "untouched m (w_fs w (resolv_path m)) (w_fs w)" using assms(2,3) by (simp add: untouched_def)
  have n0: "w_fs w (resolv_path m) \<noteq> Some Dir"
  proof
    assume dir: "w_fs w (resolv_path m) = Some Dir"
    then have "stat (w_fs w) (resolv_path m) = Some Dir" by (subst stat_self) (simp_all add: is_link_def)
    with assms(4) show False by simp
  qed
  from take_over_outcome [OF assms(1) u assms(4)]
  have "always (recoverable h m (w_fs w (resolv_path m)) orig (redirect_body m addr)) (take_over h m addr) w"
    by (simp add: outcome_def)
  then show ?thesis
    by (rule always_mono) (use reconcile_recovers [OF assms(1) _ _ _ assms(6) n0] assms(5) in blast)
qed

text \<open>Some codec of the state file exists: states can be numbered.\<close>

instance ip_addr :: countable by countable_datatype
instance link_target :: countable by countable_datatype

instance takeover_state_ext :: (countable) countable
proof (rule countable_classI)
  fix s t :: "'a takeover_state_ext"
  assume "to_nat (ts_pid s, ts_taken_over_at s, ts_original_nameservers s, ts_original_symlink_target s,
      ts_wrote_nm_dropin s, takeover_state.more s) =
    to_nat (ts_pid t, ts_taken_over_at t, ts_original_nameservers t, ts_original_symlink_target t,
      ts_wrote_nm_dropin t, takeover_state.more t)"
  then show "s = t" by (simp add: takeover_state.equality)
qed

definition demo_ser :: "takeover_state \<Rightarrow> string" where
  "demo_ser st = replicate (to_nat st) (CHR ''x'')"

definition demo_de :: "string \<Rightarrow> takeover_state option" where
  "demo_de s = Some (from_nat (length s))"

lemma demo_codec_law: "h_de (demo_host demo_ser demo_de) (h_ser (demo_host demo_ser demo_de) st) = Some st"
  by (simp add: demo_host_def demo_de_def demo_ser_def)

theorem reconcile_after_any_crash_witness:
  "\<forall>script addr. always (\<lambda>crashed. \<forall>w1. w_fs w1 = crashed \<and> quiet w1 \<longrightarrow>
      (\<exists>res t. yields (reconcile_after_crash (demo_host demo_ser demo_de) manager_default) w1 res t \<and>
         t (state_path manager_default) = None \<and> t RESOLV_CONF = Some (File ''nameserver 8.8.8.8'' 420)))
    (take_over (demo_host demo_ser demo_de) manager_default addr) (demo_world script)"
proof (intro allI)
  fix script addr
  have 1: "sane manager_default (w_fs (demo_world script))" "w_fs (demo_world script) (state_path manager_default) = None"
    "stat (w_fs (demo_world script)) (resolv_path manager_default) = Some (File ''nameserver 8.8.8.8'' 420)"
    "w_fs (demo_world script) (resolv_path manager_default) = Some (File ''nameserver 8.8.8.8'' 420)"
    using demo_nodes demo_stat by (simp_all add: demo_world_def)
  have 2: "\<forall>st. h_de (demo_host demo_ser demo_de) (h_ser (demo_host demo_ser demo_de) st) = Some st"
    "\<not> process_is_alive (demo_host demo_ser demo_de) (h_pid (demo_host demo_ser demo_de))"
    using demo_codec_law by (simp_all add: process_is_alive_def demo_host_def)
  have r: "resolv_path manager_default = RESOLV_CONF" by (simp add: manager_default_def)
  show "always (\<lambda>crashed. \<forall>w1. w_fs w1 = crashed \<and> quiet w1 \<longrightarrow>
      (\<exists>res t. yields (reconcile_after_crash (demo_host demo_ser demo_de) manager_default) w1 res t \<and>
         t (state_path manager_default) = None \<and> t RESOLV_CONF = Some (File ''nameserver 8.8.8.8'' 420)))
    (take_over (demo_host demo_ser demo_de) manager_default addr) (demo_world script)"
    using reconcile_after_any_crash [OF layout_default 1(1-3) 2, of addr] 1(4) unfolding r by simp
qed

text \<open>The disk after a takeover and a restore.\<close>

lemma take_over_restore_disk:
  assumes "layout m" "fresh m orig (w_fs w)" "quiet w" "\<forall>st. h_de h (h_ser h st) = Some st"
  shows "\<exists>t. yields (bind_io (take_over h m addr) (\<lambda>_. restore h m)) w () t \<and>
    t (resolv_path m) = (case w_fs w (resolv_path m) of Some (File c k) \<Rightarrow> Some (File orig 420) | x \<Rightarrow> x) \<and>
    t (nm_dropin m) = w_fs w (nm_dropin m) \<and> t (backup_path m) = None \<and> t (state_path m) = None \<and>
    (\<forall>p. p \<notin> set (own_files m) \<longrightarrow> t p = make_dirs (state_dir m) (w_fs w) p)"
proof (intro exI conjI)
  let ?ini = "w_fs w" and ?d = "disk_redirected h m addr orig (w_fs w)" and ?st = "recorded h m orig (w_fs w)"
  let ?t = "restored m ?st orig ?d" and ?r = "resolv_path m"
  note neq = layout_neqs [OF assms(1)]
  show "yields (bind_io (take_over h m addr) (\<lambda>_. restore h m)) w () ?t"
    using recorded_restored [OF assms(1-3)] assms(4) by blast
  have "?ini ?r \<noteq> None" "?ini ?r \<noteq> Some Dir"
    using assms(2) by (auto simp: fresh_def numeral_eq_Suc split: option.splits)
  then show "?t ?r = (case ?ini ?r of Some (File c k) \<Rightarrow> Some (File orig 420) | x \<Rightarrow> x)"
    by (auto simp: restored_def recorded_def neq split: option.splits node.splits)
  show "?t (nm_dropin m) = ?ini (nm_dropin m)"
  proof (cases "writes_dropin m ?ini")
    case True
    then show ?thesis by (simp add: restored_def recorded_def writes_dropin_def neq)
  next
    case False
    have "?d (nm_dropin m) = ?ini (nm_dropin m)"
      using False make_dirs_own [OF assms(1) own_simps(4), of ?ini]
      by (simp add: disk_redirected_def disk_state_def disk_dropin_def disk_backup_def neq)
    with False show ?thesis by (simp add: restored_def recorded_def neq split: option.split node.split)
  qed
  show "?t (backup_path m) = None" "?t (state_path m) = None" by (simp_all add: restored_def)
  show "\<forall>p. p \<notin> set (own_files m) \<longrightarrow> ?t p = make_dirs (state_dir m) ?ini p"
  proof (intro allI impI)
    fix p assume "p \<notin> set (own_files m)"
    then have p: "p \<noteq> resolv_path m" "p \<noteq> backup_path m" "p \<noteq> state_path m" "p \<noteq> nm_dropin m"
      "p \<noteq> tmp_path (resolv_path m)" "p \<noteq> tmp_path (backup_path m)" "p \<noteq> tmp_path (state_path m)"
      "p \<noteq> tmp_path (nm_dropin m)"
      using own_simps [of m] by blast+
    have "?d p = make_dirs (state_dir m) ?ini p"
      by (simp add: disk_redirected_def disk_state_def disk_dropin_def disk_backup_def p)
    moreover have "?t p = ?d p" by (simp add: restored_def p split: option.split)
    ultimately show "?t p = make_dirs (state_dir m) ?ini p" by simp
  qed
qed

text \<open>C5: Round trip: taking over and restoring, when no call fails, gives back the original
  \<open>resolv.conf\<close> (a link with its target, or a regular file with its text and mode 0644), leaves
  the NetworkManager drop-in as it was (removed exactly when the takeover had created it),
  removes backup and state, and changes no other file.\<close>

theorem take_over_restore_roundtrip:
  assumes "layout m" "fresh m orig (w_fs w)" "quiet w" "\<forall>st. h_de h (h_ser h st) = Some st"
  shows "\<exists>t. yields (bind_io (take_over h m addr) (\<lambda>_. restore h m)) w () t \<and>
    t (resolv_path m) = (case w_fs w (resolv_path m) of Some (File c k) \<Rightarrow> Some (File orig 420) | x \<Rightarrow> x) \<and>
    t (nm_dropin m) = w_fs w (nm_dropin m) \<and> t (backup_path m) = None \<and> t (state_path m) = None \<and>
    (\<forall>p. p \<notin> set (own_files m) \<longrightarrow> t p = make_dirs (state_dir m) (w_fs w) p)"
  by (rule take_over_restore_disk [OF assms])

theorem take_over_restore_roundtrip_witness:
  "\<exists>t. yields (bind_io (take_over (demo_host demo_ser demo_de) manager_default (V4 127 0 0 53))
        (\<lambda>_. restore (demo_host demo_ser demo_de) manager_default)) (demo_world []) () t \<and>
     t (resolv_path manager_default) = Some (File ''nameserver 8.8.8.8'' 420) \<and> t (nm_dropin manager_default) = None"
proof -
  have "fresh manager_default ''nameserver 8.8.8.8'' (w_fs (demo_world []))"
    using demo_fresh by (simp add: demo_world_def)
  moreover have "w_fs (demo_world []) (resolv_path manager_default) = Some (File ''nameserver 8.8.8.8'' 420)"
    "w_fs (demo_world []) (nm_dropin manager_default) = None"
    using demo_nodes(1) by (simp_all add: demo_world_def) (simp add: demo_disk_def manager_eval)
  ultimately show ?thesis
    using take_over_restore_roundtrip [OF layout_default _ demo_quiet, of "''nameserver 8.8.8.8''" "demo_host demo_ser demo_de" "V4 127 0 0 53"]
      demo_codec_law by auto
qed



text \<open>Error path: while the process of a recorded takeover is alive, and whenever the state file
  cannot be decoded, both \<open>take_over\<close> and the start-up reconciliation fail with the matching
  error and leave every file as it is.\<close>

theorem start_refused:
  assumes "quiet w" "w_fs w (state_path m) = Some (File c k)"
    "case h_de h c of Some st \<Rightarrow> process_is_alive h (ts_pid st) \<and> e = AlreadyActive (ts_pid st)
       | None \<Rightarrow> e = CorruptState (display (state_path m))"
  shows "fst (take_over h m addr w) = Inl e \<and> w_fs (snd (take_over h m addr w)) = w_fs w \<and>
    fst (reconcile_after_crash h m w) = Inl e \<and> w_fs (snd (reconcile_after_crash h m w)) = w_fs w"
proof (cases "h_de h c")
  case (Some st)
  from read_state_some [OF assms(1,2) Some] obtain w1 where "read_state h m w = (Inr (Some st), w1)" "w_fs w1 = w_fs w"
    by (cases "read_state h m w") (auto simp: yields_def)
  then show ?thesis
    using assms(3) Some by (simp add: take_over_def reconcile_after_crash_def bind_io_def fail_io_def)
next
  case None
  have "stat (w_fs w) (state_path m) = Some (File c k)"
    using assms(2) by (subst stat_self) (auto simp: is_link_def)
  from yields_read [OF assms(1) this] obtain w1 where
    "read_to_string (state_path m) w = (Inr c, w1)" "w_fs w1 = w_fs w"
    by (cases "read_to_string (state_path m) w") (auto simp: yields_def)
  then show ?thesis
    using assms(3) None
    by (simp add: take_over_def reconcile_after_crash_def read_state_def attempt_def bind_io_def fail_io_def)
qed

theorem start_refused_witness:
  "\<exists>h w e. fst (take_over h manager_default (V4 127 0 0 53) w) = Inl e \<and> e = AlreadyActive 42 \<and>
     fst (reconcile_after_crash h manager_default w) = Inl e"
proof -
  let ?st = "\<lparr>ts_pid = 42, ts_taken_over_at = 0, ts_original_nameservers = [],
      ts_original_symlink_target = None, ts_wrote_nm_dropin = False\<rparr>"
  let ?h = "(demo_host demo_ser (\<lambda>_. Some ?st))\<lparr>h_kill0 := \<lambda>_. True\<rparr>"
  let ?t = "demo_disk(state_path manager_default \<mapsto> File ''{}'' 384)"
  let ?w = "\<lparr>w_fs = ?t, w_faults = [], w_trace = [?t]\<rparr>"
  have "fst (take_over ?h manager_default (V4 127 0 0 53) ?w) = Inl (AlreadyActive 42)"
    "fst (reconcile_after_crash ?h manager_default ?w) = Inl (AlreadyActive 42)"
    using start_refused [of ?w manager_default "''{}''" 384 "AlreadyActive 42" ?h "V4 127 0 0 53"]
    by (simp_all add: quiet_def demo_host_def process_is_alive_def)
  then show ?thesis by blast
qed

text \<open>The file written by a takeover names exactly the listen address as nameserver, and reading it
  back as if it were an original file skips that address only for 127.0.0.53: for any other
  listen address the guard against forwarding to ourselves does not apply.\<close>

theorem redirect_names_listen_address:
  assumes "plain_line (display (backup_path m))"
  shows "parse_nameservers (redirect_body m (V4 a b c d)) =
    (if V4 a b c d = V4 127 0 0 53 then [] else [V4 a b c d])"
proof -
  let ?q = "show_quad a b c d" and ?ns = "''nameserver ''"
  let ?lines = "[''# Managed by Detour. The original file is backed up at'', ''# '' @ display (backup_path m),
      ''# and is restored automatically when DNS protection is turned off.'', ?ns @ ?q, ''options edns0 trust-ad'']"
  have lastq: "last ?q \<in> set ?q" by simp
  have no_ws: "\<not> is_ws (last ?q)" using show_quad_no_ws [OF lastq] .
  have "plain_line (?ns @ ?q)"
    using show_quad_no_ws [of nl a b c d] no_ws by (auto simp: plain_line_def is_ws_def)
  moreover have "plain_line (''# '' @ display (backup_path m))"
    using assms by (auto simp: plain_line_def)
  ultimately have lines: "str_lines (redirect_body m (V4 a b c d)) = ?lines"
    unfolding redirect_body_def by (subst str_lines_unlines) (simp_all add: plain_line_def)
  have hash: "\<exists>r. trim (CHR ''#'' # s) = CHR ''#'' # r" for s by (rule trim_Cons) (simp add: is_ws_def)
  have t4: "trim (?ns @ ?q) = ?ns @ ?q" using no_ws by (intro trim_word) (simp_all add: is_ws_def)
  have t5: "trim ''options edns0 trust-ad'' = ''options edns0 trust-ad''"
    by (intro trim_word) (simp_all add: is_ws_def)
  have "\<not> is_ws (hd ?q)" using show_quad_no_ws [of "hd ?q" a b c d] by simp
  then have "trim (CHR '' '' # ?q) = ?q" using trim_word [of ?q] no_ws by (simp add: trim_def is_ws_def)
  then have word: "head_opt (split_whitespace (trim (CHR '' '' # ?q))) = Some ?q"
    using split_whitespace_only [of ?q] show_quad_no_ws by (simp add: head_opt_def)
  have "CHR ''%'' \<notin> set ?q" by (rule show_quad_no) (simp_all add: str_defs)
  then have ip: "parse_ip (case head_opt (split_on (CHR ''%'') ?q) of Some x \<Rightarrow> x | None \<Rightarrow> ?q) = Some (V4 a b c d)"
    using parse_ip_show_V4 [of a b c d] by (simp add: split_on_none head_opt_def)
  have "filter (\<lambda>l. \<not> starts_with ''#'' l \<and> \<not> starts_with '';'' l) (map trim ?lines) = [?ns @ ?q, ''options edns0 trust-ad'']"
    using hash t4 t5 by (auto simp: starts_with_def) (metis strip_prefix.simps option.distinct(1))+
  then have "parse_nameservers (redirect_body m (V4 a b c d)) = filter (\<lambda>x. \<not> is_our_proxy x) [V4 a b c d]"
    using word ip by (simp add: parse_nameservers_def lines List.map_filter_simps del: filter.simps list.map)
  moreover have "is_our_proxy (V4 a b c d) \<longleftrightarrow> V4 a b c d = V4 127 0 0 53"
  proof -
    have "show_ip (V4 127 0 0 53) = PROXY_ADDR" 
      by (simp add: PROXY_ADDR_def show_quad_def show_nat_eval)
    then show ?thesis unfolding is_our_proxy_def using parse_ip_show_V4 by (metis option.inject)
  qed
  ultimately show ?thesis by simp
qed

theorem redirect_names_listen_address_witness:
  "parse_nameservers (redirect_body manager_default (V4 127 0 0 54)) = [V4 127 0 0 54]"
  using redirect_names_listen_address [of manager_default 127 0 0 54]
  by (simp add: manager_eval display_def plain_line_def)

end
