(* ===== verification/Tunnel.thy ===== *)
theory Tunnel
  imports Filesystem Net_Addr Text
begin

text \<open>
  \<open>crates/dns-helper/src/tunnel.rs\<close>: the WireGuard configuration, the commands that build and tear
  down the per-application tunnel, and \<open>up\<close> / \<open>down\<close>. Running a program (\<open>ip\<close>, \<open>wg\<close>, \<open>nft\<close>) is the
  argument \<open>exec\<close> on a kernel state of any type, given the files as they are; the system
  resolver (\<open>to_socket_addrs\<close>) is the argument \<open>lookup\<close>. Log lines are left out.
\<close>

section \<open>The code\<close>

definition IFACE :: string where "IFACE = ''detour0''"
definition TABLE :: nat where "TABLE = 51820"
definition MARK :: nat where "MARK = 0x5157"
definition RULE_PRIORITY :: nat where "RULE_PRIORITY = 5157"
definition NFT_TABLE :: string where "NFT_TABLE = ''detour_tunnel''"
definition SLICE :: string where "SLICE = ''detourtunnel.slice''"
definition DEFAULT_MTU :: nat where "DEFAULT_MTU = 1280"

definition BYPASS_V4 :: "string list" where
  "BYPASS_V4 = [''127.0.0.0/8'', ''10.0.0.0/8'', ''172.16.0.0/12'', ''192.168.0.0/16'', ''169.254.0.0/16'',
     ''100.64.0.0/10'']"

definition BYPASS_V6 :: "string list" where
  "BYPASS_V6 = [''::1/128'', ''fc00::/7'', ''fe80::/10'']"

definition INTERFACE_KEYS :: "string list" where
  "INTERFACE_KEYS = [''privatekey'', ''listenport'', ''fwmark'']"

definition PEER_KEYS :: "string list" where
  "PEER_KEYS = [''publickey'', ''presharedkey'', ''allowedips'', ''endpoint'', ''persistentkeepalive'']"

datatype tunnel_error =
    InvalidConfig string
  | Tunnel_Read string io_kind
  | Tunnel_Command string string
  | Tunnel_Spawn string io_kind

record wg_config =
  wg_addresses_v4 :: "string list"
  wg_mtu :: "nat option"
  wg_setconf :: string
  wg_endpoint :: "string option"

definition is_ipv4_cidr :: "string \<Rightarrow> bool" where
  "is_ipv4_cidr s =
     (let (ip, pre) = (case split_once (CHR ''/'') s of Some x \<Rightarrow> x | None \<Rightarrow> (s, ''32'')) in
      parse_ipv4 ip \<noteq> None \<and> (case parse_u8 pre of Some p \<Rightarrow> p \<le> 32 | None \<Rightarrow> False))"

text \<open>The local variables of the parser's loop.\<close>

record wg_parse =
  ps_section :: string
  ps_setconf :: string
  ps_addresses_v4 :: "string list"
  ps_mtu :: "nat option"
  ps_endpoint :: "string option"
  ps_has_private_key :: bool
  ps_peers :: nat
  ps_peer_has_key :: "bool list"

definition parse_start :: wg_parse where
  "parse_start = \<lparr>ps_section = [], ps_setconf = [], ps_addresses_v4 = [], ps_mtu = None, ps_endpoint = None,
     ps_has_private_key = False, ps_peers = 0, ps_peer_has_key = []\<rparr>"

definition parse_header :: "string \<Rightarrow> wg_parse \<Rightarrow> tunnel_error + wg_parse" where
  "parse_header line s =
     (let l = to_ascii_lowercase line in
      if l = ''[interface]'' then
        Inr (s\<lparr>ps_section := ''interface'', ps_setconf := ps_setconf s @ line @ [nl]\<rparr>)
      else if l = ''[peer]'' then
        Inr (s\<lparr>ps_section := ''peer'', ps_setconf := ps_setconf s @ line @ [nl],
               ps_peers := ps_peers s + 1, ps_peer_has_key := ps_peer_has_key s @ [False]\<rparr>)
      else Inl (InvalidConfig (''unknown section '' @ l)))"

definition parse_interface_key :: "string \<Rightarrow> string \<Rightarrow> wg_parse \<Rightarrow> tunnel_error + wg_parse" where
  "parse_interface_key key value s =
     (if key = ''address'' then
        Inr (s\<lparr>ps_addresses_v4 := ps_addresses_v4 s @ filter is_ipv4_cidr (map trim (split_on (CHR '','') value))\<rparr>)
      else if key = ''mtu'' then
        (case parse_u32 value of
           None \<Rightarrow> Inl (InvalidConfig (''bad MTU '' @ value)) | Some m \<Rightarrow> Inr (s\<lparr>ps_mtu := Some m\<rparr>))
      else if key \<in> set INTERFACE_KEYS then
        Inr (s\<lparr>ps_has_private_key := (key = ''privatekey'' \<or> ps_has_private_key s),
               ps_setconf := ps_setconf s @ key @ '' = '' @ value @ [nl]\<rparr>)
      else Inr s)"

definition parse_peer_key :: "string \<Rightarrow> string \<Rightarrow> wg_parse \<Rightarrow> wg_parse" where
  "parse_peer_key key value s =
     (if key \<in> set PEER_KEYS then
        s\<lparr>ps_peer_has_key :=
            (if key = ''publickey'' \<and> ps_peer_has_key s \<noteq> [] then butlast (ps_peer_has_key s) @ [True]
             else ps_peer_has_key s),
          ps_endpoint := (if key = ''endpoint'' \<and> ps_endpoint s = None then Some value else ps_endpoint s),
          ps_setconf := ps_setconf s @ key @ '' = '' @ value @ [nl]\<rparr>
      else s)"

definition parse_line :: "string \<Rightarrow> wg_parse \<Rightarrow> tunnel_error + wg_parse" where
  "parse_line raw s =
     (let line = trim (hd (split_on (CHR ''#'') raw)) in
      if line = [] then Inr s
      else if starts_with ''['' line \<and> ends_with '']'' line then parse_header line s
      else (case split_once (CHR ''='') line of
              None \<Rightarrow> Inl (InvalidConfig (''malformed line: '' @ line))
            | Some (key, value) \<Rightarrow>
                (let key = to_ascii_lowercase (trim key); value = trim value in
                 if ps_section s = ''interface'' then parse_interface_key key value s
                 else if ps_section s = ''peer'' then Inr (parse_peer_key key value s)
                 else Inl (InvalidConfig ''key outside of any section''))))"

fun parse_loop :: "string list \<Rightarrow> wg_parse \<Rightarrow> tunnel_error + wg_parse" where
  "parse_loop [] s = Inr s"
| "parse_loop (raw # ls) s = (case parse_line raw s of Inl e \<Rightarrow> Inl e | Inr s' \<Rightarrow> parse_loop ls s')"

definition wg_parse_config :: "string \<Rightarrow> tunnel_error + wg_config" where
  "wg_parse_config text =
     (case parse_loop (str_lines text) parse_start of
        Inl e \<Rightarrow> Inl e
      | Inr s \<Rightarrow>
          if \<not> ps_has_private_key s then Inl (InvalidConfig ''[Interface] has no PrivateKey'')
          else if ps_peers s = 0 then Inl (InvalidConfig ''no [Peer] section'')
          else if list_ex (\<lambda>k. \<not> k) (ps_peer_has_key s) then Inl (InvalidConfig ''a [Peer] has no PublicKey'')
          else if ps_addresses_v4 s = [] then Inl (InvalidConfig ''[Interface] has no IPv4 Address'')
          else Inr \<lparr>wg_addresses_v4 = ps_addresses_v4 s, wg_mtu = ps_mtu s, wg_setconf = ps_setconf s,
                    wg_endpoint = ps_endpoint s\<rparr>)"

definition wg_load :: "path \<Rightarrow> (tunnel_error, wg_config) io" where
  "wg_load path = bind_io (map_err (Tunnel_Read (display path)) (read_to_string path))
     (\<lambda>text. case wg_parse_config text of Inl e \<Rightarrow> fail_io e | Inr c \<Rightarrow> return_io c)"

definition with_endpoint :: "string \<Rightarrow> string \<Rightarrow> string" where
  "with_endpoint setconf endpoint =
     str_join [nl] (map (\<lambda>l. if starts_with ''endpoint'' (to_ascii_lowercase l) then ''endpoint = '' @ endpoint else l)
       (str_lines setconf)) @ [nl]"

definition resolve_endpoint_v4 :: "(string \<Rightarrow> socket_addr list option) \<Rightarrow> string \<Rightarrow> string option" where
  "resolve_endpoint_v4 lookup endpoint =
     (if parse_socket_v4 endpoint \<noteq> None then Some endpoint
      else (case lookup endpoint of
              None \<Rightarrow> None
            | Some addrs \<Rightarrow> map_option show_socket (find (\<lambda>a. is_ipv4 (sa_ip a)) addrs)))"

definition slice_cgroup :: "nat \<Rightarrow> string \<times> nat" where
  "slice_cgroup uid =
     (let path = ''user.slice/user-'' @ show_nat uid @ ''.slice/user@'' @ show_nat uid @ ''.service/'' @ SLICE in
      (path, length (split_on (CHR ''/'') path)))"

definition nft_ruleset :: "nat \<Rightarrow> string" where
  "nft_ruleset uid = (let (cgroup, level) = slice_cgroup uid; tab = [CHR 0x09]; quote = [CHR 0x22] in
     unlines
       [''table inet '' @ NFT_TABLE @ '' {'',
        tab @ ''chain output {'',
        tab @ tab @ ''type route hook output priority mangle; policy accept;'',
        tab @ tab @ ''ip daddr { '' @ str_join '', '' BYPASS_V4 @ '' } return'',
        tab @ tab @ ''ip6 daddr { '' @ str_join '', '' BYPASS_V6 @ '' } return'',
        tab @ tab @ ''socket cgroupv2 level '' @ show_nat level @ '' '' @ quote @ cgroup @ quote @
          '' meta mark set 0x'' @ show_hex MARK,
        tab @ ''}'',
        tab @ ''chain postrouting {'',
        tab @ tab @ ''type nat hook postrouting priority srcnat; policy accept;'',
        tab @ tab @ ''oifname '' @ quote @ IFACE @ quote @ '' masquerade'',
        tab @ ''}'',
        ''}''])"

record step =
  st_argv :: "string list"
  st_optional :: bool

definition mandatory :: "string list \<Rightarrow> step" where
  "mandatory argv = \<lparr>st_argv = argv, st_optional = False\<rparr>"

definition optional :: "string list \<Rightarrow> step" where
  "optional argv = (mandatory argv)\<lparr>st_optional := True\<rparr>"

definition up_steps :: "wg_config \<Rightarrow> string \<Rightarrow> string \<Rightarrow> step list" where
  "up_steps config setconf_path nft_path =
     (let table = show_nat TABLE; mark = ''0x'' @ show_hex MARK; prio = show_nat RULE_PRIORITY;
          mtu = show_nat (case wg_mtu config of Some m \<Rightarrow> m | None \<Rightarrow> DEFAULT_MTU) in
      [mandatory [''ip'', ''link'', ''add'', IFACE, ''type'', ''wireguard''],
       mandatory [''wg'', ''setconf'', IFACE, setconf_path]] @
      map (\<lambda>addr. mandatory [''ip'', ''-4'', ''address'', ''add'', addr, ''dev'', IFACE]) (wg_addresses_v4 config) @
      [mandatory [''ip'', ''link'', ''set'', ''mtu'', mtu, ''up'', ''dev'', IFACE],
       mandatory [''ip'', ''-4'', ''route'', ''add'', ''default'', ''dev'', IFACE, ''table'', table],
       mandatory [''ip'', ''-4'', ''route'', ''add'', ''unreachable'', ''default'', ''metric'', ''4096'', ''table'', table],
       mandatory [''ip'', ''-4'', ''rule'', ''add'', ''fwmark'', mark, ''lookup'', table, ''priority'', prio],
       optional [''ip'', ''-6'', ''route'', ''add'', ''unreachable'', ''default'', ''table'', table],
       optional [''ip'', ''-6'', ''rule'', ''add'', ''fwmark'', mark, ''lookup'', table, ''priority'', prio],
       mandatory [''nft'', ''-f'', nft_path]])"

definition down_steps :: "step list" where
  "down_steps =
     (let table = show_nat TABLE; prio = show_nat RULE_PRIORITY in
      [optional [''nft'', ''delete'', ''table'', ''inet'', NFT_TABLE],
       optional [''ip'', ''-4'', ''rule'', ''del'', ''priority'', prio],
       optional [''ip'', ''-6'', ''rule'', ''del'', ''priority'', prio],
       optional [''ip'', ''-4'', ''route'', ''flush'', ''table'', table],
       optional [''ip'', ''-6'', ''route'', ''flush'', ''table'', table],
       optional [''ip'', ''link'', ''del'', IFACE]])"

datatype exit = Spawn_Failed io_kind | Exited bool string

type_synonym 'k exec = "files \<Rightarrow> string list \<Rightarrow> 'k \<Rightarrow> exit \<times> 'k"

definition run_step :: "'k exec \<Rightarrow> files \<Rightarrow> step \<Rightarrow> 'k \<Rightarrow> (tunnel_error + unit) \<times> 'k" where
  "run_step exec t s k =
     (let command = str_join '' '' (st_argv s) in
      case exec t (st_argv s) k of
        (Spawn_Failed source, k') \<Rightarrow> (Inl (Tunnel_Spawn command source), k')
      | (Exited success stderr, k') \<Rightarrow>
          if success then (Inr (), k')
          else if st_optional s then (Inr (), k')
          else (Inl (Tunnel_Command command (trim stderr)), k'))"

fun run_steps :: "'k exec \<Rightarrow> files \<Rightarrow> step list \<Rightarrow> 'k \<Rightarrow> (tunnel_error + unit) \<times> 'k" where
  "run_steps exec t [] k = (Inr (), k)"
| "run_steps exec t (s # ss) k =
     (case run_step exec t s k of
        (Inl e, k') \<Rightarrow> (Inl e, k')
      | (Inr _, k') \<Rightarrow> run_steps exec t ss k')"

definition down :: "'k exec \<Rightarrow> files \<Rightarrow> 'k \<Rightarrow> 'k" where
  "down exec t k = fold (\<lambda>s k. snd (run_step exec t s k)) down_steps k"

definition write_private :: "path \<Rightarrow> string \<Rightarrow> (tunnel_error, unit) io" where
  "write_private path contents =
     bind_io (map_err (Tunnel_Read (display path)) (file_open 384 path)) (\<lambda>file.
       map_err (Tunnel_Read (display path)) (file_write_all file contents))"

text \<open>\<open>up\<close> up to its first command: the files it writes.\<close>

definition up_files :: "(string \<Rightarrow> socket_addr list option) \<Rightarrow> wg_config \<Rightarrow> nat \<Rightarrow> path \<Rightarrow> (tunnel_error, unit) io" where
  "up_files lookup config uid work_dir =
     bind_io (map_err (Tunnel_Read (display work_dir)) (create_dir_all work_dir)) (\<lambda>_.
     bind_io
       (case wg_endpoint config of
          Some ep \<Rightarrow>
            (case resolve_endpoint_v4 lookup ep of
               Some v4 \<Rightarrow> return_io (with_endpoint (wg_setconf config) v4)
             | None \<Rightarrow> fail_io (InvalidConfig (''could not resolve an IPv4 address for endpoint '' @ ep)))
        | None \<Rightarrow> return_io (wg_setconf config)) (\<lambda>setconf.
     bind_io (write_private (work_dir @ [''wg-setconf.conf'']) setconf) (\<lambda>_.
       write_private (work_dir @ [''tunnel.nft'']) (nft_ruleset uid))))"

definition up :: "'k exec \<Rightarrow> (string \<Rightarrow> socket_addr list option) \<Rightarrow> wg_config \<Rightarrow> nat \<Rightarrow> path \<Rightarrow>
    world \<times> 'k \<Rightarrow> (tunnel_error + unit) \<times> world \<times> 'k" where
  "up exec lookup config uid work_dir wk =
     (let (w, k) = wk; k = down exec (w_fs w) k in
      case up_files lookup config uid work_dir w of
        (Inl e, w) \<Rightarrow> (Inl e, w, k)
      | (Inr _, w) \<Rightarrow>
          (let setconf_path = work_dir @ [''wg-setconf.conf'']; nft_path = work_dir @ [''tunnel.nft''];
               (result, k) = run_steps exec (w_fs w)
                 (up_steps config (display setconf_path) (display nft_path)) k;
               w = snd (remove_file setconf_path w) in
           case result of
             Inl e \<Rightarrow> (Inl e, w, down exec (w_fs w) k)
           | Inr _ \<Rightarrow> (Inr (), w, k)))"

definition SYS_NET :: path where "SYS_NET = [''sys'', ''class'', ''net'']"

definition is_up :: "('e, bool) io" where
  "is_up = path_exists (SYS_NET @ [IFACE])"

text \<open>A counter file; \<open>None\<close> is every failure of reading or parsing.\<close>

definition read_counter :: "string \<Rightarrow> (io_kind, nat option) io" where
  "read_counter f = bind_io (ok (read_to_string (SYS_NET @ [IFACE, ''statistics'', f])))
     (\<lambda>r. return_io (case r of None \<Rightarrow> None | Some text \<Rightarrow> parse_uint (2 ^ 64) (trim text)))"

definition traffic :: "(io_kind, (nat \<times> nat) option) io" where
  "traffic =
     bind_io (read_counter ''rx_bytes'') (\<lambda>rx.
       case rx of
         None \<Rightarrow> return_io None
       | Some r \<Rightarrow> bind_io (read_counter ''tx_bytes'') (\<lambda>tx.
           return_io (case tx of None \<Rightarrow> None | Some t \<Rightarrow> Some (r, t))))"

section \<open>What \<open>wg setconf\<close> is given\<close>

text \<open>A line belongs in a section when it is a header or sets one of the section's keys; a \<open>[Peer]\<close>
  header opens a peer without a key.\<close>

definition section_keys :: "string \<Rightarrow> string list" where
  "section_keys sec = (if sec = ''interface'' then INTERFACE_KEYS else if sec = ''peer'' then PEER_KEYS else [])"

definition line_ok :: "string \<Rightarrow> string \<Rightarrow> bool" where
  "line_ok sec l \<longleftrightarrow> to_ascii_lowercase l \<in> {''[interface]'', ''[peer]''} \<or>
     list_ex (\<lambda>k. starts_with (k @ '' = '') l) (section_keys sec)"

definition next_section :: "string \<Rightarrow> string \<Rightarrow> string" where
  "next_section sec l =
     (if to_ascii_lowercase l = ''[interface]'' then ''interface''
      else if to_ascii_lowercase l = ''[peer]'' then ''peer'' else sec)"

definition next_flags :: "bool list \<Rightarrow> string \<Rightarrow> bool list" where
  "next_flags fl l =
     (if to_ascii_lowercase l = ''[peer]'' then fl @ [False]
      else if starts_with ''publickey = '' l \<and> fl \<noteq> [] then butlast fl @ [True] else fl)"

fun well_sectioned :: "string \<Rightarrow> string list \<Rightarrow> bool" where
  "well_sectioned sec [] = True"
| "well_sectioned sec (l # ls) = (line_ok sec l \<and> well_sectioned (next_section sec l) ls)"

definition peer_flags :: "string list \<Rightarrow> bool list" where
  "peer_flags ls = foldl next_flags [] ls"

lemma well_sectioned_snoc:
  "well_sectioned sec (ls @ [l]) \<longleftrightarrow> well_sectioned sec ls \<and> line_ok (foldl next_section sec ls) l"
  by (induction ls arbitrary: sec) auto

definition parse_inv :: "wg_parse \<Rightarrow> bool" where
  "parse_inv s \<longleftrightarrow>
     (\<exists>ls. ps_setconf s = unlines ls \<and> list_all plain_line ls \<and> well_sectioned [] ls \<and>
        foldl next_section [] ls = ps_section s \<and> peer_flags ls = ps_peer_has_key s \<and>
        (ps_has_private_key s \<longrightarrow> list_ex (starts_with ''privatekey = '') ls)) \<and>
     list_all is_ipv4_cidr (ps_addresses_v4 s) \<and> length (ps_peer_has_key s) = ps_peers s"

lemma parse_inv_start: "parse_inv parse_start"
  by (auto simp: parse_inv_def parse_start_def peer_flags_def intro: exI [of _ "[]"])

text \<open>Adding one line.\<close>

lemma parse_inv_line:
  assumes "parse_inv s" "plain_line l" "line_ok (ps_section s) l"
    "ps_setconf s' = ps_setconf s @ l @ [nl]" "ps_section s' = next_section (ps_section s) l"
    "ps_peer_has_key s' = next_flags (ps_peer_has_key s) l"
    "ps_has_private_key s' \<longrightarrow> ps_has_private_key s \<or> starts_with ''privatekey = '' l"
    "ps_addresses_v4 s' = ps_addresses_v4 s" "ps_peers s' = length (ps_peer_has_key s')"
  shows "parse_inv s'"
proof -
  from assms(1) obtain ls where ls: "ps_setconf s = unlines ls" "list_all plain_line ls" "well_sectioned [] ls"
    "foldl next_section [] ls = ps_section s" "peer_flags ls = ps_peer_has_key s"
    "ps_has_private_key s \<longrightarrow> list_ex (starts_with ''privatekey = '') ls" "list_all is_ipv4_cidr (ps_addresses_v4 s)"
    by (auto simp: parse_inv_def)
  have "ps_setconf s' = unlines (ls @ [l])" using ls(1) assms(4) by (simp add: unlines_single)
  moreover have "well_sectioned [] (ls @ [l])" using ls(3,4) assms(3) by (simp add: well_sectioned_snoc)
  moreover have "peer_flags (ls @ [l]) = ps_peer_has_key s'" using ls(5) assms(6) by (simp add: peer_flags_def)
  ultimately show ?thesis
    unfolding parse_inv_def using ls assms by (intro conjI exI [of _ "ls @ [l]"]) auto
qed

lemma header_step:
  assumes "parse_inv s" "plain_line line" "parse_header line s = Inr s'"
  shows "parse_inv s'"
proof -
  have "\<not> starts_with ''publickey = '' line" if "to_ascii_lowercase line = ''[interface]''"
  proof
    assume "starts_with ''publickey = '' line"
    then obtain r where "line = ''publickey = '' @ r" by (auto simp: starts_with_iff)
    with that show False by (simp add: to_ascii_lowercase_def lower_char_def)
  qed
  moreover have "length (ps_peer_has_key s) = ps_peers s" using assms(1) by (simp add: parse_inv_def)
  ultimately show ?thesis
    using assms(3)
    by (auto simp: parse_header_def Let_def line_ok_def next_section_def next_flags_def split: if_splits
        intro!: parse_inv_line [OF assms(1,2)])
qed

definition setting :: "string \<Rightarrow> string \<Rightarrow> string" where
  "setting k v = k @ '' = '' @ v"

lemma key_line:
  assumes "k \<in> set (section_keys sec)" "nl \<notin> set v" "v = [] \<or> last v \<noteq> CHR 0x0D"
  shows "plain_line (setting k v)" "line_ok sec (setting k v)" "next_section s0 (setting k v) = s0"
    "next_flags fl (setting k v) = (if k = ''publickey'' \<and> fl \<noteq> [] then butlast fl @ [True] else fl)"
    "starts_with ''privatekey = '' (setting k v) \<longleftrightarrow> k = ''privatekey''"
proof -
  have k: "k \<in> set INTERFACE_KEYS \<union> set PEER_KEYS" using assms(1) by (auto simp: section_keys_def split: if_splits)
  then show "plain_line (setting k v)"
    using assms(2,3) by (auto simp: setting_def plain_line_def INTERFACE_KEYS_def PEER_KEYS_def)
  show "line_ok sec (setting k v)"
    using assms(1) starts_with_append [of "k @ '' = ''" v] by (auto simp: setting_def line_ok_def list_ex_iff)
  have h: "to_ascii_lowercase (setting k v) \<notin> {''[interface]'', ''[peer]''}"
    using k by (auto simp: setting_def INTERFACE_KEYS_def PEER_KEYS_def to_ascii_lowercase_def lower_char_def)
  then show "next_section s0 (setting k v) = s0" by (simp add: next_section_def)
  have p: "starts_with ''publickey = '' (setting k v) \<longleftrightarrow> k = ''publickey''"
    using k by (auto simp: setting_def INTERFACE_KEYS_def PEER_KEYS_def starts_with_def)
  show "next_flags fl (setting k v) = (if k = ''publickey'' \<and> fl \<noteq> [] then butlast fl @ [True] else fl)"
    using h p by (simp add: next_flags_def)
  show "starts_with ''privatekey = '' (setting k v) \<longleftrightarrow> k = ''privatekey''"
    using k by (auto simp: setting_def INTERFACE_KEYS_def PEER_KEYS_def starts_with_def)
qed

lemma interface_step:
  assumes "parse_inv s" "ps_section s = ''interface''" "nl \<notin> set v" "v = [] \<or> last v \<noteq> CHR 0x0D"
    "parse_interface_key k v s = Inr s'"
  shows "parse_inv s'"
proof (cases "k \<in> set INTERFACE_KEYS")
  case True
  then have k: "k \<in> set (section_keys (ps_section s))" by (simp add: section_keys_def assms(2))
  have np: "k \<noteq> ''publickey''" "k \<noteq> ''address''" "k \<noteq> ''mtu''" using True by (auto simp: INTERFACE_KEYS_def)
  note line = key_line [OF k assms(3,4)]
  have "length (ps_peer_has_key s) = ps_peers s" using assms(1) by (simp add: parse_inv_def)
  moreover have "s' = s\<lparr>ps_has_private_key := (k = ''privatekey'' \<or> ps_has_private_key s),
      ps_setconf := ps_setconf s @ setting k v @ [nl]\<rparr>"
    using assms(5) True np by (simp add: parse_interface_key_def setting_def)
  ultimately show ?thesis
    by (intro parse_inv_line [OF assms(1) line(1,2)]) (simp_all add: line(3-5) np(1))
next
  case False
  with assms(1,5) show ?thesis
    by (auto simp: parse_interface_key_def parse_inv_def list_all_iff split: if_splits option.splits)
qed

lemma peer_step:
  assumes "parse_inv s" "ps_section s = ''peer''" "nl \<notin> set v" "v = [] \<or> last v \<noteq> CHR 0x0D"
  shows "parse_inv (parse_peer_key k v s)"
proof (cases "k \<in> set PEER_KEYS")
  case True
  then have k: "k \<in> set (section_keys (ps_section s))" by (simp add: section_keys_def assms(2))
  note line = key_line [OF k assms(3,4)]
  let ?fl = "if k = ''publickey'' \<and> ps_peer_has_key s \<noteq> [] then butlast (ps_peer_has_key s) @ [True]
      else ps_peer_has_key s"
  have "length (ps_peer_has_key s) = ps_peers s" using assms(1) by (simp add: parse_inv_def)
  then have "ps_peers s = length ?fl" by (cases "ps_peer_has_key s" rule: rev_cases) auto
  moreover have "parse_peer_key k v s = s\<lparr>ps_peer_has_key := ?fl,
      ps_endpoint := (if k = ''endpoint'' \<and> ps_endpoint s = None then Some v else ps_endpoint s),
      ps_setconf := ps_setconf s @ setting k v @ [nl]\<rparr>"
    using True by (simp add: parse_peer_key_def setting_def)
  ultimately show ?thesis
    by (intro parse_inv_line [OF assms(1) line(1,2)]) (simp_all add: line(3-5))
next
  case False
  with assms(1) show ?thesis by (simp add: parse_peer_key_def)
qed

lemma trim_set: "x \<in> set (trim s) \<Longrightarrow> x \<in> set s"
proof -
  assume "x \<in> set (trim s)"
  then have "x \<in> set (dropWhile is_ws s)"
    using trim_end_by_decomp [of "dropWhile is_ws s" is_ws] by (metis trim_def Un_iff set_append)
  then show ?thesis by (rule set_dropWhileD)
qed

lemma trim_last: "trim s = [] \<or> last (trim s) \<noteq> CHR 0x0D"
  using trim_end_by_last [of is_ws "dropWhile is_ws s"] by (auto simp: trim_def is_ws_def)

lemma parse_line_inv:
  assumes "parse_inv s" "nl \<notin> set raw" "parse_line raw s = Inr s'"
  shows "parse_inv s'"
proof -
  define line where "line = trim (hd (split_on (CHR ''#'') raw))"
  have "hd (split_on (CHR ''#'') raw) \<in> set (split_on (CHR ''#'') raw)" by simp
  then have "set (hd (split_on (CHR ''#'') raw)) \<subseteq> set raw"
    unfolding split_on_def using split_by_parts by blast
  then have nl: "nl \<notin> set line" using assms(2) trim_set by (auto simp: line_def)
  then have plain: "plain_line line" using trim_last [of "hd (split_on (CHR ''#'') raw)"] by (simp add: plain_line_def line_def)
  show ?thesis
  proof (cases "line = [] \<or> starts_with ''['' line \<and> ends_with '']'' line")
    case True
    with assms(1,3) header_step [OF assms(1) plain] show ?thesis
      by (auto simp: parse_line_def Let_def line_def [symmetric] split: if_splits)
  next
    case False
    with assms(3) obtain k v where kv: "split_once (CHR ''='') line = Some (k, v)"
      by (auto simp: parse_line_def Let_def line_def [symmetric] split: option.splits)
    then have "nl \<notin> set (trim v)" using nl by (auto simp: split_once_Some dest: trim_set)
    with False assms(3) kv show ?thesis
      using interface_step [OF assms(1) _ _ trim_last] peer_step [OF assms(1) _ _ trim_last]
      by (auto simp: parse_line_def Let_def line_def [symmetric] split: if_splits)
  qed
qed

lemma parse_loop_inv:
  "parse_inv s \<Longrightarrow> \<forall>l \<in> set ls. nl \<notin> set l \<Longrightarrow> parse_loop ls s = Inr s' \<Longrightarrow> parse_inv s'"
  by (induction ls arbitrary: s) (auto split: sum.splits dest: parse_line_inv)

lemma parsed_lines:
  assumes "wg_parse_config t = Inr c"
  obtains ls where "wg_setconf c = unlines ls" "str_lines (wg_setconf c) = ls" "list_all plain_line ls" "ls \<noteq> []"
    "well_sectioned [] ls" "list_ex (starts_with ''privatekey = '') ls" "peer_flags ls \<noteq> []" "list_all (\<lambda>b. b) (peer_flags ls)"
    "wg_addresses_v4 c \<noteq> []" "list_all is_ipv4_cidr (wg_addresses_v4 c)"
proof -
  from assms obtain s where s: "parse_loop (str_lines t) parse_start = Inr s" "ps_has_private_key s"
    "ps_peers s \<noteq> 0" "\<not> list_ex (\<lambda>k. \<not> k) (ps_peer_has_key s)" "ps_addresses_v4 s \<noteq> []"
    "c = \<lparr>wg_addresses_v4 = ps_addresses_v4 s, wg_mtu = ps_mtu s, wg_setconf = ps_setconf s, wg_endpoint = ps_endpoint s\<rparr>"
    by (auto simp: wg_parse_config_def split: sum.splits if_splits)
  have inv: "parse_inv s"
    using parse_loop_inv [OF parse_inv_start _ s(1)] str_lines_no_nl by blast
  then obtain ls where ls: "ps_setconf s = unlines ls" "list_all plain_line ls" "well_sectioned [] ls"
    "peer_flags ls = ps_peer_has_key s" "list_ex (starts_with ''privatekey = '') ls"
    using s(2) by (auto simp: parse_inv_def)
  moreover have "str_lines (unlines ls) = ls" using ls(2) by (intro str_lines_unlines) (simp add: list_all_iff)
  moreover have "list_all is_ipv4_cidr (ps_addresses_v4 s)" "peer_flags ls \<noteq> []"
    using inv s(3) ls(4) by (auto simp: parse_inv_def)
  moreover have "list_all (\<lambda>b. b) (peer_flags ls)" using s(4) ls(4) by (simp add: list_all_iff list_ex_iff)
  ultimately show thesis using s(5,6) by (intro that [of ls]) auto
qed

text \<open>What \<open>with_endpoint\<close> does to one line of such a file.\<close>

lemma lower_bracket: "to_ascii_lowercase l \<in> {''[interface]'', ''[peer]''} \<Longrightarrow> \<exists>r. l = CHR ''['' # r"
proof -
  assume "to_ascii_lowercase l \<in> {''[interface]'', ''[peer]''}"
  then obtain c r r' where l: "l = c # r" "to_ascii_lowercase l = CHR ''['' # r'" by (cases l) auto
  then have "lower_char c = CHR ''[''" by (simp add: to_ascii_lowercase_def)
  then have "(of_char (lower_char c) :: nat) = 91" by simp
  then have "(of_char c :: nat) = 91" by (auto simp: lower_char_def of_char_of split: if_splits)
  then have "c = CHR ''[''" by (metis char_of_char of_char_eq_iff \<open>lower_char c = CHR ''[''\<close> \<open>(of_char (lower_char c) :: nat) = 91\<close>)
  with l show ?thesis by blast
qed

lemma endpoint_line:
  fixes e :: string
  assumes "line_ok sec l"
  defines "l' \<equiv> (if starts_with ''endpoint'' (to_ascii_lowercase l) then ''endpoint = '' @ e else l)"
  shows "line_ok sec l' \<and> next_section s0 l' = next_section s0 l \<and> next_flags fl l' = next_flags fl l \<and>
    (if starts_with ''endpoint = '' l then l' = ''endpoint = '' @ e else l' = l)"
proof (cases "to_ascii_lowercase l \<in> {''[interface]'', ''[peer]''}")
  case True
  then obtain r where "l = CHR ''['' # r" using lower_bracket by blast
  with True assms show ?thesis by (auto simp: starts_with_def)
next
  case False
  with assms(1) obtain k v where kv: "k \<in> set (section_keys sec)" "l = setting k v"
    by (auto simp: line_ok_def list_ex_iff starts_with_iff setting_def)
  have k: "k \<in> set INTERFACE_KEYS \<union> set PEER_KEYS" using kv(1) by (auto simp: section_keys_def split: if_splits)
  have sw: "starts_with ''endpoint = '' l \<longleftrightarrow> k = ''endpoint''"
    "starts_with ''endpoint'' (to_ascii_lowercase l) \<longleftrightarrow> k = ''endpoint''"
    using k by (auto simp: kv(2) setting_def starts_with_def INTERFACE_KEYS_def PEER_KEYS_def to_ascii_lowercase_def lower_char_def)
  show ?thesis
  proof (cases "k = ''endpoint''")
    case True
    then have l': "l' = setting k e" using sw by (simp add: l'_def setting_def)
    have "line_ok sec l'" using kv(1) starts_with_append [of "k @ '' = ''" e]
      by (auto simp: l' setting_def line_ok_def list_ex_iff)
    moreover have "to_ascii_lowercase l' \<notin> {''[interface]'', ''[peer]''}" "to_ascii_lowercase l \<notin> {''[interface]'', ''[peer]''}"
      "\<not> starts_with ''publickey = '' l'" "\<not> starts_with ''publickey = '' l"
      by (auto simp: l' kv(2) setting_def True to_ascii_lowercase_def lower_char_def starts_with_def)
    ultimately show ?thesis using sw True by (simp add: next_section_def next_flags_def l' setting_def)
  next
    case False
    with sw assms(1) show ?thesis by (simp add: l'_def)
  qed
qed

lemma endpoint_lines:
  fixes e :: string
  assumes "well_sectioned sec ls"
  defines "f \<equiv> \<lambda>l. if starts_with ''endpoint'' (to_ascii_lowercase l) then ''endpoint = '' @ e else l"
  shows "well_sectioned sec (map f ls) \<and> foldl next_flags fl (map f ls) = foldl next_flags fl ls \<and>
    list_all2 (\<lambda>l l'. if starts_with ''endpoint = '' l then l' = ''endpoint = '' @ e else l' = l) ls (map f ls)"
  using assms(1)
proof (induction ls arbitrary: sec fl)
  case (Cons l ls)
  then have "line_ok sec l" by simp
  then have "line_ok sec (f l) \<and> next_section s0 (f l) = next_section s0 l \<and> next_flags fl0 (f l) = next_flags fl0 l \<and>
      (if starts_with ''endpoint = '' l then f l = ''endpoint = '' @ e else f l = l)" for s0 fl0
    unfolding f_def by (rule endpoint_line)
  note line = this
  from Cons.IH [of "next_section sec l"] Cons.prems line show ?case by simp
qed simp

section \<open>The commands of a bring-up\<close>

text \<open>A log of the commands and their results, kept beside the kernel.\<close>

definition logged :: "'k exec \<Rightarrow> ('k \<times> (string list \<times> exit) list) exec" where
  "logged exec t argv kl = (case exec t argv (fst kl) of (r, k') \<Rightarrow> (r, (k', snd kl @ [(argv, r)])))"

definition step_ok :: "step \<Rightarrow> exit \<Rightarrow> bool" where
  "step_ok s r \<longleftrightarrow> (case r of Spawn_Failed _ \<Rightarrow> False | Exited success _ \<Rightarrow> success \<or> st_optional s)"

lemma run_step_logged:
  "\<exists>r. snd (snd (run_step (logged exec) t s kl)) = snd kl @ [(st_argv s, r)] \<and>
     (fst (run_step (logged exec) t s kl) = Inr () \<longleftrightarrow> step_ok s r)"
  by (auto simp: run_step_def logged_def step_ok_def Let_def split: prod.splits exit.splits)

lemma down_logged:
  "\<exists>rs. length rs = length down_steps \<and> snd (down (logged exec) t kl) = snd kl @ zip (map st_argv down_steps) rs"
proof -
  have "\<exists>rs. length rs = length ss \<and>
      snd (fold (\<lambda>s k. snd (run_step (logged exec) t s k)) ss kl) = snd kl @ zip (map st_argv ss) rs" for ss
  proof (induction ss arbitrary: kl)
    case (Cons s ss)
    obtain r where r: "snd (snd (run_step (logged exec) t s kl)) = snd kl @ [(st_argv s, r)]"
      using run_step_logged by blast
    obtain rs where "length rs = length ss" "snd (fold (\<lambda>s k. snd (run_step (logged exec) t s k)) ss (snd (run_step (logged exec) t s kl))) =
        snd (snd (run_step (logged exec) t s kl)) @ zip (map st_argv ss) rs" using Cons.IH by blast
    with r show ?case by (intro exI [of _ "r # rs"]) simp
  qed simp
  then show ?thesis unfolding down_def by blast
qed

text \<open>The results \<open>rs\<close> of a run of \<open>ss\<close>: all accepted, or the last one not.\<close>

definition ran :: "step list \<Rightarrow> exit list \<Rightarrow> bool \<Rightarrow> bool" where
  "ran ss rs success \<longleftrightarrow> length rs \<le> length ss \<and>
     (if success then length rs = length ss \<and> list_all2 step_ok ss rs
      else rs \<noteq> [] \<and> list_all2 step_ok (take (length rs - 1) ss) (butlast rs) \<and> \<not> step_ok (ss ! (length rs - 1)) (last rs))"

lemma ran_Cons: "step_ok s r \<Longrightarrow> ran ss rs b \<Longrightarrow> ran (s # ss) (r # rs) b"
  by (cases b; cases rs) (auto simp: ran_def)

lemma run_steps_logged:
  "\<exists>rs. snd (snd (run_steps (logged exec) t ss kl)) = snd kl @ zip (map st_argv ss) rs \<and>
     ran ss rs (fst (run_steps (logged exec) t ss kl) = Inr ())"
proof (induction ss arbitrary: kl)
  case (Cons s ss)
  obtain r where r: "snd (snd (run_step (logged exec) t s kl)) = snd kl @ [(st_argv s, r)]"
    "fst (run_step (logged exec) t s kl) = Inr () \<longleftrightarrow> step_ok s r"
    using run_step_logged by blast
  obtain x kl1 where x: "run_step (logged exec) t s kl = (x, kl1)" by (cases "run_step (logged exec) t s kl")
  show ?case
  proof (cases x)
    case (Inl e)
    with r x show ?thesis by (intro exI [of _ "[r]"]) (simp add: ran_def)
  next
    case (Inr u)
    obtain rs where rs: "snd (snd (run_steps (logged exec) t ss kl1)) = snd kl1 @ zip (map st_argv ss) rs"
      "ran ss rs (fst (run_steps (logged exec) t ss kl1) = Inr ())" using Cons.IH by blast
    have "ran (s # ss) (r # rs) (fst (run_steps (logged exec) t ss kl1) = Inr ())"
      using rs(2) r x Inr by (simp add: ran_Cons)
    with rs r x Inr show ?thesis by (intro exI [of _ "r # rs"]) simp
  qed
qed (simp add: ran_def)

text \<open>The log of a whole bring-up: the teardown, the files, the steps, the teardown again on failure.\<close>

lemma up_log:
  assumes "up (logged exec) lookup c uid dir (w, (k, [])) = (res, w', (k', log))"
  obtains d rs e where "length d = length down_steps" "length e = length down_steps"
    "log = zip (map st_argv down_steps) d @
       zip (map st_argv (up_steps c (display (dir @ [''wg-setconf.conf''])) (display (dir @ [''tunnel.nft''])))) rs @
       (if res = Inr () \<or> rs = [] then [] else zip (map st_argv down_steps) e)"
    "res \<noteq> Inr () \<and> rs = [] \<or>
     ran (up_steps c (display (dir @ [''wg-setconf.conf''])) (display (dir @ [''tunnel.nft'']))) rs (res = Inr ())"
proof -
  define ups where "ups = up_steps c (display (dir @ [''wg-setconf.conf''])) (display (dir @ [''tunnel.nft'']))"
  let ?ds = "map st_argv down_steps"
  obtain d where d: "length d = length down_steps" "snd (down (logged exec) (w_fs w) (k, [])) = zip ?ds d"
    using down_logged [of exec "w_fs w" "(k, [])"] by auto
  obtain f w1 where f: "up_files lookup c uid dir w = (f, w1)" by (cases "up_files lookup c uid dir w")
  show thesis
  proof (cases f)
    case (Inl x)
    with assms f have "res = Inl x" "log = snd (down (logged exec) (w_fs w) (k, []))" by (auto simp: up_def)
    with d show thesis by (intro that [of d d "[]"]) simp_all
  next
    case (Inr u)
    let ?kl = "down (logged exec) (w_fs w) (k, [])"
    obtain r kl1 where r: "run_steps (logged exec) (w_fs w1) ups ?kl = (r, kl1)"
      by (cases "run_steps (logged exec) (w_fs w1) ups ?kl")
    obtain rs where rs: "snd kl1 = snd ?kl @ zip (map st_argv ups) rs" "ran ups rs (r = Inr ())"
      using run_steps_logged [of exec "w_fs w1" ups ?kl] r by auto
    let ?w2 = "snd (remove_file (dir @ [''wg-setconf.conf'']) w1)"
    obtain e where e: "length e = length down_steps" "snd (down (logged exec) (w_fs ?w2) kl1) = snd kl1 @ zip ?ds e"
      using down_logged [of exec "w_fs ?w2" kl1] by auto
    show thesis
    proof (cases r)
      case (Inl x)
      with assms f Inr r have "res = Inl x" "log = snd (down (logged exec) (w_fs ?w2) kl1)"
        by (auto simp: up_def ups_def Let_def)
      moreover have "rs \<noteq> []" using rs(2) Inl by (simp add: ran_def)
      ultimately show thesis using d e rs Inl by (intro that [of d e rs]) (simp_all add: ups_def)
    next
      case r2: (Inr v)
      with assms f Inr r have "res = Inr ()" "log = snd kl1" by (auto simp: up_def ups_def Let_def)
      with d e rs r2 show thesis by (intro that [of d e rs]) (simp_all add: ups_def)
    qed
  qed
qed

definition unreachable_argv :: "string list" where
  "unreachable_argv = [''ip'', ''-4'', ''route'', ''add'', ''unreachable'', ''default'', ''metric'', ''4096'', ''table'', show_nat TABLE]"

definition rule_argv :: "string list" where
  "rule_argv = [''ip'', ''-4'', ''rule'', ''add'', ''fwmark'', ''0x'' @ show_hex MARK, ''lookup'', show_nat TABLE,
     ''priority'', show_nat RULE_PRIORITY]"

lemma up_steps_split:
  "\<exists>pre post. up_steps c a b = pre @ [mandatory unreachable_argv, mandatory rule_argv] @ post \<and>
     rule_argv \<notin> st_argv ` set pre \<and> rule_argv \<notin> st_argv ` set post"
proof -
  have "up_steps c a b =
      ([mandatory [''ip'', ''link'', ''add'', IFACE, ''type'', ''wireguard''], mandatory [''wg'', ''setconf'', IFACE, a]] @
       map (\<lambda>addr. mandatory [''ip'', ''-4'', ''address'', ''add'', addr, ''dev'', IFACE]) (wg_addresses_v4 c) @
       [mandatory [''ip'', ''link'', ''set'', ''mtu'', show_nat (case wg_mtu c of Some m \<Rightarrow> m | None \<Rightarrow> DEFAULT_MTU), ''up'', ''dev'', IFACE],
        mandatory [''ip'', ''-4'', ''route'', ''add'', ''default'', ''dev'', IFACE, ''table'', show_nat TABLE]]) @
      [mandatory unreachable_argv, mandatory rule_argv] @
      [optional [''ip'', ''-6'', ''route'', ''add'', ''unreachable'', ''default'', ''table'', show_nat TABLE],
       optional [''ip'', ''-6'', ''rule'', ''add'', ''fwmark'', ''0x'' @ show_hex MARK, ''lookup'', show_nat TABLE, ''priority'', show_nat RULE_PRIORITY],
       mandatory [''nft'', ''-f'', b]]"
    by (simp add: up_steps_def Let_def unreachable_argv_def rule_argv_def)
  then show ?thesis
    by (intro exI conjI, assumption) (auto simp: rule_argv_def mandatory_def optional_def)
qed

lemma rule_not_in_down: "rule_argv \<notin> set (map st_argv down_steps)"
  by (auto simp: rule_argv_def down_steps_def mandatory_def optional_def Let_def)

lemma ran_before_last:
  assumes "ran ss rs b" "Suc j < length rs"
  shows "step_ok (ss ! j) (rs ! j)"
proof (cases b)
  case True
  with assms(1) have "list_all2 step_ok ss rs" by (simp add: ran_def)
  then show ?thesis by (rule list_all2_nthD2) (use assms(2) in simp)
next
  case False
  with assms have r: "list_all2 step_ok (take (length rs - 1) ss) (butlast rs)" "j < length rs - 1" by (auto simp: ran_def)
  from list_all2_nthD2 [OF r(1), of j] r(2) show ?thesis by (simp add: nth_butlast)
qed

lemma rule_in_steps:
  assumes "up_steps c a b = ups" "ran ups rs good" "j < length rs" "st_argv (ups ! j) = rule_argv"
  shows "0 < j \<and> st_argv (ups ! (j - 1)) = unreachable_argv \<and> (\<exists>err. rs ! (j - 1) = Exited True err)"
proof -
  obtain pre post where ups: "ups = pre @ [mandatory unreachable_argv, mandatory rule_argv] @ post"
    "rule_argv \<notin> st_argv ` set pre" "rule_argv \<notin> st_argv ` set post"
    using up_steps_split [of c a b] assms(1) by auto
  have len: "j < length ups" using assms(2,3) by (simp add: ran_def split: if_splits)
  have ne: "unreachable_argv \<noteq> rule_argv" by (simp add: unreachable_argv_def rule_argv_def)
  have j: "j = Suc (length pre)"
  proof (rule ccontr)
    assume "j \<noteq> Suc (length pre)"
    then consider "j < length pre" | "j = length pre" | "length pre + 2 \<le> j" by linarith
    then show False
    proof cases
      case 1
      then have "ups ! j = pre ! j" "pre ! j \<in> set pre" by (simp_all add: ups(1) nth_append)
      then show ?thesis using assms(4) ups(2) by (metis imageI)
    next
      case 2
      then show ?thesis using assms(4) ne by (simp add: ups(1) mandatory_def)
    next
      case 3
      define m where "m = j - (length pre + 2)"
      then have "j = length pre + 2 + m" "m < length post" using 3 len by (auto simp: ups(1))
      then have "ups ! j = post ! m" "post ! m \<in> set post" by (simp_all add: ups(1) nth_append)
      then show ?thesis using assms(4) ups(3) by (metis imageI)
    qed
  qed
  then have "ups ! (j - 1) = mandatory unreachable_argv" by (simp add: ups(1))
  moreover have "step_ok (ups ! (j - 1)) (rs ! (j - 1))"
    using ran_before_last [OF assms(2), of "j - 1"] assms(3) j by simp
  ultimately show ?thesis using j by (auto simp: step_ok_def mandatory_def split: exit.splits)
qed

section \<open>The files of a bring-up\<close>

abbreviation setconf_file :: "path \<Rightarrow> path" where "setconf_file dir \<equiv> dir @ [''wg-setconf.conf'']"
abbreviation nft_file :: "path \<Rightarrow> path" where "nft_file dir \<equiv> dir @ [''tunnel.nft'']"

definition up_ready :: "path \<Rightarrow> files \<Rightarrow> bool" where
  "up_ready dir t \<longleftrightarrow> (\<forall>k. t (take k dir) \<in> {None, Some Dir}) \<and> t (setconf_file dir) = None \<and> plain_node (t (nft_file dir))"

text \<open>The text \<open>wg\<close> is given, when the endpoint resolves.\<close>

definition written :: "(string \<Rightarrow> socket_addr list option) \<Rightarrow> wg_config \<Rightarrow> string option" where
  "written lookup c = (case wg_endpoint c of None \<Rightarrow> Some (wg_setconf c)
     | Some ep \<Rightarrow> map_option (with_endpoint (wg_setconf c)) (resolve_endpoint_v4 lookup ep))"

lemma up_files_start:
  assumes "up_ready dir (w_fs w)" "written lookup c = Some body"
    "w_faults w = [] \<or> w_faults w = None # None # None # fs"
  shows "\<exists>w1. up_files lookup c uid dir w = write_private (nft_file dir) (nft_ruleset uid) w1 \<and>
    w_fs w1 = (make_dirs dir (w_fs w))(setconf_file dir \<mapsto> File body 384) \<and>
    w_faults w1 = (if w_faults w = [] then [] else fs)"
proof -
  let ?d = "make_dirs dir (w_fs w)" and ?p = "setconf_file dir"
  have r: "\<forall>k. w_fs w (take k dir) \<in> {None, Some Dir}" "w_fs w ?p = None"
    using assms(1) by (simp_all add: up_ready_def)
  have np: "\<not> prefix ?p dir" by (auto dest: prefix_length_le)
  have d: "?d ?p = None" "stat ?d dir = Some Dir"
    using r(2) np make_dirs_dir [OF r(1)] by (simp add: make_dirs_def, subst stat_self) (simp_all add: is_link_def)
  define w1 where "w1 = put ?d (w\<lparr>w_faults := tl (w_faults w)\<rparr>)"
  define w2 where "w2 = put (?d(?p \<mapsto> File [] 384)) (w1\<lparr>w_faults := tl (w_faults w1)\<rparr>)"
  define w3 where "w3 = put (?d(?p \<mapsto> File body 384)) (w2\<lparr>w_faults := tl (w_faults w2)\<rparr>)"
  have n: "next_fault w = None" "next_fault w1 = None" "next_fault w2 = None"
    using assms(3) by (auto simp: next_fault_def w1_def w2_def)
  have 1: "create_dir_all dir w = (Inr (), w1)"
    unfolding w1_def using n(1) r(1) by (rule create_dirs_step)
  have 2: "file_open 384 ?p w1 = (Inr ?p, w2)"
    using file_open_step [OF n(2), of ?p 384] d by (simp add: w1_def w2_def)
  have 3: "file_write_all ?p body w2 = (Inr (), w3)"
    using file_write_step [OF n(3), of ?p "[]" 384 body] by (simp add: w2_def w3_def)
  have body: "(case wg_endpoint c of
        Some ep \<Rightarrow> (case resolve_endpoint_v4 lookup ep of
            Some v4 \<Rightarrow> return_io (with_endpoint (wg_setconf c) v4)
          | None \<Rightarrow> fail_io (InvalidConfig (''could not resolve an IPv4 address for endpoint '' @ ep)))
      | None \<Rightarrow> return_io (wg_setconf c)) = return_io body"
    using assms(2) by (auto simp: written_def split: option.splits)
  have "up_files lookup c uid dir w = write_private (nft_file dir) (nft_ruleset uid) w3"
    unfolding up_files_def body
    by (simp add: bind_io_def map_err_def return_io_def 1 write_private_def [of ?p] 2 3 split: prod.split)
  moreover have "w_fs w3 = ?d(?p \<mapsto> File body 384)" "w_faults w3 = (if w_faults w = [] then [] else fs)"
    using assms(3) by (auto simp: w3_def w2_def w1_def)
  ultimately show ?thesis by blast
qed

lemma nft_file_neq [simp]: "nft_file dir \<noteq> setconf_file dir" "setconf_file dir \<noteq> nft_file dir"
  by simp_all

lemma write_nft:
  assumes "up_ready dir t" "w_fs w = (make_dirs dir t)(setconf_file dir \<mapsto> x)"
  shows "w_faults w = [] \<Longrightarrow> \<exists>w'. write_private (nft_file dir) b w = (Inr (), w') \<and>
      w_faults w' = [] \<and> w_fs w' (setconf_file dir) = Some x"
    and "w_faults w = [Some (Fault e n)] \<Longrightarrow> \<exists>w'. write_private (nft_file dir) b w =
      (Inl (Tunnel_Read (display (nft_file dir)) e), w') \<and> w_fs w' (setconf_file dir) = Some x"
proof -
  let ?q = "nft_file dir"
  have r: "\<forall>k. t (take k dir) \<in> {None, Some Dir}" "plain_node (t ?q)" using assms(1) by (simp_all add: up_ready_def)
  have "\<not> prefix ?q dir" by (auto dest: prefix_length_le)
  then have q: "plain_node (w_fs w ?q)" using r(2) by (simp add: assms(2) make_dirs_def)
  have "w_fs w dir = Some Dir" using make_dirs_dir [OF r(1)] by (simp add: assms(2))
  then have d: "stat (w_fs w) (butlast ?q) = Some Dir" by (subst stat_self) (simp_all add: is_link_def)
  show "\<exists>w'. write_private ?q b w = (Inr (), w') \<and> w_faults w' = [] \<and> w_fs w' (setconf_file dir) = Some x"
    if "w_faults w = []"
  proof -
    have n: "next_fault w = None" using that by (simp add: next_fault_def)
    note o = file_open_step [OF n q d, of 384]
    show ?thesis
      unfolding write_private_def bind_io_def map_err_def o
      by (simp add: assms(2) that next_fault_def file_write_step)
  qed
  show "\<exists>w'. write_private ?q b w = (Inl (Tunnel_Read (display ?q) e), w') \<and> w_fs w' (setconf_file dir) = Some x"
    if "w_faults w = [Some (Fault e n)]"
    unfolding write_private_def bind_io_def map_err_def file_open_def
    by (subst sys_fault [of w e n]) (simp_all add: that next_fault_def assms(2))
qed

section \<open>Properties\<close>

text \<open>C22: What reaches \<open>wg setconf\<close>: every accepted configuration is reduced to section headers and the
  keys that section may have, so no address, DNS or hook line of the file survives; it has a
  private key and at least one peer, every peer has a public key, and every interface address
  is an IPv4 network.\<close>

theorem setconf_only_whitelisted:
  assumes "wg_parse_config t = Inr c"
  shows "let ls = str_lines (wg_setconf c) in
    well_sectioned [] ls \<and> list_ex (starts_with ''privatekey = '') ls \<and>
    peer_flags ls \<noteq> [] \<and> list_all (\<lambda>b. b) (peer_flags ls) \<and>
    wg_addresses_v4 c \<noteq> [] \<and> list_all is_ipv4_cidr (wg_addresses_v4 c)"
proof -
  obtain ls where "str_lines (wg_setconf c) = ls" "well_sectioned [] ls" "list_ex (starts_with ''privatekey = '') ls"
    "peer_flags ls \<noteq> []" "list_all (\<lambda>b. b) (peer_flags ls)" "wg_addresses_v4 c \<noteq> []"
    "list_all is_ipv4_cidr (wg_addresses_v4 c)"
    using assms by (rule parsed_lines)
  then show ?thesis by (simp only: Let_def) blast
qed

text \<open>C24: Pinning the endpoint replaces the endpoint of every peer, and nothing else: the file that is
  handed to \<open>wg\<close> keeps all other lines and its section structure, but peers that had different
  endpoints get the same one.\<close>

theorem with_endpoint_every_peer:
  assumes "wg_parse_config t = Inr c" "plain_line e"
  shows "let old = str_lines (wg_setconf c); new = str_lines (with_endpoint (wg_setconf c) e) in
    well_sectioned [] new \<and> peer_flags new = peer_flags old \<and>
    list_all2 (\<lambda>l l'. if starts_with ''endpoint = '' l then l' = ''endpoint = '' @ e else l' = l) old new"
proof -
  obtain ls where ls: "str_lines (wg_setconf c) = ls" "list_all plain_line ls" "ls \<noteq> []" "well_sectioned [] ls"
    using assms(1) by (rule parsed_lines)
  let ?f = "\<lambda>l. if starts_with ''endpoint'' (to_ascii_lowercase l) then ''endpoint = '' @ e else l"
  have we: "with_endpoint (wg_setconf c) e = unlines (map ?f ls)"
    using ls(1,3) by (simp only: with_endpoint_def) (rule str_join_nl, simp)
  have "plain_line (''endpoint = '' @ e)" using assms(2) by (cases e rule: rev_cases) (auto simp: plain_line_def)
  then have "plain_line (?f x)" if "plain_line x" for x
    using that by (cases "starts_with ''endpoint'' (to_ascii_lowercase x)") (simp_all only: if_True if_False)
  moreover have "\<forall>x \<in> set ls. plain_line x" using ls(2) by (simp add: list_all_iff)
  ultimately have "\<forall>l \<in> set (map ?f ls). plain_line l" unfolding set_map by fast
  then have "str_lines (with_endpoint (wg_setconf c) e) = map ?f ls" unfolding we by (rule str_lines_unlines)
  with endpoint_lines [OF ls(4), of e "[]"] ls(1) show ?thesis by (simp only: Let_def peer_flags_def)
qed

text \<open>In a log of teardown, setup and perhaps another teardown the marking rule is a command of the setup,
  so the one before it is the unreachable default.\<close>

lemma rule_position:
  fixes d e :: "exit list"
  assumes ups: "ups = up_steps c sc nft" and ran: "rs = [] \<or> ran ups rs done"
    and len: "length d = length down_steps" "length rs \<le> length ups"
    and log: "log = zip (map st_argv down_steps) d @ zip (map st_argv ups) rs @ E"
    and E: "set E \<subseteq> set (zip (map st_argv down_steps) e)"
    and i: "i < length log" "fst (log ! i) = rule_argv"
  shows "0 < i \<and> fst (log ! (i - 1)) = unreachable_argv \<and> (\<exists>err. snd (log ! (i - 1)) = Exited True err)"
proof -
  let ?n = "length down_steps" and ?z = "zip (map st_argv down_steps)"
  have down: "fst x \<noteq> rule_argv" if "x \<in> set (?z z)" for x z
    using that rule_not_in_down by (metis in_set_zipE prod.collapse)
  have left: "?n \<le> i"
  proof (rule ccontr)
    assume "\<not> ?n \<le> i"
    then have "log ! i = ?z d ! i" "i < length (?z d)" using len(1) by (simp_all add: log nth_append)
    then have "log ! i \<in> set (?z d)" by (metis nth_mem)
    with down i(2) show False by metis
  qed
  have right: "i < ?n + length rs"
  proof (rule ccontr)
    assume n: "\<not> i < ?n + length rs"
    then have "\<not> i - ?n < length rs" "\<not> i < ?n" by linarith+
    with i(1) len have "log ! i = E ! (i - ?n - length rs)" "i - ?n - length rs < length E"
      by (auto simp: log nth_append)
    then have "log ! i \<in> set E" by (metis nth_mem)
    with E down i(2) show False by (metis subsetD)
  qed
  from left right obtain j where j: "i = ?n + j" "j < length rs" using le_Suc_ex by fastforce
  have at: "log ! (?n + m) = (st_argv (ups ! m), rs ! m)" if "m < length rs" for m
    using that len by (simp add: log nth_append)
  from ran j(2) have "ran ups rs done" by auto
  from rule_in_steps [OF ups [symmetric] this j(2)] at [OF j(2)] i(2) j(1)
  have "0 < j" "st_argv (ups ! (j - 1)) = unreachable_argv" "\<exists>err. rs ! (j - 1) = Exited True err" by simp_all
  moreover from this(1) have "i - 1 = ?n + (j - 1)" using j(1) by simp
  ultimately show ?thesis using at [of "j - 1"] j by simp
qed

text \<open>C23: A bring-up fails closed and is all or nothing: the rule that sends marked packets to the tunnel
  table is only ever installed right after the unreachable default route of that table went in;
  a failed bring-up ends with the whole teardown; a successful one ran the teardown and then
  every step, each mandatory one successfully. For every behaviour of the programs it runs.\<close>

theorem up_fails_closed:
  assumes "up (logged exec) lookup c uid dir (w, (k, [])) = (res, w', (k', log))"
  shows "(\<forall>i < length log. fst (log ! i) = rule_argv \<longrightarrow>
      0 < i \<and> fst (log ! (i - 1)) = unreachable_argv \<and> (\<exists>err. snd (log ! (i - 1)) = Exited True err)) \<and>
    (res \<noteq> Inr () \<longrightarrow> suffix (map st_argv down_steps) (map fst log)) \<and>
    (res = Inr () \<longrightarrow>
      (let ups = up_steps c (display (dir @ [''wg-setconf.conf''])) (display (dir @ [''tunnel.nft''])) in
       map fst log = map st_argv (down_steps @ ups) \<and>
       list_all2 step_ok ups (map snd (drop (length down_steps) log))))"
proof -
  define ups where "ups = up_steps c (display (dir @ [''wg-setconf.conf''])) (display (dir @ [''tunnel.nft'']))"
  let ?ds = "map st_argv down_steps"
  obtain d rs e where l: "length d = length down_steps" "length e = length down_steps"
    "log = zip ?ds d @ zip (map st_argv ups) rs @ (if res = Inr () \<or> rs = [] then [] else zip ?ds e)"
    "res \<noteq> Inr () \<and> rs = [] \<or> ran ups rs (res = Inr ())"
    using up_log [OF assms] unfolding ups_def by blast
  have len: "length rs \<le> length ups" using l(4) by (auto simp: ran_def)
  define E where "E = (if res = Inr () \<or> rs = [] then [] else zip ?ds e)"
  have log: "log = zip ?ds d @ zip (map st_argv ups) rs @ E" using l(3) by (simp add: E_def)
  have E: "set E \<subseteq> set (zip ?ds e)" by (simp add: E_def)
  have "rs = [] \<or> ran ups rs (res = Inr ())" using l(4) by blast
  note 1 = rule_position [OF ups_def this l(1) len log E]
  have 2: "suffix ?ds (map fst log)" if "res \<noteq> Inr ()"
    using that l(1,2) by (cases "rs = []") (auto simp: l(3) suffix_def)
  have 3: "map fst log = map st_argv (down_steps @ ups) \<and> list_all2 step_ok ups (map snd (drop (length down_steps) log))"
    if "res = Inr ()"
    using that l(1,4) by (auto simp: l(3) ran_def)
  from 1 2 3 show ?thesis unfolding ups_def Let_def by blast
qed

text \<open>C25: The copy of the private key: when every file call succeeds, \<open>up\<close> leaves no \<open>wg-setconf.conf\<close>
  behind, whatever the commands do; but when the rule file cannot be written \<open>up\<close> returns
  early and the copy, private key included, stays on disk.\<close>

theorem private_key_copy:
  assumes "up_ready dir (w_fs w)" "written lookup c = Some body"
  shows "(w_faults w = [] \<longrightarrow> w_fs (fst (snd (up exec lookup c uid dir (w, k)))) (setconf_file dir) = None) \<and>
    (w_faults w = [None, None, None, Some (Fault e n)] \<longrightarrow>
       fst (up exec lookup c uid dir (w, k)) = Inl (Tunnel_Read (display (nft_file dir)) e) \<and>
       w_fs (fst (snd (up exec lookup c uid dir (w, k)))) (setconf_file dir) = Some (File body 384))"
proof (intro conjI impI)
  assume q: "w_faults w = []"
  from up_files_start [OF assms, of "[]" uid] q obtain w1 where
    w1: "up_files lookup c uid dir w = write_private (nft_file dir) (nft_ruleset uid) w1"
      "w_fs w1 = (make_dirs dir (w_fs w))(setconf_file dir \<mapsto> File body 384)" "w_faults w1 = []" by auto
  from write_nft(1) [OF assms(1) w1(2,3)] w1(1) obtain w2 where
    w2: "up_files lookup c uid dir w = (Inr (), w2)" "w_faults w2 = []" "w_fs w2 (setconf_file dir) = Some (File body 384)"
    by metis
  have "w_fs (snd (remove_file (setconf_file dir) w2)) (setconf_file dir) = None"
    using w2(2,3) by (simp add: remove_file_def sys_def next_fault_def Let_def)
  then show "w_fs (fst (snd (up exec lookup c uid dir (w, k)))) (setconf_file dir) = None"
    by (simp add: up_def w2(1) Let_def split: prod.split sum.split)
next
  assume q: "w_faults w = [None, None, None, Some (Fault e n)]"
  from up_files_start [OF assms, of "[Some (Fault e n)]" uid] q obtain w1 where
    w1: "up_files lookup c uid dir w = write_private (nft_file dir) (nft_ruleset uid) w1"
      "w_fs w1 = (make_dirs dir (w_fs w))(setconf_file dir \<mapsto> File body 384)" "w_faults w1 = [Some (Fault e n)]" by auto
  from write_nft(2) [OF assms(1) w1(2,3)] w1(1) obtain w2 where
    "up_files lookup c uid dir w = (Inl (Tunnel_Read (display (nft_file dir)) e), w2)"
    "w_fs w2 (setconf_file dir) = Some (File body 384)" by metis
  then show "fst (up exec lookup c uid dir (w, k)) = Inl (Tunnel_Read (display (nft_file dir)) e)"
    "w_fs (fst (snd (up exec lookup c uid dir (w, k)))) (setconf_file dir) = Some (File body 384)"
    by (simp_all add: up_def Let_def)
qed

section \<open>Witnesses\<close>

definition sample_lines :: "string list" where
  "sample_lines =
     [''[Interface]'', ''PrivateKey = k # mine'', ''Address = 10.0.0.2/32, fd00::2/128'', ''PostUp = rm'', [],
      ''[Peer]'', ''PublicKey = p'', ''Endpoint = 1.2.3.4:5'', ''[Peer]'', ''PublicKey = q'', ''Endpoint = 6.7.8.9:5'']"

definition sample_setconf :: "string list" where
  "sample_setconf = [''[Interface]'', ''privatekey = k'', ''[Peer]'', ''publickey = p'', ''endpoint = 1.2.3.4:5'',
     ''[Peer]'', ''publickey = q'', ''endpoint = 6.7.8.9:5'']"

definition sample_config :: wg_config where
  "sample_config = \<lparr>wg_addresses_v4 = [''10.0.0.2/32''], wg_mtu = None, wg_setconf = unlines sample_setconf,
     wg_endpoint = Some ''1.2.3.4:5''\<rparr>"

lemma sample_cidr: "is_ipv4_cidr ''10.0.0.2/32''" "\<not> is_ipv4_cidr ''fd00::2/128''"
proof -
  have "parse_ipv4 ''10.0.0.2'' \<noteq> None" by (simp add: parse_ipv4_def ip_eval)
  then show "is_ipv4_cidr ''10.0.0.2/32''"
    by (simp add: is_ipv4_cidr_def parse_uint_def str_defs horner_def)
  show "\<not> is_ipv4_cidr ''fd00::2/128''" by (simp add: is_ipv4_cidr_def parse_uint_def str_defs horner_def)
qed

lemma sample_line:
  "parse_line ''[Interface]'' s = parse_header ''[Interface]'' s"
  "parse_line ''[Peer]'' s = parse_header ''[Peer]'' s"
  "parse_line [] s = Inr s"
  "ps_section s = ''interface'' \<Longrightarrow> parse_line ''PrivateKey = k # mine'' s = parse_interface_key ''privatekey'' ''k'' s"
  "ps_section s = ''interface'' \<Longrightarrow> parse_line ''Address = 10.0.0.2/32, fd00::2/128'' s =
     parse_interface_key ''address'' ''10.0.0.2/32, fd00::2/128'' s"
  "ps_section s = ''interface'' \<Longrightarrow> parse_line ''PostUp = rm'' s = parse_interface_key ''postup'' ''rm'' s"
  "ps_section s = ''peer'' \<Longrightarrow> parse_line ''PublicKey = p'' s = Inr (parse_peer_key ''publickey'' ''p'' s)"
  "ps_section s = ''peer'' \<Longrightarrow> parse_line ''PublicKey = q'' s = Inr (parse_peer_key ''publickey'' ''q'' s)"
  "ps_section s = ''peer'' \<Longrightarrow> parse_line ''Endpoint = 1.2.3.4:5'' s = Inr (parse_peer_key ''endpoint'' ''1.2.3.4:5'' s)"
  "ps_section s = ''peer'' \<Longrightarrow> parse_line ''Endpoint = 6.7.8.9:5'' s = Inr (parse_peer_key ''endpoint'' ''6.7.8.9:5'' s)"
  by (simp_all add: parse_line_def str_defs Let_def)

lemma sample_addresses:
  "filter is_ipv4_cidr (map trim (split_on (CHR '','') ''10.0.0.2/32, fd00::2/128'')) = [''10.0.0.2/32'']"
proof -
  have "map trim (split_on (CHR '','') ''10.0.0.2/32, fd00::2/128'') = [''10.0.0.2/32'', ''fd00::2/128'']"
    by (simp add: str_defs)
  with sample_cidr show ?thesis by simp
qed

lemma sample_parsed: "wg_parse_config (unlines sample_lines) = Inr sample_config"
proof -
  have "str_lines (unlines sample_lines) = sample_lines"
    by (rule str_lines_unlines) (simp add: sample_lines_def plain_line_def)
  moreover have "parse_loop sample_lines parse_start = Inr
      \<lparr>ps_section = ''peer'', ps_setconf = unlines sample_setconf, ps_addresses_v4 = [''10.0.0.2/32''], ps_mtu = None,
       ps_endpoint = Some ''1.2.3.4:5'', ps_has_private_key = True, ps_peers = 2, ps_peer_has_key = [True, True]\<rparr>"
    by (simp add: sample_lines_def sample_setconf_def sample_line parse_header_def parse_interface_key_def parse_peer_key_def
        parse_start_def INTERFACE_KEYS_def PEER_KEYS_def sample_addresses to_ascii_lowercase_def lower_char_def char_of_letters unlines_def Let_def)
  ultimately show ?thesis by (simp add: wg_parse_config_def sample_config_def)
qed

theorem setconf_only_whitelisted_witness:
  "well_sectioned [] (str_lines (unlines sample_setconf)) \<and> peer_flags (str_lines (unlines sample_setconf)) \<noteq> []"
  using setconf_only_whitelisted [OF sample_parsed]
  unfolding Let_def sample_config_def wg_config.select_convs by blast

lemma sample_setconf_lines: "str_lines (unlines sample_setconf) = sample_setconf"
  by (rule str_lines_unlines) (simp add: sample_setconf_def plain_line_def)

theorem with_endpoint_every_peer_witness:
  "str_lines (with_endpoint (unlines sample_setconf) ''1.2.3.4:5'') =
     [''[Interface]'', ''privatekey = k'', ''[Peer]'', ''publickey = p'', ''endpoint = 1.2.3.4:5'',
      ''[Peer]'', ''publickey = q'', ''endpoint = 1.2.3.4:5'']"
proof -
  have "plain_line ''1.2.3.4:5''" by (simp add: plain_line_def)
  from with_endpoint_every_peer [OF sample_parsed this]
  have "list_all2 (\<lambda>l l'. if starts_with ''endpoint = '' l then l' = ''endpoint = '' @ ''1.2.3.4:5'' else l' = l)
      sample_setconf (str_lines (with_endpoint (unlines sample_setconf) ''1.2.3.4:5''))"
    by (simp only: Let_def sample_config_def wg_config.select_convs sample_setconf_lines)
  then show ?thesis by (simp add: sample_setconf_def list_all2_Cons1 starts_with_def)
qed

text \<open>Programs that all succeed; the disk has the directory.\<close>

definition all_succeed :: "unit exec" where "all_succeed t argv k = (Exited True [], k)"

definition bare_disk :: files where "bare_disk = [[] \<mapsto> Dir, [''run''] \<mapsto> Dir]"

theorem up_fails_closed_witness:
  "\<exists>res w' log. up (logged all_succeed) (\<lambda>_. None) sample_config 1000 [''run'']
      (\<lparr>w_fs = bare_disk, w_faults = [], w_trace = []\<rparr>, ((), [])) = (res, w', ((), log)) \<and>
    (\<forall>i < length log. fst (log ! i) = rule_argv \<longrightarrow> fst (log ! (i - 1)) = unreachable_argv)"
proof -
  obtain res w' log where run: "up (logged all_succeed) (\<lambda>_. None) sample_config 1000 [''run'']
      (\<lparr>w_fs = bare_disk, w_faults = [], w_trace = []\<rparr>, ((), [])) = (res, w', ((), log))"
    by (cases "up (logged all_succeed) (\<lambda>_. None) sample_config 1000 [''run'']
      (\<lparr>w_fs = bare_disk, w_faults = [], w_trace = []\<rparr>, ((), []))") (metis prod.exhaust old.unit.exhaust)
  from up_fails_closed [OF this] run show ?thesis by blast
qed

lemma bare_ready: "up_ready [''run''] bare_disk"
proof -
  have "k = 0 \<or> (\<exists>j. k = Suc j)" for k by (cases k) auto
  then show ?thesis by (auto simp: up_ready_def bare_disk_def take_Cons')
qed

theorem private_key_copy_witness:
  "w_fs (fst (snd (up all_succeed (\<lambda>_. None) sample_config 1000 [''run'']
       (\<lparr>w_fs = bare_disk, w_faults = [None, None, None, Some (Fault Other_Kind 0)], w_trace = []\<rparr>, ()))))
     [''run'', ''wg-setconf.conf''] =
   Some (File (with_endpoint (unlines sample_setconf) ''1.2.3.4:5'') 384)"
proof -
  have "parse_socket_v4 ''1.2.3.4:5'' \<noteq> None"
    by (simp add: parse_socket_v4_def whole_def read_socket_v4_def read_port_def ip_eval)
  then have "written (\<lambda>_. None) sample_config = Some (with_endpoint (unlines sample_setconf) ''1.2.3.4:5'')"
    by (simp add: written_def sample_config_def resolve_endpoint_v4_def)
  from private_key_copy [OF _ this, of "[''run'']"
      "\<lparr>w_fs = bare_disk, w_faults = [None, None, None, Some (Fault Other_Kind 0)], w_trace = []\<rparr>"
      all_succeed 1000 "()" Other_Kind 0] bare_ready
  show ?thesis by simp
qed

end
