(* ===== verification/Filter_Route.thy ===== *)
theory Filter_Route
  imports Tunnel
begin

text \<open>
  \<open>crates/dns-helper/src/filter_route.rs\<close>: the nftables table that redirects the HTTPS of the
  tunnel slice into the filter proxy, and the commands that install and remove it.
\<close>

definition FILTER_NFT_TABLE :: string where "FILTER_NFT_TABLE = ''detour_filter''"

definition FILTER_BYPASS_V4 :: "string list" where
  "FILTER_BYPASS_V4 = [''127.0.0.0/8'', ''10.0.0.0/8'', ''172.16.0.0/12'', ''192.168.0.0/16'', ''169.254.0.0/16'']"

definition filter_nft_ruleset :: "nat \<Rightarrow> nat \<Rightarrow> string" where
  "filter_nft_ruleset uid port = (let (cgroup, level) = slice_cgroup uid; tab = [CHR 0x09]; quote = [CHR 0x22] in
     unlines
       [''table ip '' @ FILTER_NFT_TABLE @ '' {'',
        tab @ ''chain output {'',
        tab @ tab @ ''type nat hook output priority dstnat; policy accept;'',
        tab @ tab @ ''ip daddr { '' @ str_join '', '' FILTER_BYPASS_V4 @ '' } return'',
        tab @ tab @ ''meta l4proto tcp socket cgroupv2 level '' @ show_nat level @ '' '' @ quote @ cgroup @ quote @
          '' tcp dport 443 redirect to :'' @ show_nat port,
        tab @ ''}'',
        ''}''])"

definition filter_up_steps :: "string \<Rightarrow> step list" where
  "filter_up_steps nft_path = [mandatory [''nft'', ''-f'', nft_path]]"

definition filter_down_steps :: "step list" where
  "filter_down_steps = [optional [''nft'', ''delete'', ''table'', ''ip'', FILTER_NFT_TABLE]]"

definition filter_table_name :: string where "filter_table_name = FILTER_NFT_TABLE"

definition filter_slice :: string where "filter_slice = SLICE"

section \<open>The cgroup both rule sets match\<close>

text \<open>The level in the rules is the depth of the path: four components, whatever the user.\<close>

lemma slice_cgroup_level: "slice_cgroup uid =
  (''user.slice/user-'' @ show_nat uid @ ''.slice/user@'' @ show_nat uid @ ''.service/detourtunnel.slice'', 4)"
proof -
  have d: "CHR ''/'' \<notin> set (show_nat uid)" by (rule show_nat_no) (simp add: str_defs)
  have "split_on (CHR ''/'') (''user.slice'' @ CHR ''/'' # (''user-'' @ show_nat uid @ ''.slice'') @ CHR ''/'' #
      (''user@'' @ show_nat uid @ ''.service'') @ CHR ''/'' # ''detourtunnel.slice'') =
    [''user.slice'', ''user-'' @ show_nat uid @ ''.slice'', ''user@'' @ show_nat uid @ ''.service'', ''detourtunnel.slice'']"
    using d by (subst split_on_Cons_sep, simp, subst split_on_Cons_sep, simp, subst split_on_Cons_sep, simp)
      (simp add: split_on_none)
  then show ?thesis by (simp add: slice_cgroup_def SLICE_def Let_def)
qed

text \<open>The two tables are removed independently.\<close>

lemma tables_differ: "filter_table_name \<noteq> NFT_TABLE"
  by (simp add: filter_table_name_def FILTER_NFT_TABLE_def NFT_TABLE_def)

end
