(* ===== verification/Apps.thy ===== *)
theory Apps
  imports Tunnel "HOL-Library.Monad_Syntax"
begin

text \<open>
  \<open>crates/dns-helper/src/apps.rs\<close>: capturing applications into the tunnel slice. The cgroup and
  process file systems and the clock are the argument \<open>sysfs\<close> on a kernel state of any type.
  Process and user numbers, which the code only parses, prints and compares, are naturals
  below \<open>2 ^ 32\<close>; times are nanoseconds.
\<close>

unbundle bit_operations_syntax

section \<open>The code: launching\<close>

datatype pid_write = Moved | Gone | Move_Failed io_kind

record 'k sysfs =
  sf_list :: "path \<Rightarrow> 'k \<Rightarrow> string list option"
  sf_read :: "path \<Rightarrow> 'k \<Rightarrow> string option"
  sf_write_pid :: "path \<Rightarrow> nat \<Rightarrow> 'k \<Rightarrow> pid_write \<times> 'k"
  sf_now :: "'k \<Rightarrow> nat"
  sf_sleep :: "nat \<Rightarrow> 'k \<Rightarrow> 'k"

definition user_service_cgroup :: "nat \<Rightarrow> path" where
  "user_service_cgroup uid = [''sys'', ''fs'', ''cgroup'', ''user.slice'', ''user-'' @ show_nat uid @ ''.slice'',
     ''user@'' @ show_nat uid @ ''.service'']"

definition flatpak_app_id :: "string \<Rightarrow> string list \<Rightarrow> string option" where
  "flatpak_app_id command args =
     (if last (split_on (CHR ''/'') command) \<noteq> ''flatpak'' then None
      else find (\<lambda>a. \<not> starts_with ''-'' a) (drop 1 (dropWhile (\<lambda>a. a \<noteq> ''run'') args)))"

definition hold_unit :: "string \<Rightarrow> string" where
  "hold_unit app_name = ''detour-hold-'' @
     map (\<lambda>c. if is_ascii_alphanumeric c then lower_char c else CHR ''_'') app_name @ ''.scope''"

definition hold_cgroup :: "path \<Rightarrow> string \<Rightarrow> path" where
  "hold_cgroup base app_name = base @ [SLICE, hold_unit app_name]"

definition flatpak_scopes :: "'k sysfs \<Rightarrow> path \<Rightarrow> string \<Rightarrow> 'k \<Rightarrow> path list" where
  "flatpak_scopes sf base app_id k =
     map (\<lambda>n. base @ [''app.slice'', n])
       (filter (\<lambda>n. starts_with (''app-flatpak-'' @ app_id @ ''-'') n \<and> ends_with ''.scope'' n)
         (case sf_list sf (base @ [''app.slice'']) k of None \<Rightarrow> [] | Some ns \<Rightarrow> ns))"

definition procs :: "'k sysfs \<Rightarrow> path \<Rightarrow> 'k \<Rightarrow> nat list" where
  "procs sf cgroup k = List.map_filter (\<lambda>l. parse_u32 (trim l))
     (str_lines (case sf_read sf (cgroup @ [''cgroup.procs'']) k of None \<Rightarrow> [] | Some s \<Rightarrow> s))"

text \<open>The loop of \<open>migrate\<close> over the processes, with the number moved so far.\<close>

fun migrate_loop :: "'k sysfs \<Rightarrow> path \<Rightarrow> nat list \<Rightarrow> nat \<Rightarrow> 'k \<Rightarrow> (io_kind + nat) \<times> 'k" where
  "migrate_loop sf target [] moved k = (Inr moved, k)"
| "migrate_loop sf target (pid # pids) moved k =
     (case sf_write_pid sf target pid k of
        (Moved, k') \<Rightarrow> migrate_loop sf target pids (moved + 1) k'
      | (Gone, k') \<Rightarrow> migrate_loop sf target pids moved k'
      | (Move_Failed e, k') \<Rightarrow> (Inl e, k'))"

definition migrate :: "'k sysfs \<Rightarrow> path \<Rightarrow> path \<Rightarrow> 'k \<Rightarrow> (io_kind + nat) \<times> 'k" where
  "migrate sf src dst k = migrate_loop sf (dst @ [''cgroup.procs'']) (procs sf src k) 0 k"

text \<open>One sweep over the scopes, then the timed loop; \<open>None\<close> is a loop still running when the fuel is out.\<close>

fun sweep :: "'k sysfs \<Rightarrow> path \<Rightarrow> path list \<Rightarrow> nat \<Rightarrow> 'k \<Rightarrow> (io_kind + nat) \<times> 'k" where
  "sweep sf hold [] this_round k = (Inr this_round, k)"
| "sweep sf hold (scope # scopes) this_round k =
     (case migrate sf scope hold k of
        (Inl e, k') \<Rightarrow> (Inl e, k')
      | (Inr n, k') \<Rightarrow> sweep sf hold scopes (this_round + n) k')"

fun capture_loop :: "'k sysfs \<Rightarrow> path \<Rightarrow> string \<Rightarrow> path \<Rightarrow> nat \<Rightarrow> nat \<Rightarrow> nat \<Rightarrow> nat \<Rightarrow> nat \<Rightarrow> nat option \<Rightarrow> 'k \<Rightarrow>
    ((io_kind + nat) \<times> 'k) option" where
  "capture_loop sf base app_id hold timeout settle start 0 moved last_move k = None"
| "capture_loop sf base app_id hold timeout settle start (Suc fuel) moved last_move k =
     (if sf_now sf k - start < timeout then
        (case sweep sf hold (flatpak_scopes sf base app_id k) 0 k of
           (Inl e, k) \<Rightarrow> Some (Inl e, k)
         | (Inr this_round, k) \<Rightarrow>
             (let moved = moved + this_round;
                  last_move = (if 0 < this_round then Some (sf_now sf k) else last_move) in
              if (case last_move of Some t \<Rightarrow> settle \<le> sf_now sf k - t | None \<Rightarrow> False) then Some (Inr moved, k)
              else capture_loop sf base app_id hold timeout settle start fuel moved last_move (sf_sleep sf 5000000 k)))
      else Some (Inr moved, k))"

definition capture_flatpak :: "'k sysfs \<Rightarrow> nat \<Rightarrow> path \<Rightarrow> string \<Rightarrow> path \<Rightarrow> nat \<Rightarrow> nat \<Rightarrow> 'k \<Rightarrow>
    ((io_kind + nat) \<times> 'k) option" where
  "capture_flatpak sf fuel base app_id hold timeout settle k =
     capture_loop sf base app_id hold timeout settle (sf_now sf k) fuel 0 None k"

record presence =
  pr_inside :: bool
  pr_outside :: bool

definition comm :: "'k sysfs \<Rightarrow> nat \<Rightarrow> 'k \<Rightarrow> string option" where
  "comm sf pid k = map_option trim (sf_read sf [''proc'', show_nat pid, ''comm''] k)"

definition flatpak_presence :: "'k sysfs \<Rightarrow> path \<Rightarrow> string \<Rightarrow> string \<Rightarrow> 'k \<Rightarrow> presence" where
  "flatpak_presence sf base app_name app_id k =
     \<lparr>pr_inside = list_ex (\<lambda>pid. comm sf pid k \<noteq> Some ''sleep'') (procs sf (hold_cgroup base app_name) k),
      pr_outside = list_ex (\<lambda>s. procs sf s k \<noteq> []) (flatpak_scopes sf base app_id k)\<rparr>"

definition idle_holds :: "'k sysfs \<Rightarrow> path \<Rightarrow> 'k \<Rightarrow> string list" where
  "idle_holds sf base k =
     filter (\<lambda>name. starts_with ''detour-hold-'' name \<and>
         list_all (\<lambda>pid. comm sf pid k = Some ''sleep'') (procs sf (base @ [SLICE, name]) k))
       (case sf_list sf (base @ [SLICE]) k of None \<Rightarrow> [] | Some ns \<Rightarrow> ns)"

section \<open>The code: moving a running application\<close>

definition parse_ppid :: "string \<Rightarrow> nat option" where
  "parse_ppid st = do {
     (_, rest) \<leftarrow> rsplit_once (CHR '')'') st;
     case split_whitespace rest of
       _ # ppid # _ \<Rightarrow> parse_u32 ppid
     | _ \<Rightarrow> None
   }"

text \<open>The inner loop of \<open>descendants\<close>: the children of one process that are not listed yet.\<close>

definition add_children :: "(nat \<times> nat) list \<Rightarrow> nat \<Rightarrow> nat list \<Rightarrow> nat list" where
  "add_children table parent out =
     foldl (\<lambda>out (pid, ppid). if ppid = parent \<and> pid \<notin> set out then out @ [pid] else out) out table"

lemma add_children_extends:
  "\<exists>new. add_children table parent out = out @ new \<and> distinct new \<and> set new \<inter> set out = {} \<and>
     set (add_children table parent out) = set out \<union> {pid. (pid, parent) \<in> set table}"
proof (induction table rule: rev_induct)
  case (snoc x table)
  then obtain new where n: "add_children table parent out = out @ new" "distinct new" "set new \<inter> set out = {}"
    "set (add_children table parent out) = set out \<union> {pid. (pid, parent) \<in> set table}" by blast
  obtain pid ppid where x: "x = (pid, ppid)" by (cases x)
  have "add_children (table @ [x]) parent out =
      (if ppid = parent \<and> pid \<notin> set (out @ new) then out @ new @ [pid] else out @ new)"
    using n(1) by (simp add: add_children_def x)
  then show ?case
    using n by (cases "ppid = parent \<and> pid \<notin> set (out @ new)") (auto simp: x)
qed (simp add: add_children_def)

function descend :: "(nat \<times> nat) list \<Rightarrow> nat list \<Rightarrow> nat \<Rightarrow> nat list" where
  "descend table out i =
     (if i < length out then descend table (add_children table (out ! i) out) (Suc i) else out)"
  by pat_completeness auto

text \<open>Every round settles one listed process; processes join the list at most once.\<close>

termination
proof (relation "measure (\<lambda>(table, out, i). length out + card (fst ` set table - set out) - i)")
  fix table :: "(nat \<times> nat) list" and out :: "nat list" and i
  assume i: "i < length out"
  obtain new where n: "add_children table (out ! i) out = out @ new" "distinct new" "set new \<inter> set out = {}"
    "set (add_children table (out ! i) out) = set out \<union> {pid. (pid, out ! i) \<in> set table}"
    using add_children_extends by blast
  then have sub: "set new \<subseteq> fst ` set table - set out" by force
  have "card (fst ` set table - set (out @ new)) + length new = card (fst ` set table - set out)"
  proof -
    have "fst ` set table - set (out @ new) = (fst ` set table - set out) - set new" by auto
    moreover have "card ((fst ` set table - set out) - set new) = card (fst ` set table - set out) - card (set new)"
      using sub by (intro card_Diff_subset) auto
    moreover have "card (set new) \<le> card (fst ` set table - set out)" using sub by (intro card_mono) auto
    ultimately show ?thesis using n(2) by (simp add: distinct_card)
  qed
  with i n(1) show "((table, add_children table (out ! i) out, Suc i), (table, out, i))
      \<in> measure (\<lambda>(table, out, i). length out + card (fst ` set table - set out) - i)" by simp
qed simp

declare descend.simps [simp del]

definition descendants :: "nat list \<Rightarrow> (nat \<times> nat) list \<Rightarrow> nat list" where
  "descendants roots table = descend table roots 0"

definition process_table :: "'k sysfs \<Rightarrow> 'k \<Rightarrow> (nat \<times> nat) list" where
  "process_table sf k = List.map_filter (\<lambda>name. do {
       pid \<leftarrow> parse_u32 name;
       st \<leftarrow> sf_read sf [''proc'', name, ''stat''] k;
       ppid \<leftarrow> parse_ppid st;
       Some (pid, ppid)
     }) (case sf_list sf [''proc''] k of None \<Rightarrow> [] | Some ns \<Rightarrow> ns)"

definition first_some :: "('a \<Rightarrow> 'b option) \<Rightarrow> 'a list \<Rightarrow> 'b option" where
  "first_some f xs = (case List.map_filter f xs of [] \<Rightarrow> None | y # _ \<Rightarrow> Some y)"

definition process_uid :: "'k sysfs \<Rightarrow> nat \<Rightarrow> 'k \<Rightarrow> nat option" where
  "process_uid sf pid k = do {
     status \<leftarrow> sf_read sf [''proc'', show_nat pid, ''status''] k;
     rest \<leftarrow> first_some (strip_prefix ''Uid:'') (str_lines status);
     case split_whitespace rest of uid # _ \<Rightarrow> parse_u32 uid | [] \<Rightarrow> None
   }"

record socket_entry =
  se_proto :: string
  se_local :: socket_addr
  se_peer :: socket_addr
  se_pids :: "nat list"

definition parse_sockaddr :: "string \<Rightarrow> socket_addr option" where
  "parse_sockaddr s = do {
     (addr, port) \<leftarrow> rsplit_once (CHR '':'') s;
     ip \<leftarrow> parse_ip (hd (split_on (CHR ''%'') (trim_end_matches (CHR '']'') (trim_start_matches (CHR ''['') addr))));
     p \<leftarrow> parse_u16 port;
     Some (socket_new ip (of_nat p))
   }"

text \<open>\<open>str::split\<close> on a non-empty string pattern.\<close>

fun split_once_str :: "string \<Rightarrow> string \<Rightarrow> (string \<times> string) option" where
  "split_once_str p [] = None"
| "split_once_str p (c # s) =
     (case strip_prefix p (c # s) of
        Some r \<Rightarrow> Some ([], r)
      | None \<Rightarrow> map_option (\<lambda>(a, b). (c # a, b)) (split_once_str p s))"

lemma split_once_str_length: "split_once_str p s = Some (a, b) \<Longrightarrow> p \<noteq> [] \<Longrightarrow> length b < length s"
  by (induction s arbitrary: a) (auto simp: strip_prefix_Some less_SucI Cons_eq_append_conv split: option.splits)

function split_str :: "string \<Rightarrow> string \<Rightarrow> string list" where
  "split_str p s =
     (if p = [] then [s]
      else (case split_once_str p s of None \<Rightarrow> [s] | Some (a, b) \<Rightarrow> a # split_str p b))"
  by pat_completeness auto
termination
  by (relation "measure (\<lambda>(p, s). length s)") (auto dest: split_once_str_length)

declare split_str.simps [simp del]

definition parse_ss_line :: "string \<Rightarrow> socket_entry option" where
  "parse_ss_line line =
     (let cols = split_whitespace line in
      if length cols < 7 then None
      else if cols ! 0 \<noteq> ''tcp'' \<and> cols ! 0 \<noteq> ''udp'' then None
      else do {
        local \<leftarrow> parse_sockaddr (cols ! 4);
        peer \<leftarrow> parse_sockaddr (cols ! 5);
        Some \<lparr>se_proto = cols ! 0, se_local = local, se_peer = peer,
              se_pids = List.map_filter (\<lambda>p. parse_u32 (takeWhile is_ascii_digit p))
                (drop 1 (split_str ''pid='' (str_join '' '' (drop 6 cols))))\<rparr>
      })"

fun is_local_destination :: "ip_addr \<Rightarrow> bool" where
  "is_local_destination (V4 a b c d) =
     (ip_is_loopback (V4 a b c d) \<or> v4_is_private (V4 a b c d) \<or> v4_is_link_local (V4 a b c d) \<or>
      ip_is_unspecified (V4 a b c d) \<or> (a = 100 \<and> 64 \<le> b \<and> b < 128))"
| "is_local_destination (V6 a b c d e f g h) =
     (ip_is_loopback (V6 a b c d e f g h) \<or> ip_is_unspecified (V6 a b c d e f g h) \<or>
      a AND 0xfe00 = 0xfc00 \<or> a AND 0xffc0 = 0xfe80)"

definition ss_endpoint :: "socket_addr \<Rightarrow> string" where
  "ss_endpoint a =
     (if is_ipv4 (sa_ip a) then show_ip (sa_ip a) @ '':'' @ show_nat (unat (sa_port a))
      else ''['' @ show_ip (sa_ip a) @ '']:'' @ show_nat (unat (sa_port a)))"

definition ss_kill_filter :: "socket_entry \<Rightarrow> string" where
  "ss_kill_filter s = ''src '' @ ss_endpoint (se_local s) @ '' and dst '' @ ss_endpoint (se_peer s)"

section \<open>Descendants\<close>

abbreviation child_of :: "(nat \<times> nat) list \<Rightarrow> (nat \<times> nat) set" where
  "child_of table \<equiv> {(parent, pid). (pid, parent) \<in> set table}"

lemma add_children_set:
  "set (add_children table parent out) = set out \<union> {pid. (pid, parent) \<in> set table}"
  using add_children_extends by blast

lemma add_children_nth:
  "i < length out \<Longrightarrow> i < length (add_children table parent out) \<and> add_children table parent out ! i = out ! i"
  using add_children_extends [of table parent out] by (auto simp: nth_append)

lemma descend_sound: "set (descend table out i) \<subseteq> (child_of table)\<^sup>* `` set out"
proof (induction table out i rule: descend.induct)
  case (1 table out i)
  show ?case
  proof (cases "i < length out")
    case True
    have "set (add_children table (out ! i) out) \<subseteq> (child_of table)\<^sup>* `` set out"
      using True by (auto simp: add_children_set intro!: r_into_rtrancl nth_mem)
    then have "(child_of table)\<^sup>* `` set (add_children table (out ! i) out) \<subseteq> (child_of table)\<^sup>* `` set out"
      by (auto intro: rtrancl_trans)
    with 1 [OF True] True show ?thesis by (subst descend.simps) auto
  next
    case False
    then show ?thesis by (subst descend.simps) auto
  qed
qed

text \<open>The processes before position \<open>i\<close> have all their children listed.\<close>

lemma descend_complete:
  assumes "\<forall>j < i. j < length out \<longrightarrow> {pid. (pid, out ! j) \<in> set table} \<subseteq> set out"
  shows "set out \<subseteq> set (descend table out i) \<and>
    (\<forall>p \<in> set (descend table out i). {pid. (pid, p) \<in> set table} \<subseteq> set (descend table out i))"
  using assms
proof (induction table out i rule: descend.induct)
  case (1 table out i)
  show ?case
  proof (cases "i < length out")
    case True
    have "\<forall>j < Suc i. j < length (add_children table (out ! i) out) \<longrightarrow>
        {pid. (pid, add_children table (out ! i) out ! j) \<in> set table} \<subseteq> set (add_children table (out ! i) out)"
    proof (intro allI impI)
      fix j assume "j < Suc i" "j < length (add_children table (out ! i) out)"
      then have j: "j < length out" "j = i \<or> j < i" using True by auto
      then show "{pid. (pid, add_children table (out ! i) out ! j) \<in> set table} \<subseteq> set (add_children table (out ! i) out)"
        using add_children_nth [OF j(1), of table "out ! i"] 1(2) by (auto simp: add_children_set)
    qed
    from 1(1) [OF True this] True show ?thesis by (subst (1 2 3) descend.simps) (auto simp: add_children_set)
  next
    case False
    then have "descend table out i = out" by (subst descend.simps) simp
    moreover have "{pid. (pid, p) \<in> set table} \<subseteq> set out" if "p \<in> set out" for p
    proof -
      from that obtain j where "j < length out" "p = out ! j" by (metis in_set_conv_nth)
      with False 1(2) show ?thesis by simp
    qed
    ultimately show ?thesis by auto
  qed
qed

lemma descend_distinct: "distinct out \<Longrightarrow> distinct (descend table out i)"
proof (induction table out i rule: descend.induct)
  case (1 table out i)
  have "distinct (add_children table (out ! i) out)"
    using 1(2) add_children_extends [of table "out ! i" out] by auto
  with 1 show ?case by (subst descend.simps) auto
qed

section \<open>Properties\<close>



text \<open>The parent is found whatever the command name holds, closing parentheses and spaces included.\<close>

theorem parse_ppid_any_name:
  assumes "ppid < 2 ^ 32" "CHR '')'' \<notin> set rest" "\<not> is_ws st" "st \<noteq> CHR '')''"
  shows "parse_ppid (show_nat pid @ '' ('' @ name @ '') '' @ [st] @ '' '' @ show_nat ppid @ '' '' @ rest) = Some ppid"
proof -
  let ?tail = "'' '' @ [st] @ '' '' @ show_nat ppid @ '' '' @ rest"
  have "CHR '')'' \<notin> set (show_nat ppid)" by (rule show_nat_no) (simp add: str_defs)
  then have "rsplit_once (CHR '')'') ((show_nat pid @ '' ('' @ name) @ CHR '')'' # ?tail) =
      Some (show_nat pid @ '' ('' @ name, ?tail)"
    unfolding rsplit_once_Some using assms(2,4) by simp
  moreover have "split_whitespace ?tail = [st] # show_nat ppid # split_whitespace rest"
  proof -
    have ws: "is_ws (CHR '' '')" by (simp add: is_ws_def)
    have 1: "split_whitespace ([st] @ CHR '' '' # (show_nat ppid @ CHR '' '' # rest)) =
        [st] # split_whitespace (show_nat ppid @ CHR '' '' # rest)"
      using assms(3) ws by (intro split_whitespace_word) simp_all
    have "split_whitespace (show_nat ppid @ CHR '' '' # rest) = show_nat ppid # split_whitespace rest"
      using show_nat_set digit_not_ws ws by (intro split_whitespace_word) auto
    with 1 ws show ?thesis by simp
  qed
  moreover have "parse_u32 (show_nat ppid) = Some ppid" using assms(1) by (simp add: parse_uint_show_nat)
  ultimately show ?thesis by (simp add: parse_ppid_def)
qed

theorem parse_ppid_any_name_witness:
  "parse_ppid (show_nat 9 @ '' ('' @ ''a (b) c'' @ '') '' @ [CHR ''R''] @ '' '' @ show_nat 7 @ '' '' @ ''9 9'') = Some 7"
  by (rule parse_ppid_any_name) (simp_all add: is_ws_def)

section \<open>The capture loop ends\<close>

text \<open>Sleeping takes at least the time asked for and no write turns the clock back.\<close>

definition clock_ok :: "'k sysfs \<Rightarrow> bool" where
  "clock_ok sf \<longleftrightarrow> (\<forall>d k. sf_now sf k + d \<le> sf_now sf (sf_sleep sf d k)) \<and>
     (\<forall>p n k. sf_now sf k \<le> sf_now sf (snd (sf_write_pid sf p n k)))"

lemma migrate_clock:
  assumes "clock_ok sf"
  shows "sf_now sf k \<le> sf_now sf (snd (migrate sf src dst k))"
proof -
  have "sf_now sf k \<le> sf_now sf (snd (migrate_loop sf target pids moved k))" for target pids moved
  proof (induction pids arbitrary: moved k)
    case (Cons pid pids)
    have "sf_now sf k \<le> sf_now sf (snd (sf_write_pid sf target pid k))" using assms by (simp add: clock_ok_def)
    with Cons.IH show ?case by (auto split: prod.splits pid_write.splits intro: le_trans)
  qed simp
  then show ?thesis by (simp add: migrate_def)
qed

lemma sweep_clock: "clock_ok sf \<Longrightarrow> sf_now sf k \<le> sf_now sf (snd (sweep sf hold scopes n k))"
proof (induction scopes arbitrary: n k)
  case (Cons s scopes)
  have "sf_now sf k \<le> sf_now sf (snd (migrate sf s hold k))" using Cons.prems by (rule migrate_clock)
  with Cons show ?case by (auto split: prod.splits sum.splits intro: le_trans)
qed simp

lemma capture_loop_returns:
  assumes "clock_ok sf" "start \<le> sf_now sf k" "timeout \<le> (sf_now sf k - start) + 5000000 * fuel"
  shows "capture_loop sf base app_id hold timeout settle start (Suc fuel) moved last_move k \<noteq> None"
  using assms(2,3)
proof (induction fuel arbitrary: moved last_move k)
  case 0
  then show ?case by simp
next
  case (Suc fuel)
  obtain r k1 where sw: "sweep sf hold (flatpak_scopes sf base app_id k) 0 k = (r, k1)"
    by (cases "sweep sf hold (flatpak_scopes sf base app_id k) 0 k")
  have "sf_now sf k \<le> sf_now sf k1"
    using sweep_clock [OF assms(1), of k hold "flatpak_scopes sf base app_id k" 0] sw by simp
  moreover have "sf_now sf k1 + 5000000 \<le> sf_now sf (sf_sleep sf 5000000 k1)"
    using assms(1) by (simp add: clock_ok_def)
  ultimately have "start \<le> sf_now sf (sf_sleep sf 5000000 k1)"
    "timeout \<le> (sf_now sf (sf_sleep sf 5000000 k1) - start) + 5000000 * fuel"
    using Suc.prems mult_Suc_right [of "5000000 :: nat" fuel] by linarith+
  note ih = Suc.IH [OF this]
  show ?case
    unfolding capture_loop.simps(2) [of _ _ _ _ _ _ _ "Suc fuel"] sw
    using ih by (auto simp: Let_def simp del: capture_loop.simps split: sum.splits)
qed

text \<open>C28: The capture of a Flatpak application always returns, after at most one round per five
  milliseconds of its time limit and one more, whatever the processes do; the clock only has
  to advance by what is slept.\<close>

theorem capture_returns:
  assumes "clock_ok sf" "timeout \<le> 5000000 * rounds"
  shows "\<exists>res k'. capture_flatpak sf (Suc rounds) base app_id hold timeout settle k = Some (res, k')"
  using capture_loop_returns [OF assms(1) order_refl, of timeout k rounds base app_id hold settle 0 None] assms(2)
  by (auto simp: capture_flatpak_def)

text \<open>A machine with one scope that never runs dry: every sweep finds process 7 again.\<close>

definition busy_sysfs :: "nat sysfs" where
  "busy_sysfs = \<lparr>sf_list = (\<lambda>p k. Some [''app-flatpak-x-1.scope'']), sf_read = (\<lambda>p k. Some ''7''),
     sf_write_pid = (\<lambda>p n k. (Moved, k)), sf_now = (\<lambda>k. k), sf_sleep = (\<lambda>d k. k + d)\<rparr>"

theorem capture_returns_witness:
  "\<exists>res k'. capture_flatpak busy_sysfs (Suc 3) [] ''x'' [''h''] 15000000 1000000000 42 = Some (res, k')"
  by (rule capture_returns) (simp_all add: clock_ok_def busy_sysfs_def)

end
