(* ===== verification/Upstream.thy ===== *)
theory Upstream
  imports Net_Addr Fallback Dns_Message
begin

text \<open>
  \<open>crates/dns-helper/src/upstream.rs\<close>: plain-DNS forwarding to the system's own resolvers. UDP
  sockets are an argument, one function per socket call; \<open>None\<close> from \<open>ud_recv\<close> is the
  three-second timeout.
\<close>

section \<open>The code\<close>

definition UPSTREAM_TIMEOUT :: nat where "UPSTREAM_TIMEOUT = secs 3"
definition MAX_UDP_RESPONSE :: nat where "MAX_UDP_RESPONSE = 4096"

datatype upstream_error = NoUpstreams | AllFailed nat | Io string

definition show_upstream_error :: "upstream_error \<Rightarrow> string" where
  "show_upstream_error e =
     (case e of
        NoUpstreams \<Rightarrow> ''no system upstream resolvers are configured''
      | AllFailed n \<Rightarrow> ''all '' @ show_nat n @ '' upstream resolver(s) failed or timed out''
      | Io e \<Rightarrow> ''socket error: '' @ e)"

record forwarder =
  servers :: "socket_addr list"

definition forwarder_new :: "socket_addr list \<Rightarrow> forwarder" where
  "forwarder_new ss = \<lparr>servers = ss\<rparr>"

definition forwarder_is_empty :: "forwarder \<Rightarrow> bool" where
  "forwarder_is_empty f \<longleftrightarrow> servers f = []"

record udp =
  ud_bind :: "socket_addr \<Rightarrow> string + unit"
  ud_connect :: "socket_addr \<Rightarrow> string + unit"
  ud_send :: "socket_addr \<Rightarrow> bytes \<Rightarrow> string + unit"
  ud_recv :: "socket_addr \<Rightarrow> bytes \<Rightarrow> nat \<Rightarrow> (string + bytes) option"

definition is_ipv4 :: "socket_addr \<Rightarrow> bool" where
  "is_ipv4 a = (case sa_ip a of V4 _ _ _ _ \<Rightarrow> True | V6 _ _ _ _ _ _ _ _ \<Rightarrow> False)"

definition try_one :: "udp \<Rightarrow> bytes \<Rightarrow> socket_addr \<Rightarrow> upstream_error + bytes" where
  "try_one net query server =
     (let bind = (if is_ipv4 server then socket_new (V4 0 0 0 0) 0 else socket_new (V6 0 0 0 0 0 0 0 0) 0) in
      case ud_bind net bind of
        Inl e \<Rightarrow> Inl (Io e)
      | Inr _ \<Rightarrow>
          (case ud_connect net server of
             Inl e \<Rightarrow> Inl (Io e)
           | Inr _ \<Rightarrow>
               (case ud_send net server query of
                  Inl e \<Rightarrow> Inl (Io e)
                | Inr _ \<Rightarrow>
                    (case ud_recv net server query UPSTREAM_TIMEOUT of
                       None \<Rightarrow> Inl (Io (''no reply from '' @ show_socket server @ '' within 3s''))
                     | Some (Inl e) \<Rightarrow> Inl (Io e)
                     | Some (Inr datagram) \<Rightarrow> Inr (take MAX_UDP_RESPONSE datagram)))))"

fun forward_loop :: "udp \<Rightarrow> bytes \<Rightarrow> socket_addr list \<Rightarrow> bytes option" where
  "forward_loop net query [] = None"
| "forward_loop net query (server # rest) =
     (case try_one net query server of
        Inr response \<Rightarrow> Some response
      | Inl err \<Rightarrow> forward_loop net query rest)"

definition forward :: "udp \<Rightarrow> forwarder \<Rightarrow> bytes \<Rightarrow> upstream_error + bytes" where
  "forward net f query =
     (if servers f = [] then Inl NoUpstreams
      else (case forward_loop net query (servers f) of
              Some response \<Rightarrow> Inr response
            | None \<Rightarrow> Inl (AllFailed (length (servers f)))))"

section \<open>The server chain\<close>

interpretation udp_chain: fallback_chain "try_one net query" "forward_loop net query"
  for net query
  by standard simp_all

text \<open>Forwarding answers with the reply of the first server that replies, every server before it
  having failed or timed out; it fails exactly when there is no server or all failed, and says
  which; and a reply is never longer than 4096 bytes.\<close>

theorem forward_first_reply:
  "(forward net f query = Inr b \<longleftrightarrow>
      (\<exists>xs s ys. servers f = xs @ s # ys \<and> (\<forall>x \<in> set xs. \<exists>e. try_one net query x = Inl e) \<and>
         try_one net query s = Inr b)) \<and>
   (forward net f query = Inl e \<longleftrightarrow>
      (\<forall>s \<in> set (servers f). \<exists>e'. try_one net query s = Inl e') \<and>
      e = (if servers f = [] then NoUpstreams else AllFailed (length (servers f)))) \<and>
   (forward net f query = Inr b \<longrightarrow> length b \<le> 4096)"
proof (intro conjI impI)
  show some: "forward net f query = Inr b \<longleftrightarrow>
      (\<exists>xs s ys. servers f = xs @ s # ys \<and> (\<forall>x \<in> set xs. \<exists>e. try_one net query x = Inl e) \<and>
         try_one net query s = Inr b)"
    unfolding udp_chain.run_Some [symmetric] by (auto simp: forward_def split: option.splits)
  show "forward net f query = Inl e \<longleftrightarrow>
      (\<forall>s \<in> set (servers f). \<exists>e'. try_one net query s = Inl e') \<and>
      e = (if servers f = [] then NoUpstreams else AllFailed (length (servers f)))"
    unfolding udp_chain.run_None [symmetric] by (auto simp: forward_def split: option.splits)
  assume "forward net f query = Inr b"
  with some obtain s where "try_one net query s = Inr b" by blast
  then show "length b \<le> 4096"
    by (auto simp: try_one_def MAX_UDP_RESPONSE_def Let_def split: sum.splits option.splits)
qed

text \<open>Its last part has a hypothesis: a server that replies.\<close>

theorem forward_first_reply_witness:
  "length [1, 2, 3 :: u8] \<le> 4096"
proof -
  let ?net = "\<lparr>ud_bind = \<lambda>_. Inr (), ud_connect = \<lambda>_. Inr (), ud_send = \<lambda>_ _. Inr (),
    ud_recv = \<lambda>s _ _. if s = socket_new (V4 10 0 0 1) 53 then Some (Inr [1, 2, 3]) else None\<rparr>"
  let ?f = "forwarder_new [socket_new (V4 9 9 9 9) 53, socket_new (V4 10 0 0 1) 53]"
  have "forward ?net ?f [0, 0] = Inr [1, 2, 3]"
    by (simp add: forward_def forwarder_new_def try_one_def is_ipv4_def socket_new_def MAX_UDP_RESPONSE_def)
  with forward_first_reply [of ?net ?f "[0, 0]" "[1, 2, 3]"] show ?thesis by blast
qed

end
