(* ===== verification/Dpi.thy ===== *)
theory Dpi
  imports Prelude "HOL-Library.Monad_Syntax"
begin

text \<open>
  \<open>crates/dns-helper/src/dpi.rs\<close>: splitting a TLS ClientHello in the middle of its server name.
  Offsets are \<open>usize\<close> values bounded by the length of the buffer plus a few 16-bit lengths, so
  they are natural numbers here; the 16-bit lengths written to the wire are words.
\<close>

unbundle bit_operations_syntax

section \<open>The code\<close>

definition TLS_HEADER :: nat where "TLS_HEADER = 5"
definition CONTENT_HANDSHAKE :: u8 where "CONTENT_HANDSHAKE = 0x16"
definition HANDSHAKE_CLIENT_HELLO :: u8 where "HANDSHAKE_CLIENT_HELLO = 0x01"
definition EXT_SNI :: u16 where "EXT_SNI = 0x0000"

definition get :: "'a list \<Rightarrow> nat \<Rightarrow> 'a option" where
  "get xs i = (if i < length xs then Some (xs ! i) else None)"

definition u16be :: "bytes \<Rightarrow> nat \<Rightarrow> nat option" where
  "u16be b i = do { hi \<leftarrow> get b i; lo \<leftarrow> get b (i + 1); Some (push_bit 8 (unat hi) OR unat lo) }"

definition to_be_bytes :: "u16 \<Rightarrow> bytes" where
  "to_be_bytes n = [ucast (drop_bit 8 n), ucast n]"

definition sni_name_offset :: "bytes \<Rightarrow> nat \<Rightarrow> nat option" where
  "sni_name_offset p edata_start = do {
     name_type \<leftarrow> get p (edata_start + 2);
     if name_type \<noteq> 0 then None
     else do {
       name_len \<leftarrow> u16be p (edata_start + 3);
       let name_start = edata_start + 5 in
       if name_len < 2 \<or> length p < name_start + name_len then None
       else Some (name_start + name_len div 2)
     }
   }"

function sni_loop :: "bytes \<Rightarrow> nat \<Rightarrow> nat option" where
  "sni_loop p i =
     (if i + 4 \<le> length p then do {
        etype \<leftarrow> u16be p i;
        elen \<leftarrow> u16be p (i + 2);
        let edata_start = i + 4 in
        if (of_nat etype :: u16) = EXT_SNI then sni_name_offset p edata_start
        else sni_loop p (edata_start + elen)
      } else None)"
  by pat_completeness auto

termination by (relation "measure (\<lambda>(p, i). length p - i)") auto

declare sni_loop.simps [simp del]

definition sni_split_offset :: "bytes \<Rightarrow> nat option" where
  "sni_split_offset p = do {
     ty \<leftarrow> get p 0;
     if ty \<noteq> HANDSHAKE_CLIENT_HELLO then None
     else do {
       let i = 1 + 3 + 2 + 32;
       sid_len \<leftarrow> get p i;
       let i = i + (1 + unat sid_len);
       cipher_len \<leftarrow> u16be p i;
       let i = i + (2 + cipher_len);
       comp_len \<leftarrow> map_option unat (get p i);
       let i = i + (1 + comp_len);
       ext_total \<leftarrow> u16be p i;
       let i = i + 2;
       sni_loop p i
     }
   }"

definition tls_record :: "u8 \<Rightarrow> u8 \<Rightarrow> bytes \<Rightarrow> bytes" where
  "tls_record v1 v2 part =
     CONTENT_HANDSHAKE # v1 # v2 # to_be_bytes (of_nat (length part)) @ part"

definition fragment_client_hello :: "bytes \<Rightarrow> bytes" where
  "fragment_client_hello data =
     (if length data \<le> TLS_HEADER \<or> data ! 0 \<noteq> CONTENT_HANDSHAKE then data
      else (case u16be data 3 of
              None \<Rightarrow> data
            | Some rec_len \<Rightarrow>
                if TLS_HEADER + rec_len \<noteq> length data then data
                else (let v1 = data ! 1; v2 = data ! 2; payload = drop TLS_HEADER data;
                          split = (\<lambda>cut. tls_record v1 v2 (take cut payload) @ tls_record v1 v2 (drop cut payload));
                          fixed = (if length payload < 2 then data else split (max (length payload div 2) 1)) in
                      case sni_split_offset payload of
                        Some c \<Rightarrow> if 0 < c \<and> c < length payload then split c else fixed
                      | None \<Rightarrow> fixed)))"

section \<open>Reading bytes\<close>

lemma get_Some: "get xs i = Some x \<longleftrightarrow> i < length xs \<and> xs ! i = x"
  by (auto simp: get_def)

lemma get_append_eq [simp]: "get (xs @ x # ys) (length xs) = Some x"
  by (simp add: get_def)

lemma or_bytes: "push_bit 8 (unat (hi :: u8)) OR unat (lo :: u8) = unat hi * 256 + unat lo"
proof -
  have lo: "take_bit 8 (unat lo) = unat lo" using unat_u8_less [of lo] by (simp add: take_bit_nat_eq_self)
  have "push_bit 8 (unat hi) AND take_bit 8 (unat lo) = 0"
    by (rule bit_eqI) (simp add: bit_simps)
  then have "push_bit 8 (unat hi) + unat lo = push_bit 8 (unat hi) OR unat lo"
    unfolding lo by (rule disjunctive_add_eq_or)
  then show ?thesis by (simp add: push_bit_eq_mult)
qed

lemma u16be_Some:
  "u16be b i = Some n \<longleftrightarrow> i + 1 < length b \<and> n = unat (b ! i) * 256 + unat (b ! (i + 1))"
  by (auto simp: u16be_def get_def or_bytes bind_eq_Some_conv)

lemma u16be_less: "u16be b i = Some n \<Longrightarrow> n < 65536"
  using unat_u8_less [of "b ! i"] unat_u8_less [of "b ! (i + 1)"] unfolding u16be_Some by linarith

lemma length_to_be_bytes [simp]: "length (to_be_bytes n) = 2"
  by (simp add: to_be_bytes_def)

lemma to_be_bytes_value:
  assumes "n < 65536"
  shows "unat (to_be_bytes (of_nat n) ! 0) * 256 + unat (to_be_bytes (of_nat n) ! 1) = n"
proof -
  have n: "unat (of_nat n :: u16) = n"
    using assms by (simp add: unsigned_of_nat take_bit_nat_eq_self)
  have "unat (to_be_bytes (of_nat n) ! 0) = n div 256 mod 256"
    by (simp add: to_be_bytes_def unsigned_ucast_eq drop_bit_eq_div unat_div n take_bit_eq_mod)
  moreover have "unat (to_be_bytes (of_nat n) ! 1) = n mod 256"
    by (simp add: to_be_bytes_def unsigned_ucast_eq n take_bit_eq_mod)
  ultimately show ?thesis using assms by (simp add: div_mult_mod_eq)
qed

text \<open>Reading the bytes that start at an offset moves the offset past them.\<close>

lemma drop_get: "drop i p = x # s \<Longrightarrow> get p i = Some x \<and> drop (i + 1) p = s"
  by (metis Suc_eq_plus1 drop_Suc drop_eq_Nil2 get_def leI list.distinct(1) list.inject list.sel(3)
      nth_via_drop tl_drop)

lemma drop_skip: "drop i p = xs @ s \<Longrightarrow> drop (i + length xs) p = s"
  by (metis add.commute append_eq_conv_conj drop_drop)

lemma drop_u16be:
  assumes "drop i p = to_be_bytes (of_nat n) @ s" "n < 65536" "j = i + 2"
  shows "u16be p i = Some n \<and> drop j p = s"
proof -
  have "length (drop i p) = 2 + length s" by (simp add: assms(1))
  then have len: "i + 1 < length p" by simp
  then have "p ! i = to_be_bytes (of_nat n) ! 0" "p ! (i + 1) = to_be_bytes (of_nat n) ! 1"
    using assms(1) nth_drop [of i p 0] nth_drop [of i p 1] by (simp_all add: nth_append)
  with len to_be_bytes_value [OF assms(2)] have "u16be p i = Some n" by (simp add: u16be_Some)
  with drop_skip [OF assms(1)] assms(3) show ?thesis by simp
qed

section \<open>ClientHello messages\<close>

text \<open>
  The layout of RFC 8446 section 4.1.2, as an encoder: any handshake header, version, random, session
  id, cipher suites and compression methods, any extensions before the server name, the server
  name, and whatever follows it.
\<close>

record client_hello =
  ch_length :: bytes
  ch_version :: bytes
  ch_random :: bytes
  ch_session :: bytes
  ch_ciphers :: bytes
  ch_compression :: bytes
  ch_ext_total :: nat
  ch_before :: "(nat \<times> bytes) list"
  ch_host :: bytes
  ch_after :: bytes

abbreviation be16 :: "nat \<Rightarrow> bytes" where
  "be16 n \<equiv> to_be_bytes (of_nat n)"

definition ext_bytes :: "nat \<times> bytes \<Rightarrow> bytes" where
  "ext_bytes e = be16 (fst e) @ be16 (length (snd e)) @ snd e"

definition sni_header :: "nat \<Rightarrow> bytes" where
  "sni_header n = be16 0 @ be16 (n + 5) @ be16 (n + 3) @ 0 # be16 n"

definition hello_fixed :: "client_hello \<Rightarrow> bytes" where
  "hello_fixed ch = ch_length ch @ ch_version ch @ ch_random ch"

definition hello_prefix :: "client_hello \<Rightarrow> bytes" where
  "hello_prefix ch = 1 # hello_fixed ch @
     of_nat (length (ch_session ch)) # ch_session ch @
     be16 (length (ch_ciphers ch)) @ ch_ciphers ch @
     of_nat (length (ch_compression ch)) # ch_compression ch @
     be16 (ch_ext_total ch) @ concat (map ext_bytes (ch_before ch)) @ sni_header (length (ch_host ch))"

definition hello_bytes :: "client_hello \<Rightarrow> bytes" where
  "hello_bytes ch = hello_prefix ch @ ch_host ch @ ch_after ch"

definition hello_wf :: "client_hello \<Rightarrow> bool" where
  "hello_wf ch \<longleftrightarrow> length (ch_length ch) = 3 \<and> length (ch_version ch) = 2 \<and> length (ch_random ch) = 32 \<and>
     length (ch_session ch) < 256 \<and> length (ch_ciphers ch) < 65536 \<and> length (ch_compression ch) < 256 \<and>
     ch_ext_total ch < 65536 \<and>
     list_all (\<lambda>e. fst e \<noteq> 0 \<and> fst e < 65536 \<and> length (snd e) < 65536) (ch_before ch) \<and>
     2 \<le> length (ch_host ch) \<and> length (hello_bytes ch) < 65536"

lemma sni_loop_finds_name:
  assumes "drop i p = concat (map ext_bytes es) @ sni_header (length host) @ host @ rest"
    and "\<forall>e \<in> set es. fst e \<noteq> 0 \<and> fst e < 65536 \<and> length (snd e) < 65536"
    and "2 \<le> length host" "length host < 65530"
  shows "sni_loop p i = Some (i + length (concat (map ext_bytes es)) + 9 + length host div 2)"
  using assms(1,2)
proof (induction es arbitrary: i)
  case Nil
  then have d0: "drop i p = be16 0 @ be16 (length host + 5) @ be16 (length host + 3) @
      0 # be16 (length host) @ host @ rest"
    by (simp add: sni_header_def)
  from drop_u16be [OF d0, of "i + 2"] have d1: "u16be p i = Some 0"
    "drop (i + 2) p = be16 (length host + 5) @ be16 (length host + 3) @ 0 # be16 (length host) @ host @ rest"
    by simp_all
  from drop_u16be [OF d1(2), of "i + 4"] assms(4) have d2: "u16be p (i + 2) = Some (length host + 5)"
    "drop (i + 4) p = be16 (length host + 3) @ 0 # be16 (length host) @ host @ rest" by simp_all
  from drop_skip [OF d2(2)] have d3: "drop (i + 6) p = 0 # be16 (length host) @ host @ rest"
    by (simp add: add.commute)
  from drop_get [OF d3] have d4: "get p (i + 6) = Some 0" "drop (i + 7) p = be16 (length host) @ host @ rest"
    by (simp_all add: add.commute)
  from drop_u16be [OF d4(2), of "i + 9"] assms(4) have d5: "u16be p (i + 7) = Some (length host)"
    "drop (i + 9) p = host @ rest" by simp_all
  have "length (drop (i + 9) p) = length host + length rest" by (simp add: d5)
  then have len: "i + 9 + length host \<le> length p" using assms(3) by simp
  have "sni_name_offset p (i + 4) = Some (i + 9 + length host div 2)"
  proof -
    have "i + 4 + 2 = i + 6" "i + 4 + 3 = i + 7" "i + 4 + 5 = i + 9" by simp_all
    with d4(1) d5(1) len assms(3) show ?thesis
      by (simp only: sni_name_offset_def Let_def Option.bind.simps if_False simp_thms) simp
  qed
  with d1(1) d2(1) len show ?case
    by (subst sni_loop.simps) (simp add: EXT_SNI_def add.assoc)
next
  case (Cons e es)
  let ?rest = "concat (map ext_bytes es) @ sni_header (length host) @ host @ rest"
  from Cons.prems have d0: "drop i p = be16 (fst e) @ be16 (length (snd e)) @ snd e @ ?rest"
    by (simp add: ext_bytes_def [of e])
  from Cons.prems(2) have e: "fst e \<noteq> 0" "fst e < 65536" "length (snd e) < 65536" by simp_all
  from drop_u16be [OF d0 e(2), of "i + 2"] have d1: "u16be p i = Some (fst e)"
    "drop (i + 2) p = be16 (length (snd e)) @ snd e @ ?rest" by simp_all
  from drop_u16be [OF d1(2) e(3), of "i + 4"] have d2: "u16be p (i + 2) = Some (length (snd e))"
    "drop (i + 4) p = snd e @ ?rest" by simp_all
  from drop_skip [OF d2(2)] have d3: "drop (i + 4 + length (snd e)) p = ?rest" .
  have "length (drop i p) \<ge> 4" by (simp add: d0)
  then have len: "i + 4 \<le> length p" by simp
  have "(of_nat (fst e) :: u16) \<noteq> EXT_SNI"
    using e by (simp add: EXT_SNI_def word_unat_eq_iff unsigned_of_nat take_bit_eq_mod)
  then have "sni_loop p i = sni_loop p (i + 4 + length (snd e))"
    using d1(1) d2(1) len by (subst sni_loop.simps) simp
  also have "\<dots> = Some (i + 4 + length (snd e) + length (concat (map ext_bytes es)) + 9 + length host div 2)"
    using Cons.IH [OF d3] Cons.prems(2) by simp
  finally show ?case by (simp add: ext_bytes_def [of e])
qed

lemma sni_split_offset_eqI:
  assumes "get p 0 = Some HANDSHAKE_CLIENT_HELLO" "get p (1 + 3 + 2 + 32) = Some a"
    and "1 + 3 + 2 + 32 + (1 + unat a) = i1" "u16be p i1 = Some n"
    and "i1 + (2 + n) = i2" "get p i2 = Some b"
    and "i2 + (1 + unat b) = i3" "u16be p i3 = Some m" "i3 + 2 = i4"
  shows "sni_split_offset p = sni_loop p i4"
  by (simp only: sni_split_offset_def Let_def assms Option.bind.simps option.map if_False simp_thms)

lemma sni_split_offset_hello:
  assumes "hello_wf ch"
  shows "sni_split_offset (hello_bytes ch) = Some (length (hello_prefix ch) + length (ch_host ch) div 2)"
proof -
  define p where "p = hello_bytes ch"
  define sid where "sid = length (ch_session ch)"
  define cl where "cl = length (ch_ciphers ch)"
  define co where "co = length (ch_compression ch)"
  define exts where "exts = concat (map ext_bytes (ch_before ch)) @ sni_header (length (ch_host ch)) @
    ch_host ch @ ch_after ch"
  have wf: "length (hello_fixed ch) = 37" "sid < 256" "cl < 65536" "co < 256" "ch_ext_total ch < 65536"
    "length p < 65536"
    "\<forall>e \<in> set (ch_before ch). fst e \<noteq> 0 \<and> fst e < 65536 \<and> length (snd e) < 65536"
    "2 \<le> length (ch_host ch)"
    using assms by (simp_all add: hello_wf_def hello_fixed_def sid_def cl_def co_def p_def list_all_iff)
  have host: "length (ch_host ch) < 65530"
    using wf(1,6) by (simp add: p_def hello_bytes_def hello_prefix_def sni_header_def)
  have d0: "drop 0 p = 1 # hello_fixed ch @ of_nat sid # ch_session ch @ be16 cl @ ch_ciphers ch @
      of_nat co # ch_compression ch @ be16 (ch_ext_total ch) @ exts"
    by (simp add: p_def hello_bytes_def hello_prefix_def sid_def cl_def co_def exts_def)
  note d1 = drop_get [OF d0]
  from drop_skip [OF conjunct2 [OF d1]] wf(1)
  have d2: "drop 38 p = of_nat sid # ch_session ch @ be16 cl @ ch_ciphers ch @ of_nat co #
      ch_compression ch @ be16 (ch_ext_total ch) @ exts" by simp
  note d3 = drop_get [OF d2]
  have d4: "drop (39 + sid) p = be16 cl @ ch_ciphers ch @ of_nat co #
      ch_compression ch @ be16 (ch_ext_total ch) @ exts"
    using drop_skip [OF conjunct2 [OF d3]] by (simp add: sid_def)
  note d5 = drop_u16be [OF d4 wf(3), of "41 + sid"]
  have d6: "drop (41 + sid + cl) p = of_nat co # ch_compression ch @ be16 (ch_ext_total ch) @ exts"
    using d5 by (auto simp: cl_def dest: drop_skip)
  note d7 = drop_get [OF d6]
  have d8: "drop (42 + sid + cl + co) p = be16 (ch_ext_total ch) @ exts"
    using drop_skip [OF conjunct2 [OF d7]] by (simp add: co_def add.assoc)
  note d9 = drop_u16be [OF d8 wf(5), of "44 + sid + cl + co"]
  have "sni_loop p (44 + sid + cl + co) = Some (44 + sid + cl + co +
      length (concat (map ext_bytes (ch_before ch))) + 9 + length (ch_host ch) div 2)"
    by (rule sni_loop_finds_name) (use d9 wf(7,8) host in \<open>simp_all add: exts_def\<close>)
  moreover have "length (hello_prefix ch) = 44 + sid + cl + co + length (concat (map ext_bytes (ch_before ch))) + 9"
    using wf(1) by (simp add: hello_prefix_def sni_header_def sid_def cl_def co_def)
  moreover have "unat (of_nat sid :: u8) = sid" "unat (of_nat co :: u8) = co"
    using wf(2,4) by (simp_all add: unsigned_of_nat take_bit_nat_eq_self)
  moreover have "sni_split_offset p = sni_loop p (44 + sid + cl + co)"
    by (rule sni_split_offset_eqI [of p "of_nat sid" "39 + sid" cl "41 + sid + cl" "of_nat co"
          "42 + sid + cl + co" "ch_ext_total ch"])
      (use d1 d3 d5 d7 d9 calculation(3,4) in \<open>simp_all add: HANDSHAKE_CLIENT_HELLO_def\<close>)
  ultimately show ?thesis by (simp add: p_def)
qed

lemma sni_name_offset_inside:
  "sni_name_offset p i = Some c \<Longrightarrow> \<exists>n. u16be p (i + 3) = Some n \<and> i + 5 < c \<and> c < i + 5 + n \<and> i + 5 + n \<le> length p"
  by (auto simp: sni_name_offset_def bind_eq_Some_conv Let_def split: if_splits)

lemma sni_loop_inside: "sni_loop p i = Some c \<Longrightarrow> 0 < c \<and> c < length p"
proof (induction p i rule: sni_loop.induct)
  case (1 p i)
  from 1(2) obtain ty l where hd: "i + 4 \<le> length p" "u16be p i = Some ty" "u16be p (i + 2) = Some l"
    and tl: "(if (of_nat ty :: u16) = EXT_SNI then sni_name_offset p (i + 4) else sni_loop p (i + 4 + l)) = Some c"
    by (subst (asm) sni_loop.simps) (auto simp: bind_eq_Some_conv Let_def split: if_splits)
  show ?case
  proof (cases "(of_nat ty :: u16) = EXT_SNI")
    case True
    with tl show ?thesis by (auto dest: sni_name_offset_inside)
  next
    case False
    with tl have "sni_loop p (i + 4 + l) = Some c" by simp
    with 1(1) [OF hd refl False] show ?thesis by blast
  qed
qed

lemma sni_split_offset_inside: "sni_split_offset p = Some c \<Longrightarrow> 0 < c \<and> c < length p"
  by (auto simp: sni_split_offset_def bind_eq_Some_conv Let_def split: if_splits dest: sni_loop_inside)

section \<open>Record framing\<close>

text \<open>A receiver's view of a byte stream: (type, version, payload) of each TLS record.\<close>

function tls_records :: "bytes \<Rightarrow> (u8 \<times> u8 \<times> u8 \<times> bytes) list option" where
  "tls_records s =
     (if s = [] then Some []
      else if length s < 5 then None
      else (let n = unat (s ! 3) * 256 + unat (s ! 4) in
            if length s < 5 + n then None
            else map_option (Cons (s ! 0, s ! 1, s ! 2, take n (drop 5 s))) (tls_records (drop (5 + n) s))))"
  by pat_completeness auto

termination by (relation "measure length") auto

declare tls_records.simps [simp del]

lemma tls_records_Nil [simp]: "tls_records [] = Some []"
  by (simp add: tls_records.simps)

lemma length_tls_record [simp]: "length (tls_record v1 v2 part) = 5 + length part"
  by (simp add: tls_record_def)

lemma tls_record_nth:
  "(tls_record v1 v2 part @ s) ! 0 = CONTENT_HANDSHAKE" "(tls_record v1 v2 part @ s) ! 1 = v1"
  "(tls_record v1 v2 part @ s) ! 2 = v2"
  by (simp_all add: tls_record_def)

lemma tls_record_length_field:
  assumes "length part < 65536"
  shows "unat ((tls_record v1 v2 part @ s) ! 3) * 256 + unat ((tls_record v1 v2 part @ s) ! 4) = length part"
proof -
  have "(tls_record v1 v2 part @ s) ! 3 = be16 (length part) ! 0"
    "(tls_record v1 v2 part @ s) ! 4 = be16 (length part) ! 1"
    by (simp_all add: tls_record_def to_be_bytes_def nth_Cons')
  then show ?thesis by (simp only: to_be_bytes_value [OF assms])
qed

lemma drop_tls_record: "drop 5 (tls_record v1 v2 part @ s) = part @ s"
  by (simp add: tls_record_def to_be_bytes_def)

lemma tls_records_record:
  assumes "length part < 65536"
  shows "tls_records (tls_record v1 v2 part @ s) =
    map_option (Cons (CONTENT_HANDSHAKE, v1, v2, part)) (tls_records s)"
proof -
  let ?s = "tls_record v1 v2 part @ s"
  have "drop (5 + length part) ?s = s" by simp
  moreover have "take (length part) (drop 5 ?s) = part" by (simp add: drop_tls_record del: drop_append)
  moreover have "?s \<noteq> []" by (simp add: tls_record_def)
  moreover have "\<not> length ?s < 5" "\<not> length ?s < 5 + length part" by simp_all
  ultimately show ?thesis
    by (subst tls_records.simps)
      (simp only: tls_record_nth tls_record_length_field [OF assms] Let_def if_False)
qed

section \<open>Fragmentation\<close>

lemma fragment_record:
  assumes "length payload < 65536"
  shows "fragment_client_hello (tls_record v1 v2 payload) =
    (case sni_split_offset payload of
       Some c \<Rightarrow> tls_record v1 v2 (take c payload) @ tls_record v1 v2 (drop c payload)
     | None \<Rightarrow> if length payload < 2 then tls_record v1 v2 payload
         else tls_record v1 v2 (take (length payload div 2) payload) @
              tls_record v1 v2 (drop (length payload div 2) payload))"
proof (cases "payload = []")
  case True
  then show ?thesis
    by (simp add: fragment_client_hello_def TLS_HEADER_def sni_split_offset_def get_def)
next
  case False
  let ?d = "tls_record v1 v2 payload"
  have "u16be ?d 3 = Some (length payload)"
    using tls_record_length_field [OF assms, of v1 v2 "[]"] by (simp add: u16be_Some)
  moreover have "?d ! 0 = CONTENT_HANDSHAKE" "?d ! 1 = v1" "?d ! 2 = v2"
    using tls_record_nth [of v1 v2 payload "[]"] by simp_all
  moreover have "drop TLS_HEADER ?d = payload"
    using drop_tls_record [of v1 v2 payload "[]"] by (simp add: TLS_HEADER_def)
  moreover have "max (length payload div 2) 1 = length payload div 2" if "\<not> length payload < 2"
    using that by (simp add: max_def) linarith
  ultimately show ?thesis
    using False sni_split_offset_inside [of payload]
    by (auto simp: fragment_client_hello_def TLS_HEADER_def Let_def split: option.splits)
qed

lemma fragment_hello:
  assumes "hello_wf ch"
  shows "fragment_client_hello (tls_record v1 v2 (hello_bytes ch)) =
      tls_record v1 v2 (hello_prefix ch @ take (length (ch_host ch) div 2) (ch_host ch)) @
      tls_record v1 v2 (drop (length (ch_host ch) div 2) (ch_host ch) @ ch_after ch)"
proof -
  have "length (hello_bytes ch) < 65536" using assms by (simp add: hello_wf_def)
  then show ?thesis
    by (simp add: fragment_record sni_split_offset_hello [OF assms]) (simp add: hello_bytes_def)
qed

lemma byte_pair_inject:
  assumes "unat (a :: u8) * 256 + unat (b :: u8) = unat (c :: u8) * 256 + unat (d :: u8)"
  shows "a = c \<and> b = d"
proof -
  have "(unat a * 256 + unat b) mod 256 = unat b" "(unat c * 256 + unat d) mod 256 = unat d"
    using unat_u8_less [of b] unat_u8_less [of d] by simp_all
  with assms have "unat b = unat d" by metis
  with assms show ?thesis by (simp add: word_unat_eq_iff)
qed

lemma fragment_unchanged:
  assumes "fragment_client_hello data \<noteq> data"
  shows "\<exists>v1 v2 payload. data = tls_record v1 v2 payload \<and> length payload < 65536 \<and> payload \<noteq> []"
proof -
  from assms have d: "5 < length data" "data ! 0 = CONTENT_HANDSHAKE" "u16be data 3 = Some (length data - 5)"
    by (auto simp: fragment_client_hello_def TLS_HEADER_def split: if_splits option.splits)
  define r where "r = drop 5 data"
  have "data ! 0 # drop (Suc 0) data = data"
    using d(1) Cons_nth_drop_Suc [of 0 data] by (cases "data = []") simp_all
  then have data: "data ! 0 # data ! 1 # data ! 2 # data ! 3 # data ! 4 # r = data"
    using d(1) by (simp add: r_def Cons_nth_drop_Suc numeral_eq_Suc)
  from d(1) have "r \<noteq> []" by (simp add: r_def)
  from d have n: "unat (data ! 3) * 256 + unat (data ! 4) = length r"
    by (simp add: u16be_Some r_def)
  then have len: "length r < 65536"
    using unat_u8_less [of "data ! 3"] unat_u8_less [of "data ! 4"] by linarith
  have "unat (be16 (length r) ! 0) * 256 + unat (be16 (length r) ! 1) =
      unat (data ! 3) * 256 + unat (data ! 4)"
    using to_be_bytes_value [OF len] n by simp
  then have "be16 (length r) ! 0 = data ! 3 \<and> be16 (length r) ! 1 = data ! 4"
    by (rule byte_pair_inject)
  then have "be16 (length r) = [data ! 3, data ! 4]"
    by (simp add: to_be_bytes_def)
  then have "data = tls_record (data ! 1) (data ! 2) r"
    using data [symmetric] d(2) by (metis append_Cons append_Nil tls_record_def)
  with len \<open>r \<noteq> []\<close> show ?thesis by blast
qed

section \<open>Properties\<close>

text \<open>C9: Fragmentation only moves record boundaries. For every input, either the bytes pass
  unchanged, or the input is exactly one handshake record and the output exactly two non-empty
  handshake records of the same version whose payloads concatenate to the original payload, so
  the server reassembles the same handshake message.\<close>

theorem fragment_only_reframes:
  "fragment_client_hello data = data \<or>
   (\<exists>v1 v2 a b. a \<noteq> [] \<and> b \<noteq> [] \<and>
      tls_records data = Some [(CONTENT_HANDSHAKE, v1, v2, a @ b)] \<and>
      tls_records (fragment_client_hello data) =
        Some [(CONTENT_HANDSHAKE, v1, v2, a), (CONTENT_HANDSHAKE, v1, v2, b)])"
proof (cases "fragment_client_hello data = data")
  case False
  then obtain v1 v2 payload where data: "data = tls_record v1 v2 payload" "length payload < 65536"
    "payload \<noteq> []"
    using fragment_unchanged by blast
  define c where "c = (case sni_split_offset payload of Some c \<Rightarrow> c | None \<Rightarrow> length payload div 2)"
  have frag: "fragment_client_hello data = tls_record v1 v2 (take c payload) @ tls_record v1 v2 (drop c payload)"
    and two: "sni_split_offset payload = None \<Longrightarrow> 2 \<le> length payload"
    using False data by (auto simp: fragment_record c_def split: option.splits if_splits)
  have "0 < c" "c < length payload"
    using two sni_split_offset_inside [of payload] data(3) by (auto simp: c_def split: option.splits)
  moreover have "tls_records data = Some [(CONTENT_HANDSHAKE, v1, v2, payload)]"
    using tls_records_record [OF data(2), of v1 v2 "[]"] data by simp
  moreover have "tls_records (fragment_client_hello data) =
      Some [(CONTENT_HANDSHAKE, v1, v2, take c payload), (CONTENT_HANDSHAKE, v1, v2, drop c payload)]"
    using tls_records_record [of "take c payload" v1 v2] tls_records_record [of "drop c payload" v1 v2 "[]"] data(2)
    by (simp add: frag)
  ultimately show ?thesis
    by (intro disjI2 exI [of _ v1] exI [of _ v2] exI [of _ "take c payload"] exI [of _ "drop c payload"]) auto
qed simp

text \<open>C8: Every well-formed ClientHello that names a server of at least two bytes, whatever session
  id, cipher suites, compression methods and extensions surround the name, is cut in the middle
  of the name: the first record ends with the first half of the host name and the second record
  starts with the other half.\<close>

theorem fragment_severs_hostname:
  assumes "hello_wf ch"
  defines "k \<equiv> length (ch_host ch) div 2"
  shows "0 < k \<and> k < length (ch_host ch) \<and>
    fragment_client_hello (tls_record v1 v2 (hello_bytes ch)) =
      tls_record v1 v2 (hello_prefix ch @ take k (ch_host ch)) @
      tls_record v1 v2 (drop k (ch_host ch) @ ch_after ch)"
proof -
  have "length (hello_bytes ch) < 65536" "2 \<le> length (ch_host ch)"
    using assms(1) by (simp_all add: hello_wf_def)
  then show ?thesis using fragment_hello [OF assms(1)] by (simp add: k_def)
qed

definition sample_hello :: client_hello where
  "sample_hello = \<lparr>ch_length = [0, 0, 60], ch_version = [3, 3], ch_random = replicate 32 7,
     ch_session = [1, 2], ch_ciphers = [0x13, 1], ch_compression = [0], ch_ext_total = 20,
     ch_before = [(43, [2, 3, 4])], ch_host = [0x61, 0x2e, 0x62], ch_after = []\<rparr>"

theorem fragment_severs_hostname_witness:
  "fragment_client_hello (tls_record 3 1 (hello_bytes sample_hello)) =
     tls_record 3 1 (hello_prefix sample_hello @ [0x61]) @ tls_record 3 1 [0x2e, 0x62]"
proof -
  have "hello_wf sample_hello"
    by (simp add: hello_wf_def sample_hello_def hello_bytes_def hello_prefix_def hello_fixed_def
        sni_header_def ext_bytes_def)
  from fragment_severs_hostname [OF this, of 3 1] show ?thesis
    by (simp add: sample_hello_def)
qed

text \<open>A handshake record in which no server name is found is not returned unchanged, as the
  function's comment says, but cut in half as two records.\<close>

theorem fragment_without_name:
  assumes "sni_split_offset payload = None" "2 \<le> length payload" "length payload < 65536"
  shows "fragment_client_hello (tls_record v1 v2 payload) =
      tls_record v1 v2 (take (length payload div 2) payload) @
      tls_record v1 v2 (drop (length payload div 2) payload) \<and>
    fragment_client_hello (tls_record v1 v2 payload) \<noteq> tls_record v1 v2 payload"
proof -
  have eq: "fragment_client_hello (tls_record v1 v2 payload) =
      tls_record v1 v2 (take (length payload div 2) payload) @
      tls_record v1 v2 (drop (length payload div 2) payload)"
    using assms by (simp add: fragment_record)
  then have "length (fragment_client_hello (tls_record v1 v2 payload)) = 10 + length payload" by simp
  then have "fragment_client_hello (tls_record v1 v2 payload) \<noteq> tls_record v1 v2 payload"
    by (rule contrapos_pn) simp
  with eq show ?thesis by blast
qed

theorem fragment_without_name_witness:
  "fragment_client_hello (tls_record 3 1 [1, 0, 0, 0]) = tls_record 3 1 [1, 0] @ tls_record 3 1 [0, 0]"
proof -
  have "sni_split_offset [1, 0, 0, 0] = None"
    by (simp add: sni_split_offset_def get_def HANDSHAKE_CLIENT_HELLO_def)
  from fragment_without_name [OF this, of 3 1] show ?thesis by simp
qed

end
