(* ===== verification/Streams.thy ===== *)
theory Streams
  imports Prelude
begin

text \<open>
  Byte streams as \<open>tokio\<close> delivers them, for the two servers that read from sockets: the chunks
  in the order they arrive, or a read error. \<open>read\<close> returns at most the rest of one chunk and
  nothing at the end of the stream, \<open>read_exact\<close> fails at an early end, \<open>copy\<close> forwards chunk
  by chunk until the end or the first error. A write is a function of the bytes that says
  whether it failed.
\<close>

type_synonym stream = "(string + bytes) list"
type_synonym writer = "bytes \<Rightarrow> string + unit"

fun stream_read :: "nat \<Rightarrow> stream \<Rightarrow> string + (bytes \<times> stream)" where
  "stream_read n [] = Inr ([], [])"
| "stream_read n (Inl e # s) = Inl e"
| "stream_read n (Inr c # s) =
     (if c = [] then stream_read n s
      else Inr (take n c, if length c \<le> n then s else Inr (drop n c) # s))"

lemma stream_read_length: "stream_read n s = Inr (b, s') \<Longrightarrow> length b \<le> n"
  by (induction n s rule: stream_read.induct) (auto split: if_splits)

function read_exact :: "nat \<Rightarrow> stream \<Rightarrow> string + (bytes \<times> stream)" where
  "read_exact n s =
     (if n = 0 then Inr ([], s)
      else (case stream_read n s of
              Inl e \<Rightarrow> Inl e
            | Inr (b, s') \<Rightarrow>
                if b = [] then Inl ''early eof''
                else (case read_exact (n - length b) s' of
                        Inl e \<Rightarrow> Inl e
                      | Inr (bs, s'') \<Rightarrow> Inr (b @ bs, s''))))"
  by pat_completeness auto

termination by (relation "measure fst") auto

declare read_exact.simps [simp del]

fun copy :: "writer \<Rightarrow> stream \<Rightarrow> bytes" where
  "copy write [] = []"
| "copy write (Inl e # s) = []"
| "copy write (Inr c # s) = (case write c of Inl e \<Rightarrow> [] | Inr _ \<Rightarrow> c @ copy write s)"

text \<open>The bytes of the chunks before the first error.\<close>

fun stream_bytes :: "stream \<Rightarrow> bytes" where
  "stream_bytes [] = []"
| "stream_bytes (Inl e # s) = []"
| "stream_bytes (Inr c # s) = c @ stream_bytes s"

lemma stream_read_bytes: "stream_read n s = Inr (b, s') \<Longrightarrow> stream_bytes s = b @ stream_bytes s'"
  by (induction n s rule: stream_read.induct) (auto split: if_splits)

lemma copy_all: "\<forall>c. write c = Inr () \<Longrightarrow> copy write s = stream_bytes s"
  by (induction s rule: stream_bytes.induct) auto

lemma read_exact_bytes:
  "read_exact n s = Inr (b, s') \<Longrightarrow> length b = n \<and> stream_bytes s = b @ stream_bytes s'"
proof (induction n s arbitrary: b s' rule: read_exact.induct)
  case (1 n s)
  show ?case
  proof (cases "n = 0")
    case True
    with 1(2) show ?thesis by (subst (asm) read_exact.simps) simp
  next
    case False
    with 1(2) obtain c t bs where r: "stream_read n s = Inr (c, t)" "c \<noteq> []"
      "read_exact (n - length c) t = Inr (bs, s')" "b = c @ bs"
      by (subst (asm) read_exact.simps) (auto split: sum.splits prod.splits if_splits)
    from 1(1) [OF False r(1) refl r(2,3)] stream_read_length [OF r(1)] stream_read_bytes [OF r(1)] r(4)
    show ?thesis by simp
  qed
qed


text \<open>However the bytes were cut into chunks, \<open>read_exact\<close> returns the first \<open>n\<close> of them.\<close>

lemma stream_read_progress:
  "0 < n \<Longrightarrow> stream_bytes s \<noteq> [] \<Longrightarrow> \<exists>b s'. stream_read n s = Inr (b, s') \<and> b \<noteq> []"
  by (induction n s rule: stream_read.induct) auto

lemma read_exact_ok:
  "n \<le> length (stream_bytes s) \<Longrightarrow>
   \<exists>s'. read_exact n s = Inr (take n (stream_bytes s), s') \<and> stream_bytes s' = drop n (stream_bytes s)"
proof (induction n s rule: read_exact.induct)
  case (1 n s)
  show ?case
  proof (cases "n = 0")
    case True
    then show ?thesis by (subst read_exact.simps) simp
  next
    case False
    with 1(2) obtain b t where r: "stream_read n s = Inr (b, t)" "b \<noteq> []"
      using stream_read_progress [of n s] by fastforce
    note bytes = stream_read_bytes [OF r(1)] and len = stream_read_length [OF r(1)]
    have "n - length b \<le> length (stream_bytes t)" using 1(2) bytes by simp
    from 1(1) [OF False r(1) refl r(2) this] r False bytes len show ?thesis
      by (subst read_exact.simps) auto
  qed
qed

end
