(* ===== verification/Dpi_Proxy.thy ===== *)
theory Dpi_Proxy
  imports Dpi Streams Net_Addr
begin

text \<open>
  \<open>crates/dns-helper/src/dpi_proxy.rs\<close>: the local CONNECT proxy and the transparent proxy that
  fragment the first flight of a connection. Sockets are outside the repository: dialling, the
  writers and the streams of the two sides are arguments, and the result lists what the
  handler did, in order, with the bytes it forwarded in each direction.
\<close>

section \<open>The code\<close>

record stats =
  connections :: u64
  fragmented :: u64

definition stats_default :: stats where
  "stats_default = \<lparr>connections = 0, fragmented = 0\<rparr>"

datatype action =
    Dial string
  | Dial_Addr socket_addr
  | To_Client bytes
  | To_Upstream bytes

record connection =
  cn_actions :: "action list"
  cn_stats :: stats
  cn_result :: "string + unit"

definition splice :: "writer \<Rightarrow> writer \<Rightarrow> stream \<Rightarrow> stream \<Rightarrow> stats \<Rightarrow> connection" where
  "splice write_client write_upstream client upstream st =
     (case stream_read (16 * 1024) client of
        Inl e \<Rightarrow> \<lparr>cn_actions = [], cn_stats = st, cn_result = Inl e\<rparr>
      | Inr (first, rest) \<Rightarrow>
          if length first = 0 then \<lparr>cn_actions = [], cn_stats = st, cn_result = Inr ()\<rparr>
          else (let framed = fragment_client_hello first;
                    st1 = (if length framed \<noteq> length first then st\<lparr>fragmented := fragmented st + 1\<rparr> else st) in
                case write_upstream framed of
                  Inl e \<Rightarrow> \<lparr>cn_actions = [], cn_stats = st1, cn_result = Inl e\<rparr>
                | Inr _ \<Rightarrow>
                    \<lparr>cn_actions = [To_Upstream framed, To_Upstream (copy write_upstream rest),
                                   To_Client (copy write_client upstream)],
                     cn_stats = st1, cn_result = Inr ()\<rparr>))"

definition prepend :: "action list \<Rightarrow> connection \<Rightarrow> connection" where
  "prepend acts c = c\<lparr>cn_actions := acts @ cn_actions c\<rparr>"

definition handle_transparent ::
    "string + socket_addr \<Rightarrow> (socket_addr \<Rightarrow> string + stream) \<Rightarrow> writer \<Rightarrow> writer \<Rightarrow> stream \<Rightarrow> stats \<Rightarrow> connection" where
  "handle_transparent original_destination connect write_client write_upstream client st =
     (case original_destination of
        Inl e \<Rightarrow> \<lparr>cn_actions = [], cn_stats = st, cn_result = Inl e\<rparr>
      | Inr target \<Rightarrow>
          if ip_is_loopback (sa_ip target) then \<lparr>cn_actions = [], cn_stats = st, cn_result = Inr ()\<rparr>
          else (case connect target of
                  Inl e \<Rightarrow> \<lparr>cn_actions = [Dial_Addr target], cn_stats = st, cn_result = Inl e\<rparr>
                | Inr upstream \<Rightarrow>
                    prepend [Dial_Addr target]
                      (splice write_client write_upstream client upstream
                         (st\<lparr>connections := connections st + 1\<rparr>))))"

definition ascii :: "string \<Rightarrow> bytes" where
  "ascii s = map (\<lambda>c. of_nat (of_char c)) s"

definition CRLF :: string where "CRLF = [CHR 0x0D, CHR 0x0A]"

datatype head_read =
    Head_Closed
  | Head_Error string
  | Head bytes stream

function read_head :: "bytes \<Rightarrow> stream \<Rightarrow> head_read" where
  "read_head buf [] = Head_Closed"
| "read_head buf (Inl e # s) = Head_Error e"
| "read_head buf (Inr [] # s) = read_head buf s"
| "read_head buf (Inr (byte # c) # s) =
     (let buf = buf @ [byte] in
      if ends_with (ascii (CRLF @ CRLF)) buf \<or> 8192 < length buf then Head buf (Inr c # s)
      else read_head buf (Inr c # s))"
  by pat_completeness auto

termination
  by (relation "measure (\<lambda>(_, s). sum_list (map (\<lambda>x. case x of Inl _ \<Rightarrow> 1 | Inr c \<Rightarrow> Suc (length c)) s))") auto

definition from_utf8_lossy :: "bytes \<Rightarrow> string" where
  "from_utf8_lossy b = map (\<lambda>x. char_of (unat x)) b"

definition parse_connect_target :: "string \<Rightarrow> string option" where
  "parse_connect_target head =
     (case str_lines head of
        [] \<Rightarrow> None
      | line # _ \<Rightarrow>
          (case split_whitespace line of
             [] \<Rightarrow> None
           | method # parts \<Rightarrow>
               if \<not> eq_ignore_ascii_case method ''CONNECT'' then None
               else (case parts of
                       [] \<Rightarrow> None
                     | authority # _ \<Rightarrow>
                         (case rsplit_once (CHR '':'') authority of
                            None \<Rightarrow> None
                          | Some (host, port) \<Rightarrow>
                              if host = [] \<or> parse_u16 port = None then None else Some authority))))"

definition handle ::
    "(string \<Rightarrow> string + stream) \<Rightarrow> writer \<Rightarrow> writer \<Rightarrow> stream \<Rightarrow> stats \<Rightarrow> connection" where
  "handle connect write_client write_upstream client st =
     (case read_head [] client of
        Head_Error e \<Rightarrow> \<lparr>cn_actions = [], cn_stats = st, cn_result = Inl e\<rparr>
      | Head_Closed \<Rightarrow> \<lparr>cn_actions = [], cn_stats = st, cn_result = Inr ()\<rparr>
      | Head buf rest \<Rightarrow>
          (case parse_connect_target (from_utf8_lossy buf) of
             None \<Rightarrow>
               \<lparr>cn_actions = [To_Client (ascii (''HTTP/1.1 405 Method Not Allowed'' @ CRLF @ CRLF))],
                cn_stats = st, cn_result = Inr ()\<rparr>
           | Some target \<Rightarrow>
               (case connect target of
                  Inl e \<Rightarrow>
                    \<lparr>cn_actions = [Dial target, To_Client (ascii (''HTTP/1.1 502 Bad Gateway'' @ CRLF @ CRLF))],
                     cn_stats = st, cn_result = Inl e\<rparr>
                | Inr upstream \<Rightarrow>
                    (let ok = ascii (''HTTP/1.1 200 Connection established'' @ CRLF @ CRLF) in
                     case write_client ok of
                       Inl e \<Rightarrow> \<lparr>cn_actions = [Dial target], cn_stats = st, cn_result = Inl e\<rparr>
                     | Inr _ \<Rightarrow>
                         prepend [Dial target, To_Client ok]
                           (splice write_client write_upstream rest upstream
                              (st\<lparr>connections := connections st + 1\<rparr>))))))"

section \<open>Lemmas\<close>

lemma from_utf8_lossy_ascii [simp]: "from_utf8_lossy (ascii s) = s"
proof -
  have "char_of (unat (of_nat (of_char c :: nat) :: u8)) = c" for c
  proof -
    have "(of_char c :: nat) = of_char c mod 256" using of_char_of [of "of_char c :: nat"] by simp
    then have "(of_char c :: nat) < 256" by (metis mod_less_divisor zero_less_numeral)
    then show ?thesis by (simp add: unsigned_of_nat take_bit_nat_eq_self)
  qed
  then show ?thesis by (simp add: from_utf8_lossy_def ascii_def comp_def)
qed

lemma ascii_append [simp]: "ascii (s @ t) = ascii s @ ascii t"
  by (simp add: ascii_def)

lemma length_ascii [simp]: "length (ascii s) = length s"
  by (simp add: ascii_def)

text \<open>The request head is read byte by byte up to the blank line that ends it, and no further.\<close>

lemma read_head_chunk:
  assumes "c \<noteq> []" "ends_with (ascii (CRLF @ CRLF)) (buf @ c)"
    and "\<And>d e. c = d @ e \<Longrightarrow> e \<noteq> [] \<Longrightarrow> \<not> ends_with (ascii (CRLF @ CRLF)) (buf @ d)"
    and "length (buf @ c) \<le> 8192"
  shows "read_head buf (Inr (c @ extra) # s) = Head (buf @ c) (Inr extra # s)"
  using assms
proof (induction c arbitrary: buf)
  case (Cons b c)
  show ?case
  proof (cases "c = []")
    case True
    with Cons.prems(2) show ?thesis by simp
  next
    case False
    have "\<not> ends_with (ascii (CRLF @ CRLF)) (buf @ [b])"
      using Cons.prems(3) [of "[b]" c] False by simp
    moreover have "read_head (buf @ [b]) (Inr (c @ extra) # s) = Head ((buf @ [b]) @ c) (Inr extra # s)"
    proof (rule Cons.IH [OF False])
      show "ends_with (ascii (CRLF @ CRLF)) ((buf @ [b]) @ c)" "length ((buf @ [b]) @ c) \<le> 8192"
        using Cons.prems(2,4) by simp_all
      show "\<not> ends_with (ascii (CRLF @ CRLF)) ((buf @ [b]) @ d)" if "c = d @ e" "e \<noteq> []" for d e
        using Cons.prems(3) [of "b # d" e] that by simp
    qed
    ultimately show ?thesis using Cons.prems(4) by simp
  qed
qed simp

lemma read_head_bound: "read_head buf s = Head b r \<Longrightarrow> length buf \<le> 8192 \<Longrightarrow> length b \<le> 8193"
  by (induction buf s rule: read_head.induct) (auto simp: Let_def split: if_splits)

lemma parse_connect_target_Some:
  assumes "parse_connect_target head = Some t"
  shows "\<exists>host port. t = host @ CHR '':'' # port \<and> host \<noteq> [] \<and> parse_u16 port \<noteq> None \<and>
    (\<forall>c \<in> set t. \<not> is_ws c)"
proof -
  from assms obtain line rest m ts host port where
    "str_lines head = line # rest" and sw: "split_whitespace line = m # t # ts"
    and "rsplit_once (CHR '':'') t = Some (host, port)" "host \<noteq> []" "parse_u16 port \<noteq> None"
    by (auto simp: parse_connect_target_def split: list.splits option.splits if_splits)
  moreover have "\<forall>c \<in> set t. \<not> is_ws c"
    using split_whitespace_parts [of t line] by (simp add: sw)
  ultimately show ?thesis by (auto simp: rsplit_once_Some)
qed

lemma parse_connect_target_line:
  assumes "host \<noteq> []" "\<forall>c \<in> set host. \<not> is_ws c" "port < 65536"
  shows "parse_connect_target (''CONNECT '' @ (host @ CHR '':'' # show_nat port) @ '' HTTP/1.1'' @ CRLF @ rest) =
    Some (host @ CHR '':'' # show_nat port)"
proof -
  let ?t = "host @ CHR '':'' # show_nat port"
  have dig: "\<forall>c \<in> set (show_nat port). is_ascii_digit c" using show_nat_set by blast
  have "\<not> is_ws c" if "is_ascii_digit c" for c using that
    by (auto simp: is_ws_def is_ascii_digit_def digit_val_def)
  with dig have "\<forall>c \<in> set (show_nat port). \<not> is_ws c" by blast
  moreover have "\<not> is_ws (CHR '':'')" by (simp add: is_ws_def)
  ultimately have ws: "\<forall>c \<in> set ?t. \<not> is_ws c" using assms(2) by auto
  have "is_ws nl" by (simp add: is_ws_def)
  with ws have no_nl: "nl \<notin> set ?t" by blast
  let ?l = "''CONNECT '' @ ?t @ '' HTTP/1.1'' @ [CHR 0x0D]"
  have "nl \<notin> set ?l" using no_nl by simp
  from str_lines_line [OF this, of rest]
  have lines: "str_lines (''CONNECT '' @ ?t @ '' HTTP/1.1'' @ CRLF @ rest) = strip_cr ?l # str_lines rest"
    by (simp add: CRLF_def)
  have strip: "strip_cr ?l = ''CONNECT'' @ CHR '' '' # ?t @ CHR '' '' # ''HTTP/1.1''"
  proof -
    have "?l = (''CONNECT'' @ CHR '' '' # ?t @ CHR '' '' # ''HTTP/1.1'') @ [CHR 0x0D]" by simp
    then show ?thesis unfolding strip_cr_def by (simp only: strip_suffix_append option.case)
  qed
  have "split_whitespace (strip_cr ?l) = ''CONNECT'' # split_whitespace (?t @ CHR '' '' # ''HTTP/1.1'')"
    unfolding strip by (rule split_whitespace_word) (simp_all add: is_ws_def)
  also have "split_whitespace (?t @ CHR '' '' # ''HTTP/1.1'') = ?t # split_whitespace ''HTTP/1.1''"
    by (rule split_whitespace_word) (use ws in \<open>simp_all add: is_ws_def\<close>)
  finally have parts: "split_whitespace (strip_cr ?l) = ''CONNECT'' # ?t # split_whitespace ''HTTP/1.1''" .
  have "CHR '':'' \<notin> set (show_nat port)" by (rule show_nat_no) (simp add: is_ascii_digit_def digit_val_def)
  then have "rsplit_once (CHR '':'') ?t = Some (host, show_nat port)" by (simp add: rsplit_once_Some)
  with lines parts assms(1,3) show ?thesis
    by (simp add: parse_connect_target_def eq_ignore_ascii_case_def parse_uint_show_nat)
qed

lemma fragment_partial:
  assumes "length payload < 65536" "tls_record v1 v2 payload = a @ b" "b \<noteq> []"
  shows "fragment_client_hello a = a"
proof (rule ccontr)
  assume "fragment_client_hello a \<noteq> a"
  then obtain w1 w2 pl where a: "a = tls_record w1 w2 pl" "length pl < 65536"
    using fragment_unchanged by blast
  let ?d = "tls_record v1 v2 payload"
  have "?d ! 3 = a ! 3" "?d ! 4 = a ! 4" using a(1) by (simp_all add: assms(2) nth_append)
  then have "length payload = length pl"
    using tls_record_length_field [OF assms(1), of v1 v2 "[]"]
      tls_record_length_field [OF a(2), of w1 w2 "[]"] a(1) by simp
  moreover have "length ?d = length a + length b" by (simp add: assms(2))
  ultimately show False using a(1) assms(3) by simp
qed

section \<open>Properties\<close>

definition established :: bytes where
  "established = ascii (''HTTP/1.1 200 Connection established'' @ CRLF @ CRLF)"



text \<open>C7: End to end: a client asks for a target and sends its ClientHello as one flight; the target
  is dialled, the client is told, and what reaches the target is the same handshake in two
  records, split inside the host name, then the rest of the stream unchanged.\<close>

theorem handle_severs_hostname:
  assumes "hello_wf ch" "hello = tls_record v1 v2 (hello_bytes ch)" "length hello \<le> 16384"
    and "parse_connect_target req = Some target" "connect target = Inr upstream"
    and "ends_with (CRLF @ CRLF) req" "length req \<le> 8192"
    and "\<forall>k < length req. \<not> ends_with (ascii (CRLF @ CRLF)) (take k (ascii req))"
    and "\<forall>b. wc b = Inr ()" "\<forall>b. wu b = Inr ()"
  shows "handle connect wc wu (Inr (ascii req) # Inr hello # rest) st =
    \<lparr>cn_actions =
       [Dial target, To_Client established,
        To_Upstream
          (tls_record v1 v2 (hello_prefix ch @ take (length (ch_host ch) div 2) (ch_host ch)) @
           tls_record v1 v2 (drop (length (ch_host ch) div 2) (ch_host ch) @ ch_after ch)),
        To_Upstream (stream_bytes rest), To_Client (stream_bytes upstream)],
     cn_stats = \<lparr>connections = connections st + 1, fragmented = fragmented st + 1\<rparr>,
     cn_result = Inr ()\<rparr>"
proof -
  obtain q where q: "req = q @ CRLF @ CRLF" using assms(6) by (auto simp: ends_with_iff)
  have "read_head [] (Inr (ascii req @ []) # Inr hello # rest) = Head ([] @ ascii req) (Inr [] # Inr hello # rest)"
  proof (rule read_head_chunk)
    show "ascii req \<noteq> []" "ends_with (ascii (CRLF @ CRLF)) ([] @ ascii req)"
      by (simp_all add: q) (simp_all add: CRLF_def ascii_def)
    show "length ([] @ ascii req) \<le> 8192" using assms(7) by simp
    show "\<not> ends_with (ascii (CRLF @ CRLF)) ([] @ d)" if "ascii req = d @ e" "e \<noteq> []" for d e
    proof -
      have "length req = length d + length e" using that(1) by (metis length_append length_ascii)
      then have "length d < length req" using that(2) by simp
      moreover have "take (length d) (ascii req) = d" by (simp add: that(1))
      ultimately show ?thesis using assms(8) by auto
    qed
  qed
  then have head: "read_head [] (Inr (ascii req) # Inr hello # rest) = Head (ascii req) (Inr [] # Inr hello # rest)"
    by simp
  have "hello \<noteq> []" by (simp add: assms(2) tls_record_def)
  then have read: "stream_read 16384 (Inr [] # Inr hello # rest) = Inr (hello, rest)"
    using assms(3) by simp
  have frag: "fragment_client_hello hello =
      tls_record v1 v2 (hello_prefix ch @ take (length (ch_host ch) div 2) (ch_host ch)) @
      tls_record v1 v2 (drop (length (ch_host ch) div 2) (ch_host ch) @ ch_after ch)" (is "_ = ?f")
    using fragment_hello [OF assms(1)] by (simp add: assms(2))
  have "length ?f \<noteq> length hello" by (simp add: assms(2) hello_bytes_def)
  then have "splice wc wu (Inr [] # Inr hello # rest) upstream st' =
      \<lparr>cn_actions = [To_Upstream ?f, To_Upstream (stream_bytes rest), To_Client (stream_bytes upstream)],
       cn_stats = st'\<lparr>fragmented := fragmented st' + 1\<rparr>, cn_result = Inr ()\<rparr>" for st'
    using \<open>hello \<noteq> []\<close> assms(9,10)
    by (simp add: splice_def read frag copy_all Let_def del: stream_read.simps length_append)
  then show ?thesis
    using head assms(4,5,9) by (simp add: handle_def prepend_def established_def Let_def)
qed

theorem handle_severs_hostname_witness:
  "\<exists>st'. cn_stats (handle (\<lambda>_. Inr []) (\<lambda>_. Inr ()) (\<lambda>_. Inr ())
     [Inr (ascii (''CONNECT a.b:443 HTTP/1.1'' @ CRLF @ CRLF)), Inr (tls_record 3 1 (hello_bytes sample_hello))]
     stats_default) = st' \<and> fragmented st' = 1"
proof -
  let ?req = "''CONNECT a.b:443 HTTP/1.1'' @ CRLF @ CRLF"
  have wf: "hello_wf sample_hello"
    by (simp add: hello_wf_def sample_hello_def hello_bytes_def hello_prefix_def hello_fixed_def
        sni_header_def ext_bytes_def)
  have port: "show_nat 443 = ''443''" by (simp add: show_nat_step show_nat_less digit_char_def) code_simp
  have "parse_connect_target ?req = Some ''a.b:443''"
    using parse_connect_target_line [of "''a.b''" 443 CRLF] by (simp add: port is_ws_def)
  moreover have "length (tls_record 3 1 (hello_bytes sample_hello)) \<le> 16384"
    by (simp add: sample_hello_def hello_bytes_def hello_prefix_def hello_fixed_def sni_header_def ext_bytes_def)
  moreover have "\<forall>k < length ?req. \<not> ends_with (ascii (CRLF @ CRLF)) (take k (ascii ?req))"
    by code_simp
  ultimately show ?thesis
    using handle_severs_hostname [OF wf refl, of 3 1 ?req "''a.b:443''" "\<lambda>_. Inr []" "[]" "\<lambda>_. Inr ()" "\<lambda>_. Inr ()" "[]" stats_default]
    by (simp add: ends_with_iff stats_default_def CRLF_def)
qed

text \<open>A first flight that reaches the proxy in two pieces is forwarded as it came: only one read
  is made, the partial record is not reframed, and the host name stays in one record.\<close>

theorem splice_partial_flight_unfragmented:
  assumes "length payload < 65536" "tls_record v1 v2 payload = a @ b" "a \<noteq> []" "b \<noteq> []" "length a \<le> 16384"
    and "\<forall>c. wc c = Inr ()" "\<forall>c. wu c = Inr ()"
  shows "cn_actions (splice wc wu [Inr a, Inr b] upstream st) =
      [To_Upstream a, To_Upstream b, To_Client (stream_bytes upstream)] \<and>
    cn_stats (splice wc wu [Inr a, Inr b] upstream st) = st"
  using assms fragment_partial [OF assms(1,2,4)]
  by (simp add: splice_def Let_def copy_all)

theorem splice_partial_flight_unfragmented_witness:
  "cn_actions (splice (\<lambda>_. Inr ()) (\<lambda>_. Inr ())
      [Inr (take 40 (tls_record 3 1 (hello_bytes sample_hello))),
       Inr (drop 40 (tls_record 3 1 (hello_bytes sample_hello)))] [] stats_default) =
    [To_Upstream (take 40 (tls_record 3 1 (hello_bytes sample_hello))),
     To_Upstream (drop 40 (tls_record 3 1 (hello_bytes sample_hello))), To_Client []]"
proof -
  have len: "length (hello_bytes sample_hello) = 68"
    by (simp add: sample_hello_def hello_bytes_def hello_prefix_def hello_fixed_def sni_header_def ext_bytes_def)
  have "tls_record 3 1 (hello_bytes sample_hello) \<noteq> []" by (simp add: tls_record_def)
  with len show ?thesis
    using splice_partial_flight_unfragmented [of "hello_bytes sample_hello" 3 1
        "take 40 (tls_record 3 1 (hello_bytes sample_hello))" "drop 40 (tls_record 3 1 (hello_bytes sample_hello))"
        "\<lambda>_. Inr ()" "\<lambda>_. Inr ()" "[]" stats_default]
    by simp
qed

end
