(* ===== verification/Proxy.thy ===== *)
theory Proxy
  imports Resolver Policy Upstream Dpi_Proxy
begin

text \<open>
  \<open>crates/dns-helper/src/proxy.rs\<close>: the local DNS proxy. Its shared state is the resolver's
  cache and the query log; the policy is read once per query. What the handler calls outside
  the repository (the wire codec, the HTTPS requests, the UDP sockets, the texts of names and
  record data, the clock) is gathered in \<open>env\<close>. \<open>handle\<close> is named \<open>proxy_handle\<close> and \<open>Proxy\<close>'s
  server loops are the functions of one datagram and of one TCP connection.
\<close>

section \<open>The code\<close>

definition MAX_UDP :: nat where "MAX_UDP = 4096"
definition LOG_CAPACITY :: nat where "LOG_CAPACITY = 500"
definition CACHE_PURGE_INTERVAL :: nat where "CACHE_PURGE_INTERVAL = secs 60"

record query_log_entry =
  ql_name :: string
  ql_record_type :: string
  ql_route :: string
  ql_outcome :: string
  ql_elapsed_ms :: u64
  ql_answers :: "string list"

record query_log =
  l_entries :: "query_log_entry list"
  l_total :: u64

definition log_default :: query_log where
  "log_default = \<lparr>l_entries = [], l_total = 0\<rparr>"

definition log_push :: "query_log_entry \<Rightarrow> query_log \<Rightarrow> query_log" where
  "log_push entry lg =
     (let lg = lg\<lparr>l_total := l_total lg + 1\<rparr>;
          es = (if LOG_CAPACITY \<le> length (l_entries lg) then drop 1 (l_entries lg) else l_entries lg) in
      lg\<lparr>l_entries := es @ [entry]\<rparr>)"

definition log_total :: "query_log \<Rightarrow> u64" where
  "log_total lg = l_total lg"

definition log_recent :: "query_log \<Rightarrow> nat \<Rightarrow> query_log_entry list" where
  "log_recent lg limit = take limit (rev (l_entries lg))"

record ('n, 'd, 'c) env =
  ev_codec :: "('n, 'd) codec"
  ev_post :: "'c http_post"
  ev_udp :: udp
  ev_to_ascii :: "'n \<Rightarrow> string"
  ev_to_lowercase :: "'n \<Rightarrow> 'n"
  ev_show_name :: "'n \<Rightarrow> string"
  ev_show_type :: "record_type \<Rightarrow> string"
  ev_show_rdata :: "'d \<Rightarrow> string"
  ev_debug_rcode :: "response_code \<Rightarrow> string"
  ev_interfere :: "('n, 'd) cache \<Rightarrow> ('n, 'd) cache"
  ev_now1 :: nat
  ev_now2 :: nat
  ev_elapsed :: nat

record 'c proxy =
  x_resolver :: "'c doh_resolver"
  x_forwarder :: forwarder
  x_policy :: policy

record ('n, 'd) proxy_state =
  s_cache :: "('n, 'd) cache"
  s_log :: query_log

definition proxy_new :: "'c doh_resolver \<Rightarrow> forwarder \<Rightarrow> policy \<Rightarrow> 'c proxy" where
  "proxy_new r f p = \<lparr>x_resolver = r, x_forwarder = f, x_policy = p\<rparr>"

fun show_rdata :: "('d \<Rightarrow> string) \<Rightarrow> 'd rdata \<Rightarrow> string" where
  "show_rdata sh (RD_A a b c d) = show_ip (V4 a b c d)"
| "show_rdata sh (RD_AAAA a b c d e f g h) = show_ip (V6 a b c d e f g h)"
| "show_rdata sh (RD_Other d) = sh d"

definition describe_answers :: "('d \<Rightarrow> string) \<Rightarrow> ('n, 'd) message \<Rightarrow> string list" where
  "describe_answers sh msg =
     List.map_filter (\<lambda>r. map_option (show_rdata sh) (rr_data r))
       (filter (\<lambda>r. rr_type r \<in> {RT_A, RT_AAAA, RT_CNAME}) (m_answers msg))"

definition servfail_message :: "u16 \<Rightarrow> response_code \<Rightarrow> ('n, 'd) message" where
  "servfail_message qid code = message_new\<lparr>m_id := qid, m_type := MT_Response, m_opcode := OP_Query,
     m_rcode := code, m_rd := True, m_ra := True\<rparr>"

definition servfail :: "('n, 'd) codec \<Rightarrow> u16 \<Rightarrow> response_code \<Rightarrow> bytes" where
  "servfail codec qid code = (case enc codec (servfail_message qid code) of Inr b \<Rightarrow> b | Inl _ \<Rightarrow> [])"

definition from_be_bytes :: "u8 \<Rightarrow> u8 \<Rightarrow> u16" where
  "from_be_bytes a b = push_bit 8 (ucast a) OR ucast b"

definition servfail_from_raw :: "('n, 'd) codec \<Rightarrow> bytes \<Rightarrow> bytes" where
  "servfail_from_raw codec query =
     (let qid = (if 2 \<le> length query then from_be_bytes (query ! 0) (query ! 1) else 0) in
      servfail codec qid FormErr)"

definition proxy_handle ::
    "('n, 'd, 'c) env \<Rightarrow> 'c proxy \<Rightarrow> bytes \<Rightarrow> ('n, 'd) proxy_state \<Rightarrow> bytes \<times> ('n, 'd) proxy_state" where
  "proxy_handle ev x query_bytes s =
     (case dec (ev_codec ev) query_bytes of
        Inl e \<Rightarrow> (servfail_from_raw (ev_codec ev) query_bytes, s)
      | Inr query \<Rightarrow>
          (let qid = m_id query in
           case m_queries query of
             [] \<Rightarrow> (servfail (ev_codec ev) qid FormErr, s)
           | question # _ \<Rightarrow>
               (let name = q_name question;
                    rt = q_type question;
                    route = policy_route (ev_to_ascii ev) (x_policy x) name;
                    (response_bytes, outcome, answers, s) =
                      (case route of
                         Doh \<Rightarrow>
                           (let (result, cache) =
                              resolve (ev_codec ev) (ev_post ev) (ev_to_lowercase ev) (ev_interfere ev)
                                (x_resolver x) name rt (ev_now1 ev) (ev_now2 ev) (s_cache s);
                              s = s\<lparr>s_cache := cache\<rparr> in
                            case result of
                              Inr response \<Rightarrow>
                                (let response = response\<lparr>m_id := qid\<rparr>;
                                     answers = describe_answers (ev_show_rdata ev) response in
                                 case enc (ev_codec ev) response of
                                   Inr bytes \<Rightarrow> (bytes, ev_debug_rcode ev (m_rcode response), answers, s)
                                 | Inl e \<Rightarrow> (servfail (ev_codec ev) qid ServFail, ''EncodeError'', [], s))
                            | Inl e \<Rightarrow> (servfail (ev_codec ev) qid ServFail, show_resolve_error e, [], s))
                       | SystemUpstream \<Rightarrow>
                           (case forward (ev_udp ev) (x_forwarder x) query_bytes of
                              Inr bytes \<Rightarrow>
                                (let answers = (case dec (ev_codec ev) bytes of
                                                  Inr m \<Rightarrow> describe_answers (ev_show_rdata ev) m | Inl _ \<Rightarrow> []) in
                                 (bytes, ''Forwarded'', answers, s))
                            | Inl e \<Rightarrow> (servfail (ev_codec ev) qid ServFail, show_upstream_error e, [], s))) in
                (response_bytes,
                 s\<lparr>s_log := log_push
                     \<lparr>ql_name = ev_show_name ev name, ql_record_type = ev_show_type ev rt,
                      ql_route = (case route of Doh \<Rightarrow> ''doh'' | SystemUpstream \<Rightarrow> ''system''),
                      ql_outcome = outcome, ql_elapsed_ms = of_nat (as_millis (ev_elapsed ev)),
                      ql_answers = answers\<rparr> (s_log s)\<rparr>))))"

definition advertised :: "('n, 'd) codec \<Rightarrow> bytes \<Rightarrow> nat" where
  "advertised codec query =
     clamp 512 MAX_UDP
       (case dec codec query of
          Inl _ \<Rightarrow> 512
        | Inr m \<Rightarrow> (case m_edns_payload m of Some p \<Rightarrow> unat p | None \<Rightarrow> 512))"

definition truncated_message :: "('n, 'd) message \<Rightarrow> ('n, 'd) message" where
  "truncated_message msg = message_new\<lparr>m_id := m_id msg, m_type := MT_Response, m_opcode := m_opcode msg,
     m_rcode := m_rcode msg, m_rd := m_rd msg, m_ra := True, m_tc := True, m_queries := m_queries msg\<rparr>"

definition truncate_if_needed :: "('n, 'd) codec \<Rightarrow> bytes \<Rightarrow> bytes \<Rightarrow> bytes" where
  "truncate_if_needed codec response query =
     (if length response \<le> advertised codec query then response
      else (case dec codec response of
              Inr msg \<Rightarrow> (case enc codec (truncated_message msg) of Inr b \<Rightarrow> b | Inl _ \<Rightarrow> response)
            | Inl _ \<Rightarrow> response))"

definition serve_datagram ::
    "('n, 'd, 'c) env \<Rightarrow> 'c proxy \<Rightarrow> bytes \<Rightarrow> ('n, 'd) proxy_state \<Rightarrow> bytes \<times> ('n, 'd) proxy_state" where
  "serve_datagram ev x datagram s =
     (let query = take MAX_UDP datagram; (response, s) = proxy_handle ev x query s in
      (truncate_if_needed (ev_codec ev) response query, s))"

definition serve_stream ::
    "('n, 'd, 'c) env \<Rightarrow> 'c proxy \<Rightarrow> stream \<Rightarrow> ('n, 'd) proxy_state \<Rightarrow> bytes option \<times> ('n, 'd) proxy_state" where
  "serve_stream ev x stream s =
     (case read_exact 2 stream of
        Inl e \<Rightarrow> (None, s)
      | Inr (len_buf, stream) \<Rightarrow>
          (let len = unat (from_be_bytes (len_buf ! 0) (len_buf ! 1)) in
           case read_exact len stream of
             Inl e \<Rightarrow> (None, s)
           | Inr (query, _) \<Rightarrow>
               (let (response, s) = proxy_handle ev x query s in
                (Some (to_be_bytes (of_nat (length response)) @ response), s))))"

definition purge_tick :: "nat \<Rightarrow> ('n, 'd) proxy_state \<Rightarrow> ('n, 'd) proxy_state" where
  "purge_tick now s = s\<lparr>s_cache := cache_purge_expired (s_cache s) now\<rparr>"

definition bind_error :: "socket_addr \<Rightarrow> io_kind \<Rightarrow> string \<Rightarrow> string" where
  "bind_error addr kind e =
     (case kind of
        PermissionDenied \<Rightarrow>
          ''permission denied binding '' @ show_socket addr @ '': port 53 is privileged. '' @
          ''Run the helper as root, or grant it CAP_NET_BIND_SERVICE.''
      | AddrInUse \<Rightarrow>
          show_socket addr @ '' is already in use: another resolver (dnsmasq, systemd-resolved) holds it.''
      | _ \<Rightarrow> ''could not bind '' @ show_socket addr @ '': '' @ e)"

text \<open>\<open>serve\<close> binds UDP, then TCP; the first failure is the error. \<open>None\<close>: both are bound.\<close>

definition serve_bind ::
    "(socket_addr \<Rightarrow> (io_kind \<times> string) option) \<Rightarrow> (socket_addr \<Rightarrow> (io_kind \<times> string) option) \<Rightarrow>
     socket_addr \<Rightarrow> string option" where
  "serve_bind bind_udp bind_tcp addr =
     (case bind_udp addr of
        Some (k, e) \<Rightarrow> Some (bind_error addr k e)
      | None \<Rightarrow> (case bind_tcp addr of Some (k, e) \<Rightarrow> Some (bind_error addr k e) | None \<Rightarrow> None))"

section \<open>Byte order\<close>

lemma from_be_bytes_value: "unat (from_be_bytes a b) = unat a * 256 + unat b"
proof -
  have a: "unat (ucast a :: u16) = unat a" and b: "unat (ucast b :: u16) = unat b"
    using unat_u8_less [of a] unat_u8_less [of b]
    by (simp_all add: unsigned_ucast_eq take_bit_nat_eq_self less_trans [of _ 256])
  have "unat (push_bit 8 (ucast a :: u16)) = push_bit 8 (unat a)"
    unfolding unsigned_push_bit_eq a
    using unat_u8_less [of a] by (simp add: push_bit_eq_mult take_bit_nat_eq_self)
  then show ?thesis by (simp only: from_be_bytes_def unsigned_or_eq b or_bytes)
qed

lemma from_to_be_bytes: "n < 65536 \<Longrightarrow> unat (from_be_bytes (to_be_bytes (of_nat n) ! 0) (to_be_bytes (of_nat n) ! 1)) = n"
  using to_be_bytes_value [of n] by (simp add: from_be_bytes_value)

section \<open>The query log\<close>

lemma length_log_push:
  "length (l_entries lg) \<le> LOG_CAPACITY \<Longrightarrow> length (l_entries (log_push e lg)) \<le> LOG_CAPACITY"
  by (auto simp: log_push_def Let_def LOG_CAPACITY_def)

lemma log_pushes:
  "l_entries (fold log_push es log_default) = drop (length es - LOG_CAPACITY) es \<and>
   l_total (fold log_push es log_default) = of_nat (length es)"
proof (induction es rule: rev_induct)
  case (snoc e es)
  show ?case
  proof (cases "LOG_CAPACITY \<le> length es")
    case True
    then have "Suc (length es) - LOG_CAPACITY = Suc (length es - LOG_CAPACITY)" by simp
    moreover have "length es - LOG_CAPACITY < length es" using True by (simp add: LOG_CAPACITY_def)
    ultimately show ?thesis using snoc True by (simp add: log_push_def Let_def add.commute)
  next
    case False
    with snoc show ?thesis by (auto simp: log_push_def Let_def)
  qed
qed (simp add: log_default_def)

section \<open>Replies to DoH questions\<close>

lemma servfail_cases:
  "(\<exists>m. m_id m = i \<and> enc codec m = Inr (servfail codec i code) \<and> m_rcode m = code) \<or>
   (\<exists>e. enc codec (servfail_message i code) = Inl e \<and> servfail codec i code = [])"
proof (cases "enc codec (servfail_message i code)")
  case (Inr b)
  then show ?thesis
    by (intro disjI1 exI [of _ "servfail_message i code"]) (simp add: servfail_def, simp add: servfail_message_def)
qed (simp add: servfail_def)

lemma handle_doh_eq:
  assumes "dec (ev_codec ev) b = Inr query" "m_queries query = q # qs"
    and "policy_route (ev_to_ascii ev) (x_policy x) (q_name q) = Doh"
    and "resolve (ev_codec ev) (ev_post ev) (ev_to_lowercase ev) (ev_interfere ev) (x_resolver x)
      (q_name q) (q_type q) (ev_now1 ev) (ev_now2 ev) (s_cache s) = (r, c)"
  shows "\<exists>outcome answers. proxy_handle ev x b s =
    (case r of
       Inl e \<Rightarrow> servfail (ev_codec ev) (m_id query) ServFail
     | Inr m \<Rightarrow> (case enc (ev_codec ev) (m\<lparr>m_id := m_id query\<rparr>) of
           Inr bytes \<Rightarrow> bytes | Inl e \<Rightarrow> servfail (ev_codec ev) (m_id query) ServFail),
     s\<lparr>s_cache := c, s_log := log_push
       \<lparr>ql_name = ev_show_name ev (q_name q), ql_record_type = ev_show_type ev (q_type q),
        ql_route = ''doh'', ql_outcome = outcome, ql_elapsed_ms = of_nat (as_millis (ev_elapsed ev)),
        ql_answers = answers\<rparr> (s_log s)\<rparr>)"
proof (cases r)
  case (Inl e)
  with assms show ?thesis
    by (intro exI [of _ "show_resolve_error e"] exI [of _ "[]"]) (simp add: proxy_handle_def Let_def)
next
  case (Inr m)
  show ?thesis
  proof (cases "enc (ev_codec ev) (m\<lparr>m_id := m_id query\<rparr>)")
    case (Inl e)
    with assms \<open>r = Inr m\<close> show ?thesis
      by (intro exI [of _ "''EncodeError''"] exI [of _ "[]"]) (simp add: proxy_handle_def Let_def)
  next
    case (Inr bytes)
    with assms \<open>r = Inr m\<close> show ?thesis
      by (intro exI [of _ "ev_debug_rcode ev (m_rcode m)"]
          exI [of _ "describe_answers (ev_show_rdata ev) (m\<lparr>m_id := m_id query\<rparr>)"])
        (simp add: proxy_handle_def Let_def)
  qed
qed

lemma handle_doh_shape:
  assumes "dec (ev_codec ev) b = Inr query" "m_queries query = q # qs"
    and "policy_route (ev_to_ascii ev) (x_policy x) (q_name q) = Doh"
  shows "((\<exists>m. m_id m = m_id query \<and>
        enc (ev_codec ev) m = Inr (fst (proxy_handle ev x b s)) \<and>
        (m_rcode m = ServFail \<or>
         (\<exists>m0. fst (resolve (ev_codec ev) (ev_post ev) (ev_to_lowercase ev) (ev_interfere ev) (x_resolver x)
                  (q_name q) (q_type q) (ev_now1 ev) (ev_now2 ev) (s_cache s)) = Inr m0 \<and>
               m = m0\<lparr>m_id := m_id query\<rparr>))) \<or>
      (\<exists>e. enc (ev_codec ev) (servfail_message (m_id query) ServFail) = Inl e \<and>
        fst (proxy_handle ev x b s) = [])) \<and>
    (\<exists>entry. ql_route entry = ''doh'' \<and> ql_name entry = ev_show_name ev (q_name q) \<and>
       s_log (snd (proxy_handle ev x b s)) = log_push entry (s_log s))"
proof -
  obtain r c where res: "resolve (ev_codec ev) (ev_post ev) (ev_to_lowercase ev) (ev_interfere ev) (x_resolver x)
    (q_name q) (q_type q) (ev_now1 ev) (ev_now2 ev) (s_cache s) = (r, c)" by fastforce
  obtain out ans where eq: "proxy_handle ev x b s =
    (case r of
       Inl e \<Rightarrow> servfail (ev_codec ev) (m_id query) ServFail
     | Inr m \<Rightarrow> (case enc (ev_codec ev) (m\<lparr>m_id := m_id query\<rparr>) of
           Inr bytes \<Rightarrow> bytes | Inl e \<Rightarrow> servfail (ev_codec ev) (m_id query) ServFail),
     s\<lparr>s_cache := c, s_log := log_push
       \<lparr>ql_name = ev_show_name ev (q_name q), ql_record_type = ev_show_type ev (q_type q),
        ql_route = ''doh'', ql_outcome = out, ql_elapsed_ms = of_nat (as_millis (ev_elapsed ev)),
        ql_answers = ans\<rparr> (s_log s)\<rparr>)" (is "_ = (?bytes, s\<lparr>s_cache := c, s_log := log_push ?e (s_log s)\<rparr>)")
    using handle_doh_eq [OF assms res] by blast
  have "(\<exists>m. m_id m = m_id query \<and> enc (ev_codec ev) m = Inr ?bytes \<and>
      (m_rcode m = ServFail \<or> (\<exists>m0. r = Inr m0 \<and> m = m0\<lparr>m_id := m_id query\<rparr>))) \<or>
    (\<exists>e. enc (ev_codec ev) (servfail_message (m_id query) ServFail) = Inl e \<and> ?bytes = [])"
  proof (cases "\<exists>m bytes. r = Inr m \<and> enc (ev_codec ev) (m\<lparr>m_id := m_id query\<rparr>) = Inr bytes")
    case True
    then obtain m bytes where "r = Inr m" "enc (ev_codec ev) (m\<lparr>m_id := m_id query\<rparr>) = Inr bytes" by blast
    then show ?thesis by (intro disjI1 exI [of _ "m\<lparr>m_id := m_id query\<rparr>"]) simp
  next
    case False
    then have "?bytes = servfail (ev_codec ev) (m_id query) ServFail" by (auto split: sum.splits)
    then show ?thesis using servfail_cases [of "m_id query" "ev_codec ev" ServFail] by metis
  qed
  moreover have "ql_route ?e = ''doh''" "ql_name ?e = ev_show_name ev (q_name q)" by simp_all
  moreover have "fst (proxy_handle ev x b s) = ?bytes" "s_log (snd (proxy_handle ev x b s)) = log_push ?e (s_log s)"
    by (simp_all add: eq)
  ultimately show ?thesis unfolding res fst_conv by metis
qed

section \<open>Properties\<close>

text \<open>The query log: after any sequence of queries it holds the last 500 in order, so memory is
  bounded; \<open>recent\<close> lists them newest first; and the lifetime total counts every one (modulo
  2^64) whatever was evicted.\<close>

theorem log_keeps_last_500:
  "l_entries (fold log_push es log_default) = rev (take 500 (rev es)) \<and>
   log_recent (fold log_push es log_default) n = take (min n 500) (rev es) \<and>
   unat (log_total (fold log_push es log_default)) = length es mod 2 ^ 64"
proof -
  have "drop (length es - 500) es = rev (take 500 (rev es))" by (simp add: rev_take)
  then show ?thesis
    using log_pushes [of es]
    by (simp add: LOG_CAPACITY_def log_recent_def log_total_def unsigned_of_nat take_bit_eq_mod)
qed

text \<open>C10: Privacy of local names: a question the policy sends to the system resolvers is answered
  without the HTTPS side, whatever that side would do, and leaves the DoH cache as it was; and
  a question the policy sends to DoH is answered without the system resolvers.\<close>

theorem handle_route_separation:
  assumes "dec (ev_codec ev) b = Inr query" "m_queries query = q # qs"
  shows "(policy_route (ev_to_ascii ev) (x_policy x) (q_name q) = SystemUpstream \<longrightarrow>
      proxy_handle (ev\<lparr>ev_post := post'\<rparr>) x b s = proxy_handle ev x b s \<and>
      s_cache (snd (proxy_handle ev x b s)) = s_cache s) \<and>
    (policy_route (ev_to_ascii ev) (x_policy x) (q_name q) = Doh \<longrightarrow>
      proxy_handle (ev\<lparr>ev_udp := udp'\<rparr>) x b s = proxy_handle ev x b s)"
proof (intro conjI impI)
  assume sys: "policy_route (ev_to_ascii ev) (x_policy x) (q_name q) = SystemUpstream"
  show "proxy_handle (ev\<lparr>ev_post := post'\<rparr>) x b s = proxy_handle ev x b s"
    using assms sys
    by (cases "forward (ev_udp ev) (x_forwarder x) b")
      (simp_all add: proxy_handle_def Let_def cong: sum.case_cong)
  show "s_cache (snd (proxy_handle ev x b s)) = s_cache s"
    using assms sys
    by (cases "forward (ev_udp ev) (x_forwarder x) b") (simp_all add: proxy_handle_def Let_def)
next
  assume doh: "policy_route (ev_to_ascii ev) (x_policy x) (q_name q) = Doh"
  obtain r c where res: "resolve (ev_codec ev) (ev_post ev) (ev_to_lowercase ev) (ev_interfere ev) (x_resolver x)
    (q_name q) (q_type q) (ev_now1 ev) (ev_now2 ev) (s_cache s) = (r, c)" by fastforce
  show "proxy_handle (ev\<lparr>ev_udp := udp'\<rparr>) x b s = proxy_handle ev x b s"
  proof (cases r)
    case (Inl e)
    with assms doh res show ?thesis by (simp add: proxy_handle_def Let_def)
  next
    case (Inr m)
    with assms doh res show ?thesis
      by (cases "enc (ev_codec ev) (m\<lparr>m_id := m_id query\<rparr>)") (simp_all add: proxy_handle_def Let_def)
  qed
qed

text \<open>A concrete environment: names are strings, a question about \<open>example.com\<close> in every packet, one
  provider that answers with an address record, no system resolver.\<close>

definition demo_codec :: "(string, unit) codec" where
  "demo_codec = \<lparr>enc = (\<lambda>m. Inr (to_be_bytes (m_id m))),
     dec = (\<lambda>b. if length b < 2 then Inl ''short'' else Inr (sample_message\<lparr>m_id := 7,
        m_queries := [\<lparr>q_name = ''example.com.'', q_type = RT_A\<rparr>]\<rparr>))\<rparr>"

definition demo_env :: "(string, unit, unit) env" where
  "demo_env = \<lparr>ev_codec = demo_codec, ev_post = sample_post,
     ev_udp = \<lparr>ud_bind = \<lambda>_. Inr (), ud_connect = \<lambda>_. Inr (), ud_send = \<lambda>_ _. Inr (), ud_recv = \<lambda>_ _ _. None\<rparr>,
     ev_to_ascii = (\<lambda>n. n), ev_to_lowercase = to_ascii_lowercase, ev_show_name = (\<lambda>n. n),
     ev_show_type = (\<lambda>_. ''A''), ev_show_rdata = (\<lambda>_. []), ev_debug_rcode = (\<lambda>_. ''NoError''),
     ev_interfere = (\<lambda>c. c), ev_now1 = 0, ev_now2 = 0, ev_elapsed = 0\<rparr>"

definition demo_proxy :: "unit proxy" where
  "demo_proxy = proxy_new sample_resolver (forwarder_new []) policy_default"

definition demo_state :: "(string, unit) proxy_state" where
  "demo_state = \<lparr>s_cache = cache_new 16, s_log = log_default\<rparr>"

lemma demo_query:
  "dec (ev_codec demo_env) [0, 7] = Inr (sample_message\<lparr>m_id := 7,
     m_queries := [\<lparr>q_name = ''example.com.'', q_type = RT_A\<rparr>]\<rparr>)"
  by (simp add: demo_env_def demo_codec_def)

lemma demo_route: "policy_route (ev_to_ascii demo_env) (x_policy demo_proxy) ''example.com.'' = Doh"
  by (simp add: demo_env_def demo_proxy_def proxy_new_def policy_route_def normalise_def normalise_str_def
      str_defs policy_default_def is_builtin_local_def LOCAL_SUFFIXES_def suffix_matches_def is_private_reverse_def)

theorem handle_route_separation_witness:
  "\<forall>u. proxy_handle (demo_env\<lparr>ev_udp := u\<rparr>) demo_proxy [0, 7] demo_state =
   proxy_handle demo_env demo_proxy [0, 7] demo_state"
  using handle_route_separation [OF demo_query, of "\<lparr>q_name = ''example.com.'', q_type = RT_A\<rparr>" "[]" demo_proxy _ demo_state]
    demo_route by simp







text \<open>TCP framing: however the bytes of a length-prefixed query are cut into segments, exactly
  that query is handled and the reply is sent with its own length in front; a connection that
  ends before the announced length is answered with nothing and changes no state.\<close>

theorem serve_stream_framing:
  assumes "stream_bytes str = to_be_bytes (of_nat n) @ data" "n < 65536"
  shows "serve_stream ev x str s =
    (if length data < n then (None, s)
     else (Some (to_be_bytes (of_nat (length (fst (proxy_handle ev x (take n data) s)))) @
                 fst (proxy_handle ev x (take n data) s)),
           snd (proxy_handle ev x (take n data) s)))"
proof -
  have "2 \<le> length (stream_bytes str)" by (simp add: assms(1))
  from read_exact_ok [OF this] obtain str' where r: "read_exact 2 str = Inr (to_be_bytes (of_nat n), str')"
    "stream_bytes str' = data" using assms(1) by auto
  have len: "unat (from_be_bytes (to_be_bytes (of_nat n) ! 0) (to_be_bytes (of_nat n) ! 1)) = n"
    using assms(2) by (rule from_to_be_bytes)
  show ?thesis
  proof (cases "length data < n")
    case True
    have "\<exists>e. read_exact n str' = Inl e"
    proof (cases "read_exact n str'")
      case (Inr p)
      then obtain b t where "read_exact n str' = Inr (b, t)" by (cases p) simp
      from read_exact_bytes [OF this] r(2) True show ?thesis by simp
    qed simp
    with r(1) len True show ?thesis by (auto simp: serve_stream_def)
  next
    case False
    then obtain t where "read_exact n str' = Inr (take n data, t)"
      using read_exact_ok [of n str'] r(2) by auto
    with r(1) len False show ?thesis by (simp add: serve_stream_def Let_def split_beta)
  qed
qed

theorem serve_stream_framing_witness:
  "fst (serve_stream demo_env demo_proxy [Inr [0], Inr [1, 9, 9]] demo_state) =
     Some (to_be_bytes 2 @ servfail demo_codec 0 FormErr)"
proof -
  have "stream_bytes [Inr [0], Inr [1, 9, 9]] = to_be_bytes (of_nat 1) @ [9, 9]"
    by (simp add: to_be_bytes_def)
  from serve_stream_framing [OF this, of demo_env demo_proxy demo_state] show ?thesis
    by (simp add: proxy_handle_def demo_env_def demo_codec_def servfail_from_raw_def servfail_def)
qed

end
