(* ===== verification/Status.thy ===== *)
theory Status
  imports Proxy Filesystem
begin

text \<open>
  \<open>crates/dns-helper/src/status.rs\<close>: the status snapshot that the helper publishes for the
  unprivileged GUI. The JSON codec is a pair of arguments, the wall clock (seconds since the
  epoch) a number; counters and times are naturals.
\<close>

section \<open>The code\<close>

definition STATUS_PATH :: path where "STATUS_PATH = [''var'', ''lib'', ''detour'', ''status.json'']"
definition WRITE_INTERVAL :: nat where "WRITE_INTERVAL = millis 750"
definition LOG_SLICE :: nat where "LOG_SLICE = 100"

record snapshot =
  sn_active :: bool
  sn_listen :: string
  sn_pid :: nat
  sn_took_over :: bool
  sn_profile :: "string option"
  sn_providers :: "string list"
  sn_forced_domains :: "string list"
  sn_upstreams :: "string list"
  sn_cache_entries :: nat
  sn_queries_total :: nat
  sn_recent :: "query_log_entry list"
  sn_updated_at :: nat

definition snapshot_inactive :: snapshot where
  "snapshot_inactive = \<lparr>sn_active = False, sn_listen = [], sn_pid = 0, sn_took_over = False, sn_profile = None,
     sn_providers = [], sn_forced_domains = [], sn_upstreams = [], sn_cache_entries = 0, sn_queries_total = 0,
     sn_recent = [], sn_updated_at = 0\<rparr>"

record status_writer =
  sw_path :: path
  sw_base :: snapshot

definition status_writer_new :: "path \<Rightarrow> snapshot \<Rightarrow> status_writer" where
  "status_writer_new path base = \<lparr>sw_path = path, sw_base = base\<rparr>"

definition take_snapshot :: "status_writer \<Rightarrow> ('n, 'd) proxy_state \<Rightarrow> nat \<Rightarrow> snapshot" where
  "take_snapshot sw s now = (sw_base sw)\<lparr>sn_recent := log_recent (s_log s) LOG_SLICE,
     sn_queries_total := unat (log_total (s_log s)), sn_cache_entries := cache_len (s_cache s),
     sn_updated_at := now\<rparr>"

text \<open>\<open>Path::with_extension\<close> on the last component: what follows its last dot is replaced, a
  leading dot does not count.\<close>

definition with_extension :: "path \<Rightarrow> string \<Rightarrow> path" where
  "with_extension p ext =
     (if p = [] then p
      else butlast p @ [(case rsplit_once (CHR ''.'') (last p) of
          Some (stem, _) \<Rightarrow> (if stem = [] then last p else stem) | None \<Rightarrow> last p) @ ''.'' @ ext])"

definition write_snapshot :: "(snapshot \<Rightarrow> io_kind + string) \<Rightarrow> path \<Rightarrow> snapshot \<Rightarrow> (io_kind, unit) io" where
  "write_snapshot to_json path sn =
     bind_io (if path = [] then return_io () else create_dir_all (butlast path)) (\<lambda>_.
       let tmp = with_extension path ''json.tmp'' in
       bind_io (file_create tmp) (\<lambda>file.
       bind_io (case to_json sn of Inl e \<Rightarrow> fail_io e | Inr b \<Rightarrow> file_write_all file b) (\<lambda>_.
       bind_io (set_permissions file 420) (\<lambda>_.
         rename_file tmp path))))"

definition write_once :: "(snapshot \<Rightarrow> io_kind + string) \<Rightarrow> status_writer \<Rightarrow> ('n, 'd) proxy_state \<Rightarrow> nat \<Rightarrow> (io_kind, unit) io" where
  "write_once to_json sw s now = write_snapshot to_json (sw_path sw) (take_snapshot sw s now)"

text \<open>One round of \<open>run\<close>: a failed write is only logged.\<close>

definition status_tick :: "(snapshot \<Rightarrow> io_kind + string) \<Rightarrow> status_writer \<Rightarrow> ('n, 'd) proxy_state \<Rightarrow> nat \<Rightarrow> (io_kind, unit) io" where
  "status_tick to_json sw s now = ignore (write_once to_json sw s now)"

definition read_snapshot :: "(string \<Rightarrow> snapshot option) \<Rightarrow> nat \<Rightarrow> path \<Rightarrow> nat \<Rightarrow> (io_kind, snapshot) io" where
  "read_snapshot of_json now path max_age = bind_io (ok (read_to_string path)) (\<lambda>r.
     return_io (case r of
         None \<Rightarrow> snapshot_inactive
       | Some text \<Rightarrow>
           (case of_json text of
              None \<Rightarrow> snapshot_inactive
            | Some sn \<Rightarrow> if as_secs max_age < now - sn_updated_at sn then snapshot_inactive else sn)))"

definition clear :: "path \<Rightarrow> (io_kind, unit) io" where
  "clear path = ignore (remove_file path)"

section \<open>Writing without faults\<close>

lemma with_extension_butlast: "p \<noteq> [] \<Longrightarrow> butlast (with_extension p ext) = butlast p"
  by (simp add: with_extension_def)

lemma not_prefix_butlast: "butlast q = d \<Longrightarrow> q \<noteq> [] \<Longrightarrow> \<not> prefix q d"
  by (metis append_butlast_last_id not_prefix_induct prefix_length_le length_append_singleton Suc_n_not_le_n)

lemma write_snapshot_yields_at:
  assumes q: "quiet w" and path: "path \<noteq> []" "tmp = with_extension path ''json.tmp''" "tmp \<noteq> path"
    and dirs: "\<forall>n. w_fs w (take n (butlast path)) \<in> {None, Some Dir}"
    and plain: "plain_node (w_fs w tmp)" "w_fs w path \<noteq> Some Dir" and json: "json sn = Inr b"
  shows "yields (write_snapshot json path sn) w () ((make_dirs (butlast path) (w_fs w))(tmp := None, path \<mapsto> File b 420))"
    (is "yields _ w () ?out")
proof -
  let ?t = "make_dirs (butlast path) (w_fs w)"
  have tmp: "tmp \<noteq> []" "butlast tmp = butlast path"
    using path by (simp_all add: with_extension_butlast) (simp add: with_extension_def)
  have d: "stat ?t (butlast tmp) = Some Dir"
    using make_dirs_dir [OF dirs] by (subst stat_self) (simp_all add: is_link_def tmp)
  have same: "?t tmp = w_fs w tmp" "?t path = w_fs w path"
    using not_prefix_butlast [OF tmp(2,1)] not_prefix_butlast [OF refl path(1)] by (simp_all add: make_dirs_def)
  have "yields (bind_io (file_create tmp) (\<lambda>file. bind_io (file_write_all file b) (\<lambda>_.
      bind_io (set_permissions file 420) (\<lambda>_. rename_file tmp path)))) w1 () ?out"
    if w1: "w_fs w1 = ?t" "quiet w1" for w1
  proof -
    obtain k where k: "yields (file_create tmp) w1 tmp (?t(tmp \<mapsto> File [] k))"
      using file_open_yields [of w1 tmp 420] w1 d same plain by metis
    show ?thesis
    proof (rule yields_bind [OF k])
      fix w2 :: world assume w2: "w_fs w2 = ?t(tmp \<mapsto> File [] k)" "quiet w2"
      show "yields (bind_io (file_write_all tmp b) (\<lambda>_.
          bind_io (set_permissions tmp 420) (\<lambda>_. rename_file tmp path))) w2 () ?out"
      proof (rule yields_bind [OF file_write_yields [OF w2(2), of tmp "[]" k]])
        show "w_fs w2 tmp = Some (File [] k)" by (simp add: w2)
        fix w3 :: world assume w3: "w_fs w3 = (w_fs w2)(tmp \<mapsto> File ([] @ b) k)" "quiet w3"
        show "yields (bind_io (set_permissions tmp 420) (\<lambda>_. rename_file tmp path)) w3 () ?out"
        proof (rule yields_bind [OF set_permissions_yields [OF w3(2), of tmp b k]])
          show "w_fs w3 tmp = Some (File b k)" by (simp add: w3)
          fix w4 :: world assume w4: "w_fs w4 = (w_fs w3)(tmp \<mapsto> File b 420)" "quiet w4"
          show "yields (rename_file tmp path) w4 () ?out"
            unfolding rename_file_def
            using w2 w3 w4 same plain path(3) by (intro yields_sys) auto
        qed
      qed
    qed
  qed
  then have "yields (bind_io (create_dir_all (butlast path)) (\<lambda>_.
      bind_io (file_create tmp) (\<lambda>file. bind_io (file_write_all file b) (\<lambda>_.
      bind_io (set_permissions file 420) (\<lambda>_. rename_file tmp path))))) w () ?out"
    by (intro yields_bind [OF dirs_yields [OF q dirs]])
  then show ?thesis
    by (simp only: write_snapshot_def path(1) if_False path(2) [symmetric] Let_def json sum.case)
qed

section \<open>Reading\<close>

lemma read_snapshot_file:
  assumes "quiet w" "w_fs w p = Some (File c m)" "of_json c = Some sn"
  shows "fst (read_snapshot of_json now p max_age w) =
    Inr (if as_secs max_age < now - sn_updated_at sn then snapshot_inactive else sn)"
proof -
  have "stat (w_fs w) p = Some (File c m)" using assms(2) by (subst stat_self) (simp_all add: is_link_def)
  from yields_read [OF assms(1) this] have "yields (ok (read_to_string p) :: (io_kind, string option) io) w (Some c) (w_fs w)"
    by (rule yields_ok)
  then show ?thesis using assms(3) by (auto simp: read_snapshot_def yields_def bind_io_def return_io_def split: prod.splits)
qed

lemma read_snapshot_none:
  assumes "quiet w" "w_fs w p = None"
  shows "fst (read_snapshot of_json now p max_age w) = Inr snapshot_inactive"
proof -
  have "stat (w_fs w) p = None" using assms(2) by (subst stat_self) (simp_all add: is_link_def)
  then have "read_to_string p w = (Inl NotFound, w)"
    unfolding read_to_string_def query_def using assms(1) by (intro sys_quiet_error) (simp_all add: quiet_def)
  then show ?thesis by (simp add: read_snapshot_def bind_io_def return_io_def ok_def)
qed

section \<open>Properties\<close>

text \<open>C29: The GUI is never told of a helper that is not there: reading the snapshot never fails and
  reports activity only from a file that is there, decodes to an active snapshot and is not
  older than the limit (a time stamp in the future counts as fresh).\<close>

theorem read_snapshot_fresh:
  "\<exists>sn w'. read_snapshot of_json now path max_age w = (Inr sn, w') \<and> w_fs w' = w_fs w \<and>
    (sn_active sn \<longrightarrow> (\<exists>c k. stat (w_fs w) path = Some (File c k) \<and> of_json c = Some sn \<and>
       now \<le> sn_updated_at sn + as_secs max_age))"
proof (cases "read_to_string path w")
  case (Pair r w1)
  then have w1: "w_fs w1 = w_fs w" using query_fs unfolding read_to_string_def by (metis snd_conv)
  show ?thesis
  proof (cases r)
    case (Inl e)
    with Pair w1 show ?thesis
      by (simp add: read_snapshot_def bind_io_def ok_def return_io_def snapshot_inactive_def)
  next
    case (Inr c)
    with Pair have "read_to_string path w = (Inr c, w1)" by simp
    from query_Inr [OF this [unfolded read_to_string_def]] obtain k where k: "stat (w_fs w) path = Some (File c k)"
      by (auto split: option.splits node.splits)
    with Pair Inr w1 show ?thesis
      by (auto simp: read_snapshot_def bind_io_def ok_def return_io_def snapshot_inactive_def split: option.splits)
  qed
qed

theorem read_snapshot_fresh_witness:
  "let live = snapshot_inactive\<lparr>sn_active := True, sn_updated_at := 95\<rparr>;
       disk = [[''s''] \<mapsto> File ''{}'' 420]; w = \<lparr>w_fs = disk, w_faults = [], w_trace = []\<rparr> in
   fst (read_snapshot (\<lambda>_. Some live) 100 [''s''] (secs 5) w) = Inr live \<and> 100 \<le> sn_updated_at live + as_secs (secs 5)"
proof -
  let ?live = "snapshot_inactive\<lparr>sn_active := True, sn_updated_at := 95\<rparr>"
  let ?w = "\<lparr>w_fs = [[''s''] \<mapsto> File ''{}'' 420], w_faults = [], w_trace = []\<rparr>"
  have "stat (w_fs ?w) [''s''] = Some (File ''{}'' 420)" by (subst stat_self) (simp_all add: is_link_def)
  then have "read_to_string [''s''] ?w = (Inr ''{}'', put (w_fs ?w) ?w)"
    unfolding read_to_string_def query_def by (subst sys_step) (simp_all add: next_fault_def)
  then have run: "fst (read_snapshot (\<lambda>_. Some ?live) 100 [''s''] (secs 5) ?w) = Inr ?live"
    by (simp add: read_snapshot_def bind_io_def ok_def return_io_def)
  from read_snapshot_fresh [of "\<lambda>_. Some ?live" 100 "[''s'']" "secs 5" ?w] run
  have "100 \<le> sn_updated_at ?live + as_secs (secs 5)" by auto
  with run show ?thesis by (simp add: Let_def)
qed

end
