(* ===== verification/Diagnose.thy ===== *)
theory Diagnose
  imports Proxy
begin

text \<open>
  \<open>crates/dns-helper/src/diagnose.rs\<close>: the comparison of the system's resolvers with DoH. The two
  lookups of a check touch different state (sockets, the cache), so running them concurrently
  is running them one after the other. \<open>env\<close> (one per record type, for the clock) is that of the
  proxy; parsing a name and connecting with a time limit are arguments.
\<close>

section \<open>The code\<close>

definition CONNECT_TIMEOUT :: nat where "CONNECT_TIMEOUT = secs 4"
definition PROBE_PORT :: u16 where "PROBE_PORT = 443"

definition RESTRICTION_TARGETS :: "(string \<times> string) list" where
  "RESTRICTION_TARGETS =
     [(''216.239.38.120'', ''strict (restrict.youtube.com / forcesafesearch.google.com)''),
      (''216.239.38.119'', ''moderate (restrictmoderate.youtube.com)''),
      (''2001:4860:4802:32::78'', ''strict (IPv6)''),
      (''2001:4860:4802:32::77'', ''moderate (IPv6)'')]"

definition restriction_level :: "ip_addr \<Rightarrow> string option" where
  "restriction_level ip = map_option snd (find (\<lambda>(addr, _). addr = show_ip ip) RESTRICTION_TARGETS)"

datatype conclusion =
    Healthy
  | DnsInterference
  | BlockedBeyondDns
  | ResolutionFailed
  | DivergentButHealthy
  | ContentRestrictionForced

record verdict =
  vd_domain :: string
  vd_isp_addresses :: "string list"
  vd_isp_error :: "string option"
  vd_doh_addresses :: "string list"
  vd_doh_error :: "string option"
  vd_reachable :: "string list"
  vd_unreachable :: "string list"
  vd_restriction :: "string option"
  vd_conclusion :: conclusion

fun explain :: "conclusion \<Rightarrow> string" where
  "explain Healthy =
     ''ISP and DoH agree and the addresses accept connections. DNS is not your problem here.''"
| "explain DnsInterference =
     ''Your ISP'' @ [CHR 0x27] @ ''s resolver failed or returned addresses that do not work, while DoH '' @
     ''returned working ones. This is exactly what this tool routes around.''"
| "explain BlockedBeyondDns =
     ''Both resolvers answered, but no address accepts a connection. The block is at '' @
     ''the IP or SNI level, and changing DNS will not fix it.''"
| "explain ResolutionFailed =
     ''Neither resolver returned an address. Check the domain name and your connection.''"
| "explain DivergentButHealthy =
     ''The resolvers returned different addresses but both work. Normal for CDN-hosted '' @
     ''domains; nothing to fix.''"
| "explain ContentRestrictionForced =
     ''A resolver answered with a Google/YouTube content-restriction address, which is '' @
     ''how a network forces SafeSearch or YouTube Restricted Mode. If only the system '' @
     ''resolver does this, routing over DoH bypasses it.''"

definition same_set :: "ip_addr list \<Rightarrow> ip_addr list \<Rightarrow> bool" where
  "same_set a b \<longleftrightarrow> remdups_adj (sort a) = remdups_adj (sort b)"

definition conclude :: "ip_addr list \<Rightarrow> ip_addr list \<Rightarrow> ip_addr list \<Rightarrow> conclusion" where
  "conclude isp doh reachable =
     (if isp = [] \<and> doh = [] then ResolutionFailed
      else if reachable = [] then BlockedBeyondDns
      else
        (let isp_works = list_ex (\<lambda>ip. ip \<in> set reachable) isp;
             doh_works = list_ex (\<lambda>ip. ip \<in> set reachable) doh in
         case (isp_works, doh_works) of
           (False, True) \<Rightarrow> DnsInterference
         | (True, True) \<Rightarrow> (if same_set isp doh then Healthy else DivergentButHealthy)
         | (True, False) \<Rightarrow> Healthy
         | (False, False) \<Rightarrow> BlockedBeyondDns))"

definition addresses_of :: "('n, 'd) message \<Rightarrow> ip_addr list" where
  "addresses_of msg = List.map_filter (\<lambda>r. case rr_data r of
       Some (RD_A a b c d) \<Rightarrow> Some (V4 a b c d)
     | Some (RD_AAAA a b c d e f g h) \<Rightarrow> Some (V6 a b c d e f g h)
     | _ \<Rightarrow> None) (m_answers msg)"

definition split_result :: "string + ip_addr list \<Rightarrow> ip_addr list \<times> string option" where
  "split_result r = (case r of Inr addrs \<Rightarrow> (addrs, None) | Inl e \<Rightarrow> ([], Some e))"

definition to_strings :: "ip_addr list \<Rightarrow> string list" where
  "to_strings addrs = map show_ip addrs"

definition or_error :: "ip_addr list \<Rightarrow> string option \<Rightarrow> string + ip_addr list" where
  "or_error addrs last_err =
     (if addrs = [] then Inl (case last_err of Some e \<Rightarrow> e | None \<Rightarrow> ''no answer'') else Inr addrs)"

fun isp_loop :: "('n, 'd) codec \<Rightarrow> udp \<Rightarrow> forwarder \<Rightarrow> 'n \<Rightarrow> record_type list \<Rightarrow> ip_addr list \<Rightarrow> string option \<Rightarrow>
    ip_addr list \<times> string option" where
  "isp_loop codec net f name [] addrs last_err = (addrs, last_err)"
| "isp_loop codec net f name (rt # rts) addrs last_err =
     (case enc codec (build_query name rt) of
        Inl e \<Rightarrow> isp_loop codec net f name rts addrs (Some e)
      | Inr query \<Rightarrow>
          (case forward net f query of
             Inr bytes \<Rightarrow>
               (case dec codec bytes of
                  Inr msg \<Rightarrow> isp_loop codec net f name rts (addrs @ addresses_of msg) last_err
                | Inl e \<Rightarrow> isp_loop codec net f name rts addrs (Some e))
           | Inl e \<Rightarrow> isp_loop codec net f name rts addrs (Some (show_upstream_error e))))"

definition via_isp :: "('n, 'd) codec \<Rightarrow> udp \<Rightarrow> forwarder \<Rightarrow> 'n \<Rightarrow> string + ip_addr list" where
  "via_isp codec net f name =
     (if forwarder_is_empty f then Inl ''no system resolver configured''
      else (case isp_loop codec net f name [RT_A, RT_AAAA] [] None of (addrs, last_err) \<Rightarrow> or_error addrs last_err))"

fun doh_loop :: "(record_type \<Rightarrow> ('n, 'd, 'c) env) \<Rightarrow> 'c doh_resolver \<Rightarrow> 'n \<Rightarrow> record_type list \<Rightarrow> ip_addr list \<Rightarrow>
    string option \<Rightarrow> ('n, 'd) cache \<Rightarrow> (ip_addr list \<times> string option) \<times> ('n, 'd) cache" where
  "doh_loop ev r name [] addrs last_err c = ((addrs, last_err), c)"
| "doh_loop ev r name (rt # rts) addrs last_err c =
     (case resolve (ev_codec (ev rt)) (ev_post (ev rt)) (ev_to_lowercase (ev rt)) (ev_interfere (ev rt)) r name rt
         (ev_now1 (ev rt)) (ev_now2 (ev rt)) c of
        (Inr msg, c) \<Rightarrow> doh_loop ev r name rts (addrs @ addresses_of msg) last_err c
      | (Inl e, c) \<Rightarrow> doh_loop ev r name rts addrs (Some (show_resolve_error e)) c)"

definition via_doh :: "(record_type \<Rightarrow> ('n, 'd, 'c) env) \<Rightarrow> 'c doh_resolver \<Rightarrow> 'n \<Rightarrow> ('n, 'd) cache \<Rightarrow>
    (string + ip_addr list) \<times> ('n, 'd) cache" where
  "via_doh ev r name c =
     (case doh_loop ev r name [RT_A, RT_AAAA] [] None c of ((addrs, last_err), c) \<Rightarrow> (or_error addrs last_err, c))"

definition tcp_probe :: "(socket_addr \<Rightarrow> nat \<Rightarrow> bool) \<Rightarrow> ip_addr \<Rightarrow> bool" where
  "tcp_probe connects ip = connects (socket_new ip PROBE_PORT) CONNECT_TIMEOUT"

text \<open>\<open>find_map\<close> over the addresses.\<close>

fun first_level :: "ip_addr list \<Rightarrow> string option" where
  "first_level [] = None"
| "first_level (ip # ips) = (case restriction_level ip of Some l \<Rightarrow> Some l | None \<Rightarrow> first_level ips)"

definition restriction_text :: "string option \<Rightarrow> string option \<Rightarrow> string option" where
  "restriction_text isp doh =
     (case (isp, doh) of
        (Some level, Some _) \<Rightarrow>
          Some (''both resolvers return '' @ level @ '' restriction - enforced upstream, DoH cannot bypass it'')
      | (Some level, None) \<Rightarrow>
          Some (''system resolver returns '' @ level @ '' restriction; DoH does not - routing over DoH bypasses it'')
      | (None, Some level) \<Rightarrow>
          Some (''the DoH provider returns '' @ level @ '' restriction - switch to a non-filtering provider'')
      | (None, None) \<Rightarrow> None)"

definition check :: "(string \<Rightarrow> string + 'n) \<Rightarrow> (record_type \<Rightarrow> ('n, 'd, 'c) env) \<Rightarrow> (socket_addr \<Rightarrow> nat \<Rightarrow> bool) \<Rightarrow>
    'c doh_resolver \<Rightarrow> forwarder \<Rightarrow> string \<Rightarrow> ('n, 'd) cache \<Rightarrow> verdict \<times> ('n, 'd) cache" where
  "check from_utf8 ev connects r f domain c =
     (case from_utf8 domain of
        Inl e \<Rightarrow>
          (\<lparr>vd_domain = domain, vd_isp_addresses = [], vd_isp_error = Some (''invalid domain name: '' @ e),
            vd_doh_addresses = [], vd_doh_error = None, vd_reachable = [], vd_unreachable = [],
            vd_restriction = None, vd_conclusion = ResolutionFailed\<rparr>, c)
      | Inr name \<Rightarrow>
          (let isp = via_isp (ev_codec (ev RT_A)) (ev_udp (ev RT_A)) f name;
               (doh, c) = via_doh ev r name c;
               (isp_addresses, isp_error) = split_result isp;
               (doh_addresses, doh_error) = split_result doh;
               all = remdups_adj (sort (isp_addresses @ doh_addresses));
               reachable = filter (tcp_probe connects) all;
               unreachable = filter (\<lambda>ip. \<not> tcp_probe connects ip) all;
               restriction = restriction_text (first_level isp_addresses) (first_level doh_addresses);
               concl = (if restriction \<noteq> None then ContentRestrictionForced
                        else conclude isp_addresses doh_addresses reachable) in
           (\<lparr>vd_domain = domain, vd_isp_addresses = to_strings isp_addresses, vd_isp_error = isp_error,
             vd_doh_addresses = to_strings doh_addresses, vd_doh_error = doh_error,
             vd_reachable = to_strings reachable, vd_unreachable = to_strings unreachable,
             vd_restriction = restriction, vd_conclusion = concl\<rparr>, c)))"

section \<open>The verdict in terms of sets\<close>

lemma distinct_remdups_adj_sorted: "sorted xs \<Longrightarrow> distinct (remdups_adj xs)"
  by (induction xs rule: remdups_adj.induct) (auto simp: order.strict_iff_order)

lemma same_set_iff: "same_set a b \<longleftrightarrow> set a = set b"
proof
  show "set a = set b" if "same_set a b"
    using that unfolding same_set_def by (metis remdups_adj_set set_sort)
  show "same_set a b" if "set a = set b"
    unfolding same_set_def using that
    by (intro sorted_distinct_set_unique) (simp_all add: distinct_remdups_adj_sorted)
qed

lemma first_level_None: "first_level ips = None \<longleftrightarrow> (\<forall>ip \<in> set ips. restriction_level ip = None)"
  by (induction ips) (auto split: option.splits)

lemma restriction_text_None: "restriction_text a b = None \<longleftrightarrow> a = None \<and> b = None"
  by (auto simp: restriction_text_def split: option.splits)

lemma conclude_sets:
  "conclude isp doh (filter up (remdups_adj (sort (isp @ doh)))) =
     (if isp = [] \<and> doh = [] then ResolutionFailed
      else if \<not> (\<exists>ip \<in> set isp \<union> set doh. up ip) then BlockedBeyondDns
      else if \<not> (\<exists>ip \<in> set isp. up ip) then DnsInterference
      else if (\<exists>ip \<in> set doh. up ip) \<and> set isp \<noteq> set doh then DivergentButHealthy
      else Healthy)"
proof -
  have "filter up (remdups_adj (sort (isp @ doh))) = [] \<longleftrightarrow> \<not> (\<exists>ip \<in> set isp \<union> set doh. up ip)"
    by (auto simp: filter_empty_conv)
  moreover have "list_ex (\<lambda>ip. ip \<in> set (filter up (remdups_adj (sort (isp @ doh))))) isp \<longleftrightarrow> (\<exists>ip \<in> set isp. up ip)"
    "list_ex (\<lambda>ip. ip \<in> set (filter up (remdups_adj (sort (isp @ doh))))) doh \<longleftrightarrow> (\<exists>ip \<in> set doh. up ip)"
    by (auto simp: list_ex_iff)
  ultimately show ?thesis
    by (auto simp: conclude_def same_set_iff Let_def simp del: set_filter split: bool.splits)
qed

section \<open>Properties\<close>

text \<open>C31: The verdict depends only on which addresses each side returned and which of them accept a
  connection: a restriction address on either side is decisive; otherwise interference is
  reported exactly when something connects but nothing the system resolvers returned does, and
  \<open>Healthy\<close> also when DoH returned nothing that connects.\<close>

theorem verdict_meaning:
  assumes "from_utf8 domain = Inr name"
  shows "let I = set (fst (split_result (via_isp (ev_codec (ev RT_A)) (ev_udp (ev RT_A)) f name)));
             D = set (fst (split_result (fst (via_doh ev r name c))));
             up = (\<lambda>ip. connects (socket_new ip 443) (secs 4)) in
    vd_conclusion (fst (check from_utf8 ev connects r f domain c)) =
      (if \<exists>ip \<in> I \<union> D. restriction_level ip \<noteq> None then ContentRestrictionForced
       else if I = {} \<and> D = {} then ResolutionFailed
       else if \<not> (\<exists>ip \<in> I \<union> D. up ip) then BlockedBeyondDns
       else if \<not> (\<exists>ip \<in> I. up ip) then DnsInterference
       else if (\<exists>ip \<in> D. up ip) \<and> I \<noteq> D then DivergentButHealthy
       else Healthy)"
proof -
  obtain isp ie where i: "split_result (via_isp (ev_codec (ev RT_A)) (ev_udp (ev RT_A)) f name) = (isp, ie)"
    by (cases "split_result (via_isp (ev_codec (ev RT_A)) (ev_udp (ev RT_A)) f name)")
  obtain d c' where v: "via_doh ev r name c = (d, c')" by (cases "via_doh ev r name c")
  obtain doh de where d: "split_result d = (doh, de)" by (cases "split_result d")
  have probe: "tcp_probe connects = (\<lambda>ip. connects (socket_new ip 443) (secs 4))"
    by (simp add: fun_eq_iff tcp_probe_def PROBE_PORT_def CONNECT_TIMEOUT_def)
  let ?forced = "restriction_text (first_level isp) (first_level doh) \<noteq> None"
  have forced: "?forced \<longleftrightarrow> (\<exists>ip \<in> set isp \<union> set doh. restriction_level ip \<noteq> None)"
    by (auto simp: restriction_text_None first_level_None)
  have "vd_conclusion (fst (check from_utf8 ev connects r f domain c)) =
      (if ?forced then ContentRestrictionForced
       else conclude isp doh (filter (tcp_probe connects) (remdups_adj (sort (isp @ doh)))))"
    by (simp add: check_def assms i v d Let_def)
  then show ?thesis
    unfolding conclude_sets forced by (simp add: i v d Let_def probe)
qed

text \<open>A name, resolvers that give 192.0.2.1 over DoH and nothing otherwise, and a host that answers.\<close>

definition check_env :: "record_type \<Rightarrow> (string, unit, unit) env" where
  "check_env rt = \<lparr>ev_codec = \<lparr>enc = (\<lambda>m. Inr []), dec = (\<lambda>b. Inr (message_new\<lparr>m_rcode := RC_Other 5, m_answers :=
       [\<lparr>rr_name = ''a'', rr_type = RT_A, rr_ttl = 0, rr_data = Some (RD_A 192 0 2 1)\<rparr>]\<rparr>))\<rparr>,
     ev_post = (\<lambda>_ _ _. Inr \<lparr>h_status = 200, h_content_type = Some DNS_MESSAGE, h_body = Inr []\<rparr>),
     ev_udp = \<lparr>ud_bind = (\<lambda>_. Inr ()), ud_connect = (\<lambda>_. Inr ()), ud_send = (\<lambda>_ _. Inr ()), ud_recv = (\<lambda>_ _ _. None)\<rparr>,
     ev_to_ascii = id, ev_to_lowercase = id, ev_show_name = id, ev_show_type = (\<lambda>_. []), ev_show_rdata = (\<lambda>_. []),
     ev_debug_rcode = (\<lambda>_. []), ev_interfere = id, ev_now1 = 0, ev_now2 = 0, ev_elapsed = 0\<rparr>"

definition demo_doh :: "unit doh_resolver" where
  "demo_doh = \<lparr>r_upstreams = [\<lparr>u_provider = quad9, u_client = ()\<rparr>]\<rparr>"

lemma demo_sides:
  "via_isp (ev_codec (check_env RT_A)) (ev_udp (check_env RT_A)) (forwarder_new []) ''a'' = Inl ''no system resolver configured''"
  "fst (via_doh check_env demo_doh ''a'' (cache_new 2)) = Inr [V4 192 0 2 1, V4 192 0 2 1]"
  by (simp add: via_isp_def forwarder_is_empty_def forwarder_new_def)
    (simp add: via_doh_def or_error_def resolve_def resolve_uncached_def query_one_def check_env_def demo_doh_def
      cache_get_at_def cache_new_def cache_insert_at_def cacheable_ttl_def message_new_def addresses_of_def
      List.map_filter_simps DNS_MESSAGE_def starts_with_def Let_def)

theorem verdict_meaning_witness:
  "vd_conclusion (fst (check Inr check_env (\<lambda>_ _. True) demo_doh (forwarder_new []) ''a'' (cache_new 2))) = DnsInterference"
proof -
  have "restriction_level (V4 192 0 2 1) = None"
    by (simp add: restriction_level_def RESTRICTION_TARGETS_def show_quad_def show_nat_eval)
  with verdict_meaning [of Inr "''a''" "''a''" check_env "forwarder_new []" demo_doh "cache_new 2" "\<lambda>_ _. True"]
  show ?thesis by (simp add: demo_sides split_result_def)
qed

end
