(* ===== verification/Helper.thy ===== *)
theory Helper
  imports Config Resolvconf Filter_Route Apps Status Diagnose
begin

text \<open>
  \<open>crates/dns-helper/src/main.rs\<close>: the commands of the privileged helper, composed of the other
  theories as the code composes them. What a command prints is a string; \<open>anyhow\<close> errors are a
  message, or a cause with an optional context. \<open>machine\<close> holds what the commands call outside
  the repository; \<open>run_env\<close> what a run of the server meets: whether the server has ended when it
  is first looked at, the moments the status is written at, and the event that ends the run.
  Log messages are left out. \<open>join\<close> is \<open>join_or_none\<close>, and the command functions have the suffix \<open>_cmd\<close>.
\<close>

section \<open>Errors and commands\<close>

datatype cause =
    From_Io io_kind
  | From_Resolv resolv_error
  | From_Resolver resolve_error
  | From_Tunnel tunnel_error
  | From_Config config_error
  | From_Addr_Parse
  | From_Join
  | From_Json string

datatype cli_error = Bail string | Caused "string option" cause

datatype tunnel_action =
    Tunnel_Up path "nat option"
  | Tunnel_Down
  | Tunnel_Attach "nat option" string "nat list" bool
  | Tunnel_Rules "nat option"

datatype filter_route_action =
    Filter_Up "nat option" u16
  | Filter_Down
  | Filter_Rules "nat option" u16

datatype command =
    Cmd_Run "string option" bool "path option"
  | Cmd_Restore
  | Cmd_Status
  | Cmd_Stop
  | Cmd_Filter_Proxy socket_addr bool
  | Cmd_Filter_Route filter_route_action
  | Cmd_Tunnel tunnel_action
  | Cmd_Diagnose "string list" bool

definition context_io :: "string \<Rightarrow> ('e \<Rightarrow> cause) \<Rightarrow> ('e, 'a) io \<Rightarrow> (cli_error, 'a) io" where
  "context_io c f = map_err (\<lambda>e. Caused (Some c) (f e))"

section \<open>Attaching a running application\<close>

record 'k machine =
  mc_sys :: "'k sysfs"
  mc_canonicalize :: "string \<Rightarrow> 'k \<Rightarrow> io_kind + path"
  mc_output :: "string list \<Rightarrow> 'k \<Rightarrow> (io_kind + bool \<times> string) \<times> 'k"
  mc_exec :: "'k exec"
  mc_lookup :: "string \<Rightarrow> socket_addr list option"
  mc_env :: "string \<Rightarrow> string option"
  mc_getuid :: nat
  mc_show_io :: "io_kind \<Rightarrow> string"

fun check_roots :: "'k sysfs \<Rightarrow> nat \<Rightarrow> nat list \<Rightarrow> 'k \<Rightarrow> string + unit" where
  "check_roots sf uid [] k = Inr ()"
| "check_roots sf uid (pid # pids) k =
     (case process_uid sf pid k of
        Some owner \<Rightarrow>
          if owner = uid then check_roots sf uid pids k
          else Inl (''pid '' @ show_nat pid @ '' belongs to uid '' @ show_nat owner @ '', not '' @ show_nat uid)
      | None \<Rightarrow> Inl (''pid '' @ show_nat pid @ '' is not running''))"

fun move_all :: "'k sysfs \<Rightarrow> (io_kind \<Rightarrow> string) \<Rightarrow> path \<Rightarrow> nat list \<Rightarrow> nat list \<Rightarrow> 'k \<Rightarrow> (string + nat list) \<times> 'k" where
  "move_all sf show_io procs_file [] moved k = (Inr moved, k)"
| "move_all sf show_io procs_file (pid # batch) moved k =
     (case sf_write_pid sf procs_file pid k of
        (Moved, k) \<Rightarrow> move_all sf show_io procs_file batch (moved @ [pid]) k
      | (Gone, k) \<Rightarrow> move_all sf show_io procs_file batch moved k
      | (Move_Failed e, k) \<Rightarrow> (Inl (''moving pid '' @ show_nat pid @ '': '' @ show_io e), k))"

fun move_rounds :: "'k sysfs \<Rightarrow> (io_kind \<Rightarrow> string) \<Rightarrow> nat \<Rightarrow> path \<Rightarrow> nat list \<Rightarrow> nat \<Rightarrow> nat list \<Rightarrow> 'k \<Rightarrow>
    (string + nat list) \<times> 'k" where
  "move_rounds sf show_io uid procs_file roots 0 moved k = (Inr moved, k)"
| "move_rounds sf show_io uid procs_file roots (Suc rounds) moved k =
     (let tree = descendants roots (process_table sf k);
          batch = filter (\<lambda>p. p \<notin> set moved \<and> process_uid sf p k = Some uid) tree in
      if batch = [] then (Inr moved, k)
      else (case move_all sf show_io procs_file batch moved k of
              (Inl e, k) \<Rightarrow> (Inl e, k)
            | (Inr moved, k) \<Rightarrow> move_rounds sf show_io uid procs_file roots rounds moved k))"

fun reset_loop :: "(string list \<Rightarrow> 'k \<Rightarrow> (io_kind + bool \<times> string) \<times> 'k) \<Rightarrow> nat list \<Rightarrow> string list \<Rightarrow> nat \<Rightarrow> 'k \<Rightarrow> nat \<times> 'k" where
  "reset_loop out moved [] reset_count k = (reset_count, k)"
| "reset_loop out moved (line # ls) reset_count k =
     (case parse_ss_line line of
        None \<Rightarrow> reset_loop out moved ls reset_count k
      | Some sock \<Rightarrow>
          if \<not> list_ex (\<lambda>p. p \<in> set moved) (se_pids sock) then reset_loop out moved ls reset_count k
          else if is_local_destination (sa_ip (se_peer sock)) then reset_loop out moved ls reset_count k
          else
            (let proto = (if se_proto sock = ''udp'' then ''-u'' else ''-t'') in
             case out [''ss'', ''-K'', proto, ss_kill_filter sock] k of
               (Inr (True, _), k) \<Rightarrow> reset_loop out moved ls (reset_count + 1) k
             | (_, k) \<Rightarrow> reset_loop out moved ls reset_count k))"

definition attach :: "'k machine \<Rightarrow> nat \<Rightarrow> string \<Rightarrow> nat list \<Rightarrow> bool \<Rightarrow> 'k \<Rightarrow> (string \<times> (cli_error + unit)) \<times> 'k" where
  "attach mc uid hold roots reset k =
     (if uid = 0 then (([], Inl (Bail (''refusing to act on root'' @ [CHR 0x27] @ ''s processes''))), k)
      else
        (let slice = user_service_cgroup uid @ [SLICE] in
         case mc_canonicalize mc hold k of
           Inl e \<Rightarrow> (([], Inl (Bail (''holding scope '' @ hold @ '': '' @ mc_show_io mc e))), k)
         | Inr hold \<Rightarrow>
             if \<not> prefix slice hold \<or> hold = slice
             then (([], Inl (Bail (display hold @ '' is not inside '' @ display slice))), k)
             else
               (case check_roots (mc_sys mc) uid roots k of
                  Inl e \<Rightarrow> (([], Inl (Bail e)), k)
                | Inr _ \<Rightarrow>
                    (case move_rounds (mc_sys mc) (mc_show_io mc) uid (hold @ [''cgroup.procs'']) roots 5 [] k of
                       (Inl e, k) \<Rightarrow> (([], Inl (Bail e)), k)
                     | (Inr moved, k) \<Rightarrow>
                         (let line = unlines [''Moved '' @ show_nat (length moved) @ '' process(es) into the tunnel.''] in
                          if \<not> reset then ((line, Inr ()), k)
                          else
                            (case mc_output mc [''ss'', ''-tunpH''] k of
                               (Inl e, k) \<Rightarrow> ((line, Inl (Caused None (From_Io e))), k)
                             | (Inr (_, listing), k) \<Rightarrow>
                                 (case reset_loop (mc_output mc) moved (str_lines listing) 0 k of
                                    (reset_count, k) \<Rightarrow>
                                      ((line @ unlines [''Reset '' @ show_nat reset_count @
                                          '' open connection(s); they will reconnect through the tunnel.''], Inr ()), k))))))))"

section \<open>The filter route and the tunnel\<close>

definition invoking_uid :: "'k machine \<Rightarrow> nat option \<Rightarrow> nat" where
  "invoking_uid mc explicit =
     (case explicit of
        Some uid \<Rightarrow> uid
      | None \<Rightarrow>
          (case Option.bind (mc_env mc ''PKEXEC_UID'') parse_u32 of
             Some uid \<Rightarrow> uid
           | None \<Rightarrow> (case Option.bind (mc_env mc ''SUDO_UID'') parse_u32 of Some uid \<Rightarrow> uid | None \<Rightarrow> mc_getuid mc)))"

definition filter_remove :: "'k exec \<Rightarrow> files \<Rightarrow> 'k \<Rightarrow> 'k" where
  "filter_remove exec t k = fold (\<lambda>s k. snd (exec t (st_argv s) k)) filter_down_steps k"

fun filter_install :: "'k exec \<Rightarrow> files \<Rightarrow> step list \<Rightarrow> 'k \<Rightarrow> (cli_error + unit) \<times> 'k" where
  "filter_install exec t [] k = (Inr (), k)"
| "filter_install exec t (s # ss) k =
     (case exec t (st_argv s) k of
        (Spawn_Failed e, k) \<Rightarrow> (Inl (Caused None (From_Io e)), k)
      | (Exited success stderr, k) \<Rightarrow>
          if success then filter_install exec t ss k
          else (Inl (Bail (str_join '' '' (st_argv s) @ '' failed: '' @ trim stderr)), filter_remove exec t k))"

definition RUN_DIR :: path where "RUN_DIR = [''run'', ''detour'']"

definition filter_files :: "nat \<Rightarrow> u16 \<Rightarrow> (io_kind, unit) io" where
  "filter_files uid port = bind_io (create_dir_all RUN_DIR) (\<lambda>_.
     fs_write (RUN_DIR @ [''filter.nft'']) (filter_nft_ruleset uid (unat port)))"

definition filter_route_cmd :: "'k machine \<Rightarrow> filter_route_action \<Rightarrow> world \<times> 'k \<Rightarrow>
    (string \<times> (cli_error + unit)) \<times> world \<times> 'k" where
  "filter_route_cmd mc action wk =
     (let (w, k) = wk in
      case action of
        Filter_Rules uid port \<Rightarrow> ((filter_nft_ruleset (invoking_uid mc uid) (unat port), Inr ()), w, k)
      | Filter_Down \<Rightarrow> ((unlines [''Filter redirect removed.''], Inr ()), w, filter_remove (mc_exec mc) (w_fs w) k)
      | Filter_Up uid port \<Rightarrow>
          (let uid = invoking_uid mc uid in
           if uid = 0 then
             (([], Inl (Bail (''refusing to redirect root'' @ [CHR 0x27] @ ''s slice; pass --uid for the desktop user''))), w, k)
           else
             (let k = filter_remove (mc_exec mc) (w_fs w) k in
              case filter_files uid port w of
                (Inl e, w) \<Rightarrow> (([], Inl (Caused None (From_Io e))), w, k)
              | (Inr _, w) \<Rightarrow>
                  (case filter_install (mc_exec mc) (w_fs w) (filter_up_steps (display (RUN_DIR @ [''filter.nft'']))) k of
                     (Inl e, k) \<Rightarrow> (([], Inl e), w, k)
                   | (Inr _, k) \<Rightarrow>
                       ((unlines [''Apps in '' @ SLICE @ '' now have their HTTPS routed through the filter bypass on port '' @
                           show_nat (unat port) @ ''.''], Inr ()), w, k)))))"

definition tunnel_cmd :: "'k machine \<Rightarrow> tunnel_action \<Rightarrow> world \<times> 'k \<Rightarrow>
    (string \<times> (cli_error + unit)) \<times> world \<times> 'k" where
  "tunnel_cmd mc action wk =
     (let (w, k) = wk in
      case action of
        Tunnel_Up wg_config uid \<Rightarrow>
          (let uid = invoking_uid mc uid in
           if uid = 0 then
             (([], Inl (Bail (''refusing to tunnel root'' @ [CHR 0x27] @ ''s slice; pass --uid for the desktop user''))), w, k)
           else
             (case wg_load wg_config w of
                (Inl e, w) \<Rightarrow> (([], Inl (Caused None (From_Tunnel e))), w, k)
              | (Inr config, w) \<Rightarrow>
                  (case up (mc_exec mc) (mc_lookup mc) config uid RUN_DIR (w, k) of
                     (Inl e, w, k) \<Rightarrow> (([], Inl (Caused None (From_Tunnel e))), w, k)
                   | (Inr _, w, k) \<Rightarrow>
                       ((unlines ([''Tunnel up on '' @ IFACE @ '' for uid '' @ show_nat uid @ ''.''] @
                           (case wg_endpoint config of Some ep \<Rightarrow> [''  endpoint: '' @ ep] | None \<Rightarrow> [])), Inr ()), w, k))))
      | Tunnel_Down \<Rightarrow> ((unlines [''Tunnel down.''], Inr ()), w, down (mc_exec mc) (w_fs w) k)
      | Tunnel_Attach uid hold pids reset \<Rightarrow>
          (case attach mc (invoking_uid mc uid) hold pids reset k of (r, k) \<Rightarrow> (r, w, k))
      | Tunnel_Rules uid \<Rightarrow> ((nft_ruleset (invoking_uid mc uid), Inr ()), w, k))"

section \<open>The server\<close>

text \<open>How the server task ended: it panicked, or \<open>Proxy::serve\<close> returned.\<close>

datatype server_end = Panicked | Returned "cli_error + unit"

datatype ending = Interrupted | Terminated | Server_Ended server_end

record ('n, 'd, 'c) run_env =
  re_host :: host
  re_client :: "'c client_builder"
  re_early :: "'c proxy \<Rightarrow> socket_addr \<Rightarrow> server_end option"
  re_json :: "snapshot \<Rightarrow> io_kind + string"
  re_first :: "('n, 'd) proxy_state \<times> nat"
  re_rounds :: "(('n, 'd) proxy_state \<times> nat) list"
  re_sigterm :: "io_kind + unit"
  re_ending :: ending

definition reconcile_error :: "resolv_error \<Rightarrow> cli_error" where
  "reconcile_error e =
     (case e of
        AlreadyActive pid \<Rightarrow>
          Bail (''another helper (pid '' @ show_nat (unat pid) @ '') already holds DNS. Stop it first.'')
      | _ \<Rightarrow> Caused (Some ''reconciling previous state'') (From_Resolv e))"

text \<open>\<open>server.await.context(...)\<close> and then \<open>?\<close>.\<close>

definition server_result :: "server_end \<Rightarrow> cli_error + unit" where
  "server_result e = (case e of Panicked \<Rightarrow> Inl (Caused (Some ''proxy task panicked'') From_Join) | Returned r \<Rightarrow> r)"

definition of_result :: "'e + 'a \<Rightarrow> ('e, 'a) io" where
  "of_result r = (case r of Inl e \<Rightarrow> fail_io e | Inr x \<Rightarrow> return_io x)"

definition run_snapshot :: "socket_addr \<Rightarrow> u32 \<Rightarrow> bool \<Rightarrow> string option \<Rightarrow> string list \<Rightarrow> string list \<Rightarrow> ip_addr list \<Rightarrow> snapshot" where
  "run_snapshot listen pid took_over profile_id names forced original =
     \<lparr>sn_active = True, sn_listen = show_socket listen, sn_pid = unat pid, sn_took_over = took_over,
      sn_profile = profile_id, sn_providers = names, sn_forced_domains = forced,
      sn_upstreams = map show_ip original, sn_cache_entries = 0, sn_queries_total = 0, sn_recent = [],
      sn_updated_at = 0\<rparr>"

fun status_rounds :: "(snapshot \<Rightarrow> io_kind + string) \<Rightarrow> status_writer \<Rightarrow> (('n, 'd) proxy_state \<times> nat) list \<Rightarrow> (cli_error, unit) io" where
  "status_rounds json sw [] = return_io ()"
| "status_rounds json sw ((s, now) # rest) =
     bind_io (map_err (\<lambda>e. Caused None (From_Io e)) (status_tick json sw s now)) (\<lambda>_. status_rounds json sw rest)"

text \<open>From the status file to the end of the run.\<close>

definition run_end :: "('n, 'd, 'c) run_env \<Rightarrow> path \<Rightarrow> bool \<Rightarrow> (cli_error, unit) io" where
  "run_end re status_path took_over =
     (let h = re_host re;
          cleared = map_err (\<lambda>e. Caused None (From_Io e)) (clear status_path);
          restored = (if took_over
                      then context_io ''restoring /etc/resolv.conf'' From_Resolv (restore h manager_default)
                      else return_io ()) in
      case re_sigterm re of
        Inl e \<Rightarrow> fail_io (Caused (Some ''installing SIGTERM handler'') (From_Io e))
      | Inr _ \<Rightarrow>
          (case re_ending re of
             Server_Ended Panicked \<Rightarrow> of_result (server_result Panicked)
           | Server_Ended (Returned (Inl e)) \<Rightarrow>
               bind_io cleared (\<lambda>_.
               bind_io (if took_over then ignore (restore h manager_default) else return_io ()) (\<lambda>_. fail_io e))
           | _ \<Rightarrow> bind_io cleared (\<lambda>_. restored)))"

text \<open>From the moment the server is up.\<close>

definition run_serving :: "('n, 'd, 'c) run_env \<Rightarrow> 'c doh_resolver \<Rightarrow> policy \<Rightarrow> ip_addr list \<Rightarrow> socket_addr \<Rightarrow>
    string option \<Rightarrow> bool \<Rightarrow> path \<Rightarrow> (cli_error, unit) io" where
  "run_serving re resolver policy original listen profile_id no_takeover status_path =
     bind_io
       (if no_takeover then return_io False
        else bind_io (context_io ''taking over /etc/resolv.conf'' From_Resolv
                        (take_over (re_host re) manager_default (sa_ip listen))) (\<lambda>_. return_io True)) (\<lambda>took_over.
     let base = run_snapshot listen (h_pid (re_host re)) took_over profile_id (provider_names resolver)
                  (force_doh policy) original;
         sw = status_writer_new status_path base in
     bind_io (ignore (write_once (re_json re) sw (fst (re_first re)) (snd (re_first re)))) (\<lambda>_.
     bind_io (status_rounds (re_json re) sw (re_rounds re)) (\<lambda>_.
       run_end re status_path took_over)))"

definition run :: "('n, 'd, 'c) run_env \<Rightarrow> config \<Rightarrow> string option \<Rightarrow> bool \<Rightarrow> path option \<Rightarrow> (cli_error, unit) io" where
  "run re config profile_id no_takeover status_path =
     (let status_path = (case status_path of Some p \<Rightarrow> p | None \<Rightarrow> STATUS_PATH) in
      case parse_socket (c_listen config) of
        None \<Rightarrow> fail_io (Caused (Some (''invalid listen address '' @ debug_str (c_listen config))) From_Addr_Parse)
      | Some listen \<Rightarrow>
          bind_io (map_err reconcile_error (reconcile_after_crash (re_host re) manager_default)) (\<lambda>_.
          bind_io (context_io ''reading current nameservers'' From_Resolv (current_nameservers manager_default)) (\<lambda>original.
          let forwarder = forwarder_new (to_socket_addrs original) in
          case resolver_new (re_client re) (c_providers config) of
            Inl e \<Rightarrow> fail_io (Caused (Some ''building DoH resolver'') (From_Resolver e))
          | Inr (resolver, cache :: ('n, 'd) cache) \<Rightarrow>
              (let policy = policy_for config profile_id; proxy = proxy_new resolver forwarder policy in
               case re_early re proxy listen of
                 Some e \<Rightarrow> of_result (server_result e)
               | None \<Rightarrow> run_serving re resolver policy original listen profile_id no_takeover status_path))))"

section \<open>Restoring, stopping and the status\<close>

definition restore_cmd :: "host \<Rightarrow> world \<Rightarrow> (string \<times> (cli_error + unit)) \<times> world" where
  "restore_cmd h w =
     (case restore h manager_default w of
        (Inr _, w) \<Rightarrow> ((unlines [''Restored /etc/resolv.conf from backup.''], Inr ()), w)
      | (Inl NoBackup, w) \<Rightarrow>
          ((unlines [''No backup present; /etc/resolv.conf was not modified by this tool.''], Inr ()), w)
      | (Inl e, w) \<Rightarrow> (([], Inl (Caused (Some ''restoring /etc/resolv.conf'') (From_Resolv e))), w))"

text \<open>The polls of \<open>stop\<close>: whether \<open>kill(pid, 0)\<close> fails within \<open>n\<close> of them.\<close>

fun wait_gone :: "(nat \<Rightarrow> bool) \<Rightarrow> nat \<Rightarrow> nat \<Rightarrow> bool" where
  "wait_gone alive i 0 = False"
| "wait_gone alive i (Suc n) = (if \<not> alive i then True else wait_gone alive (Suc i) n)"

definition show_int :: "int \<Rightarrow> string" where
  "show_int i = (if i < 0 then CHR ''-'' # show_nat (nat (- i)) else show_nat (nat i))"

record signals =
  sg_of_json :: "string \<Rightarrow> snapshot option"
  sg_now :: nat
  sg_kill_term :: "int \<Rightarrow> string option"
  sg_alive :: "nat \<Rightarrow> bool"

definition stop_cmd :: "host \<Rightarrow> signals \<Rightarrow> world \<Rightarrow> (string \<times> (cli_error + unit)) \<times> world" where
  "stop_cmd h sg w =
     (case read_snapshot (sg_of_json sg) (sg_now sg) STATUS_PATH (secs 10) w of
        (Inl e, w) \<Rightarrow> (([], Inl (Caused None (From_Io e))), w)
      | (Inr sn, w) \<Rightarrow>
          if \<not> sn_active sn \<or> sn_pid sn = 0 then
            (let line = unlines [''No helper is running.''] in
             case read_state h manager_default w of
               (Inl e, w) \<Rightarrow> ((line, Inl (Caused None (From_Resolv e))), w)
             | (Inr None, w) \<Rightarrow> ((line, Inr ()), w)
             | (Inr (Some _), w) \<Rightarrow>
                 ((line @ unlines [''Found leftover state; restoring DNS.''], Inr ()), snd (restore h manager_default w)))
          else
            (let pid = sint (of_nat (sn_pid sn) :: u32) in
             case sg_kill_term sg pid of
               Some err \<Rightarrow> (([], Inl (Bail (''could not signal helper pid '' @ show_int pid @ '': '' @ err))), w)
             | None \<Rightarrow>
                 (let line = unlines [''Sent shutdown signal to helper pid '' @ show_int pid @ ''.''] in
                  if wait_gone (sg_alive sg) 0 50 then ((line @ unlines [''Helper stopped and DNS restored.''], Inr ()), w)
                  else ((line, Inl (Bail (''helper pid '' @ show_int pid @ '' did not exit within 5s; run `dns-helper restore` if DNS is still redirected''))), w))))"

text \<open>\<open>{:?}\<close> of a list whose items are shown by \<open>f\<close>.\<close>

definition debug_list :: "('a \<Rightarrow> string) \<Rightarrow> 'a list \<Rightarrow> string" where
  "debug_list f xs = ''['' @ str_join '', '' (map f xs) @ '']''"

definition status_cmd :: "host \<Rightarrow> signals \<Rightarrow> world \<Rightarrow> (string \<times> (cli_error + unit)) \<times> world" where
  "status_cmd h sg w =
     (case read_state h manager_default w of
        (Inl (Denied p), w) \<Rightarrow>
          (case read_snapshot (sg_of_json sg) (sg_now sg) STATUS_PATH (secs 10) w of
             (Inl e, w) \<Rightarrow> (([], Inl (Caused None (From_Io e))), w)
           | (Inr sn, w) \<Rightarrow>
               ((if sn_active sn
                 then unlines [''ACTIVE  - held by pid '' @ show_nat (sn_pid sn),
                        ''  original nameservers: '' @ debug_list debug_str (sn_upstreams sn),
                        ''  queries served: '' @ show_nat (sn_queries_total sn)]
                 else unlines [''UNKNOWN - takeover state exists but is root-only and no live helper'',
                        ''  is publishing status. Run `sudo dns-helper status` for details.''], Inr ()), w))
      | (Inl e, w) \<Rightarrow> (([], Inl (Caused None (From_Resolv e))), w)
      | (Inr None, w) \<Rightarrow> ((unlines [''INACTIVE - system DNS is untouched.''], Inr ()), w)
      | (Inr (Some state), w) \<Rightarrow>
          (case is_active h manager_default w of
             (Inl e, w) \<Rightarrow> (([], Inl (Caused None (From_Resolv e))), w)
           | (Inr True, w) \<Rightarrow>
               ((unlines [''ACTIVE  - held by pid '' @ show_nat (unat (ts_pid state)),
                   ''  original nameservers: '' @ debug_list show_ip (ts_original_nameservers state)], Inr ()), w)
           | (Inr False, w) \<Rightarrow>
               ((unlines [''STALE   - pid '' @ show_nat (unat (ts_pid state)) @ '' is gone; run `dns-helper restore`.''], Inr ()), w)))"

section \<open>Diagnosing\<close>

definition join_or_none :: "string list \<Rightarrow> string" where
  "join_or_none items = (if items = [] then ''(none)'' else str_join '', '' items)"

fun debug_conclusion :: "conclusion \<Rightarrow> string" where
  "debug_conclusion Healthy = ''Healthy''"
| "debug_conclusion DnsInterference = ''DnsInterference''"
| "debug_conclusion BlockedBeyondDns = ''BlockedBeyondDns''"
| "debug_conclusion ResolutionFailed = ''ResolutionFailed''"
| "debug_conclusion DivergentButHealthy = ''DivergentButHealthy''"
| "debug_conclusion ContentRestrictionForced = ''ContentRestrictionForced''"

definition report :: "verdict \<Rightarrow> string" where
  "report v = unlines
     ([[], ''=== '' @ vd_domain v @ '' ==='',
       (case vd_isp_error v of
          Some e \<Rightarrow> ''  ISP DNS  : FAILED ('' @ e @ '')'' | None \<Rightarrow> ''  ISP DNS  : '' @ join_or_none (vd_isp_addresses v)),
       (case vd_doh_error v of
          Some e \<Rightarrow> ''  DoH      : FAILED ('' @ e @ '')'' | None \<Rightarrow> ''  DoH      : '' @ join_or_none (vd_doh_addresses v)),
       ''  reachable: '' @ join_or_none (vd_reachable v)] @
      (if vd_unreachable v \<noteq> [] then [''  DEAD     : '' @ join_or_none (vd_unreachable v)] else []) @
      (case vd_restriction v of Some r \<Rightarrow> [''  RESTRICT : '' @ r] | None \<Rightarrow> []) @
      [''  verdict  : '' @ debug_conclusion (vd_conclusion v), ''  '' @ explain (vd_conclusion v)])"

text \<open>The checks in turn, on the resolver's cache; \<open>ev i\<close> is the environment of check number \<open>i\<close>.\<close>

record ('n, 'd, 'c) diag_env =
  dg_from_utf8 :: "string \<Rightarrow> string + 'n"
  dg_connects :: "socket_addr \<Rightarrow> nat \<Rightarrow> bool"
  dg_ev :: "nat \<Rightarrow> record_type \<Rightarrow> ('n, 'd, 'c) env"
  dg_to_json :: "verdict list \<Rightarrow> string + string"

fun check_all :: "('n, 'd, 'c) diag_env \<Rightarrow> 'c doh_resolver \<Rightarrow> forwarder \<Rightarrow> nat \<Rightarrow> string list \<Rightarrow> ('n, 'd) cache \<Rightarrow> verdict list" where
  "check_all dg r f i [] c = []"
| "check_all dg r f i (domain # domains) c =
     (case check (dg_from_utf8 dg) (dg_ev dg i) (dg_connects dg) r f domain c of
        (v, c) \<Rightarrow> v # check_all dg r f (Suc i) domains c)"

definition diagnose_upstreams :: "host \<Rightarrow> (cli_error, ip_addr list) io" where
  "diagnose_upstreams h =
     bind_io (map_err (\<lambda>e. Caused None (From_Resolv e)) (read_state h manager_default)) (\<lambda>st.
       if (case st of Some state \<Rightarrow> ts_original_nameservers state \<noteq> [] | None \<Rightarrow> False)
       then return_io (case st of Some state \<Rightarrow> ts_original_nameservers state | None \<Rightarrow> [])
       else bind_io (ok (current_nameservers manager_default)) (\<lambda>ns.
              return_io (case ns of Some ips \<Rightarrow> ips | None \<Rightarrow> [])))"

definition diagnose_cmd :: "host \<Rightarrow> 'c client_builder \<Rightarrow> ('n, 'd, 'c) diag_env \<Rightarrow> config \<Rightarrow> string list \<Rightarrow> bool \<Rightarrow>
    (cli_error, string) io" where
  "diagnose_cmd h client dg config domains json =
     bind_io (diagnose_upstreams h) (\<lambda>upstreams.
       case resolver_new client (c_providers config) of
         Inl e \<Rightarrow> fail_io (Caused (Some ''building DoH resolver'') (From_Resolver e))
       | Inr (resolver, cache) \<Rightarrow>
           (let verdicts = check_all dg resolver (forwarder_new (to_socket_addrs upstreams)) 0 domains cache in
            if json then
              (case dg_to_json dg verdicts of
                 Inl e \<Rightarrow> fail_io (Caused None (From_Json e))
               | Inr text \<Rightarrow> return_io (unlines [text]))
            else return_io (concat (map report verdicts) @ unlines [[]])))"

section \<open>The main function\<close>

text \<open>After the command line is parsed: find and load the configuration, then dispatch. The two
  directories are \<open>XDG_CONFIG_HOME\<close> and \<open>HOME\<close>; \<open>serve transparent listen\<close> is how the accept loop
  of the filter proxy ends.\<close>

definition main_cmd :: "path option \<Rightarrow> path option \<Rightarrow> (string \<Rightarrow> string + config) \<Rightarrow> 'k machine \<Rightarrow> ('n, 'd, 'c) run_env \<Rightarrow>
    signals \<Rightarrow> ('n, 'd, 'c) diag_env \<Rightarrow> (bool \<Rightarrow> socket_addr \<Rightarrow> cli_error + unit) \<Rightarrow> path option \<Rightarrow> command \<Rightarrow> world \<times> 'k \<Rightarrow>
    (string \<times> (cli_error + unit)) \<times> world \<times> 'k" where
  "main_cmd xdg home of_toml mc re sg dg serve cli_config command wk =
     (let (w, k) = wk in
      case bind_io
          (case cli_config of
             Some p \<Rightarrow> return_io p
           | None \<Rightarrow> context_io ''locating config file'' From_Config (default_path xdg home))
          (\<lambda>config_path. context_io (''loading config from '' @ display config_path) From_Config (load of_toml config_path)) w of
        (Inl e, w) \<Rightarrow> (([], Inl e), w, k)
      | (Inr config, w) \<Rightarrow>
          (case command of
             Cmd_Run profile_id no_takeover status_path \<Rightarrow>
               (case run re config profile_id no_takeover status_path w of (r, w) \<Rightarrow> (([], r), w, k))
           | Cmd_Restore \<Rightarrow> (case restore_cmd (re_host re) w of (r, w) \<Rightarrow> (r, w, k))
           | Cmd_Status \<Rightarrow> (case status_cmd (re_host re) sg w of (r, w) \<Rightarrow> (r, w, k))
           | Cmd_Stop \<Rightarrow> (case stop_cmd (re_host re) sg w of (r, w) \<Rightarrow> (r, w, k))
           | Cmd_Filter_Proxy listen transparent \<Rightarrow> (([], serve transparent listen), w, k)
           | Cmd_Filter_Route action \<Rightarrow> filter_route_cmd mc action (w, k)
           | Cmd_Tunnel action \<Rightarrow> tunnel_cmd mc action (w, k)
           | Cmd_Diagnose domains json \<Rightarrow>
               (case diagnose_cmd (re_host re) (re_client re) dg config domains json w of
                  (Inl e, w) \<Rightarrow> (([], Inl e), w, k)
                | (Inr out, w) \<Rightarrow> ((out, Inr ()), w, k))))"

section \<open>Attaching: what is written\<close>

text \<open>The machine with a log of the writes: the file, the process and the state at the time.\<close>

definition log_sys :: "'k sysfs \<Rightarrow> ('k \<times> (path \<times> nat \<times> 'k) list) sysfs" where
  "log_sys sf = \<lparr>sf_list = (\<lambda>p (k, _). sf_list sf p k), sf_read = (\<lambda>p (k, _). sf_read sf p k),
     sf_write_pid = (\<lambda>p n (k, l). case sf_write_pid sf p n k of (r, k') \<Rightarrow> (r, k', l @ [(p, n, k)])),
     sf_now = (\<lambda>(k, _). sf_now sf k), sf_sleep = (\<lambda>d (k, l). (sf_sleep sf d k, l))\<rparr>"

definition log_machine :: "'k machine \<Rightarrow> ('k \<times> (path \<times> nat \<times> 'k) list) machine" where
  "log_machine mc = \<lparr>mc_sys = log_sys (mc_sys mc), mc_canonicalize = (\<lambda>p (k, _). mc_canonicalize mc p k),
     mc_output = (\<lambda>argv (k, l). case mc_output mc argv k of (r, k') \<Rightarrow> (r, k', l)),
     mc_exec = (\<lambda>t argv (k, l). case mc_exec mc t argv k of (r, k') \<Rightarrow> (r, k', l)),
     mc_lookup = mc_lookup mc, mc_env = mc_env mc, mc_getuid = mc_getuid mc, mc_show_io = mc_show_io mc\<rparr>"

text \<open>Moving a process to another cgroup does not change any owner.\<close>

definition owners_stable :: "'k sysfs \<Rightarrow> bool" where
  "owners_stable sf \<longleftrightarrow> (\<forall>p n k pid. process_uid sf pid (snd (sf_write_pid sf p n k)) = process_uid sf pid k)"

definition safe_log :: "'k sysfs \<Rightarrow> nat \<Rightarrow> path \<Rightarrow> (path \<times> nat \<times> 'k) list \<Rightarrow> bool" where
  "safe_log sf uid file l \<longleftrightarrow> (\<forall>(f, pid, k) \<in> set l. f = file \<and> process_uid sf pid k = Some uid)"

lemma process_uid_log: "process_uid (log_sys sf) pid (k, l) = process_uid sf pid k"
  by (simp add: process_uid_def log_sys_def)

lemma move_all_safe:
  assumes "owners_stable sf" "\<forall>p \<in> set batch. process_uid sf p k = Some uid" "safe_log sf uid file l"
    "move_all (log_sys sf) show_io file batch moved (k, l) = (r, k', l')"
  shows "safe_log sf uid file l'"
  using assms(2-)
proof (induction batch arbitrary: moved k l)
  case (Cons pid batch)
  obtain res k1 where w: "sf_write_pid sf file pid k = (res, k1)" by fastforce
  then have "sf_write_pid (log_sys sf) file pid (k, l) = (res, k1, l @ [(file, pid, k)])" by (simp add: log_sys_def)
  note step = Cons.prems(3) [unfolded move_all.simps this]
  have "process_uid sf p k1 = process_uid sf p k" for p
    using assms(1) w unfolding owners_stable_def by (metis snd_conv)
  with Cons.prems(1) have own: "\<forall>p \<in> set batch. process_uid sf p k1 = Some uid" by simp
  have safe: "safe_log sf uid file (l @ [(file, pid, k)])" using Cons.prems(1,2) by (auto simp: safe_log_def)
  from step Cons.IH [OF own safe] safe show ?case by (cases res) auto
qed simp

lemma move_rounds_safe:
  assumes "owners_stable sf" "safe_log sf uid file l"
    "move_rounds (log_sys sf) show_io uid file roots rounds moved (k, l) = (r, k', l')"
  shows "safe_log sf uid file l'"
  using assms(2-)
proof (induction rounds arbitrary: moved k l)
  case (Suc rounds)
  let ?batch = "filter (\<lambda>p. p \<notin> set moved \<and> process_uid (log_sys sf) p (k, l) = Some uid)
    (descendants roots (process_table (log_sys sf) (k, l)))"
  have own: "\<forall>p \<in> set ?batch. process_uid sf p k = Some uid" by (simp add: process_uid_log)
  show ?case
  proof (cases "?batch = []")
    case True
    with Suc.prems show ?thesis by simp
  next
    case False
    obtain res k1 l1 where ma: "move_all (log_sys sf) show_io file ?batch moved (k, l) = (res, k1, l1)"
      by (rule prod_cases3)
    from move_all_safe [OF assms(1) own Suc.prems(1) ma] have safe: "safe_log sf uid file l1" .
    show ?thesis
    proof (cases res)
      case (Inl e)
      with Suc.prems(2) False ma safe show ?thesis by (simp add: Let_def)
    next
      case (Inr moved')
      with Suc.prems(2) False ma have "move_rounds (log_sys sf) show_io uid file roots rounds moved' (k1, l1) = (r, k', l')"
        by (simp add: Let_def)
      with Suc.IH [OF safe] show ?thesis by blast
    qed
  qed
qed simp

lemma reset_loop_log:
  assumes "\<And>argv k. \<exists>res k'. out argv (k, l) = (res, k', l)"
  shows "\<exists>c k'. reset_loop out moved ls n (k, l) = (c, k', l)"
proof (induction ls arbitrary: n k)
  case (Cons line ls)
  note ih = Cons.IH
  show ?case
  proof (cases "parse_ss_line line")
    case (Some sock)
    define argv where "argv = [''ss'', ''-K'', if se_proto sock = ''udp'' then ''-u'' else ''-t'', ss_kill_filter sock]"
    obtain res k1 where o: "out argv (k, l) = (res, k1, l)" using assms by blast
    have "\<exists>m. reset_loop out moved (line # ls) n (k, l) = reset_loop out moved ls m (k, l) \<or>
        reset_loop out moved (line # ls) n (k, l) = reset_loop out moved ls m (k1, l)"
      unfolding reset_loop.simps Some option.case Let_def argv_def [symmetric] o prod.case
      by (cases res) (auto split: prod.split bool.split)
    with ih show ?thesis by metis
  qed (simp add: ih)
qed simp

text \<open>What \<open>attach\<close> writes, it writes in the rounds.\<close>

lemma attach_writes:
  assumes "attach (log_machine mc) uid hold roots reset (k, []) = (res, k', writes)" "writes \<noteq> []"
    and "mc_canonicalize mc hold k = Inr scope" "uid \<noteq> 0" "prefix (user_service_cgroup uid @ [SLICE]) scope"
    "scope \<noteq> user_service_cgroup uid @ [SLICE]"
    and mr: "move_rounds (log_sys (mc_sys mc)) (mc_show_io mc) uid (scope @ [''cgroup.procs'']) roots 5 [] (k, []) = (r, k2, l2)"
  shows "writes = l2"
proof -
  have can: "mc_canonicalize (log_machine mc) hold (k, []) = Inr scope"
    and sys: "mc_sys (log_machine mc) = log_sys (mc_sys mc)" and sh: "mc_show_io (log_machine mc) = mc_show_io mc"
    using assms(3) by (simp_all add: log_machine_def)
  have out: "\<exists>res k'. mc_output (log_machine mc) argv (k, l) = (res, k', l)" for argv k l
    by (simp add: log_machine_def split: prod.split)
  note at = assms(1) [unfolded attach_def Let_def can sum.case sys sh mr prod.case]
  show ?thesis
  proof (cases "check_roots (log_sys (mc_sys mc)) uid roots (k, [])")
    case (Inl e)
    with at assms(2,4-6) show ?thesis by simp
  next
    case checked: (Inr u)
    obtain o1 k3 where o1: "mc_output (log_machine mc) [''ss'', ''-tunpH''] (k2, l2) = (o1, k3, l2)" using out by blast
    show ?thesis
    proof (cases r)
      case (Inl e)
      with at assms(4-6) checked show ?thesis by simp
    next
      case (Inr moved)
      note at3 = at [unfolded checked Inr sum.case o1 prod.case]
      show ?thesis
      proof (cases o1)
        case (Inl e)
        with at3 assms(4-6) show ?thesis by (simp split: if_splits)
      next
        case (Inr p)
        obtain ok listing where p: "p = (ok, listing)" by (cases p)
        obtain c k4 where rl: "reset_loop (mc_output (log_machine mc)) moved (str_lines listing) 0 (k3, l2) = (c, k4, l2)"
          using reset_loop_log [of "mc_output (log_machine mc)" l2, OF out] by blast
        from at3 [unfolded Inr p sum.case prod.case rl] assms(4-6) show ?thesis by (simp split: if_splits)
      qed
    qed
  qed
qed

text \<open>C32: Attaching is safe, although it runs as root: it writes nothing but process numbers, only to the
  \<open>cgroup.procs\<close> file of a scope strictly inside the tunnel slice of the user it acts for, who
  is not root, and only those of processes that belong to this user at that moment.\<close>

theorem attach_safe:
  assumes "owners_stable (mc_sys mc)"
    "attach (log_machine mc) uid hold roots reset (k, []) = (res, k', writes)"
    "(file, pid, k1) \<in> set writes"
  shows "uid \<noteq> 0 \<and> process_uid (mc_sys mc) pid k1 = Some uid \<and>
    (\<exists>scope. mc_canonicalize mc hold k = Inr scope \<and> file = scope @ [''cgroup.procs''] \<and>
       strict_prefix (user_service_cgroup uid @ [SLICE]) scope)"
proof -
  note at = assms(2) [unfolded attach_def Let_def]
  have can: "mc_canonicalize (log_machine mc) hold (k, []) = mc_canonicalize mc hold k"
    by (simp add: log_machine_def)
  from at assms(3) have uid: "uid \<noteq> 0" by (auto split: if_splits)
  with at assms(3) can obtain scope where scope: "mc_canonicalize mc hold k = Inr scope"
    by (cases "mc_canonicalize mc hold k") auto
  with at assms(3) can uid have slice: "prefix (user_service_cgroup uid @ [SLICE]) scope"
    "scope \<noteq> user_service_cgroup uid @ [SLICE]" by (auto split: if_splits)
  define file0 where "file0 = scope @ [''cgroup.procs'']"
  obtain r k2 l2 where mr: "move_rounds (log_sys (mc_sys mc)) (mc_show_io mc) uid file0 roots 5 [] (k, []) = (r, k2, l2)"
    by (rule prod_cases3)
  from move_rounds_safe [OF assms(1) _ mr] have safe: "safe_log (mc_sys mc) uid file0 l2" by (simp add: safe_log_def)
  have "writes \<noteq> []" using assms(3) by auto
  from attach_writes [OF assms(2) this scope uid slice mr [unfolded file0_def]] safe assms(3)
  have "file = file0" "process_uid (mc_sys mc) pid k1 = Some uid" by (auto simp: safe_log_def)
  with uid scope slice show ?thesis by (simp add: file0_def strict_prefix_def)
qed

text \<open>A machine with one process of user 1000.\<close>

definition demo_scope :: path where
  "demo_scope = user_service_cgroup 1000 @ [SLICE, ''detour-hold-x.scope'']"

definition demo_machine :: "unit machine" where
  "demo_machine = \<lparr>mc_sys = \<lparr>sf_list = (\<lambda>p k. None),
       sf_read = (\<lambda>p k. Some (unlines [''Uid:'' @ show_nat 1000 @ '' 1000''])),
       sf_write_pid = (\<lambda>p n k. (Moved, k)), sf_now = (\<lambda>k. 0), sf_sleep = (\<lambda>d k. k)\<rparr>,
     mc_canonicalize = (\<lambda>p k. Inr demo_scope), mc_output = (\<lambda>argv k. (Inr (True, []), k)),
     mc_exec = (\<lambda>t argv k. (Exited True [], k)), mc_lookup = (\<lambda>h. None), mc_env = (\<lambda>v. None), mc_getuid = 0,
     mc_show_io = (\<lambda>e. [])\<rparr>"

lemma demo_owner: "process_uid (mc_sys demo_machine) pid k = Some 1000"
proof -
  have ws: "is_ws (CHR '' '')" by (simp add: is_ws_def)
  have "split_whitespace (show_nat 1000 @ CHR '' '' # ''1000'') = show_nat 1000 # split_whitespace ''1000''"
    using show_nat_set digit_not_ws ws by (intro split_whitespace_word) auto
  moreover have "plain_line (''Uid:'' @ show_nat 1000 @ '' 1000'')"
    by (simp add: plain_line_def show_nat_eval)
  then have "str_lines (unlines [''Uid:'' @ show_nat 1000 @ '' 1000'']) = [''Uid:'' @ show_nat 1000 @ '' 1000'']"
    by (intro str_lines_unlines) simp
  moreover have "strip_prefix ''Uid:'' (''Uid:'' @ show_nat 1000 @ '' 1000'') = Some (show_nat 1000 @ '' 1000'')"
    by (simp add: strip_prefix_Some)
  moreover have "parse_u32 (show_nat 1000) = Some 1000" by (simp add: parse_uint_show_nat)
  ultimately show ?thesis by (simp add: process_uid_def demo_machine_def first_some_def List.map_filter_simps)
qed

lemma demo_attach:
  "snd (snd (attach (log_machine demo_machine) 1000 ''h'' [7] False ((), []))) = [(demo_scope @ [''cgroup.procs''], 7, ())]"
proof -
  have sys: "mc_sys (log_machine demo_machine) = log_sys (mc_sys demo_machine)" by (simp add: log_machine_def)
  have own: "process_uid (log_sys (mc_sys demo_machine)) pid s = Some 1000" for pid s
    by (cases s) (simp add: process_uid_log demo_owner)
  have table: "process_table (log_sys (mc_sys demo_machine)) s = []" for s
    by (cases s) (simp add: process_table_def log_sys_def demo_machine_def List.map_filter_simps)
  have tree: "descendants [7] [] = [7]" by (simp add: descendants_def descend.simps add_children_def)
  have wr: "sf_write_pid (log_sys (mc_sys demo_machine)) p n ((), l) = (Moved, (), l @ [(p, n, ())])" for p n l
    by (simp add: log_sys_def demo_machine_def)
  have "move_rounds (log_sys (mc_sys demo_machine)) sh 1000 f [7] (Suc (Suc n)) [] ((), []) = (Inr [7], (), [(f, 7, ())])"
    for sh f n
    by (cases n) (simp_all add: table tree own wr Let_def)
  from this [of _ _ 3] have mr: "move_rounds (log_sys (mc_sys demo_machine)) sh 1000 f [7] 5 [] ((), []) =
      (Inr [7], (), [(f, 7, ())])" for sh f by (simp add: numeral_eq_Suc)
  have can: "mc_canonicalize (log_machine demo_machine) ''h'' ((), []) = Inr demo_scope"
    by (simp add: log_machine_def demo_machine_def)
  have pre: "prefix (user_service_cgroup 1000 @ [SLICE]) demo_scope" "demo_scope \<noteq> user_service_cgroup 1000 @ [SLICE]"
    by (simp_all add: demo_scope_def)
  show ?thesis unfolding attach_def Let_def can sum.case sys mr using pre by (simp add: own)
qed

theorem attach_safe_witness:
  "process_uid (mc_sys demo_machine) 7 () = Some 1000"
proof -
  obtain res k writes where at: "attach (log_machine demo_machine) 1000 ''h'' [7] False ((), []) = (res, k, writes)"
    by (rule prod_cases3)
  with demo_attach have "(demo_scope @ [''cgroup.procs''], 7, ()) \<in> set writes" by simp
  moreover have "owners_stable (mc_sys demo_machine)" by (simp add: owners_stable_def demo_owner)
  ultimately show ?thesis using attach_safe [OF _ at] by blast
qed

section \<open>What the status writer touches\<close>

definition STATUS_TMP :: path where "STATUS_TMP = with_extension STATUS_PATH ''json.tmp''"

text \<open>Neither the status file nor its temporary file is a link or a directory.\<close>

definition status_sane :: "files \<Rightarrow> bool" where
  "status_sane t \<longleftrightarrow> plain_node (t STATUS_TMP) \<and> t STATUS_PATH \<noteq> Some Dir"

definition status_files :: "path set" where
  "status_files = {STATUS_PATH, STATUS_TMP} \<union> {q. prefix q STATE_DIR}"

lemma status_tmp_eval: "STATUS_TMP = [''var'', ''lib'', ''detour'', ''status.json.tmp'']"
proof -
  have "rsplit_once (CHR ''.'') ''status.json'' = Some (''status'', ''json'')" unfolding rsplit_once_Some by simp
  then show ?thesis by (simp add: STATUS_TMP_def with_extension_def STATUS_PATH_def)
qed

lemma status_paths: "\<not> prefix STATUS_TMP STATE_DIR" "\<not> prefix STATUS_PATH STATE_DIR" "STATUS_TMP \<noteq> STATUS_PATH"
  "butlast STATUS_PATH = STATE_DIR" "STATUS_PATH \<noteq> []"
  by (simp_all add: status_tmp_eval STATUS_PATH_def STATE_DIR_def)

lemma status_closed: "closed_at status_sane STATUS_TMP" "closed_at status_sane STATUS_PATH"
  by (auto simp: closed_at_def status_sane_def status_paths)

lemma frames_write_snapshot:
  "frames status_sane status_files (write_snapshot json STATUS_PATH sn)"
proof -
  have dirs: "frames status_sane status_files (create_dir_all STATE_DIR)"
  proof (rule frames_mono [OF frames_create_dir_all])
    show "status_sane (make_dirs (take k STATE_DIR) t)" if "status_sane t" for t k
      using that status_paths take_is_prefix [of k STATE_DIR] prefix_order.trans
      by (auto simp: status_sane_def make_dirs_def)
  qed (auto simp: status_files_def)
  have tmp: "frames status_sane status_files (file_create STATUS_TMP)"
    by (rule frames_mono [OF frames_create [OF status_closed(1)]]) (auto simp: status_sane_def status_files_def)
  have rest: "frames status_sane status_files
     (bind_io (case json sn of Inl e \<Rightarrow> fail_io e | Inr b \<Rightarrow> file_write_all STATUS_TMP b) (\<lambda>_.
      bind_io (set_permissions STATUS_TMP 420) (\<lambda>_. rename_file STATUS_TMP STATUS_PATH)))"
  proof (intro frames_bind)
    show "frames status_sane status_files (case json sn of Inl e \<Rightarrow> fail_io e | Inr b \<Rightarrow> file_write_all STATUS_TMP b)"
      using frames_mono [OF frames_write_all [OF status_closed(1)]]
      by (auto simp: status_files_def frames_fail split: sum.split)
    show "frames status_sane status_files (set_permissions STATUS_TMP 420)"
      by (rule frames_mono [OF frames_set_permissions [OF status_closed(1)]]) (auto simp: status_files_def)
    show "frames status_sane status_files (rename_file STATUS_TMP STATUS_PATH)"
      by (rule frames_mono [OF frames_rename [OF status_closed]]) (auto simp: status_sane_def status_files_def)
  qed
  have "frames status_sane status_files (bind_io (file_create STATUS_TMP) (\<lambda>file.
      bind_io (case json sn of Inl e \<Rightarrow> fail_io e | Inr b \<Rightarrow> file_write_all file b) (\<lambda>_.
      bind_io (set_permissions file 420) (\<lambda>_. rename_file STATUS_TMP STATUS_PATH))))"
  proof (rule frames_bind_dep [OF tmp])
    fix w q w' assume "status_sane (w_fs w)" "file_create STATUS_TMP w = (Inr q, w')"
    then have "q = STATUS_TMP" using file_create_plain [of w STATUS_TMP q w'] by (simp add: status_sane_def)
    with rest show "frames status_sane status_files
       (bind_io (case json sn of Inl e \<Rightarrow> fail_io e | Inr b \<Rightarrow> file_write_all q b) (\<lambda>_.
        bind_io (set_permissions q 420) (\<lambda>_. rename_file STATUS_TMP STATUS_PATH)))" by (simp only:)
  qed
  then show ?thesis
    unfolding write_snapshot_def Let_def STATUS_TMP_def [symmetric] using status_paths
    by (simp add: frames_bind dirs)
qed

lemma write_snapshot_quiet: "keeps_quiet (write_snapshot json p sn)" "grows (write_snapshot json p sn)"
proof -
  show "keeps_quiet (write_snapshot json p sn)"
    unfolding write_snapshot_def Let_def by (auto intro!: quiet_intros split: sum.split)
  show "grows (write_snapshot json p sn)"
    unfolding write_snapshot_def Let_def by (auto intro!: grow_intros simp: create_dir_all_def split: sum.split)
qed

text \<open>All the rounds of the writer: never an error, and only its own files.\<close>

lemma status_rounds_effect:
  assumes "quiet w" "status_sane (w_fs w)" "sw_path sw = STATUS_PATH"
  obtains w' where "status_rounds json sw rounds w = (Inr (), w')" "quiet w'" "status_sane (w_fs w')"
    "\<And>p. p \<notin> status_files \<Longrightarrow> w_fs w' p = w_fs w p" "set (w_trace w) \<subseteq> set (w_trace w')"
proof -
  have "\<exists>w'. status_rounds json sw rounds w = (Inr (), w') \<and> quiet w' \<and> status_sane (w_fs w') \<and>
      (\<forall>p. p \<notin> status_files \<longrightarrow> w_fs w' p = w_fs w p) \<and> set (w_trace w) \<subseteq> set (w_trace w')"
    using assms(1,2)
  proof (induction rounds arbitrary: w)
    case (Cons r rounds)
    obtain s now where r: "r = (s, now)" by (cases r)
    let ?m = "write_snapshot json STATUS_PATH (take_snapshot sw s now)"
    obtain x w1 where m: "?m w = (x, w1)" by (cases "?m w")
    have q1: "quiet w1" using write_snapshot_quiet(1) Cons.prems(1) m unfolding keeps_quiet_def by (metis snd_conv)
    have g1: "set (w_trace w) \<subseteq> set (w_trace w1)" using write_snapshot_quiet(2) m unfolding grows_def by (metis snd_conv)
    from always_final [OF always_frames [OF frames_write_snapshot Cons.prems(2)] m]
    have s1: "status_sane (w_fs w1)" "\<forall>p. p \<notin> status_files \<longrightarrow> w_fs w1 p = w_fs w p" by blast+
    from Cons.IH [OF q1 s1(1)] obtain w' where w': "status_rounds json sw rounds w1 = (Inr (), w')" "quiet w'"
      "status_sane (w_fs w')" "\<forall>p. p \<notin> status_files \<longrightarrow> w_fs w' p = w_fs w1 p" "set (w_trace w1) \<subseteq> set (w_trace w')"
      by blast
    have "status_rounds json sw (r # rounds) w = (Inr (), w')"
      using w'(1) by (simp add: r status_tick_def write_once_def assms(3) bind_io_def map_err_def ignore_def m)
    with w' g1 s1 show ?case by (intro exI [of _ w']) auto
  qed (simp add: return_io_def)
  then show thesis using that by blast
qed

section \<open>A run up to its end\<close>

lemma validated_resolver:
  assumes "validate c = Inr ()" "\<forall>pin. \<exists>x. client pin = Inr x"
  shows "\<exists>r. resolver_new client (c_providers c) = Inr (r, cache_new 4096)"
proof -
  have "c_providers c \<noteq> []" "\<forall>p \<in> set (c_providers c). provider_host p \<noteq> None"
    using assms(1) by (auto simp: validate_ok)
  moreover obtain us where "build_upstreams client (c_providers c) = Inr us"
    using build_upstreams_total [OF calculation(2) assms(2)] by blast
  ultimately show ?thesis by (simp add: resolver_new_def resolver_with_capacity_def DEFAULT_CACHE_CAPACITY_def)
qed

text \<open>The disks at the end: those of a takeover, apart from the status writer's files.\<close>

definition served :: "host \<Rightarrow> ip_addr \<Rightarrow> string \<Rightarrow> files \<Rightarrow> files \<Rightarrow> bool" where
  "served h addr orig t0 t \<longleftrightarrow> status_sane t \<and>
     (\<forall>p. p \<notin> status_files \<longrightarrow> t p = disk_redirected h manager_default addr orig t0 p)"

lemma own_not_status:
  assumes "p \<in> set (own_files manager_default)" shows "p \<notin> status_files"
proof -
  have "\<not> prefix p STATE_DIR"
    using layout_distinct(2) [OF layout_default assms] by (simp add: manager_default_def)
  moreover have "p \<noteq> STATUS_PATH" "p \<noteq> STATUS_TMP"
    using assms by (auto simp: manager_eval status_tmp_eval STATUS_PATH_def)
  ultimately show ?thesis by (simp add: status_files_def)
qed

lemma served_nodes:
  assumes "served h addr orig t0 t"
  shows "t (resolv_path manager_default) = Some (File (redirect_body manager_default addr) 420)"
    "t (state_path manager_default) = Some (File (h_ser h (recorded h manager_default orig t0)) 384)"
    "t (backup_path manager_default) = Some (File orig 384)"
    "p \<in> set (own_files manager_default) \<Longrightarrow> t p = disk_redirected h manager_default addr orig t0 p"
proof -
  note neq = layout_neqs [OF layout_default]
  show own: "p \<in> set (own_files manager_default) \<Longrightarrow> t p = disk_redirected h manager_default addr orig t0 p" for p
    using own_not_status assms by (simp add: served_def)
  show "t (resolv_path manager_default) = Some (File (redirect_body manager_default addr) 420)"
    "t (state_path manager_default) = Some (File (h_ser h (recorded h manager_default orig t0)) 384)"
    "t (backup_path manager_default) = Some (File orig 384)"
    by (simp_all add: own own_simps disk_redirected_def disk_state_def disk_dropin_def disk_backup_def neq)
qed

lemma served_sane:
  assumes "served h addr orig t0 t" "fresh manager_default orig t0"
  shows "sane manager_default t"
proof -
  have "sane manager_default (disk_redirected h manager_default addr orig t0)"
    using disk_sane(4) [OF layout_default] assms(2) by (simp add: fresh_def)
  moreover have "butlast (resolv_path manager_default) \<notin> status_files"
    by (simp add: manager_eval status_files_def status_tmp_eval STATUS_PATH_def)
  ultimately show ?thesis
    using assms(1) served_nodes(4) [OF assms(1)] own_simps [of manager_default] by (simp add: sane_def served_def)
qed

lemma redirected_other:
  "p \<notin> set (own_files m) \<Longrightarrow> disk_redirected h m addr orig t0 p = make_dirs (state_dir m) t0 p"
  using own_simps [of m] by (auto simp: disk_redirected_def disk_state_def disk_dropin_def disk_backup_def)

lemma redirected_status_sane:
  assumes "status_sane t0"
  shows "status_sane (disk_redirected h manager_default addr orig t0)"
proof -
  have "STATUS_PATH \<notin> set (own_files manager_default)" "STATUS_TMP \<notin> set (own_files manager_default)"
    using own_not_status by (auto simp: status_files_def)
  moreover have "make_dirs STATE_DIR t0 p = t0 p" if "p \<in> {STATUS_PATH, STATUS_TMP}" for p
    using that status_paths by (auto simp: make_dirs_def)
  moreover have "state_dir manager_default = STATE_DIR" by (simp add: manager_default_def)
  ultimately show ?thesis using assms by (simp add: status_sane_def redirected_other)
qed

lemma run_reaches_end:
  fixes re :: "('n, 'd, 'c) run_env"
  assumes fr: "fresh manager_default orig (w_fs w)" and q: "quiet w" and st: "status_sane (w_fs w)"
    and ok: "validate config = Inr ()" "\<forall>pin. \<exists>x. re_client re pin = Inr x" "\<forall>x a. re_early re x a = None"
  obtains listen w' where "parse_socket (c_listen config) = Some listen"
    "run re config profile_id False None w = run_end re STATUS_PATH True w'" "quiet w'"
    "served (re_host re) (sa_ip listen) orig (w_fs w) (w_fs w')"
    "disk_redirected (re_host re) manager_default (sa_ip listen) orig (w_fs w) \<in> set (w_trace w')"
proof -
  let ?m = manager_default and ?h = "re_host re"
  obtain listen where listen: "parse_socket (c_listen config) = Some listen" using ok(1) by (auto simp: validate_ok)
  obtain r where r: "resolver_new (re_client re) (c_providers config) = Inr (r, cache_new 4096 :: ('n, 'd) cache)"
    using validated_resolver [OF ok(1,2)] by blast
  have "w_fs w (state_path ?m) = None" using fr by (simp add: fresh_def)
  from reconcile_nothing [OF q this] obtain w1 where w1: "reconcile_after_crash ?h ?m w = (Inr None, w1)" "quiet w1" "w_fs w1 = w_fs w"
    by (rule yieldsE)
  from fr obtain k where "stat (w_fs w) (resolv_path ?m) = Some (File orig k)" by (auto simp: fresh_def stat_def)
  with w1(3) have "yields (read_to_string (resolv_path ?m)) w1 orig (w_fs w)"
    using yields_read [OF w1(2), of "resolv_path ?m" orig k] by simp
  then obtain w2 where w2: "read_to_string (resolv_path ?m) w1 = (Inr orig, w2)" "quiet w2" "w_fs w2 = w_fs w"
    by (rule yieldsE)
  have "yields (take_over ?h ?m (sa_ip listen)) w2 (recorded ?h ?m orig (w_fs w)) (disk_redirected ?h ?m (sa_ip listen) orig (w_fs w))"
    using take_over_yields [OF layout_default _ w2(2), of orig ?h "sa_ip listen"] fr w2(3) by simp
  then obtain x w3 where w3: "take_over ?h ?m (sa_ip listen) w2 = (Inr x, w3)" "quiet w3"
    "w_fs w3 = disk_redirected ?h ?m (sa_ip listen) orig (w_fs w)"
    by (rule yieldsE)
  define sw where "sw = status_writer_new STATUS_PATH (run_snapshot listen (h_pid ?h) True profile_id (provider_names r)
    (force_doh (policy_for config profile_id)) (parse_nameservers orig))"
  have "status_sane (w_fs w3)" using redirected_status_sane [OF st] w3(3) by simp
  from status_rounds_effect [OF w3(2) this, of sw "re_json re" "re_first re # re_rounds re"]
  obtain w' where w': "status_rounds (re_json re) sw (re_first re # re_rounds re) w3 = (Inr (), w')" "quiet w'"
    "status_sane (w_fs w')" "\<And>p. p \<notin> status_files \<Longrightarrow> w_fs w' p = w_fs w3 p" "set (w_trace w3) \<subseteq> set (w_trace w')"
    by (auto simp: sw_def status_writer_new_def)
  from w'(1) have rounds: "bind_io (ignore (write_once (re_json re) sw (fst (re_first re)) (snd (re_first re))))
      (\<lambda>_. status_rounds (re_json re) sw (re_rounds re)) w3 = (Inr (), w')"
    by (cases "re_first re") (auto simp: status_tick_def bind_io_def map_err_def ignore_def split: prod.splits sum.splits)
  have "run re config profile_id False None w = run_end re STATUS_PATH True w'"
    using rounds
    by (simp add: run_def listen bind_io_def map_err_def context_io_def current_nameservers_def w1(1) w2(1) r ok(3) Let_def
        return_io_def run_serving_def w3(1) sw_def split: prod.splits sum.splits)
  moreover have "served ?h (sa_ip listen) orig (w_fs w) (w_fs w')" using w'(3,4) w3(3) by (simp add: served_def)
  moreover have "disk_redirected ?h ?m (sa_ip listen) orig (w_fs w) \<in> set (w_trace w')"
    using w3(2,3) w'(5) by (auto simp: quiet_def)
  ultimately show thesis using that listen w'(2) by blast
qed

text \<open>What restoring leaves, on a disk of a run.\<close>

lemma restore_served:
  assumes fr: "fresh manager_default orig t0" and sv: "served h addr orig t0 (w_fs w)" and q: "quiet w"
    and codec: "\<forall>st. h_de h (h_ser h st) = Some st"
  obtains w' where "restore h manager_default w = (Inr (), w')"
    "w_fs w' RESOLV_CONF = (case t0 RESOLV_CONF of Some (File c k) \<Rightarrow> Some (File orig 420) | x \<Rightarrow> x)"
    "w_fs w' NM_DROPIN = t0 NM_DROPIN" "w_fs w' (backup_path manager_default) = None"
    "w_fs w' (state_path manager_default) = None" "w_fs w' STATUS_PATH = w_fs w STATUS_PATH"
    "\<And>p. p \<notin> set (own_files manager_default) \<Longrightarrow> w_fs w' p = w_fs w p"
proof -
  let ?m = manager_default and ?st = "recorded h manager_default orig t0"
  let ?t = "restored ?m ?st orig (w_fs w)"
  note n = served_nodes [OF sv] and neq = layout_neqs [OF layout_default]
  have "yields (restore h ?m) w () ?t"
    using restore_yields [OF layout_default q served_sane [OF sv fr] n(2) _ n(3), where st = ?st and h = h] codec n(1) by simp
  then obtain w' where w': "restore h ?m w = (Inr (), w')" "w_fs w' = ?t" by (rule yieldsE)
  have names: "RESOLV_CONF = resolv_path ?m" "NM_DROPIN = nm_dropin ?m" by (simp_all add: manager_default_def)
  have "t0 (resolv_path ?m) \<noteq> None" "t0 (resolv_path ?m) \<noteq> Some Dir"
    using fr by (auto simp: fresh_def numeral_eq_Suc split: option.splits)
  then have 1: "?t RESOLV_CONF = (case t0 RESOLV_CONF of Some (File c k) \<Rightarrow> Some (File orig 420) | x \<Rightarrow> x)"
    unfolding names by (auto simp: restored_def recorded_def neq split: option.splits node.splits)
  have 2: "?t NM_DROPIN = t0 NM_DROPIN"
  proof (cases "writes_dropin ?m t0")
    case True
    then show ?thesis unfolding names by (simp add: restored_def recorded_def writes_dropin_def neq)
  next
    case False
    have "w_fs w (nm_dropin ?m) = t0 (nm_dropin ?m)"
      using False make_dirs_own [OF layout_default own_simps(4), of t0] n(4) [OF own_simps(4)]
      by (simp add: disk_redirected_def disk_state_def disk_dropin_def disk_backup_def neq)
    with False show ?thesis unfolding names by (simp add: restored_def recorded_def neq split: option.split node.split)
  qed
  have 3: "?t p = w_fs w p" if "p \<notin> set (own_files ?m)" for p
    using that own_simps [of ?m] by (auto simp: restored_def split: option.split)
  moreover have "STATUS_PATH \<notin> set (own_files ?m)" using own_not_status by (auto simp: status_files_def)
  ultimately show thesis using that [OF w'(1)] 1 2 w'(2) by (simp add: restored_def)
qed

lemma clear_served:
  assumes "served h addr orig t0 (w_fs w)" "quiet w"
  obtains w' where "map_err f (clear STATUS_PATH) w = (Inr (), w')" "quiet w'" "w_fs w' = (w_fs w)(STATUS_PATH := None)"
    "served h addr orig t0 (w_fs w')"
proof -
  have "yields (map_err f (clear STATUS_PATH)) w () ((w_fs w)(STATUS_PATH := None))"
    unfolding clear_def using assms
    by (intro yields_map_err yields_ignore_remove) (simp_all add: served_def status_sane_def)
  then obtain w' where w': "map_err f (clear STATUS_PATH) w = (Inr (), w')" "quiet w'" "w_fs w' = (w_fs w)(STATUS_PATH := None)"
    by (rule yieldsE)
  moreover have "served h addr orig t0 (w_fs w')"
    using assms(1) w'(3) status_paths(3) by (auto simp: served_def status_sane_def status_files_def)
  ultimately show thesis by (rule that)
qed

lemma grows_clear: "grows (map_err f (clear p))"
  by (auto simp: clear_def intro!: grow_intros)

lemma grows_restore [grow_intros]: "grows (restore h m)"
  unfolding restore_def Let_def
  by (auto intro!: grow_intros simp: read_state_def path_exists_grows split: option.split sum.split io_kind.split)

section \<open>Properties of a run\<close>

text \<open>C35: Every orderly end gives the system back: a run with a valid configuration on a machine without
  an earlier takeover redirects \<open>resolv.conf\<close> to its listen address and, however often the status
  is written in between, when it is interrupted, terminated or its server returns (an error
  included) ends with the original \<open>resolv.conf\<close> and NetworkManager drop-in, without backup,
  state or status file, and with every other file as it was; its result is the server's error,
  if there is one.\<close>

theorem run_restores:
  assumes "fresh manager_default orig (w_fs w)" "quiet w" "status_sane (w_fs w)"
    "\<forall>st. h_de (re_host re) (h_ser (re_host re) st) = Some st"
    "validate config = Inr ()" "\<forall>pin. \<exists>x. re_client re pin = Inr x" "\<forall>x a. re_early re x a = None"
    "re_sigterm re = Inr ()" "re_ending re \<noteq> Server_Ended Panicked"
  shows "\<exists>listen w'. parse_socket (c_listen config) = Some listen \<and>
    run re config profile_id False None w =
      (case re_ending re of Server_Ended e \<Rightarrow> server_result e | _ \<Rightarrow> Inr (), w') \<and>
    (\<exists>t \<in> set (w_trace w'). t RESOLV_CONF = Some (File (redirect_body manager_default (sa_ip listen)) 420)) \<and>
    w_fs w' RESOLV_CONF = (case w_fs w RESOLV_CONF of Some (File c k) \<Rightarrow> Some (File orig 420) | x \<Rightarrow> x) \<and>
    w_fs w' NM_DROPIN = w_fs w NM_DROPIN \<and> w_fs w' (backup_path manager_default) = None \<and>
    w_fs w' (state_path manager_default) = None \<and> w_fs w' STATUS_PATH = None \<and>
    (\<forall>p. p \<notin> set (own_files manager_default) \<union> status_files \<longrightarrow> w_fs w' p = w_fs w p)"
proof -
  obtain listen w1 where l: "parse_socket (c_listen config) = Some listen"
    and r: "run re config profile_id False None w = run_end re STATUS_PATH True w1" and q: "quiet w1"
    and sv: "served (re_host re) (sa_ip listen) orig (w_fs w) (w_fs w1)"
    and tr: "disk_redirected (re_host re) manager_default (sa_ip listen) orig (w_fs w) \<in> set (w_trace w1)"
    using run_reaches_end [OF assms(1-3,5-7)] by metis
  obtain w2 where w2: "map_err (\<lambda>e. Caused None (From_Io e)) (clear STATUS_PATH) w1 = (Inr (), w2)" "quiet w2"
    "w_fs w2 = (w_fs w1)(STATUS_PATH := None)" "served (re_host re) (sa_ip listen) orig (w_fs w) (w_fs w2)"
    using clear_served [OF sv q] by metis
  obtain w3 where w3: "restore (re_host re) manager_default w2 = (Inr (), w3)"
    "w_fs w3 RESOLV_CONF = (case w_fs w RESOLV_CONF of Some (File c k) \<Rightarrow> Some (File orig 420) | x \<Rightarrow> x)"
    "w_fs w3 NM_DROPIN = w_fs w NM_DROPIN" "w_fs w3 (backup_path manager_default) = None"
    "w_fs w3 (state_path manager_default) = None" "w_fs w3 STATUS_PATH = w_fs w2 STATUS_PATH"
    "\<And>p. p \<notin> set (own_files manager_default) \<Longrightarrow> w_fs w3 p = w_fs w2 p"
    using restore_served [OF assms(1) w2(4,2) assms(4)] by metis
  have "run_end re STATUS_PATH True w1 = (case re_ending re of Server_Ended e \<Rightarrow> server_result e | _ \<Rightarrow> Inr (), w3)"
    using assms(8,9) w2(1) w3(1)
    by (auto simp: run_end_def Let_def bind_io_def server_result_def fail_io_def ignore_def context_io_def map_err_def
        split: ending.splits server_end.splits sum.splits prod.splits)
  moreover have "set (w_trace w1) \<subseteq> set (w_trace w3)"
    using grows_restore [of "re_host re" manager_default] grows_clear [of "\<lambda>e. Caused None (From_Io e)" STATUS_PATH] w2(1) w3(1)
    unfolding grows_def by (metis snd_conv subset_trans)
  moreover have "disk_redirected (re_host re) manager_default (sa_ip listen) orig (w_fs w) RESOLV_CONF =
      Some (File (redirect_body manager_default (sa_ip listen)) 420)"
    by (simp add: disk_redirected_def manager_default_def)
  moreover have "w_fs w3 p = w_fs w p" if "p \<notin> set (own_files manager_default) \<union> status_files" for p
  proof -
    have "w_fs w3 p = disk_redirected (re_host re) manager_default (sa_ip listen) orig (w_fs w) p"
      using that w3(7) w2(4) by (simp add: served_def)
    with that show ?thesis by (simp add: redirected_other manager_default_def make_dirs_def status_files_def)
  qed
  ultimately show ?thesis using l r tr w3 w2(3) by (intro exI [of _ listen] exI [of _ w3]) auto
qed

text \<open>A run on the demonstration machine that ends as given.\<close>

definition demo_run :: "ending \<Rightarrow> (unit, unit, unit) run_env" where
  "demo_run e = \<lparr>re_host = demo_host demo_ser demo_de, re_client = (\<lambda>pin. Inr ()), re_early = (\<lambda>x a. None),
     re_json = (\<lambda>sn. Inr ''{}''), re_first = (\<lparr>s_cache = cache_new 0, s_log = log_default\<rparr>, 0), re_rounds = [],
     re_sigterm = Inr (), re_ending = e\<rparr>"

lemma demo_run_ready:
  "fresh manager_default ''nameserver 8.8.8.8'' (w_fs (demo_world []))" "status_sane (w_fs (demo_world []))"
  "\<forall>st. h_de (re_host (demo_run e)) (h_ser (re_host (demo_run e)) st) = Some st"
  "\<forall>pin. \<exists>x. re_client (demo_run e) pin = Inr x" "\<forall>x a. re_early (demo_run e) x a = None"
  using demo_fresh demo_codec_law
  by (simp_all add: demo_world_def demo_run_def status_sane_def status_tmp_eval STATUS_PATH_def demo_disk_def)

theorem run_restores_witness:
  "\<exists>w'. run (demo_run Terminated) config_default None False None (demo_world []) = (Inr (), w') \<and>
     w_fs w' RESOLV_CONF = Some (File ''nameserver 8.8.8.8'' 420)"
proof -
  have "re_sigterm (demo_run Terminated) = Inr ()" "re_ending (demo_run Terminated) = Terminated"
    by (simp_all add: demo_run_def)
  moreover have "w_fs (demo_world []) RESOLV_CONF = Some (File ''nameserver 8.8.8.8'' 420)"
    by (simp add: demo_world_def demo_disk_def RESOLV_CONF_def)
  ultimately show ?thesis
    using run_restores [OF demo_run_ready(1) demo_quiet demo_run_ready(2,3) default_valid demo_run_ready(4,5), of Terminated None]
    by auto
qed

text \<open>C36: An abandoned run does not: when the server task panics, or the handler for the termination
  signal cannot be installed after the takeover, the helper returns its error at once and leaves
  \<open>resolv.conf\<close> redirected to a server that is gone; backup and state are there for the next start.\<close>

theorem run_abandoned_stays_redirected:
  assumes "fresh manager_default orig (w_fs w)" "quiet w" "status_sane (w_fs w)"
    "validate config = Inr ()" "\<forall>pin. \<exists>x. re_client re pin = Inr x" "\<forall>x a. re_early re x a = None"
    "re_sigterm re \<noteq> Inr () \<or> re_ending re = Server_Ended Panicked"
  shows "\<exists>listen e w'. parse_socket (c_listen config) = Some listen \<and>
    run re config profile_id False None w = (Inl e, w') \<and>
    w_fs w' RESOLV_CONF = Some (File (redirect_body manager_default (sa_ip listen)) 420) \<and>
    w_fs w' (backup_path manager_default) = Some (File orig 384) \<and>
    w_fs w' (state_path manager_default) =
      Some (File (h_ser (re_host re) (recorded (re_host re) manager_default orig (w_fs w))) 384)"
proof -
  obtain listen w1 where l: "parse_socket (c_listen config) = Some listen"
    and r: "run re config profile_id False None w = run_end re STATUS_PATH True w1"
    and sv: "served (re_host re) (sa_ip listen) orig (w_fs w) (w_fs w1)"
    using run_reaches_end [OF assms(1-6)] by metis
  have "\<exists>e. run_end re STATUS_PATH True w1 = (Inl e, w1)"
    using assms(7)
    by (auto simp: run_end_def Let_def of_result_def server_result_def fail_io_def split: sum.splits)
  moreover have "RESOLV_CONF = resolv_path manager_default" by (simp add: manager_default_def)
  ultimately show ?thesis using l r served_nodes(1-3) [OF sv] by auto
qed

theorem run_abandoned_stays_redirected_witness:
  "\<exists>e w'. run (demo_run (Server_Ended Panicked)) config_default None False None (demo_world []) = (Inl e, w') \<and>
     w_fs w' (backup_path manager_default) = Some (File ''nameserver 8.8.8.8'' 384)"
  using run_abandoned_stays_redirected [OF demo_run_ready(1) demo_quiet demo_run_ready(2) default_valid
      demo_run_ready(4,5), of "Server_Ended Panicked" None]
  by (auto simp: demo_run_def)

end
