(* ===== verification/Gui.thy ===== *)
theory Gui
  imports Helper
begin

text \<open>
  \<open>src-tauri/src/main.rs\<close>: the commands of the unprivileged desktop application. They act on the
  disk and on a kernel state of any type, both of which the programs they start (\<open>pkexec\<close> with
  the helper among them) may change; \<open>desktop\<close> holds these programs, the environment variables
  and the codecs. A command is an action that ends with an error text or a value. The flags of
  the filter proxy (\<open>FilterState\<close>) are a record of their own. An argument vector has the program
  first; redirected standard streams are left out.
\<close>

section \<open>Actions\<close>

type_synonym ('k, 'a) act = "world \<times> 'k \<Rightarrow> (string + 'a) \<times> world \<times> 'k"

definition ret :: "'a \<Rightarrow> ('k, 'a) act" where "ret x s = (Inr x, s)"
definition raise :: "string \<Rightarrow> ('k, 'a) act" where "raise e s = (Inl e, s)"

definition bind_act :: "('k, 'a) act \<Rightarrow> ('a \<Rightarrow> ('k, 'b) act) \<Rightarrow> ('k, 'b) act" where
  "bind_act m f s = (case m s of (Inl e, s) \<Rightarrow> (Inl e, s) | (Inr x, s) \<Rightarrow> f x s)"

definition io_act :: "('e \<Rightarrow> string) \<Rightarrow> ('e, 'a) io \<Rightarrow> ('k, 'a) act" where
  "io_act sh m s = (case m (fst s) of (Inl e, w) \<Rightarrow> (Inl (sh e), w, snd s) | (Inr x, w) \<Rightarrow> (Inr x, w, snd s))"

definition of_sum :: "string + 'a \<Rightarrow> ('k, 'a) act" where "of_sum r s = (r, s)"

definition look :: "('k \<Rightarrow> 'a) \<Rightarrow> ('k, 'a) act" where "look f s = (Inr (f (snd s)), s)"

record cmd =
  cm_argv :: "string list"
  cm_cwd :: "path option"
  cm_path :: "string option"

definition plain :: "string list \<Rightarrow> cmd" where
  "plain argv = \<lparr>cm_argv = argv, cm_cwd = None, cm_path = None\<rparr>"

record prog_output =
  ou_code :: "int option"
  ou_stdout :: string
  ou_stderr :: string

record 'k desktop =
  dk_sys :: "'k sysfs"
  dk_output :: "cmd \<Rightarrow> world \<times> 'k \<Rightarrow> (string + prog_output) \<times> world \<times> 'k"
  dk_spawn :: "string list \<Rightarrow> world \<times> 'k \<Rightarrow> (string + unit) \<times> world \<times> 'k"
  dk_try_wait :: "world \<times> 'k \<Rightarrow> int option option"
  dk_sleep :: "nat \<Rightarrow> world \<times> 'k \<Rightarrow> world \<times> 'k"
  dk_exists :: "path \<Rightarrow> 'k \<Rightarrow> bool"
  dk_uid :: nat
  dk_exe :: "path option"
  dk_manifest :: path
  dk_xdg :: "path option"
  dk_home :: "path option"
  dk_PATH :: "string option"
  dk_show_io :: "io_kind \<Rightarrow> string"
  dk_to_toml :: "config \<Rightarrow> string + string"
  dk_of_toml :: "string \<Rightarrow> string + config"
  dk_of_json :: "string \<Rightarrow> snapshot option"
  dk_now :: "'k \<Rightarrow> nat"

definition run_output :: "'k desktop \<Rightarrow> cmd \<Rightarrow> ('k, string + prog_output) act" where
  "run_output dk c s = (case dk_output dk c s of (r, s) \<Rightarrow> (Inr r, s))"

definition run_spawn :: "'k desktop \<Rightarrow> string list \<Rightarrow> ('k, string + unit) act" where
  "run_spawn dk argv s = (case dk_spawn dk argv s of (r, s) \<Rightarrow> (Inr r, s))"

definition sleep_act :: "'k desktop \<Rightarrow> nat \<Rightarrow> ('k, unit) act" where
  "sleep_act dk d s = (Inr (), dk_sleep dk d s)"

definition succeeded :: "string + prog_output \<Rightarrow> bool" where
  "succeeded r = (case r of Inr out \<Rightarrow> ou_code out = Some 0 | Inl _ \<Rightarrow> False)"

definition file_exists :: "path \<Rightarrow> ('k, bool) act" where
  "file_exists p = io_act (\<lambda>e :: io_kind. []) (path_exists p)"

definition path_is_file :: "path \<Rightarrow> (io_kind, bool) io" where
  "path_is_file p = bind_io (ok (query (\<lambda>t. Inr (case stat t p of Some (File c k) \<Rightarrow> True | _ \<Rightarrow> False))))
     (\<lambda>r. return_io (r = Some True))"

definition is_file :: "path \<Rightarrow> ('k, bool) act" where
  "is_file p = io_act (\<lambda>e. []) (path_is_file p)"

text \<open>\<open>fs::set_permissions\<close> on a path follows links; modes of directories are not modelled.\<close>

definition fs_set_permissions :: "path \<Rightarrow> nat \<Rightarrow> (io_kind, unit) io" where
  "fs_set_permissions p mode = sys (\<lambda>_ t. t)
     (\<lambda>t. case real_path 41 t p of
        None \<Rightarrow> Inl Other_Kind
      | Some q \<Rightarrow> (case t q of
            None \<Rightarrow> Inl NotFound
          | Some (File c m) \<Rightarrow> Inr ((), t(q \<mapsto> File c mode))
          | Some _ \<Rightarrow> Inr ((), t)))"

lemma fs_set_permissions_yields:
  assumes "quiet w" "w_fs w p = Some (File c k)"
  shows "yields (fs_set_permissions p mode) w () ((w_fs w)(p \<mapsto> File c mode))"
proof -
  have "real_path 41 (w_fs w) p = Some p" by (rule real_path_41) (simp add: is_link_def assms(2))
  then show ?thesis unfolding fs_set_permissions_def by (intro yields_sys [OF assms(1)]) (simp add: assms(2))
qed

definition show_config_error :: "(io_kind \<Rightarrow> string) \<Rightarrow> config_error \<Rightarrow> string" where
  "show_config_error sh e =
     (case e of
        Config_Io p source \<Rightarrow> p @ '': '' @ sh source
      | Config_Parse p source \<Rightarrow> p @ '' is not valid TOML: '' @ source
      | Config_Serialize err \<Rightarrow> ''could not serialise config: '' @ err
      | NoConfigDir \<Rightarrow> ''could not determine a config directory'')"

definition show_tunnel_error :: "(io_kind \<Rightarrow> string) \<Rightarrow> tunnel_error \<Rightarrow> string" where
  "show_tunnel_error sh e =
     (case e of
        InvalidConfig m \<Rightarrow> ''WireGuard config is invalid: '' @ m
      | Tunnel_Read p source \<Rightarrow> ''could not read '' @ p @ '': '' @ sh source
      | Tunnel_Command command stderr \<Rightarrow> ''`'' @ command @ ''` failed: '' @ stderr
      | Tunnel_Spawn command source \<Rightarrow> ''could not run `'' @ command @ ''`: '' @ sh source)"

section \<open>The helper, the configuration and the status\<close>

definition STATUS_MAX_AGE :: nat where "STATUS_MAX_AGE = secs 5"

record start_outcome =
  so_started :: bool
  so_message :: string

fun first_file :: "path list \<Rightarrow> ('k, path option) act" where
  "first_file [] = ret None"
| "first_file (c # cs) = bind_act (is_file c) (\<lambda>b. if b then ret (Some c) else first_file cs)"

definition helper_path :: "'k desktop \<Rightarrow> ('k, string) act" where
  "helper_path dk =
     bind_act (first_file
       ((case dk_exe dk of Some exe \<Rightarrow> (if exe = [] then [] else [butlast exe @ [''dns-helper'']]) | None \<Rightarrow> []) @
        (if dk_manifest dk = [] then []
         else map (\<lambda>relative. butlast (dk_manifest dk) @ relative)
                [[''target'', ''debug'', ''dns-helper''], [''target'', ''release'', ''dns-helper'']]))) (\<lambda>found.
     case found of
       Some c \<Rightarrow> ret (display c)
     | None \<Rightarrow>
         bind_act (run_output dk (plain [''which'', ''dns-helper''])) (\<lambda>r.
           case r of
             Inr out \<Rightarrow>
               if ou_code out = Some 0 \<and> trim (ou_stdout out) \<noteq> [] then ret (trim (ou_stdout out))
               else raise ''could not find the dns-helper binary. Build it with `cargo build -p dns-helper`.''
           | Inl _ \<Rightarrow> raise ''could not find the dns-helper binary. Build it with `cargo build -p dns-helper`.''))"

definition config_path :: "'k desktop \<Rightarrow> ('k, path) act" where
  "config_path dk = io_act (show_config_error (dk_show_io dk)) (default_path (dk_xdg dk) (dk_home dk))"

definition get_config :: "'k desktop \<Rightarrow> ('k, config) act" where
  "get_config dk = bind_act (config_path dk) (\<lambda>path.
     io_act (show_config_error (dk_show_io dk)) (load (dk_of_toml dk) path))"

definition save_config :: "'k desktop \<Rightarrow> config \<Rightarrow> ('k, unit) act" where
  "save_config dk c = bind_act (of_sum (validate c)) (\<lambda>_.
     bind_act (config_path dk) (\<lambda>path. io_act (show_config_error (dk_show_io dk)) (save (dk_to_toml dk) c path)))"

definition get_config_path :: "'k desktop \<Rightarrow> ('k, string) act" where
  "get_config_path dk = bind_act (config_path dk) (\<lambda>path. ret (display path))"

definition get_status :: "'k desktop \<Rightarrow> ('k, snapshot) act" where
  "get_status dk s = io_act (dk_show_io dk) (read_snapshot (dk_of_json dk) (dk_now dk (snd s)) STATUS_PATH STATUS_MAX_AGE) s"

definition helper_available :: "'k desktop \<Rightarrow> ('k, bool) act" where
  "helper_available dk s = (case helper_path dk s of (Inl _, s) \<Rightarrow> (Inr False, s) | (Inr _, s) \<Rightarrow> (Inr True, s))"

text \<open>The hundred polls of \<open>start_protection\<close>.\<close>

fun poll_start :: "'k desktop \<Rightarrow> nat \<Rightarrow> ('k, start_outcome) act" where
  "poll_start dk 0 = ret \<lparr>so_started = False, so_message = ''Timed out waiting for the helper to start.''\<rparr>"
| "poll_start dk (Suc n) =
     bind_act (sleep_act dk (millis 100)) (\<lambda>_.
     bind_act (get_status dk) (\<lambda>sn.
     if sn_active sn then ret \<lparr>so_started = True, so_message = ''DNS protection is active.''\<rparr>
     else bind_act (\<lambda>s. (Inr (dk_try_wait dk s), s)) (\<lambda>exited.
       case exited of
         Some code \<Rightarrow>
           ret \<lparr>so_started = False, so_message =
             (case code of
                None \<Rightarrow> ''The helper was terminated before it started.''
              | Some n \<Rightarrow>
                  if n = 126 then ''Authentication was cancelled, so nothing was changed.''
                  else if n = 127 then ''Authorisation was denied by polkit.''
                  else ''The helper exited with code '' @ show_int n @ '' before starting. Check its output in the terminal.'')\<rparr>
       | None \<Rightarrow> poll_start dk n)))"

definition start_protection :: "'k desktop \<Rightarrow> string option \<Rightarrow> ('k, start_outcome) act" where
  "start_protection dk profile_id =
     bind_act (get_status dk) (\<lambda>current.
     if sn_active current then
       ret \<lparr>so_started = False, so_message = ''Already running (pid '' @ show_nat (sn_pid current) @ '').''\<rparr>
     else
       bind_act (helper_path dk) (\<lambda>helper.
       bind_act (config_path dk) (\<lambda>config.
       bind_act (run_spawn dk
           ([''pkexec'', helper, ''--config'', display config, ''run''] @
            (case profile_id of Some pid \<Rightarrow> if pid = [] then [] else [''--profile'', pid] | None \<Rightarrow> []))) (\<lambda>r.
       case r of
         Inl e \<Rightarrow> raise (''could not launch pkexec: '' @ e @ ''. Is polkit installed?'')
       | Inr _ \<Rightarrow> poll_start dk 100))))"

definition stop_protection :: "'k desktop \<Rightarrow> ('k, start_outcome) act" where
  "stop_protection dk =
     bind_act (get_status dk) (\<lambda>current.
     if \<not> sn_active current then ret \<lparr>so_started = False, so_message = ''DNS protection was not running.''\<rparr>
     else
       bind_act (helper_path dk) (\<lambda>helper.
       bind_act (run_output dk (plain [''pkexec'', helper, ''stop''])) (\<lambda>r.
       case r of
         Inl e \<Rightarrow> raise (''could not launch pkexec: '' @ e)
       | Inr out \<Rightarrow>
           if ou_code out = Some 0 then
             ret \<lparr>so_started = False, so_message = ''DNS protection stopped and the original resolvers restored.''\<rparr>
           else raise (''stop failed: '' @ trim (ou_stderr out)))))"

section \<open>Diagnosis, provider test and games\<close>

definition run_diagnostic :: "'k desktop \<Rightarrow> 'c client_builder \<Rightarrow> ('n, 'd, 'c) diag_env \<Rightarrow> string list \<Rightarrow> ('k, verdict list) act" where
  "run_diagnostic dk client dg domains =
     bind_act (get_config dk) (\<lambda>config.
     bind_act (get_status dk) (\<lambda>sn.
     bind_act
       (if sn_active sn \<and> sn_upstreams sn \<noteq> [] then ret (List.map_filter parse_ip (sn_upstreams sn))
        else bind_act (io_act (dk_show_io dk) (ok (read_to_string RESOLV_CONF))) (\<lambda>r.
               ret (case r of Some text \<Rightarrow> parse_nameservers text | None \<Rightarrow> []))) (\<lambda>upstreams.
     case resolver_new client (c_providers config) of
       Inl e \<Rightarrow> raise (show_resolve_error e)
     | Inr (resolver, cache) \<Rightarrow>
         ret (check_all dg resolver (forwarder_new (to_socket_addrs upstreams)) 0
               (map trim (filter (\<lambda>d. trim d \<noteq> []) domains)) cache))))"

record provider_test =
  pt_ok :: bool
  pt_ms :: u64
  pt_detail :: string

text \<open>The arrow of the message is three bytes of UTF-8.\<close>

definition test_provider :: "'c client_builder \<Rightarrow> (string \<Rightarrow> string + 'n) \<Rightarrow> ('n, 'd, 'c) env \<Rightarrow> provider \<Rightarrow> string + provider_test" where
  "test_provider client from_ascii ev p =
     (case resolver_new client [p] of
        Inl e \<Rightarrow> Inl (show_resolve_error e)
      | Inr (resolver, cache) \<Rightarrow>
          (case from_ascii ''example.com.'' of
             Inl e \<Rightarrow> Inl e
           | Inr name \<Rightarrow>
               (case fst (resolve (ev_codec ev) (ev_post ev) (ev_to_lowercase ev) (ev_interfere ev) resolver name RT_A
                            (ev_now1 ev) (ev_now2 ev) cache) of
                  Inr msg \<Rightarrow>
                    Inr \<lparr>pt_ok = m_answers msg \<noteq> [], pt_ms = of_nat (as_millis (ev_elapsed ev)),
                         pt_detail = ''example.com '' @ [CHR 0xE2, CHR 0x86, CHR 0x92] @ '' '' @
                           (case first_some (\<lambda>r. map_option (show_rdata (ev_show_rdata ev)) (rr_data r)) (m_answers msg) of
                              Some d \<Rightarrow> d | None \<Rightarrow> ''no address'')\<rparr>
                | Inl e \<Rightarrow>
                    Inr \<lparr>pt_ok = False, pt_ms = of_nat (as_millis (ev_elapsed ev)), pt_detail = show_resolve_error e\<rparr>)))"

definition or_raise :: "'a option \<Rightarrow> string \<Rightarrow> ('k, 'a) act" where
  "or_raise x e = (case x of Some v \<Rightarrow> ret v | None \<Rightarrow> raise e)"

definition launch_game :: "'k desktop \<Rightarrow> string \<Rightarrow> ('k, string) act" where
  "launch_game dk profile_id =
     bind_act (get_config dk) (\<lambda>config.
     bind_act (or_raise (profile config profile_id) (''no profile named '' @ debug_str profile_id)) (\<lambda>p.
     bind_act (or_raise (case ap_launch_command p of Some c \<Rightarrow> if trim c = [] then None else Some c | None \<Rightarrow> None)
                 ''this profile has no launch command configured'') (\<lambda>command.
     if list_ex (str_contains ''<APPID>'') (ap_launch_args p) then
       raise (''the launch arguments still contain the <APPID> placeholder. Replace it with the game'' @ [CHR 0x27] @
              ''s real Steam app id first.'')
     else
       bind_act (run_spawn dk (command # ap_launch_args p)) (\<lambda>r.
       case r of
         Inl e \<Rightarrow> raise (''could not launch '' @ debug_str command @ '': '' @ e)
       | Inr _ \<Rightarrow> ret (''Launched '' @ ap_name p @ '' via '' @ command @ ''.'')))))"

section \<open>Updating\<close>

definition source_dir :: "'k desktop \<Rightarrow> ('k, path option) act" where
  "source_dir dk =
     (if dk_manifest dk = [] then ret None
      else let root = butlast (dk_manifest dk) in
           bind_act (is_file (root @ [''packaging'', ''install-user.sh''])) (\<lambda>b. ret (if b then Some root else None)))"

definition build_path :: "'k desktop \<Rightarrow> string" where
  "build_path dk = str_join '':''
     ((case dk_home dk of Some home \<Rightarrow> [display (home @ [''.cargo'', ''bin''])] | None \<Rightarrow> []) @
      (case dk_PATH dk of Some p \<Rightarrow> [p] | None \<Rightarrow> []))"

definition cargo_available :: "'k desktop \<Rightarrow> ('k, bool) act" where
  "cargo_available dk =
     bind_act (run_output dk ((plain [''cargo'', ''--version''])\<lparr>cm_path := Some (build_path dk)\<rparr>)) (\<lambda>r. ret (succeeded r))"

record update_info =
  ui_available :: bool
  ui_source :: "string option"
  ui_installed :: bool

definition get_update_info :: "'k desktop \<Rightarrow> ('k, update_info) act" where
  "get_update_info dk =
     (let installed = (case dk_exe dk of
            Some p \<Rightarrow> (if p = [] then False else suffix [''.local'', ''bin''] (butlast p)) | None \<Rightarrow> False) in
      bind_act (source_dir dk) (\<lambda>src.
      bind_act (if src \<noteq> None then cargo_available dk else ret False) (\<lambda>available.
        ret \<lparr>ui_available = available, ui_source = map_option display src, ui_installed = installed\<rparr>)))"

definition rebuild_and_install :: "'k desktop \<Rightarrow> ('k, string) act" where
  "rebuild_and_install dk =
     bind_act (source_dir dk) (\<lambda>src.
     bind_act (or_raise src ''the source folder is not available'') (\<lambda>root.
     bind_act (run_output dk \<lparr>cm_argv = [display (root @ [''packaging'', ''install-user.sh''])], cm_cwd = Some root,
                 cm_path = Some (build_path dk)\<rparr>) (\<lambda>r.
     case r of
       Inl e \<Rightarrow> raise (''could not run the installer: '' @ e)
     | Inr out \<Rightarrow>
         if ou_code out = Some 0 then ret ''Rebuilt and installed. Restart Detour to use the new version.''
         else raise (''Build failed:'' @ [nl] @
                str_join [nl] (rev (take 12 (rev (str_lines (ou_stderr out)))))))))"

section \<open>The tunnel\<close>

definition ANCHOR_UNIT :: string where "ANCHOR_UNIT = ''detourtunnel-anchor''"

definition tunnel_dir :: "'k desktop \<Rightarrow> ('k, path) act" where
  "tunnel_dir dk = bind_act (config_path dk) (\<lambda>p.
     if p = [] then raise ''config path has no parent'' else ret (butlast p @ [''tunnel'']))"

definition wg_config_path :: "'k desktop \<Rightarrow> ('k, path) act" where
  "wg_config_path dk = bind_act (tunnel_dir dk) (\<lambda>d. ret (d @ [''wg.conf'']))"

definition have_program :: "'k desktop \<Rightarrow> string \<Rightarrow> ('k, bool) act" where
  "have_program dk program = bind_act (run_output dk (plain [''which'', program])) (\<lambda>r. ret (succeeded r))"

definition tunnel_is_up :: "('k, bool) act" where
  "tunnel_is_up = io_act (\<lambda>e :: io_kind. []) is_up"

record tunnel_status =
  tt_config_present :: bool
  tt_config_path :: string
  tt_endpoint :: "string option"
  tt_wgcf_installed :: bool
  tt_up :: bool
  tt_rx_bytes :: nat
  tt_tx_bytes :: nat

definition get_tunnel_status :: "'k desktop \<Rightarrow> ('k, tunnel_status) act" where
  "get_tunnel_status dk =
     bind_act (wg_config_path dk) (\<lambda>path.
     bind_act (io_act (show_tunnel_error (dk_show_io dk)) (ok (wg_load path))) (\<lambda>parsed.
     bind_act (io_act (dk_show_io dk) traffic) (\<lambda>tr.
     bind_act (have_program dk ''wgcf'') (\<lambda>wgcf.
     bind_act tunnel_is_up (\<lambda>isup.
       ret \<lparr>tt_config_present = (parsed \<noteq> None), tt_config_path = display path,
            tt_endpoint = Option.bind parsed wg_endpoint, tt_wgcf_installed = wgcf, tt_up = isup,
            tt_rx_bytes = (case tr of Some (rx, tx) \<Rightarrow> rx | None \<Rightarrow> 0),
            tt_tx_bytes = (case tr of Some (rx, tx) \<Rightarrow> tx | None \<Rightarrow> 0)\<rparr>)))))"

text \<open>The file calls of \<open>install_config\<close>.\<close>

definition store_config :: "path \<Rightarrow> string \<Rightarrow> (io_kind, unit) io" where
  "store_config dir text =
     bind_io (create_dir_all dir) (\<lambda>_.
     bind_io (fs_write (dir @ [''wg.conf'']) text) (\<lambda>_.
       fs_set_permissions (dir @ [''wg.conf'']) 384))"

definition install_config :: "'k desktop \<Rightarrow> string \<Rightarrow> ('k, unit) act" where
  "install_config dk text =
     (case wg_parse_config text of
        Inl e \<Rightarrow> raise (show_tunnel_error (dk_show_io dk) e)
      | Inr _ \<Rightarrow> bind_act (tunnel_dir dk) (\<lambda>dir. io_act (dk_show_io dk) (store_config dir text)))"

definition tunnel_import_text :: "'k desktop \<Rightarrow> string \<Rightarrow> ('k, string) act" where
  "tunnel_import_text dk text = bind_act (install_config dk text) (\<lambda>_. ret ''WireGuard config imported.'')"

text \<open>\<open>PathBuf::from\<close> of the chosen path is an argument.\<close>

definition tunnel_import_config :: "'k desktop \<Rightarrow> (string \<Rightarrow> path) \<Rightarrow> string \<Rightarrow> ('k, string) act" where
  "tunnel_import_config dk to_path path =
     bind_act (io_act (\<lambda>e. ''could not read '' @ trim path @ '': '' @ dk_show_io dk e) (read_to_string (to_path (trim path)))) (\<lambda>text.
     bind_act (install_config dk text) (\<lambda>_. ret ''WireGuard config imported.''))"

definition run_wgcf :: "'k desktop \<Rightarrow> path \<Rightarrow> string list \<Rightarrow> ('k, unit) act" where
  "run_wgcf dk dir args =
     bind_act (run_output dk ((plain (''wgcf'' # args))\<lparr>cm_cwd := Some dir\<rparr>)) (\<lambda>r.
       case r of
         Inl e \<Rightarrow> raise (''could not run wgcf: '' @ e)
       | Inr out \<Rightarrow>
           if ou_code out = Some 0 then ret ()
           else raise (''wgcf '' @ str_join '' '' args @ '' failed: '' @ trim (ou_stderr out)))"

definition tunnel_generate_warp :: "'k desktop \<Rightarrow> ('k, string) act" where
  "tunnel_generate_warp dk =
     bind_act (have_program dk ''wgcf'') (\<lambda>wgcf.
     if \<not> wgcf then raise ''wgcf is not installed. Install it with: yay -S wgcf''
     else
       bind_act (tunnel_dir dk) (\<lambda>dir.
       bind_act (io_act (dk_show_io dk) (create_dir_all dir)) (\<lambda>_.
       bind_act (file_exists (dir @ [''wgcf-account.toml''])) (\<lambda>account.
       bind_act (if account then ret () else run_wgcf dk dir [''register'', ''--accept-tos'']) (\<lambda>_.
       bind_act (run_wgcf dk dir [''generate'']) (\<lambda>_.
       bind_act (io_act (\<lambda>e. ''wgcf did not produce a profile: '' @ dk_show_io dk e)
                   (read_to_string (dir @ [''wgcf-profile.conf'']))) (\<lambda>text.
       bind_act (install_config dk text) (\<lambda>_. ret ''Cloudflare WARP config generated.''))))))))"

definition ensure_anchor :: "'k desktop \<Rightarrow> ('k, unit) act" where
  "ensure_anchor dk =
     bind_act (run_output dk (plain [''systemctl'', ''--user'', ''is-active'', ''--quiet'', ANCHOR_UNIT])) (\<lambda>active.
     if succeeded active then ret ()
     else
       bind_act (run_output dk (plain [''systemd-run'', ''--user'', ''--quiet'', ''--unit='' @ ANCHOR_UNIT,
                   ''--slice='' @ SLICE, ''sleep'', ''infinity''])) (\<lambda>r.
       case r of
         Inl e \<Rightarrow> raise (''could not run systemd-run: '' @ e)
       | Inr out \<Rightarrow>
           if ou_code out = Some 0 then ret ()
           else raise (''could not create the tunnel slice: '' @ trim (ou_stderr out))))"

definition pkexec_helper :: "'k desktop \<Rightarrow> string list \<Rightarrow> ('k, string) act" where
  "pkexec_helper dk args =
     bind_act (helper_path dk) (\<lambda>helper.
     bind_act (run_output dk (plain ([''pkexec'', helper] @ args))) (\<lambda>r.
     case r of
       Inl e \<Rightarrow> raise (''could not launch pkexec: '' @ e)
     | Inr out \<Rightarrow>
         if ou_code out = Some 0 then ret (trim (ou_stdout out))
         else if ou_code out = Some 126 then raise ''Authentication was cancelled, so nothing was changed.''
         else if ou_code out = Some 127 then raise ''Authorisation was denied by polkit.''
         else raise (trim (ou_stderr out))))"

definition tunnel_up :: "'k desktop \<Rightarrow> ('k, string) act" where
  "tunnel_up dk =
     bind_act (wg_config_path dk) (\<lambda>config.
     bind_act (file_exists config) (\<lambda>there.
     if \<not> there then raise ''No WireGuard config yet. Generate or import one first.''
     else
       bind_act (ensure_anchor dk) (\<lambda>_.
         pkexec_helper dk [''tunnel'', ''up'', ''--wg-config'', display config, ''--uid'', show_nat (dk_uid dk)])))"

section \<open>Applications in the tunnel\<close>

definition running_split :: "'k desktop \<Rightarrow> string \<Rightarrow> ('k, nat list \<times> nat list) act" where
  "running_split dk name =
     bind_act (run_output dk (plain [''pgrep'', ''-x'', name])) (\<lambda>r.
       case r of
         Inl _ \<Rightarrow> ret ([], [])
       | Inr out \<Rightarrow> look (\<lambda>k.
           let pids = List.map_filter (\<lambda>l. parse_u32 (trim l)) (str_lines (ou_stdout out));
               inside = (\<lambda>pid. str_contains SLICE
                  (case sf_read (dk_sys dk) [''proc'', show_nat pid, ''cgroup''] k of Some c \<Rightarrow> c | None \<Rightarrow> [])) in
           (filter inside pids, filter (\<lambda>pid. \<not> inside pid) pids)))"

fun wait_hold :: "'k desktop \<Rightarrow> path \<Rightarrow> nat \<Rightarrow> ('k, path) act" where
  "wait_hold dk hold 0 = raise ''the holding scope did not appear''"
| "wait_hold dk hold (Suc n) =
     bind_act (look (dk_exists dk hold)) (\<lambda>e.
       if e then ret hold else bind_act (sleep_act dk (millis 20)) (\<lambda>_. wait_hold dk hold n))"

definition ensure_hold :: "'k desktop \<Rightarrow> string \<Rightarrow> ('k, path) act" where
  "ensure_hold dk app_name =
     (let hold = hold_cgroup (user_service_cgroup (dk_uid dk)) app_name in
      bind_act (look (dk_exists dk hold)) (\<lambda>e.
      if e then ret hold
      else
        bind_act (run_spawn dk [''systemd-run'', ''--user'', ''--scope'', ''--quiet'', ''-p'', ''Delegate=yes'',
             ''--slice='' @ SLICE, ''--unit='' @ hold_unit app_name, ''--'', ''sleep'', ''infinity'']) (\<lambda>r.
        case r of
          Inl err \<Rightarrow> raise (''could not create the holding scope: '' @ err)
        | Inr _ \<Rightarrow> wait_hold dk hold 100)))"

fun stop_units :: "'k desktop \<Rightarrow> string list \<Rightarrow> ('k, unit) act" where
  "stop_units dk [] = ret ()"
| "stop_units dk (u # us) =
     bind_act (run_output dk (plain [''systemctl'', ''--user'', ''stop'', u])) (\<lambda>_. stop_units dk us)"

definition prune_idle_holds :: "'k desktop \<Rightarrow> ('k, unit) act" where
  "prune_idle_holds dk =
     bind_act (look (idle_holds (dk_sys dk) (user_service_cgroup (dk_uid dk)))) (stop_units dk)"

definition tunnel_down :: "'k desktop \<Rightarrow> ('k, string) act" where
  "tunnel_down dk =
     bind_act (pkexec_helper dk [''tunnel'', ''down'']) (\<lambda>msg.
     bind_act (stop_units dk [ANCHOR_UNIT]) (\<lambda>_.
     bind_act (prune_idle_holds dk) (\<lambda>_. ret msg)))"

definition app_presence :: "'k desktop \<Rightarrow> tunnel_app \<Rightarrow> ('k, presence) act" where
  "app_presence dk a =
     (case flatpak_app_id (ta_command a) (ta_args a) of
        Some app_id \<Rightarrow> look (flatpak_presence (dk_sys dk) (user_service_cgroup (dk_uid dk)) (ta_name a) app_id)
      | None \<Rightarrow> bind_act (running_split dk (process_name a)) (\<lambda>(inside, outside).
          ret \<lparr>pr_inside = inside \<noteq> [], pr_outside = outside \<noteq> []\<rparr>))"

text \<open>The capture of the launch: twenty seconds, so 4001 rounds are always enough.\<close>

definition capture_act :: "'k desktop \<Rightarrow> string \<Rightarrow> path \<Rightarrow> ('k, io_kind + nat) act" where
  "capture_act dk app_id hold s =
     (case capture_flatpak (dk_sys dk) 4001 (user_service_cgroup (dk_uid dk)) app_id hold (secs 20) (secs 2) (snd s) of
        Some (r, k) \<Rightarrow> (Inr r, fst s, k)
      | None \<Rightarrow> (Inl [], s))"

text \<open>From the moment the application is known not to run.\<close>

definition launch_fresh :: "'k desktop \<Rightarrow> tunnel_app \<Rightarrow> ('k, string) act" where
  "launch_fresh dk entry =
     (let label = ta_name entry in
      bind_act (ensure_anchor dk) (\<lambda>_.
      bind_act (prune_idle_holds dk) (\<lambda>_.
      case flatpak_app_id (ta_command entry) (ta_args entry) of
        Some app_id \<Rightarrow>
          bind_act (ensure_hold dk label) (\<lambda>hold.
          bind_act (run_spawn dk (ta_command entry # ta_args entry)) (\<lambda>r.
          case r of
            Inl e \<Rightarrow> raise (''could not launch '' @ label @ '': '' @ e)
          | Inr _ \<Rightarrow>
              bind_act (capture_act dk app_id hold) (\<lambda>m.
              case m of
                Inl e \<Rightarrow> raise (''could not move '' @ label @ '' into the tunnel: '' @ dk_show_io dk e)
              | Inr moved \<Rightarrow>
                  if moved = 0 then
                    raise (label @ '' started but could not be moved into the tunnel. Close it and '' @
                           ''check it is not running elsewhere.'')
                  else ret (''Launched '' @ label @ '' (Flatpak) inside the tunnel.''))))
      | None \<Rightarrow>
          bind_act (run_spawn dk ([''systemd-run'', ''--user'', ''--scope'', ''--quiet'', ''--slice='' @ SLICE, ''--'',
                      ta_command entry] @ ta_args entry)) (\<lambda>r.
          case r of
            Inl e \<Rightarrow> raise (''could not launch '' @ label @ '': '' @ e)
          | Inr _ \<Rightarrow> ret (''Launched '' @ label @ '' inside the tunnel.'')))))"

definition launch_if_idle :: "'k desktop \<Rightarrow> tunnel_app \<Rightarrow> ('k, string) act" where
  "launch_if_idle dk entry =
     bind_act (app_presence dk entry) (\<lambda>here.
     if pr_outside here then
       raise (ta_name entry @ '' is already running outside the tunnel. Use '' @ [CHR 0x22] @ ''Move into tunnel'' @
              [CHR 0x22] @ '' to bring it in without closing it.'')
     else if pr_inside here then ret (ta_name entry @ '' is already running inside the tunnel.'')
     else launch_fresh dk entry)"

definition launch_in_tunnel :: "'k desktop \<Rightarrow> string \<Rightarrow> ('k, string) act" where
  "launch_in_tunnel dk app =
     bind_act (get_config dk) (\<lambda>config.
     bind_act (or_raise (tunnel_app_of config app) (''no tunnel app named '' @ debug_str app)) (\<lambda>entry.
     bind_act tunnel_is_up (\<lambda>isup.
     if \<not> isup then raise ''Start the tunnel first.''
     else launch_if_idle dk entry)))"

definition attach_to_tunnel :: "'k desktop \<Rightarrow> string \<Rightarrow> ('k, string) act" where
  "attach_to_tunnel dk app =
     bind_act tunnel_is_up (\<lambda>isup.
     if \<not> isup then raise ''Start the tunnel first.''
     else
       bind_act (get_config dk) (\<lambda>config.
       bind_act (or_raise (tunnel_app_of config app) (''no tunnel app named '' @ debug_str app)) (\<lambda>entry.
       bind_act
         (case flatpak_app_id (ta_command entry) (ta_args entry) of
            Some app_id \<Rightarrow> look (\<lambda>k. concat (map (\<lambda>scope. procs (dk_sys dk) scope k)
              (flatpak_scopes (dk_sys dk) (user_service_cgroup (dk_uid dk)) app_id k)))
          | None \<Rightarrow> bind_act (running_split dk (process_name entry)) (\<lambda>(inside, outside). ret outside)) (\<lambda>pids.
       if pids = [] then raise (ta_name entry @ '' is not running outside the tunnel.'')
       else
         bind_act (ensure_anchor dk) (\<lambda>_.
         bind_act (ensure_hold dk (ta_name entry)) (\<lambda>hold.
           pkexec_helper dk ([''tunnel'', ''attach'', ''--uid'', show_nat (dk_uid dk), ''--hold'', display hold, ''--reset''] @
             concat (map (\<lambda>pid. [''--pid'', show_nat pid]) pids))))))))"

record app_state =
  as_name :: string
  as_command :: string
  as_flatpak :: bool
  as_installed :: bool
  as_running_inside :: bool
  as_running_outside :: bool

definition command_line :: "tunnel_app \<Rightarrow> string" where
  "command_line a = str_join '' '' (ta_command a # ta_args a)"

definition flatpak_installed :: "'k desktop \<Rightarrow> string \<Rightarrow> ('k, bool) act" where
  "flatpak_installed dk app_id =
     bind_act (run_output dk (plain [''flatpak'', ''info'', app_id])) (\<lambda>r. ret (succeeded r))"

definition app_installed :: "'k desktop \<Rightarrow> (string \<Rightarrow> path) \<Rightarrow> tunnel_app \<Rightarrow> ('k, bool) act" where
  "app_installed dk to_path a =
     (case flatpak_app_id (ta_command a) (ta_args a) of
        Some app_id \<Rightarrow> flatpak_installed dk app_id
      | None \<Rightarrow>
          bind_act (if starts_with ''/'' (ta_command a) then file_exists (to_path (ta_command a)) else ret False) (\<lambda>e.
            if e then ret True else have_program dk (ta_command a)))"

fun app_states :: "'k desktop \<Rightarrow> (string \<Rightarrow> path) \<Rightarrow> tunnel_app list \<Rightarrow> ('k, app_state list) act" where
  "app_states dk to_path [] = ret []"
| "app_states dk to_path (a # as) =
     bind_act (app_presence dk a) (\<lambda>here.
     bind_act (app_installed dk to_path a) (\<lambda>installed.
     bind_act (app_states dk to_path as) (\<lambda>rest.
       ret (\<lparr>as_name = ta_name a, as_command = command_line a,
             as_flatpak = (flatpak_app_id (ta_command a) (ta_args a) \<noteq> None), as_installed = installed,
             as_running_inside = pr_inside here, as_running_outside = pr_outside here\<rparr> # rest))))"

definition tunnel_apps :: "'k desktop \<Rightarrow> (string \<Rightarrow> path) \<Rightarrow> ('k, app_state list) act" where
  "tunnel_apps dk to_path = bind_act (get_config dk) (\<lambda>config. app_states dk to_path (c_tunnel_apps config))"

record suggestion =
  sg_name :: string
  sg_command :: string

definition SUGGESTED :: "(string \<times> string) list" where
  "SUGGESTED = [(''Brave'', ''brave''), (''Firefox'', ''firefox''), (''Chromium'', ''chromium''),
     (''Google Chrome'', ''google-chrome-stable''), (''Zen'', ''zen-browser''), (''Steam'', ''steam''),
     (''Lutris'', ''lutris''), (''Heroic'', ''heroic''), (''Discord'', ''discord'')]"

fun installed_of :: "'k desktop \<Rightarrow> (string \<times> string) list \<Rightarrow> ('k, suggestion list) act" where
  "installed_of dk [] = ret []"
| "installed_of dk ((name, command) # rest) =
     bind_act (have_program dk command) (\<lambda>b.
     bind_act (installed_of dk rest) (\<lambda>xs.
       ret (if b then \<lparr>sg_name = name, sg_command = command\<rparr> # xs else xs)))"

definition flatpak_suggestions :: "string \<Rightarrow> suggestion list" where
  "flatpak_suggestions out = List.map_filter (\<lambda>line.
     case split_on (CHR 0x09) line of
       name # app_id # _ \<Rightarrow> Some \<lparr>sg_name = trim name, sg_command = ''flatpak run '' @ trim app_id\<rparr>
     | _ \<Rightarrow> None) (str_lines out)"

definition suggest_apps :: "'k desktop \<Rightarrow> ('k, suggestion list) act" where
  "suggest_apps dk =
     bind_act (get_config dk) (\<lambda>config.
     bind_act (installed_of dk SUGGESTED) (\<lambda>native.
     bind_act (run_output dk (plain [''flatpak'', ''list'', ''--app'', ''--columns=name,application''])) (\<lambda>r.
       ret (filter (\<lambda>s. sg_command s \<notin> set (map command_line (c_tunnel_apps config)))
         (native @ (case r of Inr out \<Rightarrow> flatpak_suggestions (ou_stdout out) | Inl _ \<Rightarrow> []))))))"

record exit_check =
  ec_direct_ip :: "string option"
  ec_direct_loc :: "string option"
  ec_tunnel_ip :: "string option"
  ec_tunnel_loc :: "string option"
  ec_tunnel_warp :: "string option"
  ec_tunnel_error :: "string option"

definition parse_trace :: "string \<Rightarrow> string \<Rightarrow> string option" where
  "parse_trace text key = first_some (strip_prefix (key @ ''='')) (str_lines text)"

definition TRACE :: string where "TRACE = ''https://www.cloudflare.com/cdn-cgi/trace''"

definition tunnel_check_exit :: "'k desktop \<Rightarrow> ('k, exit_check) act" where
  "tunnel_check_exit dk =
     bind_act (run_output dk (plain [''curl'', ''-s'', ''--max-time'', ''8'', TRACE])) (\<lambda>d.
     let direct = (case d of Inr out \<Rightarrow> ou_stdout out | Inl _ \<Rightarrow> []) in
     bind_act (ensure_anchor dk) (\<lambda>_.
     bind_act (run_output dk (plain [''systemd-run'', ''--user'', ''--scope'', ''--quiet'', ''--slice='' @ SLICE, ''--'',
                 ''curl'', ''-s'', ''--max-time'', ''8'', TRACE])) (\<lambda>r.
     case r of
       Inl e \<Rightarrow> raise e
     | Inr out \<Rightarrow>
         (let t = ou_stdout out in
          bind_act
            (if trim t = [] then
               bind_act tunnel_is_up (\<lambda>isup. ret (Some
                 (if isup then ''No response through the tunnel. The WireGuard endpoint may be '' @
                               ''unreachable from this network.''
                  else ''Tunnel is down. Tunnelled apps have no connectivity (fail-closed) '' @
                       ''only while the tunnel is up; start it first.'')))
             else ret None) (\<lambda>err.
          ret \<lparr>ec_direct_ip = parse_trace direct ''ip'', ec_direct_loc = parse_trace direct ''loc'',
               ec_tunnel_ip = parse_trace t ''ip'', ec_tunnel_loc = parse_trace t ''loc'',
               ec_tunnel_warp = parse_trace t ''warp'', ec_tunnel_error = err\<rparr>)))))"

section \<open>The filter bypass\<close>

definition FILTER_PORT :: u16 where "FILTER_PORT = 8088"
definition FILTER_TPROXY_PORT :: u16 where "FILTER_TPROXY_PORT = 8089"

text \<open>\<open>fi_task\<close>: a task handle is stored.\<close>

record filter_state =
  fi_task :: bool
  fi_running :: bool
  fi_stats :: stats

record filter_status =
  ft_running :: bool
  ft_port :: u16
  ft_connections :: u64
  ft_fragmented :: u64

definition get_filter_status :: "filter_state \<Rightarrow> filter_status" where
  "get_filter_status f = \<lparr>ft_running = fi_running f, ft_port = FILTER_PORT,
     ft_connections = connections (fi_stats f), ft_fragmented = fragmented (fi_stats f)\<rparr>"

definition filter_start :: "filter_state \<Rightarrow> (string + string) \<times> filter_state" where
  "filter_start f =
     (if fi_running f then (Inr ''Filter bypass is already running.'', f)
      else (Inr (''Filter bypass running on 127.0.0.1:'' @ show_nat (unat FILTER_PORT) @ ''.''),
            f\<lparr>fi_running := True, fi_task := True\<rparr>))"

text \<open>The spawned task when one of its servers returns.\<close>

definition filter_task_ended :: "filter_state \<Rightarrow> filter_state" where
  "filter_task_ended f = f\<lparr>fi_running := False\<rparr>"

definition filter_stop :: "filter_state \<Rightarrow> (string + string) \<times> filter_state" where
  "filter_stop f = (Inr ''Filter bypass stopped.'', f\<lparr>fi_task := False, fi_running := False\<rparr>)"

definition filter_route_on :: "'k desktop \<Rightarrow> filter_state \<Rightarrow> ('k, string) act" where
  "filter_route_on dk f =
     (if \<not> fi_running f then raise ''Start the filter bypass first.''
      else bind_act (ensure_anchor dk) (\<lambda>_.
        pkexec_helper dk [''filter-route'', ''up'', ''--uid'', show_nat (dk_uid dk), ''--port'',
          show_nat (unat FILTER_TPROXY_PORT)]))"

definition filter_route_off :: "'k desktop \<Rightarrow> ('k, string) act" where
  "filter_route_off dk = pkexec_helper dk [''filter-route'', ''down'']"

definition CHROMIUM_FAMILY :: "string list" where
  "CHROMIUM_FAMILY = [''brave'', ''brave-browser'', ''chromium'', ''google-chrome-stable'', ''google-chrome'',
     ''vivaldi'', ''vivaldi-stable'', ''microsoft-edge'']"

definition launch_with_filter :: "'k desktop \<Rightarrow> filter_state \<Rightarrow> string \<Rightarrow> ('k, string) act" where
  "launch_with_filter dk f app =
     (if \<not> fi_running f then raise ''Start the filter bypass first.''
      else
        bind_act (get_config dk) (\<lambda>config.
        bind_act (or_raise (tunnel_app_of config app) (''no app named '' @ debug_str app)) (\<lambda>entry.
        let program = last (split_on (CHR ''/'') (ta_command entry)) in
        if program \<notin> set CHROMIUM_FAMILY then
          raise (ta_name entry @ '' isn'' @ [CHR 0x27] @ ''t a Chromium-family browser, so it can'' @ [CHR 0x27] @
                 ''t take a --proxy-server flag. '' @
                 ''Filter bypass works with Brave, Chromium, Chrome, Vivaldi or Edge.'')
        else
          bind_act (running_split dk program) (\<lambda>(inside, outside).
          if outside \<noteq> [] then
            raise (ta_name entry @ '' is already running, so a new launch would just reuse it without the proxy. '' @
                   ''Quit it completely first, then launch again.'')
          else
            bind_act (run_spawn dk ([ta_command entry, ''--proxy-server=http://127.0.0.1:'' @ show_nat (unat FILTER_PORT)] @
                        ta_args entry)) (\<lambda>r.
            case r of
              Inl e \<Rightarrow> raise (''could not launch '' @ ta_name entry @ '': '' @ e)
            | Inr _ \<Rightarrow> ret (''Launched '' @ ta_name entry @ '' through the filter bypass.''))))))"

section \<open>Which programs an action runs\<close>

text \<open>The desktop with a log of the argument vectors it runs.\<close>

definition log_desktop :: "'k desktop \<Rightarrow> ('k \<times> string list list) desktop" where
  "log_desktop dk = \<lparr>
     dk_sys = \<lparr>sf_list = (\<lambda>p (k, _). sf_list (dk_sys dk) p k), sf_read = (\<lambda>p (k, _). sf_read (dk_sys dk) p k),
       sf_write_pid = (\<lambda>p n (k, l). case sf_write_pid (dk_sys dk) p n k of (r, k) \<Rightarrow> (r, k, l)),
       sf_now = (\<lambda>(k, _). sf_now (dk_sys dk) k), sf_sleep = (\<lambda>d (k, l). (sf_sleep (dk_sys dk) d k, l))\<rparr>,
     dk_output = (\<lambda>c (w, k, l). case dk_output dk c (w, k) of (r, w, k) \<Rightarrow> (r, w, k, l @ [cm_argv c])),
     dk_spawn = (\<lambda>argv (w, k, l). case dk_spawn dk argv (w, k) of (r, w, k) \<Rightarrow> (r, w, k, l @ [argv])),
     dk_try_wait = (\<lambda>(w, k, l). dk_try_wait dk (w, k)),
     dk_sleep = (\<lambda>d (w, k, l). case dk_sleep dk d (w, k) of (w, k) \<Rightarrow> (w, k, l)),
     dk_exists = (\<lambda>p (k, _). dk_exists dk p k), dk_uid = dk_uid dk, dk_exe = dk_exe dk,
     dk_manifest = dk_manifest dk, dk_xdg = dk_xdg dk, dk_home = dk_home dk, dk_PATH = dk_PATH dk,
     dk_show_io = dk_show_io dk, dk_to_toml = dk_to_toml dk, dk_of_toml = dk_of_toml dk,
     dk_of_json = dk_of_json dk, dk_now = (\<lambda>(k, _). dk_now dk k)\<rparr>"

text \<open>\<open>runs A m\<close>: \<open>m\<close> runs only programs with argument vectors in \<open>A\<close>.\<close>

definition runs :: "string list set \<Rightarrow> ('k \<times> string list list, 'a) act \<Rightarrow> bool" where
  "runs A m \<longleftrightarrow> (\<forall>s. \<exists>new. snd (snd (snd (m s))) = snd (snd s) @ new \<and> set new \<subseteq> A)"

named_theorems run_intros \<open>which programs an action runs\<close>

lemma runs_basic [run_intros]:
  "runs A (ret x)" "runs A (raise e)" "runs A (of_sum r)" "runs A (look f)" "runs A (io_act sh m)" "runs A (or_raise y e)"
  by (auto simp: runs_def ret_def raise_def of_sum_def look_def io_act_def or_raise_def split: option.splits prod.splits sum.splits)

lemma runs_bind [run_intros]:
  assumes "runs A m" "\<And>x. runs A (f x)"
  shows "runs A (bind_act m f)"
  unfolding runs_def
proof
  fix s
  obtain r s1 where m: "m s = (r, s1)" by (cases "m s")
  from assms(1) m obtain n1 where n1: "snd (snd s1) = snd (snd s) @ n1" "set n1 \<subseteq> A"
    unfolding runs_def by (metis snd_conv)
  show "\<exists>new. snd (snd (snd (bind_act m f s))) = snd (snd s) @ new \<and> set new \<subseteq> A"
  proof (cases r)
    case (Inl e)
    with m n1 show ?thesis by (auto simp: bind_act_def)
  next
    case (Inr x)
    from assms(2) [of x] obtain n2 where "snd (snd (snd (f x s1))) = snd (snd s1) @ n2" "set n2 \<subseteq> A"
      unfolding runs_def by metis
    with m n1 Inr show ?thesis by (intro exI [of _ "n1 @ n2"]) (auto simp: bind_act_def)
  qed
qed

lemma runs_if [run_intros]: "runs A m \<Longrightarrow> runs A m' \<Longrightarrow> runs A (if b then m else m')"
  by simp

lemma runs_output [run_intros]: "cm_argv c \<in> A \<Longrightarrow> runs A (run_output (log_desktop dk) c)"
  by (auto simp: runs_def run_output_def log_desktop_def split: prod.splits)

lemma runs_spawn [run_intros]: "argv \<in> A \<Longrightarrow> runs A (run_spawn (log_desktop dk) argv)"
  by (auto simp: runs_def run_spawn_def log_desktop_def split: prod.splits)

lemma runs_sleep [run_intros]: "runs A (sleep_act (log_desktop dk) d)"
  by (auto simp: runs_def sleep_act_def log_desktop_def split: prod.splits)

lemma plain_argv [simp]: "cm_argv (plain argv) = argv"
  by (simp add: plain_def)

lemma runs_config [run_intros]:
  "runs A (config_path (log_desktop dk))" "runs A (get_config (log_desktop dk))" "runs A tunnel_is_up"
  by (auto simp: config_path_def get_config_def tunnel_is_up_def intro!: run_intros)

text \<open>The programs of a launch: asking for processes, managing units, and starting something in
  the tunnel slice.\<close>

definition in_slice :: "string list set" where
  "in_slice = {argv. argv \<noteq> [] \<and> (hd argv = ''pgrep'' \<or> hd argv = ''systemctl'' \<or>
     (hd argv = ''systemd-run'' \<and> (''--slice='' @ SLICE) \<in> set argv))}"

lemma in_slice_intros:
  "''pgrep'' # xs \<in> in_slice" "''systemctl'' # xs \<in> in_slice"
  "''--slice='' @ SLICE \<in> set xs \<Longrightarrow> ''systemd-run'' # xs \<in> in_slice"
  by (simp_all add: in_slice_def)

lemma runs_split [run_intros]: "runs in_slice (running_split (log_desktop dk) name)"
  unfolding running_split_def by (auto intro!: run_intros in_slice_intros split: sum.split)

lemma runs_anchor [run_intros]: "runs in_slice (ensure_anchor (log_desktop dk))"
  unfolding ensure_anchor_def by (auto intro!: run_intros in_slice_intros split: sum.split)

lemma runs_stop [run_intros]: "runs in_slice (stop_units (log_desktop dk) us)"
  by (induction us) (auto intro!: run_intros in_slice_intros)

lemma runs_prune [run_intros]: "runs in_slice (prune_idle_holds (log_desktop dk))"
  unfolding prune_idle_holds_def by (intro run_intros)

lemma runs_presence [run_intros]: "runs in_slice (app_presence (log_desktop dk) a)"
  unfolding app_presence_def by (auto intro!: run_intros split: option.split)

lemma runs_launch_native:
  assumes "flatpak_app_id (ta_command entry) (ta_args entry) = None"
  shows "runs in_slice (launch_fresh (log_desktop dk) entry)"
  unfolding launch_fresh_def Let_def assms option.case
  by (auto intro!: run_intros in_slice_intros split: sum.split)

lemma bind_act_cases:
  assumes "bind_act m f s = (r, s')"
  obtains e where "m s = (Inl e, s')" "r = Inl e" | x s1 where "m s = (Inr x, s1)" "f x s1 = (r, s')"
  using assms by (cases "m s") (auto simp: bind_act_def split: sum.splits)

text \<open>Actions that leave the kernel alone: they only use files and the values of the desktop.\<close>

definition files_only :: "('k, 'a) act \<Rightarrow> bool" where
  "files_only m \<longleftrightarrow> (\<forall>s. snd (snd (m s)) = snd s)"

lemma files_only_intros:
  "files_only (ret x)" "files_only (raise e)" "files_only (io_act sh mi)" "files_only (or_raise y e)"
  "files_only m \<Longrightarrow> (\<And>x. files_only (f x)) \<Longrightarrow> files_only (bind_act m f)"
  by (auto simp: files_only_def ret_def raise_def io_act_def or_raise_def bind_act_def split: option.splits prod.splits sum.splits)
    (metis snd_conv)+

lemma files_only_actions: "files_only (config_path dk)" "files_only (get_config dk)" "files_only tunnel_is_up"
  by (auto simp: config_path_def get_config_def tunnel_is_up_def intro!: files_only_intros)

lemma files_onlyD: "files_only m \<Longrightarrow> m s = (r, s') \<Longrightarrow> snd s' = snd s"
  unfolding files_only_def by (metis snd_conv)

lemma files_only_log:
  assumes "m (w, k, l) = (r, s)" "files_only m"
  shows "s = (fst s, k, l)"
  using files_onlyD [OF assms(2,1)] by (cases s) simp

lemma presence_asks_pgrep: "runs {argv. hd argv = ''pgrep''} (app_presence (log_desktop dk) a)"
  unfolding app_presence_def running_split_def by (auto intro!: run_intros split: option.split sum.split)

lemma runsD:
  assumes "runs A m" "m (w, k, l) = (r, w', k', l')"
  shows "\<exists>new. l' = l @ new \<and> set new \<subseteq> A"
  using assms unfolding runs_def by (metis snd_conv)

section \<open>Files of the desktop\<close>

lemma default_path_yields:
  assumes "quiet w" "w_fs w (base @ [''wuwa-dns'']) = None"
  shows "yields (default_path (Some base) home) w (base @ [''detour'', ''config.toml'']) (w_fs w)"
proof -
  have legacy: "stat (w_fs w) (base @ [''wuwa-dns'']) \<noteq> Some Dir"
    using assms(2) by (subst stat_self) (auto simp: is_link_def)
  have "yields (if e then return_io False else path_is_dir (base @ [''wuwa-dns'']) :: (config_error, bool) io) w1 False (w_fs w)"
    if "w_fs w1 = w_fs w" "quiet w1" for w1 e
  proof -
    have "yields (return_io False :: (config_error, bool) io) w1 False (w_fs w1)" by (rule yields_return [OF that(2)])
    moreover have "yields (path_is_dir (base @ [''wuwa-dns'']) :: (config_error, bool) io) w1
        (stat (w_fs w1) (base @ [''wuwa-dns'']) = Some Dir) (w_fs w1)" by (rule yields_is_dir [OF that(2)])
    ultimately show ?thesis using legacy that(1) by simp
  qed
  note move = this
  show ?thesis
    unfolding default_path_def option.case Let_def
  proof (rule yields_bind [OF yields_exists [OF assms(1)]])
    fix w1 :: world assume w1: "w_fs w1 = w_fs w" "quiet w1"
    show "yields (bind_io (if stat (w_fs w) (base @ [''detour'']) \<noteq> None then return_io False
          else (path_is_dir (base @ [''wuwa-dns'']) :: (config_error, bool) io))
        (\<lambda>move. bind_io (if move then ignore (rename_tree (base @ [''wuwa-dns'']) (base @ [''detour''])) else return_io ())
          (\<lambda>_. return_io ((base @ [''detour'']) @ [''config.toml''])))) w1 (base @ [''detour'', ''config.toml'']) (w_fs w)"
    proof (rule yields_bind [OF move [OF w1]])
      fix w2 :: world assume w2: "w_fs w2 = w_fs w" "quiet w2"
      show "yields (bind_io (if False then ignore (rename_tree (base @ [''wuwa-dns'']) (base @ [''detour''])) else return_io ())
          (\<lambda>_. return_io ((base @ [''detour'']) @ [''config.toml''])) :: (config_error, path) io) w2 (base @ [''detour'', ''config.toml'']) (w_fs w)"
        using w2 by (simp add: yields_def bind_io_def return_io_def)
    qed
  qed
qed

lemma load_missing:
  assumes "quiet w" "stat (w_fs w) path = None"
  shows "yields (load of_toml path) w config_default (w_fs w)"
proof -
  have "read_to_string path w = (Inl NotFound, w)"
    unfolding read_to_string_def query_def using assms by (intro sys_quiet_error) (simp_all add: quiet_def)
  with assms(1) show ?thesis by (simp add: load_def yields_def bind_io_def attempt_def return_io_def)
qed

section \<open>Launching\<close>

lemma launch_if_idle_guarded:
  assumes "launch_if_idle (log_desktop dk) entry (w, k, []) = (r, w', k', log)" "argv \<in> set log" "hd argv \<noteq> ''pgrep''"
  shows "\<exists>here s. app_presence (log_desktop dk) entry (w, k, []) = (Inr here, s) \<and> \<not> pr_outside here \<and> \<not> pr_inside here \<and>
    (flatpak_app_id (ta_command entry) (ta_args entry) = None \<longrightarrow> set log \<subseteq> in_slice)"
  using assms(1) unfolding launch_if_idle_def
proof (rule bind_act_cases)
  fix err assume "app_presence (log_desktop dk) entry (w, k, []) = (Inl err, w', k', log)"
  from runsD [OF presence_asks_pgrep this] assms(2,3) show ?thesis by auto
next
  fix here s3
  assume p: "app_presence (log_desktop dk) entry (w, k, []) = (Inr here, s3)"
    and rest: "(if pr_outside here then
       raise (ta_name entry @ '' is already running outside the tunnel. Use '' @ [CHR 0x22] @ ''Move into tunnel'' @
              [CHR 0x22] @ '' to bring it in without closing it.'')
     else if pr_inside here then ret (ta_name entry @ '' is already running inside the tunnel.'')
     else launch_fresh (log_desktop dk) entry) s3 = (r, w', k', log)"
  obtain w3 k3 l3 where s3: "s3 = (w3, k3, l3)" by (rule prod_cases3)
  have l3: "\<exists>new. l3 = [] @ new \<and> set new \<subseteq> {argv. hd argv = ''pgrep''}" "\<exists>new. l3 = [] @ new \<and> set new \<subseteq> in_slice"
    using runsD [OF presence_asks_pgrep p [unfolded s3]] runsD [OF runs_presence p [unfolded s3]] by blast+
  have idle: "\<not> pr_outside here" "\<not> pr_inside here"
    using rest l3(1) assms(2,3) by (auto simp: s3 raise_def ret_def split: if_splits)
  with rest have fresh_run: "launch_fresh (log_desktop dk) entry (w3, k3, l3) = (r, w', k', log)" by (simp add: s3)
  have "set log \<subseteq> in_slice" if "flatpak_app_id (ta_command entry) (ta_args entry) = None"
    using runsD [OF runs_launch_native [OF that] fresh_run] l3(2) by auto
  with p idle show ?thesis by (intro exI [of _ here] exI [of _ s3]) simp
qed


text \<open>A desktop whose programs all succeed and say nothing, with a tunnel and no configuration file.\<close>

definition demo_desktop :: "unit desktop" where
  "demo_desktop = \<lparr>dk_sys = \<lparr>sf_list = (\<lambda>p k. None), sf_read = (\<lambda>p k. None), sf_write_pid = (\<lambda>p n k. (Gone, k)),
       sf_now = (\<lambda>k. 0), sf_sleep = (\<lambda>d k. k)\<rparr>,
     dk_output = (\<lambda>c s. (Inr \<lparr>ou_code = Some 0, ou_stdout = [], ou_stderr = []\<rparr>, s)), dk_spawn = (\<lambda>argv s. (Inr (), s)),
     dk_try_wait = (\<lambda>s. None), dk_sleep = (\<lambda>d s. s), dk_exists = (\<lambda>p k. True), dk_uid = 1000, dk_exe = None,
     dk_manifest = [], dk_xdg = Some [''cfg''], dk_home = None, dk_PATH = None, dk_show_io = (\<lambda>e. []),
     dk_to_toml = (\<lambda>c. Inr ''x''), dk_of_toml = (\<lambda>t. Inr config_default), dk_of_json = (\<lambda>t. None), dk_now = (\<lambda>k. 0)\<rparr>"

definition demo_net :: files where
  "demo_net = [[] \<mapsto> Dir, SYS_NET @ [IFACE] \<mapsto> Dir]"

definition demo_net_world :: world where
  "demo_net_world = \<lparr>w_fs = demo_net, w_faults = [], w_trace = [demo_net]\<rparr>"

lemma demo_net_facts: "quiet demo_net_world" "w_fs demo_net_world = demo_net" "demo_net ([''cfg''] @ [''wuwa-dns'']) = None"
  "stat demo_net [''cfg'', ''detour'', ''config.toml''] = None" "stat demo_net (SYS_NET @ [IFACE]) \<noteq> None"
  by (simp add: demo_net_world_def quiet_def, simp add: demo_net_world_def, simp add: demo_net_def SYS_NET_def,
      subst stat_self, simp add: demo_net_def SYS_NET_def is_link_def, simp add: demo_net_def SYS_NET_def,
      subst stat_self, simp add: demo_net_def is_link_def, simp add: demo_net_def)

lemma demo_launch:
  "\<exists>w'. launch_in_tunnel (log_desktop demo_desktop) ''Brave'' (demo_net_world, (), []) =
     (Inr ''Launched Brave inside the tunnel.'', w', (),
      [[''pgrep'', ''-x'', ''brave''], [''systemctl'', ''--user'', ''is-active'', ''--quiet'', ANCHOR_UNIT],
       [''systemd-run'', ''--user'', ''--scope'', ''--quiet'', ''--slice='' @ SLICE, ''--'', ''brave'']])"
proof -
  let ?dk = "log_desktop demo_desktop"
  have dk: "dk_xdg ?dk = Some [''cfg'']" "dk_of_toml ?dk = (\<lambda>t. Inr config_default)" by (simp_all add: log_desktop_def demo_desktop_def)
  have path: "yields (default_path (Some [''cfg'']) (dk_home ?dk)) demo_net_world [''cfg'', ''detour'', ''config.toml''] demo_net"
    using default_path_yields [OF demo_net_facts(1), of "[''cfg'']" "dk_home ?dk"] demo_net_facts(2,3) by simp
  obtain w1 where w1: "default_path (Some [''cfg'']) (dk_home ?dk) demo_net_world = (Inr [''cfg'', ''detour'', ''config.toml''], w1)"
    "quiet w1" "w_fs w1 = demo_net" by (rule yieldsE [OF path])
  obtain w2 where w2: "load (dk_of_toml ?dk) [''cfg'', ''detour'', ''config.toml''] w1 = (Inr config_default, w2)" "quiet w2"
    "w_fs w2 = demo_net" by (rule yieldsE [OF load_missing [OF w1(2), unfolded w1(3), OF demo_net_facts(4)]])
  have "yields (is_up :: (io_kind, bool) io) w2 True demo_net"
    using yields_exists [OF w2(2), of "SYS_NET @ [IFACE]"] demo_net_facts(5) by (simp add: is_up_def w2(3))
  then obtain w3 where w3: "(is_up :: (io_kind, bool) io) w2 = (Inr True, w3)" by (rule yieldsE)
  have gc: "get_config ?dk (demo_net_world, (), []) = (Inr config_default, w2, (), [])"
    by (simp add: get_config_def config_path_def bind_act_def io_act_def w1(1) w2(1) dk(1))
  have up: "tunnel_is_up (w2, k) = (Inr True, w3, k)" for k :: "unit \<times> string list list"
    by (simp add: tunnel_is_up_def io_act_def w3)
  have app: "tunnel_app_of config_default ''Brave'' = Some (tunnel_app_new ''Brave'' ''brave'')"
    by (simp add: tunnel_app_of_def config_default_def default_tunnel_apps_def tunnel_app_new_def)
  have fp: "flatpak_app_id ''brave'' [] = None" and pn: "process_name (tunnel_app_new ''Brave'' ''brave'') = ''brave''"
    by (simp_all add: flatpak_app_id_def process_name_def tunnel_app_new_def split_on_none)
  have fields: "ta_name (tunnel_app_new ''Brave'' ''brave'') = ''Brave''" "ta_args (tunnel_app_new ''Brave'' ''brave'') = []"
    "ta_command (tunnel_app_new ''Brave'' ''brave'') = ''brave''" by (simp_all add: tunnel_app_new_def)
  have out: "run_output ?dk c (w, (), l) = (Inr (Inr \<lparr>ou_code = Some 0, ou_stdout = [], ou_stderr = []\<rparr>), w, (), l @ [cm_argv c])"
    and spawn: "run_spawn ?dk argv (w, (), l) = (Inr (Inr ()), w, (), l @ [argv])" for c argv w l
    by (simp_all add: run_output_def run_spawn_def log_desktop_def demo_desktop_def)
  have lines: "str_lines [] = []" by (simp add: str_lines_def split_on_def)
  have pres: "app_presence ?dk (tunnel_app_new ''Brave'' ''brave'') (w, (), l) =
      (Inr \<lparr>pr_inside = False, pr_outside = False\<rparr>, w, (), l @ [[''pgrep'', ''-x'', ''brave'']])" for w l
    unfolding app_presence_def running_split_def pn
    by (simp add: tunnel_app_new_def fp bind_act_def out look_def lines ret_def List.map_filter_simps Let_def)
  have holds: "idle_holds (dk_sys ?dk) p s = []" for p s
    by (cases s) (simp add: idle_holds_def log_desktop_def demo_desktop_def)
  show ?thesis
    unfolding launch_in_tunnel_def
    by (simp add: bind_act_def gc app or_raise_def ret_def up pres launch_fresh_def Let_def ensure_anchor_def out succeeded_def
        launch_if_idle_def prune_idle_holds_def look_def holds fields fp spawn)
qed


section \<open>What the desktop stores, the helper accepts\<close>

lemma config_path_step:
  assumes "quiet w" "dk_xdg dk = Some base" "w_fs w (base @ [''wuwa-dns'']) = None"
  obtains w1 where "config_path dk (w, k) = (Inr (base @ [''detour'', ''config.toml'']), w1, k)" "quiet w1" "w_fs w1 = w_fs w"
proof -
  obtain w1 where w1: "default_path (Some base) (dk_home dk) w = (Inr (base @ [''detour'', ''config.toml'']), w1)" "quiet w1"
    "w_fs w1 = w_fs w" by (rule yieldsE [OF default_path_yields [OF assms(1,3)]])
  then have "config_path dk (w, k) = (Inr (base @ [''detour'', ''config.toml'']), w1, k)"
    by (simp add: config_path_def io_act_def assms(2))
  then show thesis using w1(2,3) by (rule that)
qed

text \<open>C39: What the desktop saves, the helper runs with: a configuration is written only when it is valid,
  and then both the desktop and the helper read the same configuration back, whose listen address
  parses and whose providers build a resolver; an invalid one is refused with the reason of
  \<open>validate\<close> and nothing is touched.\<close>

theorem saved_config_runs:
  assumes "quiet w" "dk_xdg dk = Some base" "w_fs w (base @ [''wuwa-dns'']) = None"
    "\<forall>n. w_fs w (take n (base @ [''detour''])) \<in> {None, Some Dir}"
    "plain_node (w_fs w (base @ [''detour'', ''config.toml'']))"
    "dk_to_toml dk c = Inr text" "dk_of_toml dk text = Inr c" "\<forall>pin. \<exists>x. client pin = Inr x"
  shows "case validate c of
      Inl e \<Rightarrow> save_config dk c (w, k) = (Inl e, w, k)
    | Inr _ \<Rightarrow> \<exists>w1 w2 w3 listen r. save_config dk c (w, k) = (Inr (), w1, k) \<and>
        get_config dk (w1, k) = (Inr c, w2, k) \<and>
        load (dk_of_toml dk) (base @ [''detour'', ''config.toml'']) w1 = (Inr c, w3) \<and>
        parse_socket (c_listen c) = Some listen \<and>
        resolver_new client (c_providers c) = Inr (r, cache_new 4096 :: ('n, 'd) cache)"
proof (cases "validate c")
  case (Inl e)
  then show ?thesis by (simp add: save_config_def bind_act_def of_sum_def)
next
  case (Inr u)
  then have valid: "validate c = Inr ()" by simp
  let ?path = "base @ [''detour'', ''config.toml'']"
  have par: "butlast ?path = base @ [''detour'']" by (simp add: butlast_append)
  obtain w0 where w0: "config_path dk (w, k) = (Inr ?path, w0, k)" "quiet w0" "w_fs w0 = w_fs w"
    using config_path_step [OF assms(1-3)] .
  have dirs: "\<forall>n. w_fs w0 (take n (butlast ?path)) \<in> {None, Some Dir}" unfolding w0(3) par by (rule assms(4))
  have plain: "plain_node (w_fs w0 ?path)" using assms(5) by (simp only: w0(3))
  obtain m where "yields (save (dk_to_toml dk) c ?path) w0 () ((make_dirs (butlast ?path) (w_fs w0))(?path \<mapsto> File text m))"
    by (rule save_yields [where to_toml = "dk_to_toml dk", OF w0(2) _ plain dirs assms(6)]) simp
  then obtain w1 where w1: "save (dk_to_toml dk) c ?path w0 = (Inr (), w1)" "quiet w1"
    "w_fs w1 = (make_dirs (base @ [''detour'']) (w_fs w))(?path \<mapsto> File text m)"
    unfolding par w0(3) by (rule yieldsE)
  have legacy: "w_fs w1 (base @ [''wuwa-dns'']) = None" using assms(3) by (simp add: w1(3) make_dirs_def)
  have stat1: "stat (w_fs w1) ?path = Some (File text m)" by (subst stat_self) (simp_all add: w1(3) is_link_def)
  obtain w2 where w2: "config_path dk (w1, k) = (Inr ?path, w2, k)" "quiet w2" "w_fs w2 = w_fs w1"
    using config_path_step [OF w1(2) assms(2) legacy] .
  have stat2: "stat (w_fs w2) ?path = Some (File text m)" by (simp only: w2(3) stat1)
  obtain w4 where w4: "load (dk_of_toml dk) ?path w2 = (Inr c, w4)"
    by (rule yieldsE [OF load_yields [where of_toml = "dk_of_toml dk", OF w2(2) stat2 assms(7)]])
  obtain w3 where w3: "load (dk_of_toml dk) ?path w1 = (Inr c, w3)"
    by (rule yieldsE [OF load_yields [where of_toml = "dk_of_toml dk", OF w1(2) stat1 assms(7)]])
  have "save_config dk c (w, k) = (Inr (), w1, k)"
    by (simp add: save_config_def bind_act_def of_sum_def valid w0(1) io_act_def w1(1))
  moreover have "get_config dk (w1, k) = (Inr c, w4, k)"
    by (simp add: get_config_def bind_act_def w2(1) io_act_def w4)
  moreover obtain listen where "parse_socket (c_listen c) = Some listen" using valid by (auto simp: validate_ok)
  moreover obtain r where "resolver_new client (c_providers c) = Inr (r, cache_new 4096 :: ('n, 'd) cache)"
    using validated_resolver [OF valid assms(8)] by blast
  ultimately show ?thesis using w3 by (auto simp: valid)
qed

lemma demo_desktop_facts: "dk_xdg demo_desktop = Some [''cfg'']" "dk_to_toml demo_desktop c = Inr ''x''"
  "dk_of_toml demo_desktop ''x'' = Inr config_default"
  by (simp_all add: demo_desktop_def)

lemma demo_net_cfg: "w_fs demo_net_world (''cfg'' # p) = None" "w_fs demo_net_world [] = Some Dir"
  by (simp_all add: demo_net_world_def demo_net_def SYS_NET_def)

lemma demo_net_take: "w_fs demo_net_world (take n (''cfg'' # p)) \<in> {None, Some Dir}"
  by (cases n) (simp_all add: demo_net_cfg)

theorem saved_config_runs_witness:
  "\<exists>w1 w2. save_config demo_desktop config_default (demo_net_world, ()) = (Inr (), w1, ()) \<and>
     get_config demo_desktop (w1, ()) = (Inr config_default, w2, ())"
proof -
  have "\<forall>n. w_fs demo_net_world (take n ([''cfg''] @ [''detour''])) \<in> {None, Some Dir}"
    using demo_net_take [of _ "[''detour'']"] by simp
  moreover have "\<forall>pin. \<exists>x. (\<lambda>pin. Inr () :: string + unit) pin = Inr x" by simp
  ultimately show ?thesis
    using saved_config_runs [OF demo_net_facts(1) demo_desktop_facts(1) _ _ _ demo_desktop_facts(2,3),
        of "\<lambda>pin. Inr ()" "()"] demo_net_cfg by (auto simp: default_valid)
qed

section \<open>The stored WireGuard configuration\<close>

lemma tunnel_dir_step:
  assumes "quiet w" "dk_xdg dk = Some base" "w_fs w (base @ [''wuwa-dns'']) = None"
  obtains w1 where "tunnel_dir dk (w, k) = (Inr (base @ [''detour'', ''tunnel'']), w1, k)" "quiet w1" "w_fs w1 = w_fs w"
proof -
  obtain w1 where w1: "config_path dk (w, k) = (Inr (base @ [''detour'', ''config.toml'']), w1, k)" "quiet w1" "w_fs w1 = w_fs w"
    using config_path_step [OF assms] .
  then have "tunnel_dir dk (w, k) = (Inr (base @ [''detour'', ''tunnel'']), w1, k)"
    by (simp add: tunnel_dir_def bind_act_def ret_def butlast_append)
  then show thesis using w1(2,3) by (rule that)
qed

lemma store_config_yields:
  assumes "quiet w" "\<forall>n. w_fs w (take n dir) \<in> {None, Some Dir}" "plain_node (w_fs w (dir @ [''wg.conf'']))"
  shows "yields (store_config dir text) w () ((make_dirs dir (w_fs w))(dir @ [''wg.conf''] \<mapsto> File text 384))"
    "w_fs w (dir @ [''wg.conf'']) = None \<Longrightarrow>
      visits ((make_dirs dir (w_fs w))(dir @ [''wg.conf''] \<mapsto> File text 420)) (store_config dir text) w"
proof -
  let ?p = "dir @ [''wg.conf'']" and ?t = "make_dirs dir (w_fs w)"
  have np: "\<not> prefix ?p dir" by (auto dest: prefix_length_le)
  have d: "stat ?t dir = Some Dir" and f: "?t ?p = w_fs w ?p"
    using make_dirs_dir [OF assms(2)] np by (subst stat_self, simp_all add: is_link_def) (simp add: make_dirs_def)
  have wr: "\<exists>m. yields (fs_write ?p text) w1 () (?t(?p \<mapsto> File text m)) \<and> (w_fs w ?p = None \<longrightarrow> m = 420)"
    if "w_fs w1 = ?t" "quiet w1" for w1
    using fs_write_yields [OF that(2), of ?p "text"] that(1) d f assms(3) by (metis butlast_snoc)
  show "yields (store_config dir text) w () (?t(?p \<mapsto> File text 384))"
    unfolding store_config_def
  proof (rule yields_bind [OF dirs_yields [OF assms(1,2)]])
    fix w1 :: world assume w1: "w_fs w1 = ?t" "quiet w1"
    then obtain m where m: "yields (fs_write ?p text) w1 () (?t(?p \<mapsto> File text m))" using wr by blast
    show "yields (bind_io (fs_write ?p text) (\<lambda>_. fs_set_permissions ?p 384)) w1 () (?t(?p \<mapsto> File text 384))"
    proof (rule yields_bind [OF m])
      fix w2 :: world assume w2: "w_fs w2 = ?t(?p \<mapsto> File text m)" "quiet w2"
      then show "yields (fs_set_permissions ?p 384) w2 () (?t(?p \<mapsto> File text 384))"
        using fs_set_permissions_yields [OF w2(2), of ?p "text" m 384] by simp
    qed
  qed
  assume new: "w_fs w ?p = None"
  show "visits (?t(?p \<mapsto> File text 420)) (store_config dir text) w"
    unfolding store_config_def
  proof (rule visits_later [OF dirs_yields [OF assms(1,2)]])
    fix w1 :: world assume "w_fs w1 = ?t" "quiet w1"
    then have "yields (fs_write ?p text) w1 () (?t(?p \<mapsto> File text 420))" using wr new by blast
    then show "visits (?t(?p \<mapsto> File text 420)) (bind_io (fs_write ?p text) (\<lambda>_. fs_set_permissions ?p 384)) w1"
      by (intro visits_now visits_yields) (simp_all add: fs_set_permissions_def grow_intros)
  qed
qed

text \<open>C40: An imported WireGuard configuration is installed only if it parses, with the parser's message
  and no file touched otherwise. Once installed, it is readable by its owner alone and loading it
  gives the parsed configuration; but when there was none before, the private key has been in a file
  with mode 0644 on the way.\<close>

theorem installed_config_loads:
  assumes "quiet w" "dk_xdg dk = Some base" "w_fs w (base @ [''wuwa-dns'']) = None"
    "\<forall>n. w_fs w (take n (base @ [''detour'', ''tunnel''])) \<in> {None, Some Dir}"
    "plain_node (w_fs w (base @ [''detour'', ''tunnel'', ''wg.conf'']))"
  shows "let p = base @ [''detour'', ''tunnel'', ''wg.conf''] in case wg_parse_config text of
      Inl e \<Rightarrow> install_config dk text (w, k) = (Inl (show_tunnel_error (dk_show_io dk) e), w, k)
    | Inr c \<Rightarrow> \<exists>w1. install_config dk text (w, k) = (Inr (), w1, k) \<and> w_fs w1 p = Some (File text 384) \<and>
        fst (wg_load p w1) = Inr c \<and>
        (w_fs w p = None \<longrightarrow> (\<exists>t \<in> set (w_trace w1). t p = Some (File text 420)))"
proof (cases "wg_parse_config text")
  case (Inl e)
  then show ?thesis by (simp add: install_config_def raise_def)
next
  case (Inr c)
  let ?d = "base @ [''detour'', ''tunnel'']" and ?p = "base @ [''detour'', ''tunnel'', ''wg.conf'']"
  have p: "?d @ [''wg.conf''] = ?p" by simp
  obtain w0 where w0: "tunnel_dir dk (w, k) = (Inr ?d, w0, k)" "quiet w0" "w_fs w0 = w_fs w"
    using tunnel_dir_step [OF assms(1-3)] .
  note store = store_config_yields [OF w0(2), of ?d, unfolded w0(3) p, OF assms(4,5), of "text"]
  then obtain w1 where w1: "store_config ?d text w0 = (Inr (), w1)" "quiet w1"
    "w_fs w1 = (make_dirs ?d (w_fs w))(?p \<mapsto> File text 384)" by (auto elim: yieldsE)
  have "stat (w_fs w1) ?p = Some (File text 384)" by (subst stat_self) (simp_all add: w1(3) is_link_def)
  then have "yields (wg_load ?p) w1 c (w_fs w1)"
    unfolding wg_load_def
    by (rule yields_bind [OF yields_map_err [OF yields_read [OF w1(2)]]]) (auto simp: Inr dest: yields_return)
  moreover have "\<exists>t \<in> set (w_trace w1). t ?p = Some (File text 420)" if "w_fs w ?p = None"
    using store(2) [OF that] by (intro bexI [of _ "(make_dirs ?d (w_fs w))(?p \<mapsto> File text 420)"]) (simp_all add: visits_def w1(1))
  moreover have "install_config dk text (w, k) = (Inr (), w1, k)"
    by (simp add: install_config_def Inr bind_act_def w0(1) io_act_def w1(1))
  ultimately show ?thesis using Inr w1(3) by (simp add: yields_def)
qed

theorem installed_config_loads_witness:
  "\<exists>w1. install_config demo_desktop (unlines sample_lines) (demo_net_world, ()) = (Inr (), w1, ()) \<and>
     fst (wg_load [''cfg'', ''detour'', ''tunnel'', ''wg.conf''] w1) = Inr sample_config \<and>
     (\<exists>t \<in> set (w_trace w1). t [''cfg'', ''detour'', ''tunnel'', ''wg.conf''] = Some (File (unlines sample_lines) 420))"
proof -
  have "\<forall>n. w_fs demo_net_world (take n ([''cfg''] @ [''detour'', ''tunnel''])) \<in> {None, Some Dir}"
    using demo_net_take [of _ "[''detour'', ''tunnel'']"] by simp
  then show ?thesis
    using installed_config_loads [OF demo_net_facts(1) demo_desktop_facts(1), of "unlines sample_lines" "()"]
    by (auto simp: demo_net_cfg sample_parsed Let_def)
qed

end
