(* ===== verification/Published.thy ===== *)
theory Published
  imports Gui
begin

text \<open>
  The status file between the helper, which writes it (\<open>status.rs\<close>), and the desktop application,
  which reads it (\<open>get_status\<close> of \<open>src-tauri/src/main.rs\<close>).
\<close>

section \<open>Writing without faults\<close>

abbreviation published :: "files \<Rightarrow> string \<Rightarrow> files" where
  "published t b \<equiv> (make_dirs STATE_DIR t)(STATUS_TMP := None, STATUS_PATH \<mapsto> File b 420)"

lemma status_dir: "butlast STATUS_PATH = STATE_DIR" "butlast STATUS_TMP = STATE_DIR" "STATUS_PATH \<noteq> []"
  by (simp_all add: STATUS_PATH_def STATE_DIR_def status_tmp_eval)

lemma write_snapshot_yields:
  assumes "quiet w" "\<forall>n. w_fs w (take n STATE_DIR) \<in> {None, Some Dir}" "status_sane (w_fs w)" "json sn = Inr b"
  shows "yields (write_snapshot json STATUS_PATH sn) w () (published (w_fs w) b)"
  using write_snapshot_yields_at [OF assms(1) status_dir(3) STATUS_TMP_def, of json sn b] assms(2-4) status_paths
  unfolding status_dir by (auto simp: status_sane_def)

section \<open>Reading\<close>

lemma get_status_read:
  "fst (read_snapshot (dk_of_json dk) (dk_now dk k) STATUS_PATH STATUS_MAX_AGE w) = Inr sn \<Longrightarrow> fst (get_status dk (w, k)) = Inr sn"
  by (cases "read_snapshot (dk_of_json dk) (dk_now dk k) STATUS_PATH STATUS_MAX_AGE w") (simp add: get_status_def io_act_def)

section \<open>Properties\<close>

text \<open>C30: The helper's status reaches the desktop: after a status round whose calls succeed, the application
  shows exactly that snapshot for five seconds and an inactive one from then on; once the helper
  has cleared the file, at the end of a run, it shows an inactive one at once.\<close>

theorem status_reaches_desktop:
  assumes "quiet w" "\<forall>n. w_fs w (take n STATE_DIR) \<in> {None, Some Dir}" "status_sane (w_fs w)" "sw_path sw = STATUS_PATH"
    and "json (take_snapshot sw s now) = Inr b" "dk_of_json dk b = Some (take_snapshot sw s now)"
  shows "\<exists>w1. write_once json sw s now w = (Inr (), w1) \<and>
    (\<forall>k. fst (get_status dk (w1, k)) = Inr (if dk_now dk k \<le> now + 5 then take_snapshot sw s now else snapshot_inactive)) \<and>
    (\<exists>w2. clear STATUS_PATH w1 = (Inr (), w2) \<and> (\<forall>k. fst (get_status dk (w2, k)) = Inr snapshot_inactive))"
proof -
  from write_snapshot_yields [of w json _ b, OF assms(1-3,5)] obtain w1 where
    w1: "write_once json sw s now w = (Inr (), w1)" "quiet w1" "w_fs w1 = published (w_fs w) b"
    by (cases "write_once json sw s now w") (auto simp: yields_def write_once_def assms(4))
  have there: "w_fs w1 STATUS_PATH = Some (File b 420)" by (simp add: w1)
  have shown: "fst (get_status dk (w1, k)) = Inr (if dk_now dk k \<le> now + 5 then take_snapshot sw s now else snapshot_inactive)" for k
    using read_snapshot_file [where of_json = "dk_of_json dk" and now = "dk_now dk k" and max_age = STATUS_MAX_AGE, OF w1(2) there assms(6)]
    by (intro get_status_read) (auto simp: take_snapshot_def STATUS_MAX_AGE_def as_secs_def secs_def)
  have "yields (clear STATUS_PATH :: (io_kind, unit) io) w1 () ((w_fs w1)(STATUS_PATH := None))"
    unfolding clear_def using w1(2) there by (intro yields_ignore_remove) simp_all
  then obtain w2 where w2: "clear STATUS_PATH w1 = (Inr (), w2)" "quiet w2" "w_fs w2 STATUS_PATH = None"
    by (cases "clear STATUS_PATH w1") (auto simp: yields_def)
  then have "fst (get_status dk (w2, k)) = Inr snapshot_inactive" for k
    by (intro get_status_read read_snapshot_none)
  with w1(1) shown w2(1) show ?thesis by blast
qed

text \<open>A run that started before and is shown five seconds later.\<close>

definition demo_status :: status_writer where
  "demo_status = status_writer_new STATUS_PATH (snapshot_inactive\<lparr>sn_active := True, sn_pid := 77\<rparr>)"

definition demo_reader :: "unit desktop" where
  "demo_reader = demo_desktop\<lparr>dk_of_json := \<lambda>c. Some (take_snapshot demo_status demo_state 95), dk_now := \<lambda>k. 100\<rparr>"

lemma demo_net_status:
  "\<forall>n. w_fs demo_net_world (take n STATE_DIR) \<in> {None, Some Dir}" "status_sane (w_fs demo_net_world)"
proof -
  have "demo_net q \<in> {None, Some Dir}" for q by (simp add: demo_net_def)
  then show "\<forall>n. w_fs demo_net_world (take n STATE_DIR) \<in> {None, Some Dir}" by (simp add: demo_net_world_def)
  show "status_sane (w_fs demo_net_world)"
    by (simp add: status_sane_def demo_net_world_def demo_net_def status_tmp_eval STATUS_PATH_def SYS_NET_def IFACE_def)
qed

theorem status_reaches_desktop_witness:
  "\<exists>w1 sn. write_once (\<lambda>_. Inr ''{}'') demo_status demo_state 95 demo_net_world = (Inr (), w1) \<and>
    fst (get_status demo_reader (w1, ())) = Inr sn \<and> sn_active sn \<and> sn_pid sn = 77"
proof -
  let ?sn = "take_snapshot demo_status demo_state 95"
  have "\<exists>w1. write_once (\<lambda>_. Inr ''{}'') demo_status demo_state 95 demo_net_world = (Inr (), w1) \<and>
      (\<forall>k. fst (get_status demo_reader (w1, k)) = Inr (if dk_now demo_reader k \<le> 95 + 5 then ?sn else snapshot_inactive)) \<and>
      (\<exists>w2. clear STATUS_PATH w1 = (Inr (), w2) \<and> (\<forall>k. fst (get_status demo_reader (w2, k)) = Inr snapshot_inactive))"
    by (rule status_reaches_desktop [where b = "''{}''", OF demo_net_facts(1) demo_net_status])
      (simp_all add: demo_reader_def demo_status_def status_writer_new_def)
  then obtain w1 where "write_once (\<lambda>_. Inr ''{}'') demo_status demo_state 95 demo_net_world = (Inr (), w1)"
    "fst (get_status demo_reader (w1, ())) = Inr ?sn" by (auto simp: demo_reader_def)
  moreover have "sn_active ?sn" "sn_pid ?sn = 77" by (simp_all add: take_snapshot_def demo_status_def status_writer_new_def)
  ultimately show ?thesis by blast
qed

end
