(* ===== verification/Desktop.thy ===== *)
theory Desktop
  imports Gui
begin

text \<open>
  The desktop application as a whole (\<open>main\<close> of \<open>src-tauri/src/main.rs\<close>): the commands it registers
  as one type, their dispatch, and sequences of them. The window system and the web page that
  sends the commands are outside; commands run one after the other. The last part shows what the application, which is not
  privileged, can do to files that are not its own.
\<close>

section \<open>The commands\<close>

datatype invocation =
    Get_Config | Save_Config config | Get_Config_Path | Get_Status
  | Start_Protection "string option" | Stop_Protection | Run_Diagnostic "string list" | Launch_Game string | Helper_Available
  | Tunnel_Status | Tunnel_Import_Config string | Tunnel_Generate_Warp | Tunnel_Up | Tunnel_Down
  | Launch_In_Tunnel string | Tunnel_Apps | Suggest_Apps | Attach_To_Tunnel string
  | Provider_Presets | Test_Provider provider | Tunnel_Import_Text string | Update_Info | Rebuild_And_Install | Restart_App
  | Filter_Status | Filter_Start | Filter_Stop | Launch_With_Filter string | Filter_Route_On | Filter_Route_Off
  | Tunnel_Check_Exit

datatype reply =
    R_Unit | R_Text string | R_Bool bool | R_Config config | R_Snapshot snapshot | R_Outcome start_outcome
  | R_Verdicts "verdict list" | R_Providers "provider list" | R_Test provider_test | R_Update update_info
  | R_Tunnel tunnel_status | R_Apps "app_state list" | R_Suggestions "suggestion list" | R_Filter filter_status
  | R_Exit exit_check

definition map_act :: "('a \<Rightarrow> 'b) \<Rightarrow> ('k, 'a) act \<Rightarrow> ('k, 'b) act" where
  "map_act g m = bind_act m (\<lambda>x. ret (g x))"

definition filter_default :: filter_state where
  "filter_default = \<lparr>fi_task = False, fi_running = False, fi_stats = stats_default\<rparr>"

text \<open>What the commands use outside the disk and the programs: HTTPS clients, the network of
  \<open>diagnose\<close> and of a provider test, and \<open>PathBuf::from\<close>.\<close>

record ('n, 'd, 'c) outside =
  os_client :: "'c client_builder"
  os_diag :: "('n, 'd, 'c) diag_env"
  os_from_ascii :: "string \<Rightarrow> string + 'n"
  os_env :: "('n, 'd, 'c) env"
  os_to_path :: "string \<Rightarrow> path"

text \<open>The commands that do not change the filter's state.\<close>

definition invoke_act :: "'k desktop \<Rightarrow> ('n, 'd, 'c) outside \<Rightarrow> filter_state \<Rightarrow> invocation \<Rightarrow> ('k, reply) act" where
  "invoke_act dk os f i =
     (case i of
        Get_Config \<Rightarrow> map_act R_Config (get_config dk)
      | Save_Config c \<Rightarrow> map_act (\<lambda>_. R_Unit) (save_config dk c)
      | Get_Config_Path \<Rightarrow> map_act R_Text (get_config_path dk)
      | Get_Status \<Rightarrow> map_act R_Snapshot (get_status dk)
      | Start_Protection p \<Rightarrow> map_act R_Outcome (start_protection dk p)
      | Stop_Protection \<Rightarrow> map_act R_Outcome (stop_protection dk)
      | Run_Diagnostic domains \<Rightarrow> map_act R_Verdicts (run_diagnostic dk (os_client os) (os_diag os) domains)
      | Launch_Game p \<Rightarrow> map_act R_Text (launch_game dk p)
      | Helper_Available \<Rightarrow> map_act R_Bool (helper_available dk)
      | Tunnel_Status \<Rightarrow> map_act R_Tunnel (get_tunnel_status dk)
      | Tunnel_Import_Config path \<Rightarrow> map_act R_Text (tunnel_import_config dk (os_to_path os) path)
      | Tunnel_Generate_Warp \<Rightarrow> map_act R_Text (tunnel_generate_warp dk)
      | Tunnel_Up \<Rightarrow> map_act R_Text (tunnel_up dk)
      | Tunnel_Down \<Rightarrow> map_act R_Text (tunnel_down dk)
      | Launch_In_Tunnel app \<Rightarrow> map_act R_Text (launch_in_tunnel dk app)
      | Tunnel_Apps \<Rightarrow> map_act R_Apps (tunnel_apps dk (os_to_path os))
      | Suggest_Apps \<Rightarrow> map_act R_Suggestions (suggest_apps dk)
      | Attach_To_Tunnel app \<Rightarrow> map_act R_Text (attach_to_tunnel dk app)
      | Provider_Presets \<Rightarrow> ret (R_Providers presets)
      | Test_Provider p \<Rightarrow> map_act R_Test (of_sum (test_provider (os_client os) (os_from_ascii os) (os_env os) p))
      | Tunnel_Import_Text text \<Rightarrow> map_act R_Text (tunnel_import_text dk text)
      | Update_Info \<Rightarrow> map_act R_Update (get_update_info dk)
      | Rebuild_And_Install \<Rightarrow> map_act R_Text (rebuild_and_install dk)
      | Filter_Status \<Rightarrow> ret (R_Filter (get_filter_status f))
      | Launch_With_Filter app \<Rightarrow> map_act R_Text (launch_with_filter dk f app)
      | Filter_Route_On \<Rightarrow> map_act R_Text (filter_route_on dk f)
      | Filter_Route_Off \<Rightarrow> map_act R_Text (filter_route_off dk)
      | Tunnel_Check_Exit \<Rightarrow> map_act R_Exit (tunnel_check_exit dk)
      | _ \<Rightarrow> ret R_Unit)"

text \<open>Starting and stopping the filter change its state; a restart replaces the process, whose state
  is then that of the start.\<close>

definition invoke ::
    "'k desktop \<Rightarrow> ('n, 'd, 'c) outside \<Rightarrow> invocation \<Rightarrow> filter_state \<Rightarrow> world \<times> 'k \<Rightarrow>
     (string + reply) \<times> filter_state \<times> world \<times> 'k" where
  "invoke dk os i f s =
     (case i of
        Filter_Start \<Rightarrow> (case filter_start f of (r, f) \<Rightarrow> (map_sum id R_Text r, f, s))
      | Filter_Stop \<Rightarrow> (case filter_stop f of (r, f) \<Rightarrow> (map_sum id R_Text r, f, s))
      | Restart_App \<Rightarrow> (Inr R_Unit, filter_default, s)
      | _ \<Rightarrow> (case invoke_act dk os f i s of (r, s) \<Rightarrow> (r, f, s)))"

text \<open>A sequence of commands from the start of the application. Between two commands the filter's
  task may end (\<open>True\<close>).\<close>

fun invocations ::
    "'k desktop \<Rightarrow> ('n, 'd, 'c) outside \<Rightarrow> (invocation \<times> bool) list \<Rightarrow> filter_state \<Rightarrow> world \<times> 'k \<Rightarrow>
     (string + reply) list \<times> filter_state \<times> world \<times> 'k" where
  "invocations dk os [] f s = ([], f, s)"
| "invocations dk os ((i, ended) # is) f s =
     (case invoke dk os i (if ended then filter_task_ended f else f) s of
        (r, f, s) \<Rightarrow> (case invocations dk os is f s of (rs, f, s) \<Rightarrow> (r # rs, f, s)))"

section \<open>The application's own files\<close>

text \<open>Where it writes: its configuration directory, the one of its former name, and the directories on
  the way there, which it may create. There are no links in it.\<close>

definition config_base :: "'k desktop \<Rightarrow> path option" where
  "config_base dk = (case dk_xdg dk of Some b \<Rightarrow> Some b | None \<Rightarrow> map_option (\<lambda>h. h @ [''.config'']) (dk_home dk))"

definition own_area :: "path \<Rightarrow> path set" where
  "own_area base = {p. prefix (base @ [''detour'']) p \<or> prefix (base @ [''wuwa-dns'']) p \<or> prefix p base}"

definition no_links :: "path \<Rightarrow> files \<Rightarrow> bool" where
  "no_links base t \<longleftrightarrow> (\<forall>p \<in> own_area base. \<not> is_link t p)"

lemma no_links_upd: "no_links base t \<Longrightarrow> (\<And>l. x \<noteq> Some (Link l)) \<Longrightarrow> no_links base (t(p := x))"
  by (auto simp: no_links_def is_link_def)

lemma no_linksD: "no_links base t \<Longrightarrow> p \<in> own_area base \<Longrightarrow> \<not> is_link t p"
  by (simp add: no_links_def)

abbreviation keeps_area :: "path \<Rightarrow> ('e, 'a) io \<Rightarrow> bool" where
  "keeps_area base \<equiv> frames (no_links base) (own_area base)"

lemma area_dirs: "prefix q (base @ [''detour'']) \<Longrightarrow> q \<in> own_area base"
  "prefix q (base @ [''detour'', ''tunnel'']) \<Longrightarrow> q \<in> own_area base"
proof -
  show 1: "q \<in> own_area base" if "prefix q (base @ [''detour''])" for q
    using that by (auto simp: own_area_def prefix_snoc)
  have "base @ [''detour'', ''tunnel''] = (base @ [''detour'']) @ [''tunnel'']" by simp
  then show "prefix q (base @ [''detour'', ''tunnel'']) \<Longrightarrow> q \<in> own_area base"
    using 1 [of q] by (auto simp: prefix_snoc own_area_def simp del: append_assoc)
qed

lemma area_below [simp]: "base @ ''detour'' # p \<in> own_area base"
  by (auto simp: own_area_def prefix_def)

lemma keeps_create_dirs:
  assumes "\<And>q. prefix q d \<Longrightarrow> q \<in> own_area base"
  shows "keeps_area base (create_dir_all d)"
proof (rule frames_mono [OF frames_create_dir_all])
  show "no_links base (make_dirs (take k d) t)" if "no_links base t" for t k
    using that by (auto simp: no_links_def is_link_def make_dirs_def)
  show "{q. prefix q d} \<subseteq> own_area base" using assms by blast
qed

lemma keeps_open:
  assumes "p \<in> own_area base"
  shows "keeps_area base (file_open mode p)"
  unfolding file_open_def
proof (rule frames_sys)
  fix t x t'
  assume q: "no_links base t" and f: "(case real_path 41 t p of None \<Rightarrow> Inl Other_Kind
      | Some q \<Rightarrow> if stat t (butlast q) \<noteq> Some Dir then Inl NotFound
          else (case t q of None \<Rightarrow> Inr (q, t(q \<mapsto> File [] mode))
                | Some (File c m) \<Rightarrow> Inr (q, t(q \<mapsto> File [] m)) | Some _ \<Rightarrow> Inl Other_Kind)) = Inr (x, t')"
  have "real_path 41 t p = Some p" by (rule real_path_41 [OF no_linksD [OF q assms]])
  with f obtain k where "t' = t(p \<mapsto> File [] k)" by (auto split: if_splits option.splits node.splits)
  with q assms show "no_links base t' \<and> (\<forall>p. p \<notin> own_area base \<longrightarrow> t' p = t p)" by (auto intro!: no_links_upd)
qed simp

lemma opened_self:
  assumes "no_links base (w_fs w)" "p \<in> own_area base" "file_open mode p w = (Inr h, w')"
  shows "h = p"
proof -
  have "real_path 41 (w_fs w) p = Some p" by (rule real_path_41 [OF no_linksD [OF assms(1,2)]])
  then show ?thesis
    using sys_Inr [OF assms(3) [unfolded file_open_def]] by (auto split: if_splits option.splits node.splits)
qed

lemma keeps_write_all: "p \<in> own_area base \<Longrightarrow> keeps_area base (file_write_all p s)"
  unfolding file_write_all_def Let_def
  by (rule frames_sys) (auto split: option.splits node.splits intro!: no_links_upd)

lemma keeps_fs_write:
  assumes "p \<in> own_area base" shows "keeps_area base (fs_write p s)"
  unfolding fs_write_def
  by (rule frames_bind_dep [OF keeps_open [OF assms]]) (use opened_self [OF _ assms] keeps_write_all [OF assms] in blast)

lemma keeps_chmod:
  assumes "p \<in> own_area base" shows "keeps_area base (fs_set_permissions p mode)"
  unfolding fs_set_permissions_def
proof (rule frames_sys)
  fix t x t'
  assume q: "no_links base t" and f: "(case real_path 41 t p of None \<Rightarrow> Inl Other_Kind
      | Some q \<Rightarrow> (case t q of None \<Rightarrow> Inl NotFound | Some (File c m) \<Rightarrow> Inr ((), t(q \<mapsto> File c mode)) | Some _ \<Rightarrow> Inr ((), t))) = Inr (x, t')"
  have "real_path 41 t p = Some p" by (rule real_path_41 [OF no_linksD [OF q assms]])
  with f have "t' = t \<or> (\<exists>c. t' = t(p \<mapsto> File c mode))" by (auto split: option.splits node.splits)
  with q assms show "no_links base t' \<and> (\<forall>p. p \<notin> own_area base \<longrightarrow> t' p = t p)" by (auto intro!: no_links_upd)
qed simp

lemma keeps_rename_tree: "keeps_area base (rename_tree (base @ [''wuwa-dns'']) (base @ [''detour'']))"
  unfolding rename_tree_def
proof (rule frames_sys)
  let ?s = "base @ [''wuwa-dns'']" and ?d = "base @ [''detour'']"
  fix t x t'
  assume q: "no_links base t" and f: "(if t ?s = None then Inl NotFound else if t ?d \<noteq> None then Inl Other_Kind
      else Inr ((), \<lambda>q. if prefix ?d q then t (?s @ drop (length ?d) q) else if prefix ?s q then None else t q)) = Inr (x, t')"
  then have t': "t' = (\<lambda>q. if prefix ?d q then t (?s @ drop (length ?d) q) else if prefix ?s q then None else t q)"
    by (auto split: if_splits)
  have "?s @ r \<in> own_area base" for r by (auto simp: own_area_def prefix_def)
  then have "\<not> is_link t (?s @ r)" for r by (rule no_linksD [OF q])
  then have "no_links base t'" using q unfolding t' no_links_def is_link_def by auto
  then show "no_links base t' \<and> (\<forall>p. p \<notin> own_area base \<longrightarrow> t' p = t p)" by (auto simp: t' own_area_def)
qed simp

lemma keeps_default_path:
  assumes "config_base dk = Some base"
  shows "keeps_area base (default_path (dk_xdg dk) (dk_home dk))"
    "default_path (dk_xdg dk) (dk_home dk) w = (Inr p, w') \<Longrightarrow> p = base @ [''detour'', ''config.toml'']"
proof -
  have b: "(case dk_xdg dk of Some b \<Rightarrow> Some b | None \<Rightarrow> map_option (\<lambda>h. h @ [''.config'']) (dk_home dk)) = Some base"
    using assms by (simp add: config_base_def)
  show "keeps_area base (default_path (dk_xdg dk) (dk_home dk))"
    unfolding default_path_def b option.case Let_def by (intro frame_intros keeps_rename_tree)
  show "default_path (dk_xdg dk) (dk_home dk) w = (Inr p, w') \<Longrightarrow> p = base @ [''detour'', ''config.toml'']"
    unfolding default_path_def b option.case Let_def by (auto simp: return_io_def elim!: bind_io_Inr)
qed

lemma keeps_load: "keeps_area base (load of_toml path)"
  unfolding load_def by (auto intro!: frame_intros split: sum.split io_kind.split)

lemma keeps_save: "keeps_area base (save to_toml c (base @ [''detour'', ''config.toml'']))"
  unfolding save_def
  by (auto intro!: frame_intros keeps_create_dirs keeps_fs_write split: sum.split simp: butlast_append dest: area_dirs)

lemma keeps_store: "keeps_area base (store_config (base @ [''detour'', ''tunnel'']) s)"
  unfolding store_config_def by (auto intro!: frame_intros keeps_create_dirs keeps_fs_write keeps_chmod dest: area_dirs)

lemma keeps_reads:
  "keeps_area base (read_snapshot of_json now p max_age)" "keeps_area base (path_is_file p)" "keeps_area base is_up"
  "keeps_area base traffic" "keeps_area base (wg_load p)"
  unfolding read_snapshot_def path_is_file_def is_up_def traffic_def read_counter_def wg_load_def
  by (auto intro!: frame_intros split: option.split sum.split)

section \<open>What the commands leave alone\<close>

text \<open>\<open>leaves base G calm s s'\<close>: from a state without links in the own area and without a privileged
  program at work (\<open>calm\<close>), the step from \<open>s\<close> to \<open>s'\<close> keeps both and every node in \<open>G\<close>.\<close>

definition leaves :: "path \<Rightarrow> path set \<Rightarrow> ('k \<Rightarrow> bool) \<Rightarrow> world \<times> 'k \<Rightarrow> world \<times> 'k \<Rightarrow> bool" where
  "leaves base G calm s s' \<longleftrightarrow> no_links base (w_fs (fst s)) \<and> calm (snd s) \<longrightarrow>
     no_links base (w_fs (fst s')) \<and> calm (snd s') \<and> (\<forall>p \<in> G. w_fs (fst s') p = w_fs (fst s) p)"

lemma leaves_refl: "leaves base G calm s s"
  by (simp add: leaves_def)

lemma leaves_trans: "leaves base G calm s s' \<Longrightarrow> leaves base G calm s' s'' \<Longrightarrow> leaves base G calm s s''"
  by (simp add: leaves_def)

text \<open>Asking for root: \<open>pkexec\<close>, also when \<open>systemd-run\<close> starts it.\<close>

definition elevates :: "string list \<Rightarrow> bool" where
  "elevates argv \<longleftrightarrow> hd argv = ''pkexec'' \<or> (hd argv = ''systemd-run'' \<and> ''pkexec'' \<in> set argv)"

text \<open>The files in \<open>G\<close> are not the application's own and, being root's, out of reach of what it starts
  without asking for root.\<close>

definition unprivileged :: "'k desktop \<Rightarrow> path \<Rightarrow> path set \<Rightarrow> ('k \<Rightarrow> bool) \<Rightarrow> bool" where
  "unprivileged dk base G calm \<longleftrightarrow> config_base dk = Some base \<and> G \<inter> own_area base = {} \<and>
     (\<forall>c s. \<not> elevates (cm_argv c) \<longrightarrow> leaves base G calm s (snd (dk_output dk c s))) \<and>
     (\<forall>argv s. \<not> elevates argv \<longrightarrow> leaves base G calm s (snd (dk_spawn dk argv s))) \<and>
     (\<forall>d s. leaves base G calm s (dk_sleep dk d s)) \<and>
     (\<forall>p n k. calm k \<longrightarrow> calm (snd (sf_write_pid (dk_sys dk) p n k))) \<and>
     (\<forall>d k. calm k \<longrightarrow> calm (sf_sleep (dk_sys dk) d k))"

text \<open>\<open>confined R A m\<close>: \<open>m\<close> runs only programs in \<open>A\<close>, and when none of them asks for root, it is a step in \<open>R\<close>.\<close>

definition confined :: "(world \<times> 'k \<Rightarrow> world \<times> 'k \<Rightarrow> bool) \<Rightarrow> string list set \<Rightarrow> ('k \<times> string list list, 'a) act \<Rightarrow> bool" where
  "confined R A m \<longleftrightarrow> (\<forall>w k l r w' k' l'. m (w, k, l) = (r, w', k', l') \<longrightarrow>
     (\<exists>new. l' = l @ new \<and> set new \<subseteq> A \<and> ((\<forall>a \<in> set new. \<not> elevates a) \<longrightarrow> R (w, k) (w', k'))))"

lemma confinedI:
  assumes "\<And>w k l r w' k' l'. m (w, k, l) = (r, w', k', l') \<Longrightarrow>
    \<exists>new. l' = l @ new \<and> set new \<subseteq> A \<and> ((\<forall>a \<in> set new. \<not> elevates a) \<longrightarrow> R (w, k) (w', k'))"
  shows "confined R A m"
  using assms unfolding confined_def by blast

lemma confinedE:
  assumes "confined R A m" "m (w, k, l) = (r, w', k', l')"
  obtains new where "l' = l @ new" "set new \<subseteq> A" "(\<forall>a \<in> set new. \<not> elevates a) \<longrightarrow> R (w, k) (w', k')"
  using assms unfolding confined_def by blast

lemma confined_mono: "confined R A m \<Longrightarrow> A \<subseteq> B \<Longrightarrow> confined R B m"
  unfolding confined_def by (meson order_trans)

named_theorems confine_intros \<open>which programs an action runs and which files it leaves alone\<close>

lemma confined_basic [confine_intros]:
  "confined (leaves base G calm) A (ret x)" "confined (leaves base G calm) A (raise e)"
  "confined (leaves base G calm) A (of_sum q)" "confined (leaves base G calm) A (look f)"
  "confined (leaves base G calm) A (or_raise y e)" "confined (leaves base G calm) A (\<lambda>s. (g s, s))"
  by (auto intro!: confinedI leaves_refl simp: ret_def raise_def of_sum_def look_def or_raise_def split: option.splits)

lemma confined_bind_dep:
  fixes m :: "('k \<times> string list list, 'a) act"
  assumes "confined (leaves base G calm) A m" "\<And>x s s'. m s = (Inr x, s') \<Longrightarrow> confined (leaves base G calm) A (f x)"
  shows "confined (leaves base G calm) A (bind_act m f)"
proof (rule confinedI)
  fix w k l r w' k' l' assume run: "bind_act m f (w, k, l) = (r, w', k', l')"
  obtain r1 w1 k1 l1 where m: "m (w, k, l) = (r1, w1, k1, l1)" by (cases "m (w, k, l)")
  obtain n1 where n1: "l1 = l @ n1" "set n1 \<subseteq> A" "(\<forall>a \<in> set n1. \<not> elevates a) \<longrightarrow> leaves base G calm (w, k) (w1, k1)"
    by (rule confinedE [OF assms(1) m])
  show "\<exists>new. l' = l @ new \<and> set new \<subseteq> A \<and> ((\<forall>a \<in> set new. \<not> elevates a) \<longrightarrow> leaves base G calm (w, k) (w', k'))"
  proof (cases r1)
    case (Inl e)
    with run m n1 show ?thesis by (auto simp: bind_act_def)
  next
    case (Inr x)
    with run m have f: "f x (w1, k1, l1) = (r, w', k', l')" by (simp add: bind_act_def)
    from assms(2) m Inr have "confined (leaves base G calm) A (f x)" by blast
    from confinedE [OF this f] obtain n2 where "l' = l1 @ n2" "set n2 \<subseteq> A"
      "(\<forall>a \<in> set n2. \<not> elevates a) \<longrightarrow> leaves base G calm (w1, k1) (w', k')" by blast
    with n1 show ?thesis by (intro exI [of _ "n1 @ n2"]) (auto intro: leaves_trans)
  qed
qed

lemma confined_bind [confine_intros]:
  "confined (leaves base G calm) A m \<Longrightarrow> (\<And>x. confined (leaves base G calm) A (f x)) \<Longrightarrow> confined (leaves base G calm) A (bind_act m f)"
  by (rule confined_bind_dep)

lemma confined_if [confine_intros]:
  "(b \<Longrightarrow> confined R A m) \<Longrightarrow> (\<not> b \<Longrightarrow> confined R A m') \<Longrightarrow> confined R A (if b then m else m')"
  by simp

lemma confined_pointwise:
  assumes "\<And>k. confined R A (m k)"
  shows "confined R A (\<lambda>s. m (snd s) s)"
  using assms unfolding confined_def by (metis snd_conv)

text \<open>File calls in the own area, and running programs.\<close>

lemma keeps_area_leaves:
  assumes "keeps_area base m" "G \<inter> own_area base = {}"
  shows "leaves base G calm (w, k) (snd (m w), k)"
proof (cases "m w")
  case (Pair r w')
  show ?thesis
  proof (cases "no_links base (w_fs w)")
    case True
    from assms(1) True Pair obtain new where "w_trace w' = new @ w_trace w" and new: "\<And>t. t \<in> insert (w_fs w') (set new) \<Longrightarrow> no_links base t"
      "\<And>t p. t \<in> insert (w_fs w') (set new) \<Longrightarrow> p \<notin> own_area base \<Longrightarrow> t p = w_fs w p"
      by (rule framesE) blast
    have "no_links base (w_fs w')" by (rule new(1)) simp
    moreover have "w_fs w' p = w_fs w p" if "p \<in> G" for p using new(2) [of "w_fs w'" p] that assms(2) by auto
    ultimately show ?thesis by (simp add: leaves_def Pair)
  qed (simp add: leaves_def)
qed

lemma confined_io:
  fixes calm :: "'k \<Rightarrow> bool" and m :: "('e, 'a) io"
  assumes "keeps_area base m" "G \<inter> own_area base = {}"
  shows "confined (leaves base G calm) A (io_act sh m)"
proof (rule confinedI)
  fix w w' and k k' :: 'k and r and l l' :: "string list list"
  assume "io_act sh m (w, k, l) = (r, w', k', l')"
  then have "l' = l" "k' = k" "w' = snd (m w)" by (auto simp: io_act_def split: prod.splits sum.splits)
  then show "\<exists>new. l' = l @ new \<and> set new \<subseteq> A \<and> ((\<forall>a \<in> set new. \<not> elevates a) \<longrightarrow> leaves base G calm (w, k) (w', k'))"
    using keeps_area_leaves [OF assms] by (intro exI [of _ "[]"]) simp
qed

lemma confined_output:
  assumes "unprivileged dk base G calm" "cm_argv c \<in> A"
  shows "confined (leaves base G calm) A (run_output (log_desktop dk) c)"
proof (rule confinedI)
  fix w k l r w' k' l' assume "run_output (log_desktop dk) c (w, k, l) = (r, w', k', l')"
  then have "l' = l @ [cm_argv c]" "snd (dk_output dk c (w, k)) = (w', k')"
    by (auto simp: run_output_def log_desktop_def split: prod.splits)
  then show "\<exists>new. l' = l @ new \<and> set new \<subseteq> A \<and> ((\<forall>a \<in> set new. \<not> elevates a) \<longrightarrow> leaves base G calm (w, k) (w', k'))"
    using assms unfolding unprivileged_def by (intro exI [of _ "[cm_argv c]"]) (metis empty_iff insert_iff insert_subset empty_subsetI list.set)
qed

lemma confined_spawn:
  assumes "unprivileged dk base G calm" "argv \<in> A"
  shows "confined (leaves base G calm) A (run_spawn (log_desktop dk) argv)"
proof (rule confinedI)
  fix w k l r w' k' l' assume "run_spawn (log_desktop dk) argv (w, k, l) = (r, w', k', l')"
  then have "l' = l @ [argv]" "snd (dk_spawn dk argv (w, k)) = (w', k')"
    by (auto simp: run_spawn_def log_desktop_def split: prod.splits)
  then show "\<exists>new. l' = l @ new \<and> set new \<subseteq> A \<and> ((\<forall>a \<in> set new. \<not> elevates a) \<longrightarrow> leaves base G calm (w, k) (w', k'))"
    using assms unfolding unprivileged_def by (intro exI [of _ "[argv]"]) (metis empty_iff insert_iff insert_subset empty_subsetI list.set)
qed

lemma confined_sleep:
  assumes "unprivileged dk base G calm"
  shows "confined (leaves base G calm) A (sleep_act (log_desktop dk) d)"
proof (rule confinedI)
  fix w k l r w' k' l' assume "sleep_act (log_desktop dk) d (w, k, l) = (r, w', k', l')"
  then have "l' = l" "dk_sleep dk d (w, k) = (w', k')" by (auto simp: sleep_act_def log_desktop_def split: prod.splits)
  then show "\<exists>new. l' = l @ new \<and> set new \<subseteq> A \<and> ((\<forall>a \<in> set new. \<not> elevates a) \<longrightarrow> leaves base G calm (w, k) (w', k'))"
    using assms unfolding unprivileged_def by (metis append_Nil2 empty_subsetI list.set(1))
qed

text \<open>Moving processes leaves the disk alone.\<close>

lemma capture_keeps:
  assumes "\<And>p n k. P k \<Longrightarrow> P (snd (sf_write_pid sf p n k))" "\<And>d k. P k \<Longrightarrow> P (sf_sleep sf d k)" "P k"
    and "capture_flatpak sf fuel base app_id hold timeout settle k = Some (r, k')"
  shows "P k'"
proof -
  have migrate: "P k \<Longrightarrow> P (snd (migrate_loop sf target pids moved k))" for target pids moved k
  proof (induction pids arbitrary: moved k)
    case (Cons pid pids)
    from assms(1) [OF Cons.prems] have "P (snd (sf_write_pid sf target pid k))" .
    with Cons.IH show ?case by (auto split: prod.splits pid_write.splits)
  qed simp
  have sweep: "P k \<Longrightarrow> P (snd (sweep sf hold scopes n k))" for scopes n k
  proof (induction scopes arbitrary: n k)
    case (Cons scope scopes)
    from migrate [OF Cons.prems] have "P (snd (migrate sf scope hold k))" by (simp add: migrate_def)
    with Cons.IH show ?case by (auto split: prod.splits sum.splits)
  qed simp
  have loop: "P k \<Longrightarrow> capture_loop sf base app_id hold timeout settle start fuel moved last_move k = Some (r, k') \<Longrightarrow> P k'"
    for start fuel moved last_move k
  proof (induction fuel arbitrary: moved last_move k)
    case (Suc fuel)
    obtain r1 k1 where sw: "sweep sf hold (flatpak_scopes sf base app_id k) 0 k = (r1, k1)" by fastforce
    with sweep [OF Suc.prems(1)] have "P k1" by (metis snd_conv)
    with Suc.prems Suc.IH [OF assms(2) [OF \<open>P k1\<close>]] sw show ?case
      by (auto simp: Let_def split: if_splits sum.splits option.splits)
  qed simp
  from loop [OF assms(3)] assms(4) show ?thesis by (simp add: capture_flatpak_def)
qed

lemma confined_capture:
  assumes "unprivileged dk base G calm"
  shows "confined (leaves base G calm) A (capture_act (log_desktop dk) app_id hold)"
proof (rule confinedI)
  fix w k l r w' k' l' assume run: "capture_act (log_desktop dk) app_id hold (w, k, l) = (r, w', k', l')"
  let ?P = "\<lambda>s. snd s = l \<and> (calm k \<longrightarrow> calm (fst s))" and ?sf = "dk_sys (log_desktop dk)"
  have keep: "?P s \<Longrightarrow> ?P (snd (sf_write_pid ?sf p n s))" "?P s \<Longrightarrow> ?P (sf_sleep ?sf d s)" for p n d s
    using assms unfolding unprivileged_def log_desktop_def by (cases s; auto split: prod.splits; metis snd_conv)+
  have "w' = w \<and> ?P (k', l')"
  proof (cases "capture_flatpak ?sf 4001 (user_service_cgroup (dk_uid (log_desktop dk))) app_id hold (secs 20) (secs 2) (k, l)")
    case None
    with run show ?thesis by (simp add: capture_act_def)
  next
    case (Some res)
    then obtain r1 k1 where res: "capture_flatpak ?sf 4001 (user_service_cgroup (dk_uid (log_desktop dk))) app_id hold (secs 20) (secs 2) (k, l) = Some (r1, k1)"
      by (cases res) simp
    have "?P k1" by (rule capture_keeps [where P = ?P, OF keep _ res]) simp_all
    with run res show ?thesis by (auto simp: capture_act_def)
  qed
  then show "\<exists>new. l' = l @ new \<and> set new \<subseteq> A \<and> ((\<forall>a \<in> set new. \<not> elevates a) \<longrightarrow> leaves base G calm (w, k) (w', k'))"
    by (intro exI [of _ "[]"]) (auto simp: leaves_def)
qed

section \<open>The commands one by one\<close>

definition ordinary :: "string list set" where
  "ordinary = {argv. \<not> elevates argv}"

text \<open>The ways in which the helper is started as root.\<close>

definition helper_calls :: "string list set" where
  "helper_calls = {argv. \<exists>helper args. argv = ''pkexec'' # helper # args \<and>
     ((\<exists>c rest. args = [''--config'', c, ''run''] @ rest) \<or> args = [''stop''] \<or>
      (\<exists>c u. args = [''tunnel'', ''up'', ''--wg-config'', c, ''--uid'', u]) \<or> args = [''tunnel'', ''down''] \<or>
      (\<exists>rest. args = [''tunnel'', ''attach'', ''--uid''] @ rest) \<or>
      (\<exists>rest. args = [''filter-route'', ''up'', ''--uid''] @ rest) \<or> args = [''filter-route'', ''down''])}"

lemma in_ordinary [simp]:
  "x # xs \<in> ordinary \<longleftrightarrow> x \<noteq> ''pkexec'' \<and> \<not> (x = ''systemd-run'' \<and> ''pkexec'' \<in> set xs)"
  by (auto simp: ordinary_def elevates_def)

lemma log_fields [simp]:
  "dk_xdg (log_desktop dk) = dk_xdg dk" "dk_home (log_desktop dk) = dk_home dk" "dk_manifest (log_desktop dk) = dk_manifest dk"
  by (simp_all add: log_desktop_def)

lemma unprivilegedD:
  assumes "unprivileged dk base G calm"
  shows "config_base dk = Some base" "G \<inter> own_area base = {}"
  using assms by (simp_all add: unprivileged_def)

lemma config_path_value:
  assumes "unprivileged dk base G calm" "config_path (log_desktop dk) s = (Inr p, s')"
  shows "p = base @ [''detour'', ''config.toml'']"
  using assms(2) keeps_default_path(2) [OF unprivilegedD(1) [OF assms(1)]]
  by (auto simp: config_path_def io_act_def split: prod.splits sum.splits)

lemma tunnel_dir_value:
  assumes "unprivileged dk base G calm" "tunnel_dir (log_desktop dk) s = (Inr d, s')"
  shows "d = base @ [''detour'', ''tunnel'']"
proof -
  from assms(2) obtain p s1 where p: "config_path (log_desktop dk) s = (Inr p, s1)"
    and d: "(if p = [] then raise ''config path has no parent'' else ret (butlast p @ [''tunnel''])) s1 = (Inr d, s')"
    unfolding tunnel_dir_def by (rule bind_act_cases) auto
  from d show ?thesis
    by (simp add: config_path_value [OF assms(1) p] ret_def butlast_append)
qed

lemma get_status_fun: "get_status dk =
    (\<lambda>s. io_act (dk_show_io dk) (read_snapshot (dk_of_json dk) (dk_now dk (snd s)) STATUS_PATH STATUS_MAX_AGE) s)"
  by (rule ext) (simp add: get_status_def)

lemma confined_files:
  assumes "unprivileged dk base G calm"
  shows "confined (leaves base G calm) A (config_path (log_desktop dk))" "confined (leaves base G calm) A (get_config (log_desktop dk))"
    "confined (leaves base G calm) A (tunnel_dir (log_desktop dk))" "confined (leaves base G calm) A (wg_config_path (log_desktop dk))"
    "confined (leaves base G calm) A tunnel_is_up" "confined (leaves base G calm) A (file_exists p)"
    "confined (leaves base G calm) A (is_file p)" "confined (leaves base G calm) A (io_act sh (read_to_string p))"
    "confined (leaves base G calm) A (io_act sh' (ok (read_to_string p)))"
    "confined (leaves base G calm) A (get_config_path (log_desktop dk))" "confined (leaves base G calm) A (get_status (log_desktop dk))"
proof -
  note io = confined_io [OF _ unprivilegedD(2) [OF assms]]
  show path: "confined (leaves base G calm) A (config_path (log_desktop dk))"
    unfolding config_path_def log_fields by (rule io, rule keeps_default_path [OF unprivilegedD(1) [OF assms]])
  show "confined (leaves base G calm) A (get_config (log_desktop dk))" "confined (leaves base G calm) A (get_config_path (log_desktop dk))"
    unfolding get_config_def get_config_path_def by (intro confine_intros path io keeps_load)+
  show dir: "confined (leaves base G calm) A (tunnel_dir (log_desktop dk))"
    unfolding tunnel_dir_def by (intro confine_intros path)
  show "confined (leaves base G calm) A (wg_config_path (log_desktop dk))"
    unfolding wg_config_path_def by (intro confine_intros dir)
  show "confined (leaves base G calm) A tunnel_is_up" "confined (leaves base G calm) A (file_exists p)"
    "confined (leaves base G calm) A (is_file p)" "confined (leaves base G calm) A (io_act sh (read_to_string p))"
    "confined (leaves base G calm) A (io_act sh' (ok (read_to_string p)))"
    unfolding tunnel_is_up_def file_exists_def is_file_def by (rule io, intro frame_intros keeps_reads)+
  show "confined (leaves base G calm) A (get_status (log_desktop dk))"
    unfolding get_status_fun by (rule confined_pointwise [where m = "\<lambda>k. io_act _ (_ k)"]) (rule io, rule keeps_reads)
qed

text \<open>What the commands share: programs that are neither \<open>pkexec\<close> nor start it.\<close>

lemma confined_ordinary:
  assumes U: "unprivileged dk base G calm" and A: "ordinary \<subseteq> A"
  shows "argv \<in> ordinary \<Longrightarrow> confined (leaves base G calm) A (run_output (log_desktop dk) (plain argv))"
    "cm_argv c \<in> ordinary \<Longrightarrow> confined (leaves base G calm) A (run_output (log_desktop dk) c)"
    "argv \<in> ordinary \<Longrightarrow> confined (leaves base G calm) A (run_spawn (log_desktop dk) argv)"
  using A by (auto intro!: confined_output [OF U] confined_spawn [OF U] simp del: in_ordinary)

lemma confined_first_file:
  assumes "unprivileged dk base G calm"
  shows "confined (leaves base G calm) A (first_file cs)"
  by (induction cs) (auto intro!: confine_intros confined_files [OF assms])

lemma confined_units:
  assumes U: "unprivileged dk base G calm" and A: "ordinary \<subseteq> A"
  shows "confined (leaves base G calm) A (helper_path (log_desktop dk))" "confined (leaves base G calm) A (helper_available (log_desktop dk))"
    "confined (leaves base G calm) A (have_program (log_desktop dk) p)"
    "confined (leaves base G calm) A (ensure_anchor (log_desktop dk))" "confined (leaves base G calm) A (running_split (log_desktop dk) nm)"
    "confined (leaves base G calm) A (stop_units (log_desktop dk) us)" "confined (leaves base G calm) A (prune_idle_holds (log_desktop dk))"
proof -
  note run = confined_ordinary [OF U A]
  show hp: "confined (leaves base G calm) A (helper_path (log_desktop dk))"
    unfolding helper_path_def
    by (intro confine_intros confined_first_file [OF U]) (auto intro!: confine_intros run split: option.split sum.split)
  have "helper_available (log_desktop dk) s = (Inr (\<not> isl (fst (helper_path (log_desktop dk) s))), snd (helper_path (log_desktop dk) s))" for s
    by (simp add: helper_available_def split: prod.splits sum.splits)
  with hp show "confined (leaves base G calm) A (helper_available (log_desktop dk))"
    unfolding confined_def by (metis prod.collapse snd_conv)
  show "confined (leaves base G calm) A (have_program (log_desktop dk) p)"
    "confined (leaves base G calm) A (ensure_anchor (log_desktop dk))" "confined (leaves base G calm) A (running_split (log_desktop dk) nm)"
    unfolding have_program_def ensure_anchor_def running_split_def
    by (auto intro!: confine_intros run split: sum.split simp: SLICE_def ANCHOR_UNIT_def)
  show stop: "confined (leaves base G calm) A (stop_units (log_desktop dk) us)" for us
    by (induction us) (auto intro!: confine_intros run)
  show "confined (leaves base G calm) A (prune_idle_holds (log_desktop dk))"
    unfolding prune_idle_holds_def by (intro confine_intros stop)
qed

lemma confined_hold:
  assumes U: "unprivileged dk base G calm" and A: "ordinary \<subseteq> A"
  shows "confined (leaves base G calm) A (ensure_hold (log_desktop dk) nm)"
    "confined (leaves base G calm) A (app_presence (log_desktop dk) a)"
proof -
  note run = confined_ordinary [OF U A]
  have wait: "confined (leaves base G calm) A (wait_hold (log_desktop dk) hold n)" for hold n
    by (induction n) (auto intro!: confine_intros confined_sleep [OF U])
  show "confined (leaves base G calm) A (ensure_hold (log_desktop dk) nm)"
    unfolding ensure_hold_def Let_def
    by (auto intro!: confine_intros run wait split: sum.split simp: SLICE_def hold_unit_def)
  show "confined (leaves base G calm) A (app_presence (log_desktop dk) a)"
    unfolding app_presence_def by (auto intro!: confine_intros confined_units [OF U A] split: option.split)
qed

text \<open>Asking for root, through the helper only.\<close>

lemma confined_pkexec:
  assumes U: "unprivileged dk base G calm" and A: "ordinary \<subseteq> A"
    and "\<And>helper. ''pkexec'' # helper # args \<in> A"
  shows "confined (leaves base G calm) A (pkexec_helper (log_desktop dk) args)"
  unfolding pkexec_helper_def
  by (auto intro!: confine_intros confined_units [OF U A] confined_output [OF U] simp: assms(3) split: sum.split)

lemma confined_config:
  assumes U: "unprivileged dk base G calm"
  shows "confined (leaves base G calm) A (save_config (log_desktop dk) c)"
    "confined (leaves base G calm) A (install_config (log_desktop dk) s)"
proof -
  note io = confined_io [OF _ unprivilegedD(2) [OF U]]
  have "confined (leaves base G calm) A (io_act (show_config_error (dk_show_io (log_desktop dk))) (save (dk_to_toml (log_desktop dk)) c p))"
    if "config_path (log_desktop dk) s = (Inr p, s')" for p s s'
    unfolding config_path_value [OF U that] by (rule io, rule keeps_save)
  then show "confined (leaves base G calm) A (save_config (log_desktop dk) c)"
    unfolding save_config_def by (intro confined_bind confined_basic confined_bind_dep [OF confined_files(1) [OF U]])
  have "confined (leaves base G calm) A (io_act (dk_show_io (log_desktop dk)) (store_config d s))"
    if "tunnel_dir (log_desktop dk) st = (Inr d, s')" for d st s'
    unfolding tunnel_dir_value [OF U that] by (rule io, rule keeps_store)
  then show "confined (leaves base G calm) A (install_config (log_desktop dk) s)"
    unfolding install_config_def
    by (auto split: sum.split intro!: confined_basic confined_bind_dep [OF confined_files(3) [OF U]])
qed

lemma confined_imports:
  assumes U: "unprivileged dk base G calm" and A: "ordinary \<subseteq> A"
  shows "confined (leaves base G calm) A (tunnel_import_text (log_desktop dk) s)"
    "confined (leaves base G calm) A (tunnel_import_config (log_desktop dk) to_path s)"
    "confined (leaves base G calm) A (tunnel_generate_warp (log_desktop dk))"
proof -
  note confs = confine_intros confined_files [OF U] confined_config [OF U] confined_units [OF U A]
  show "confined (leaves base G calm) A (tunnel_import_text (log_desktop dk) s)"
    "confined (leaves base G calm) A (tunnel_import_config (log_desktop dk) to_path s)"
    unfolding tunnel_import_text_def tunnel_import_config_def by (intro confs)+
  have wgcf: "confined (leaves base G calm) A (run_wgcf (log_desktop dk) d args)" for d args
    unfolding run_wgcf_def by (auto intro!: confine_intros confined_ordinary [OF U A] simp: plain_def split: sum.split)
  have dirs: "confined (leaves base G calm) A (io_act sh (create_dir_all d))"
    if "tunnel_dir (log_desktop dk) s = (Inr d, s')" for sh d s s'
    unfolding tunnel_dir_value [OF U that]
    by (rule confined_io [OF keeps_create_dirs unprivilegedD(2) [OF U]]) (rule area_dirs)
  show "confined (leaves base G calm) A (tunnel_generate_warp (log_desktop dk))"
    unfolding tunnel_generate_warp_def
  proof (intro confined_bind [OF confined_units(3) [OF U A]] confined_if confined_basic)
    show "confined (leaves base G calm) A (bind_act (tunnel_dir (log_desktop dk)) (\<lambda>dir.
        bind_act (io_act (dk_show_io (log_desktop dk)) (create_dir_all dir)) (\<lambda>_.
        bind_act (file_exists (dir @ [''wgcf-account.toml''])) (\<lambda>account.
        bind_act (if account then ret () else run_wgcf (log_desktop dk) dir [''register'', ''--accept-tos'']) (\<lambda>_.
        bind_act (run_wgcf (log_desktop dk) dir [''generate'']) (\<lambda>_.
        bind_act (io_act (\<lambda>e. ''wgcf did not produce a profile: '' @ dk_show_io (log_desktop dk) e)
                   (read_to_string (dir @ [''wgcf-profile.conf'']))) (\<lambda>text.
        bind_act (install_config (log_desktop dk) text) (\<lambda>_. ret ''Cloudflare WARP config generated.''))))))))"
      by (rule confined_bind_dep [OF confined_files(3) [OF U]]) (rule confined_bind [OF dirs], assumption, intro confs wgcf)
  qed
qed

lemma confined_asking:
  assumes U: "unprivileged dk base G calm" and A: "ordinary \<subseteq> A"
  shows "confined (leaves base G calm) A (get_tunnel_status (log_desktop dk))" "confined (leaves base G calm) A (tunnel_check_exit (log_desktop dk))"
    "confined (leaves base G calm) A (get_update_info (log_desktop dk))" "confined (leaves base G calm) A (rebuild_and_install (log_desktop dk))"
    "confined (leaves base G calm) A (run_diagnostic (log_desktop dk) client dg domains)"
    "confined (leaves base G calm) A (tunnel_apps (log_desktop dk) to_path)" "confined (leaves base G calm) A (suggest_apps (log_desktop dk))"
proof -
  note io = confined_io [OF _ unprivilegedD(2) [OF U]]
  note confs = confine_intros confined_files [OF U] confined_units [OF U A] confined_hold [OF U A] confined_ordinary [OF U A]
  show "confined (leaves base G calm) A (get_tunnel_status (log_desktop dk))"
    unfolding get_tunnel_status_def by (intro confs io frame_intros keeps_reads)
  show "confined (leaves base G calm) A (tunnel_check_exit (log_desktop dk))"
    unfolding tunnel_check_exit_def Let_def by (auto intro!: confs simp: SLICE_def TRACE_def split: sum.split)
  have source: "confined (leaves base G calm) A (source_dir (log_desktop dk))"
    unfolding source_dir_def Let_def by (intro confs)
  have cargo: "confined (leaves base G calm) A (cargo_available (log_desktop dk))"
    unfolding cargo_available_def by (intro confs) (simp add: plain_def)
  show "confined (leaves base G calm) A (get_update_info (log_desktop dk))"
    unfolding get_update_info_def Let_def by (intro confs source cargo)
  show "confined (leaves base G calm) A (rebuild_and_install (log_desktop dk))"
    unfolding rebuild_and_install_def
    by (auto intro!: confs source simp: display_def ordinary_def elevates_def hd_append split: sum.split)
  show "confined (leaves base G calm) A (run_diagnostic (log_desktop dk) client dg domains)"
    unfolding run_diagnostic_def by (auto intro!: confs split: sum.split)
  have installed: "confined (leaves base G calm) A (app_installed (log_desktop dk) to_path a)" for a
    unfolding app_installed_def flatpak_installed_def by (auto intro!: confs split: option.split)
  have "confined (leaves base G calm) A (app_states (log_desktop dk) to_path apps)" for apps
    by (induction apps) (auto intro!: confs installed)
  then show "confined (leaves base G calm) A (tunnel_apps (log_desktop dk) to_path)"
    unfolding tunnel_apps_def by (intro confs)
  have "confined (leaves base G calm) A (installed_of (log_desktop dk) cs)" for cs
    by (induction cs) (auto intro!: confs)
  then show "confined (leaves base G calm) A (suggest_apps (log_desktop dk))"
    unfolding suggest_apps_def by (auto intro!: confs split: sum.split)
qed

text \<open>The commands that start what the user has configured. The filter's browsers are known by name.\<close>

lemma confined_launches:
  assumes U: "unprivileged dk base G calm"
  shows "ordinary \<subseteq> A \<Longrightarrow> confined (leaves base G calm) A (launch_with_filter (log_desktop dk) f app)"
    "confined (leaves base G calm) UNIV (launch_game (log_desktop dk) p)"
    "confined (leaves base G calm) UNIV (launch_in_tunnel (log_desktop dk) app)"
proof -
  note confs = confine_intros confined_files [OF U] confined_units [OF U] confined_hold [OF U]
  show "confined (leaves base G calm) A (launch_with_filter (log_desktop dk) f app)" if A: "ordinary \<subseteq> A"
  proof -
    have "command # args \<in> A" if "last (split_on (CHR ''/'') command) \<in> set CHROMIUM_FAMILY" for command args
    proof -
      have "command \<noteq> ''pkexec''" "command \<noteq> ''systemd-run''"
        using that by (auto simp: CHROMIUM_FAMILY_def split_on_none)
      with A show ?thesis by auto
    qed
    then show ?thesis
      unfolding launch_with_filter_def Let_def by (auto intro!: confs confined_spawn [OF U] A split: sum.split)
  qed
  show "confined (leaves base G calm) UNIV (launch_game (log_desktop dk) p)"
    unfolding launch_game_def by (auto intro!: confs confined_spawn [OF U] split: sum.split)
  have "confined (leaves base G calm) UNIV (launch_fresh (log_desktop dk) a)" for a
    unfolding launch_fresh_def Let_def
    by (auto intro!: confs confined_spawn [OF U] confined_capture [OF U] split: sum.split option.split)
  then show "confined (leaves base G calm) UNIV (launch_in_tunnel (log_desktop dk) app)"
    unfolding launch_in_tunnel_def launch_if_idle_def by (auto intro!: confs)
qed

lemma helper_callsI:
  "''pkexec'' # h # ''--config'' # c # ''run'' # rest \<in> helper_calls" "[''pkexec'', h, ''stop''] \<in> helper_calls"
  "[''pkexec'', h, ''tunnel'', ''up'', ''--wg-config'', c, ''--uid'', u] \<in> helper_calls"
  "[''pkexec'', h, ''tunnel'', ''down''] \<in> helper_calls" "''pkexec'' # h # ''tunnel'' # ''attach'' # ''--uid'' # rest \<in> helper_calls"
  "''pkexec'' # h # ''filter-route'' # ''up'' # ''--uid'' # rest \<in> helper_calls" "[''pkexec'', h, ''filter-route'', ''down''] \<in> helper_calls"
  by (simp_all add: helper_calls_def)

lemma confined_helper:
  assumes U: "unprivileged dk base G calm"
  defines "A \<equiv> ordinary \<union> helper_calls"
  shows "confined (leaves base G calm) A (start_protection (log_desktop dk) profile_id)"
    "confined (leaves base G calm) A (stop_protection (log_desktop dk))"
    "confined (leaves base G calm) A (tunnel_up (log_desktop dk))" "confined (leaves base G calm) A (tunnel_down (log_desktop dk))"
    "confined (leaves base G calm) A (attach_to_tunnel (log_desktop dk) app)"
    "confined (leaves base G calm) A (filter_route_on (log_desktop dk) f)" "confined (leaves base G calm) A (filter_route_off (log_desktop dk))"
proof -
  have A: "ordinary \<subseteq> A" and mem: "argv \<in> helper_calls \<Longrightarrow> argv \<in> A" for argv by (simp_all add: A_def)
  note calls = helper_callsI [THEN mem]
  note confs = confine_intros confined_files [OF U] confined_units [OF U A] confined_hold [OF U A]
  have poll: "confined (leaves base G calm) A (poll_start (log_desktop dk) n)" for n
    by (induction n) (auto intro!: confs confined_sleep [OF U] split: option.split)
  show "confined (leaves base G calm) A (start_protection (log_desktop dk) profile_id)"
    unfolding start_protection_def
    by (auto intro!: confs poll confined_spawn [OF U] simp: calls split: sum.split)
  show "confined (leaves base G calm) A (stop_protection (log_desktop dk))"
    unfolding stop_protection_def
    by (auto intro!: confs confined_output [OF U] simp: calls split: sum.split)
  note pk = confined_pkexec [OF U A]
  show "confined (leaves base G calm) A (tunnel_up (log_desktop dk))"
    unfolding tunnel_up_def by (auto intro!: confs pk simp: calls)
  show "confined (leaves base G calm) A (tunnel_down (log_desktop dk))"
    unfolding tunnel_down_def by (auto intro!: confs confined_ordinary(1) [OF U A] pk simp: calls)
  show "confined (leaves base G calm) A (filter_route_on (log_desktop dk) f)"
    "confined (leaves base G calm) A (filter_route_off (log_desktop dk))"
    unfolding filter_route_on_def filter_route_off_def by (auto intro!: confs pk simp: calls)
  show "confined (leaves base G calm) A (attach_to_tunnel (log_desktop dk) app)"
    unfolding attach_to_tunnel_def
    by (auto intro!: confs pk simp: calls split: option.split)
qed

section \<open>Sequences of commands\<close>

text \<open>Commands that start what the user has configured, and commands that may ask for root.\<close>

fun launches :: "invocation \<Rightarrow> bool" where
  "launches (Launch_Game _) = True"
| "launches (Launch_In_Tunnel _) = True"
| "launches _ = False"

definition may_elevate :: "invocation \<Rightarrow> bool" where
  "may_elevate i \<longleftrightarrow> launches i \<or>
     (case i of
        Start_Protection _ \<Rightarrow> True | Stop_Protection \<Rightarrow> True | Tunnel_Up \<Rightarrow> True | Tunnel_Down \<Rightarrow> True
      | Attach_To_Tunnel _ \<Rightarrow> True | Filter_Route_On \<Rightarrow> True | Filter_Route_Off \<Rightarrow> True | _ \<Rightarrow> False)"

definition programs_of :: "invocation \<Rightarrow> string list set" where
  "programs_of i = (if launches i then UNIV else if may_elevate i then ordinary \<union> helper_calls else ordinary)"

lemma confined_map:
  "confined (leaves base G calm) A m \<Longrightarrow> confined (leaves base G calm) A (map_act g m)"
  unfolding map_act_def by (intro confine_intros)

lemma confined_invoke_act:
  assumes "unprivileged dk base G calm"
  shows "confined (leaves base G calm) (programs_of i) (invoke_act (log_desktop dk) os f i)"
  by (cases i)
    (auto simp: invoke_act_def programs_of_def may_elevate_def
      intro!: confined_map confine_intros confined_files [OF assms] confined_config [OF assms] confined_imports [OF assms]
        confined_asking [OF assms] confined_units [OF assms] confined_launches [OF assms] confined_helper [OF assms])

lemma confined_invoke:
  assumes "unprivileged dk base G calm" "invoke (log_desktop dk) os i f (w, k, l) = (r, f', w', k', l')"
  shows "\<exists>new. l' = l @ new \<and> set new \<subseteq> programs_of i \<and> ((\<forall>a \<in> set new. \<not> elevates a) \<longrightarrow> leaves base G calm (w, k) (w', k'))"
proof (cases "i \<in> {Filter_Start, Filter_Stop, Restart_App}")
  case True
  with assms(2) have "l' = l" "w' = w" "k' = k" by (auto simp: invoke_def split: prod.splits)
  then show ?thesis by (simp add: leaves_refl)
next
  case False
  with assms(2) have "invoke_act (log_desktop dk) os f i (w, k, l) = (r, w', k', l')"
    by (cases i) (auto simp: invoke_def split: prod.splits)
  with confined_invoke_act [OF assms(1)] show ?thesis unfolding confined_def by blast
qed

lemma confined_invocations:
  assumes "unprivileged dk base G calm" "invocations (log_desktop dk) os is f (w, k, l) = (rs, f', w', k', l')"
  shows "\<exists>new. l' = l @ new \<and> (\<forall>a \<in> set new. \<exists>i \<in> fst ` set is. a \<in> programs_of i) \<and>
     ((\<forall>a \<in> set new. \<not> elevates a) \<longrightarrow> leaves base G calm (w, k) (w', k'))"
  using assms(2)
proof (induction "is" arbitrary: f w k l rs)
  case (Cons c "is")
  obtain i ended where c: "c = (i, ended)" by (cases c)
  obtain r f1 w1 k1 l1 where i: "invoke (log_desktop dk) os i (if ended then filter_task_ended f else f) (w, k, l) = (r, f1, w1, k1, l1)"
    by (rule prod_cases5)
  with Cons.prems c obtain rs' where rest: "invocations (log_desktop dk) os is f1 (w1, k1, l1) = (rs', f', w', k', l')"
    by (auto split: prod.splits)
  from confined_invoke [OF assms(1) i] obtain n1 where n1: "l1 = l @ n1" "set n1 \<subseteq> programs_of i"
    "(\<forall>a \<in> set n1. \<not> elevates a) \<longrightarrow> leaves base G calm (w, k) (w1, k1)" by blast
  from Cons.IH [OF rest] obtain n2 where n2: "l' = l1 @ n2" "\<forall>a \<in> set n2. \<exists>i \<in> fst ` set is. a \<in> programs_of i"
    "(\<forall>a \<in> set n2. \<not> elevates a) \<longrightarrow> leaves base G calm (w1, k1) (w', k')" by blast
  show ?case
  proof (intro exI [of _ "n1 @ n2"] conjI)
    show "l' = l @ n1 @ n2" using n1(1) n2(1) by simp
    show "\<forall>a \<in> set (n1 @ n2). \<exists>i \<in> fst ` set (c # is). a \<in> programs_of i" using n1(2) n2(2) c by auto
    show "(\<forall>a \<in> set (n1 @ n2). \<not> elevates a) \<longrightarrow> leaves base G calm (w, k) (w', k')"
      using n1(3) n2(3) leaves_trans by auto
  qed
qed (simp add: leaves_refl)

lemma programs_of_elevated:
  assumes "a \<in> programs_of i" "elevates a"
  shows "may_elevate i" "launches i \<or> a \<in> helper_calls"
  using assms by (auto simp: programs_of_def ordinary_def may_elevate_def split: if_splits)

section \<open>The property\<close>


text \<open>A desktop on which \<open>pkexec\<close> overwrites \<open>/etc/resolv.conf\<close>.\<close>

definition root_desktop :: "unit desktop" where
  "root_desktop = demo_desktop\<lparr>dk_output := (\<lambda>c (w, k).
     (Inr \<lparr>ou_code = Some 0, ou_stdout = ''/usr/bin/dns-helper'', ou_stderr = []\<rparr>,
      if elevates (cm_argv c) then w\<lparr>w_fs := (w_fs w)(RESOLV_CONF \<mapsto> File ''x'' 420)\<rparr> else w, k))\<rparr>"

lemma root_desktop_unprivileged: "unprivileged root_desktop [''cfg''] {RESOLV_CONF} (\<lambda>_. True)"
  by (auto simp: unprivileged_def root_desktop_def demo_desktop_def config_base_def own_area_def leaves_def RESOLV_CONF_def prefix_def
      Cons_eq_append_conv)

lemma demo_net_no_links: "no_links [''cfg''] (w_fs demo_net_world)"
  by (simp add: no_links_def is_link_def demo_net_world_def demo_net_def)

lemma root_desktop_elevates:
  "w_fs (fst (snd (filter_route_off root_desktop (demo_net_world, ())))) RESOLV_CONF = Some (File ''x'' 420)"
proof -
  have out: "run_output root_desktop c (w, ()) = (Inr (Inr \<lparr>ou_code = Some 0, ou_stdout = ''/usr/bin/dns-helper'', ou_stderr = []\<rparr>),
      if elevates (cm_argv c) then w\<lparr>w_fs := (w_fs w)(RESOLV_CONF \<mapsto> File ''x'' 420)\<rparr> else w, ())" for c w
    by (simp add: run_output_def root_desktop_def)
  have fields: "dk_exe root_desktop = None" "dk_manifest root_desktop = []"
    by (simp_all add: root_desktop_def demo_desktop_def)
  have "trim ''/usr/bin/dns-helper'' = ''/usr/bin/dns-helper''" by code_simp
  then show ?thesis
    by (simp add: filter_route_off_def pkexec_helper_def helper_path_def bind_act_def out ret_def fields elevates_def)
qed


end
