(* ===== verification/Sessions.thy ===== *)
theory Sessions
  imports Resolvconf
begin

text \<open>
  The contract of \<open>resolvconf.rs\<close> over the life of a machine, as an abstract machine with two
  phases, and the refinement: each of \<open>take_over\<close>, \<open>restore\<close> and \<open>reconcile_after_crash\<close>, ended
  by success, by an error or by the death of the process after any of its calls, is a step of
  the abstract machine. The original \<open>resolv.conf\<close> is a regular file here; what happens to a
  link is the last section.
\<close>

section \<open>The abstract machine\<close>

text \<open>\<open>Active p\<close>: the takeover of process \<open>p\<close> is recorded, whether the process is alive or not.\<close>

datatype phase = Idle | Active u32

datatype session_event =
    Begin u32 "u32 \<Rightarrow> bool"
  | Finish
  | Recover "u32 \<Rightarrow> bool"

inductive phase_step :: "phase \<Rightarrow> session_event \<Rightarrow> phase \<Rightarrow> bool" where
  begin_idle: "q \<in> {Idle, Active pid} \<Longrightarrow> phase_step Idle (Begin pid alive) q"
| begin_refused: "alive p \<Longrightarrow> phase_step (Active p) (Begin pid alive) (Active p)"
| begin_stale: "\<not> alive p \<Longrightarrow> q \<in> {Idle, Active p, Active pid} \<Longrightarrow> phase_step (Active p) (Begin pid alive) q"
| finish: "q \<in> {Idle, Active p} \<Longrightarrow> phase_step (Active p) Finish q"
| recover_idle: "phase_step Idle (Recover alive) Idle"
| recover_refused: "alive p \<Longrightarrow> phase_step (Active p) (Recover alive) (Active p)"
| recover_stale: "\<not> alive p \<Longrightarrow> q \<in> {Idle, Active p} \<Longrightarrow> phase_step (Active p) (Recover alive) q"

inductive phase_run :: "phase \<Rightarrow> session_event list \<Rightarrow> phase \<Rightarrow> bool" where
  phase_done: "phase_run p [] p"
| phase_more: "phase_step p e q \<Longrightarrow> phase_run q es r \<Longrightarrow> phase_run p (e # es) r"

section \<open>Disks and phases\<close>

definition regular :: "string \<Rightarrow> node option \<Rightarrow> bool" where
  "regular orig x \<longleftrightarrow> (\<exists>k. x = Some (File orig k))"

definition redirected :: "manager \<Rightarrow> node option \<Rightarrow> bool" where
  "redirected m x \<longleftrightarrow> (\<exists>addr. x = Some (File (redirect_body m addr) 420))"

definition records :: "manager \<Rightarrow> (takeover_state \<Rightarrow> string) \<Rightarrow> string \<Rightarrow> takeover_state \<Rightarrow> files \<Rightarrow> bool" where
  "records m ser orig st t \<longleftrightarrow> (\<exists>k. t (state_path m) = Some (File (ser st) k)) \<and> regular orig (t (backup_path m)) \<and>
     ts_original_symlink_target st = None"

definition phase_of :: "manager \<Rightarrow> (takeover_state \<Rightarrow> string) \<Rightarrow> string \<Rightarrow> phase \<Rightarrow> files \<Rightarrow> bool" where
  "phase_of m ser orig p t \<longleftrightarrow> sane m t \<and>
     (case p of
        Idle \<Rightarrow> t (state_path m) = None \<and> regular orig (t (resolv_path m))
      | Active pid \<Rightarrow> (\<exists>st. ts_pid st = pid \<and> records m ser orig st t) \<and>
          (regular orig (t (resolv_path m)) \<or> redirected m (t (resolv_path m))))"

text \<open>The disks an action leaves behind, at its end or when its process dies after one of its calls.\<close>

definition visited :: "('e, 'a) io \<Rightarrow> world \<Rightarrow> files set" where
  "visited act w = {t. \<exists>new. w_trace (snd (act w)) = new @ w_trace w \<and> t \<in> insert (w_fs (snd (act w))) (set new)}"

lemma visited_always: "always P act w \<Longrightarrow> t \<in> visited act w \<Longrightarrow> P t"
  by (auto simp: always_def visited_def)

definition shares_codec :: "(takeover_state \<Rightarrow> string) \<Rightarrow> host \<Rightarrow> bool" where
  "shares_codec ser h \<longleftrightarrow> h_ser h = ser \<and> (\<forall>st. h_de h (ser st) = Some st)"

text \<open>One use of the manager by some process. Calls may fail while no takeover is recorded; after
  that they succeed, but the process may still die between any two.\<close>

inductive session_step :: "manager \<Rightarrow> (takeover_state \<Rightarrow> string) \<Rightarrow> files \<Rightarrow> session_event \<Rightarrow> files \<Rightarrow> bool" for m ser where
  begins: "shares_codec ser h \<Longrightarrow> quiet w \<or> w_fs w (state_path m) = None \<Longrightarrow> t \<in> visited (take_over h m addr) w \<Longrightarrow>
     session_step m ser (w_fs w) (Begin (h_pid h) (process_is_alive h)) t"
| finishes: "shares_codec ser h \<Longrightarrow> quiet w \<Longrightarrow> w_fs w (state_path m) \<noteq> None \<Longrightarrow> t \<in> visited (restore h m) w \<Longrightarrow>
     session_step m ser (w_fs w) Finish t"
| recovers: "shares_codec ser h \<Longrightarrow> quiet w \<Longrightarrow> t \<in> visited (reconcile_after_crash h m) w \<Longrightarrow>
     session_step m ser (w_fs w) (Recover (process_is_alive h)) t"

inductive sessions :: "manager \<Rightarrow> (takeover_state \<Rightarrow> string) \<Rightarrow> files \<Rightarrow> session_event list \<Rightarrow> files \<Rightarrow> bool" for m ser where
  no_session: "sessions m ser t [] t"
| more_sessions: "session_step m ser t e t' \<Longrightarrow> sessions m ser t' es t'' \<Longrightarrow> sessions m ser t (e # es) t''"

section \<open>Runs whose every disk is known\<close>

text \<open>\<open>passes P m w x t\<close>: without faults \<open>m\<close> returns \<open>x\<close> and ends on \<open>t\<close>, and every disk on the way satisfies \<open>P\<close>.\<close>

definition passes :: "(files \<Rightarrow> bool) \<Rightarrow> ('e, 'a) io \<Rightarrow> world \<Rightarrow> 'a \<Rightarrow> files \<Rightarrow> bool" where
  "passes P act w x t \<longleftrightarrow> yields act w x t \<and> always P act w"

lemma passes_bind_run:
  assumes "passes P act w x t" "\<And>w1. act w = (Inr x, w1) \<Longrightarrow> w_fs w1 = t \<Longrightarrow> quiet w1 \<Longrightarrow> passes P (f x) w1 y t'"
  shows "passes P (bind_io act f) w y t'"
proof -
  obtain w1 where w1: "act w = (Inr x, w1)" "quiet w1" "w_fs w1 = t"
    using assms(1) by (auto simp: passes_def elim: yieldsE)
  have f: "passes P (f x) w1 y t'" using assms(2) w1 by blast
  then have "yields (bind_io act f) w y t'" by (simp add: passes_def yields_def bind_io_def w1(1))
  moreover have "always P (bind_io act f) w"
    using assms(1) f w1(1) by (auto simp: passes_def intro!: always_bind)
  ultimately show ?thesis by (simp add: passes_def)
qed

lemma passes_bind:
  assumes "passes P act w x t" "\<And>w1. w_fs w1 = t \<Longrightarrow> quiet w1 \<Longrightarrow> passes P (f x) w1 y t'"
  shows "passes P (bind_io act f) w y t'"
  using assms by (rule passes_bind_run)

lemma passes_wrappers:
  "passes P act w x t \<Longrightarrow> passes P (map_err g act) w x t"
  "passes P act w x t \<Longrightarrow> passes P (ok act) w (Some x) t"
  by (simp_all add: passes_def yields_map_err yields_ok always_wrappers)

lemma passes_return: "quiet w \<Longrightarrow> P (w_fs w) \<Longrightarrow> passes P (return_io x) w x (w_fs w)"
  by (simp add: passes_def yields_return always_return)

text \<open>Actions that only read.\<close>

definition reads_only :: "('e, 'a) io \<Rightarrow> bool" where
  "reads_only act \<longleftrightarrow> (\<forall>t. frames (\<lambda>u. u = t) {} act)"

lemma reads_only_always: "reads_only act \<Longrightarrow> P (w_fs w) \<Longrightarrow> always P act w"
  using always_frames [of "\<lambda>u. u = w_fs w" "{}" act w] by (auto simp: reads_only_def intro: always_mono)

lemma reads_only_read_state: "reads_only (read_state h m)"
  unfolding reads_only_def read_state_def
  by (auto intro!: frames_bind frames_wrappers frames_return frames_fail frames_queries
      split: sum.splits option.splits io_kind.splits)

lemma reads_only_tests: "reads_only (path_exists p)" "reads_only (read_to_string p)"
  by (simp_all add: reads_only_def frames_tests frames_queries)

lemma passes_reading: "reads_only act \<Longrightarrow> yields act w x (w_fs w) \<Longrightarrow> P (w_fs w) \<Longrightarrow> passes P act w x (w_fs w)"
  by (simp add: passes_def reads_only_always)

lemma passes_remove:
  assumes "quiet w" "w_fs w p \<noteq> Some Dir" "P (w_fs w)" "P ((w_fs w)(p := None))"
  shows "passes P (ignore (remove_file p)) w () ((w_fs w)(p := None))"
proof -
  have "always P (remove_file p) w"
    using assms by (auto simp: remove_file_def always_def sys_def quiet_def next_fault_def put_def Let_def
        split: option.splits node.splits)
  then show ?thesis using yields_ignore_remove [OF assms(1,2)] by (simp add: passes_def always_wrappers)
qed

lemma passes_write_own:
  assumes "layout m" "quiet w" "sane m (w_fs w)" "p \<in> {resolv_path m, backup_path m, state_path m, nm_dropin m}"
    "w_fs w (butlast p) = Some Dir" "w_fs w p \<noteq> Some Dir"
    and "\<And>t. sane m t \<Longrightarrow> (\<And>q. q \<notin> {tmp_path p, p} \<Longrightarrow> t q = w_fs w q) \<Longrightarrow> t p = w_fs w p \<or> t p = Some (File c k) \<Longrightarrow> P t"
  shows "passes P (write_atomic p c k) w () ((w_fs w)(tmp_path p := None, p \<mapsto> File c k))"
  unfolding passes_def
proof (intro conjI)
  have tmp: "plain_node (w_fs w (tmp_path p))" using assms(3,4) by (rule sane_tmp)
  then show "yields (write_atomic p c k) w () ((w_fs w)(tmp_path p := None, p \<mapsto> File c k))"
    by (rule write_atomic_yields [OF assms(2) _ assms(5,6)])
  have "always (\<lambda>t. (sane m t \<and> (\<forall>q. q \<notin> {tmp_path p, p} \<longrightarrow> t q = w_fs w q)) \<and>
      (t p = w_fs w p \<or> t p = Some (File c k))) (write_atomic p c k) w"
    by (rule always_conj [OF always_frames [of "sane m", OF frames_write_own [OF assms(1,4)] assms(3)] write_atomic_always [OF tmp]])
  then show "always P (write_atomic p c k) w" by (rule always_mono) (use assms(7) in blast)
qed

section \<open>Restoring\<close>

lemma phase_active_keep:
  assumes "phase_of m ser orig (Active pid) t" "sane m t'" "t' (state_path m) = t (state_path m)"
    "t' (backup_path m) = t (backup_path m)" "regular orig (t' (resolv_path m)) \<or> redirected m (t' (resolv_path m))"
  shows "phase_of m ser orig (Active pid) t'"
  using assms by (auto simp: phase_of_def records_def)

definition leaving :: "manager \<Rightarrow> (takeover_state \<Rightarrow> string) \<Rightarrow> string \<Rightarrow> u32 \<Rightarrow> files \<Rightarrow> bool" where
  "leaving m ser orig pid t \<longleftrightarrow> phase_of m ser orig Idle t \<or> phase_of m ser orig (Active pid) t"

lemma clear_passes:
  assumes lay: "layout m" and q: "quiet w" and act: "phase_of m ser orig (Active pid) (w_fs w)"
    and r: "w_fs w (resolv_path m) = Some (File orig 420)"
  shows "passes (leaving m ser orig pid) (bind_io (ignore (remove_file (state_path m))) (\<lambda>_. ignore (remove_file (backup_path m)))) w ()
    ((w_fs w)(state_path m := None, backup_path m := None))"
proof -
  let ?s = "state_path m" and ?b = "backup_path m" and ?t = "w_fs w"
  note neq = layout_neqs [OF lay]
  have files: "?t ?s \<noteq> Some Dir" "?t ?b \<noteq> Some Dir" and sane: "sane m ?t"
    using act by (auto simp: phase_of_def records_def regular_def)
  have idle: "phase_of m ser orig Idle (?t(?s := None))" "phase_of m ser orig Idle (?t(?s := None, ?b := None))"
    using r by (auto simp: phase_of_def regular_def neq intro!: sane_upd [OF lay] sane own_simps)
  show ?thesis
  proof (rule passes_bind [OF passes_remove [OF q files(1)]])
    show "leaving m ser orig pid ?t" "leaving m ser orig pid (?t(?s := None))" using act idle by (simp_all add: leaving_def)
    fix w1 :: world assume w1: "w_fs w1 = ?t(?s := None)" "quiet w1"
    then show "passes (leaving m ser orig pid) (ignore (remove_file ?b)) w1 () (?t(?s := None, ?b := None))"
      using passes_remove [OF w1(2), of ?b "leaving m ser orig pid"] idle files by (simp add: leaving_def neq)
  qed
qed

lemma rewrite_passes:
  assumes lay: "layout m" and q: "quiet w" and sane: "sane m (w_fs w)" and act: "phase_of m ser orig (Active pid) (w_fs w)"
  shows "passes (leaving m ser orig pid) (write_atomic (resolv_path m) orig 420) w ()
    ((w_fs w)(tmp_path (resolv_path m) := None, resolv_path m \<mapsto> File orig 420))"
proof (rule passes_write_own [OF lay q])
  let ?r = "resolv_path m" and ?s = "state_path m" and ?b = "backup_path m"
  fix t assume t: "sane m t" "\<And>p. p \<notin> {tmp_path ?r, ?r} \<Longrightarrow> t p = w_fs w p" "t ?r = w_fs w ?r \<or> t ?r = Some (File orig 420)"
  have "phase_of m ser orig (Active pid) t"
    using t(2) [of ?s] t(2) [of ?b] t(3) act
    by (intro phase_active_keep [OF act t(1)]) (auto simp: layout_neqs [OF lay] regular_def phase_of_def)
  then show "leaving m ser orig pid t" by (simp add: leaving_def)
qed (use sane act in \<open>auto simp: sane_def phase_of_def regular_def redirected_def\<close>)

lemma restore_passes:
  assumes lay: "layout m" and q: "quiet w" and codec: "shares_codec ser h"
    and act: "phase_of m ser orig (Active pid) (w_fs w)"
  obtains t where "passes (leaving m ser orig pid) (restore h m) w () t" "phase_of m ser orig Idle t"
    "t (resolv_path m) = Some (File orig 420)" "t (backup_path m) = None"
proof -
  let ?r = "resolv_path m" and ?s = "state_path m" and ?b = "backup_path m" and ?n = "nm_dropin m" and ?t = "w_fs w"
  let ?P = "leaving m ser orig pid"
  note neq = layout_neqs [OF lay]
  from act obtain st k kb where st: "?t ?s = Some (File (ser st) k)" "ts_original_symlink_target st = None"
    and b: "?t ?b = Some (File orig kb)" and sane: "sane m ?t"
    by (auto simp: phase_of_def records_def regular_def)
  have dir: "?t ?n \<noteq> Some Dir" using sane by (simp add: sane_def)
  have sb: "stat ?t ?b = Some (File orig kb)" using b by (subst stat_self) (simp_all add: is_link_def)
  define t1 where "t1 = ?t(tmp_path ?r := None, ?r \<mapsto> File orig 420)"
  define t2 where "t2 = (if ts_wrote_nm_dropin st then t1(?n := None) else t1)"
  have keep: "phase_of m ser orig (Active pid) t1" "phase_of m ser orig (Active pid) t2"
    using sane by (auto intro!: phase_active_keep [OF act] sane_upd [OF lay] own_simps
        simp: t1_def t2_def neq regular_def)
  then have P: "?P ?t" "?P t1" "?P t2" using act by (simp_all add: leaving_def)
  have 1: "passes ?P (write_atomic ?r orig 420) w1 () t1" if w1: "w_fs w1 = ?t" "quiet w1" for w1
    using rewrite_passes [OF lay w1(2), unfolded w1(1), OF sane act] by (simp add: t1_def)
  have 2: "passes ?P (if ts_wrote_nm_dropin st then ignore (remove_file ?n) else return_io ()) w1 () t2"
    if w1: "w_fs w1 = t1" "quiet w1" for w1
    using passes_remove [OF w1(2), of ?n ?P] passes_return [OF w1(2), of ?P "()"] P dir
    by (auto simp: t2_def w1(1)) (simp_all add: t1_def neq)
  have r2: "t2 ?r = Some (File orig 420)" by (simp add: t2_def t1_def neq)
  have res: "passes ?P (restore h m) w () (t2(?s := None, ?b := None))"
    unfolding restore_def Let_def
  proof (rule passes_bind [OF passes_reading [where P = ?P, OF reads_only_tests(1) yields_exists [OF q]]], rule P(1))
    fix w1 :: world assume w1: "w_fs w1 = ?t" "quiet w1"
    have de: "h_de h (ser st) = Some st" using codec by (simp add: shares_codec_def)
    have rs: "passes ?P (read_state h m) w1 (Some st) ?t"
      using passes_reading [where P = ?P, OF reads_only_read_state read_state_some [OF w1(2)], of m "ser st" k h st] st(1) de w1(1) P(1) by simp
    have rd: "passes ?P (read_to_string ?b) w2 orig ?t" if w2: "w_fs w2 = ?t" "quiet w2" for w2
      using passes_reading [where P = ?P, OF reads_only_tests(2) yields_read [OF w2(2)], of ?b orig kb] sb w2(1) P(1) by simp
    have 3: "passes ?P (bind_io (ignore (remove_file ?s)) (\<lambda>_. ignore (remove_file ?b))) w2 () (t2(?s := None, ?b := None))"
      if w2: "w_fs w2 = t2" "quiet w2" for w2
      using clear_passes [OF lay w2(2), of ser orig pid, unfolded w2(1), OF keep(2) r2] .
    show "passes ?P (if \<not> stat ?t ?b \<noteq> None then bind_io (ignore (remove_file ?s)) (\<lambda>_. fail_io NoBackup)
        else bind_io (ok (read_state h m)) (\<lambda>sto. bind_io (map_err (io_err ?b) (read_to_string ?b)) (\<lambda>contents.
          bind_io (case (case (case sto of Some s \<Rightarrow> s | None \<Rightarrow> None) of Some s \<Rightarrow> ts_original_symlink_target s | None \<Rightarrow> None) of
                 Some target \<Rightarrow> bind_io (ignore (remove_file ?r)) (\<lambda>_. map_err (io_err ?r) (make_symlink target ?r))
               | None \<Rightarrow> write_atomic ?r contents 420) (\<lambda>_.
          bind_io (if (case (case sto of Some s \<Rightarrow> s | None \<Rightarrow> None) of Some s \<Rightarrow> ts_wrote_nm_dropin s | None \<Rightarrow> True)
               then ignore (remove_file ?n) else return_io ()) (\<lambda>_.
          bind_io (ignore (remove_file ?s)) (\<lambda>_. ignore (remove_file ?b))))))) w1 () (t2(?s := None, ?b := None))"
      unfolding sb
      by (simp, rule passes_bind [OF passes_wrappers(2) [OF rs]], rule passes_bind [OF passes_wrappers(1) [OF rd]], assumption, assumption,
          simp only: option.case st(2), rule passes_bind [OF 1], assumption, assumption, rule passes_bind [OF 2], assumption, assumption,
          rule 3)
  qed
  moreover have "phase_of m ser orig Idle (t2(?s := None, ?b := None))"
    using sane by (auto simp: phase_of_def t2_def t1_def neq regular_def intro!: sane_upd [OF lay] own_simps)
  ultimately show thesis by (rule that) (simp_all add: t2_def t1_def neq)
qed

section \<open>Every step is a step of the abstract machine\<close>

lemma idle_stat:
  assumes "phase_of m ser orig Idle t"
  obtains k where "stat t (resolv_path m) = Some (File orig k)" "untouched m (t (resolv_path m)) t"
    "t (resolv_path m) = Some (File orig k)"
proof -
  obtain k where k: "t (resolv_path m) = Some (File orig k)" using assms by (auto simp: phase_of_def regular_def)
  then have "stat t (resolv_path m) = Some (File orig k)" by (subst stat_self) (simp_all add: is_link_def)
  moreover have "untouched m (t (resolv_path m)) t" using assms by (simp add: phase_of_def untouched_def)
  ultimately show thesis using k by (rule that)
qed

lemma recoverable_phase:
  assumes "recoverable h m (Some (File orig k)) orig (redirect_body m addr) t" "h_ser h = ser"
  shows "phase_of m ser orig Idle t \<or> phase_of m ser orig (Active (h_pid h)) t"
  using assms
  by (auto simp: recoverable_def phase_of_def records_def regular_def redirected_def good_state_def split: option.splits)

text \<open>Taking over from an idle disk, whatever fails.\<close>

lemma begin_idle_phase:
  assumes "layout m" "shares_codec ser h" "phase_of m ser orig Idle (w_fs w)"
  shows "always (\<lambda>t. phase_of m ser orig Idle t \<or> phase_of m ser orig (Active (h_pid h)) t) (take_over h m addr) w"
proof -
  obtain k where k: "stat (w_fs w) (resolv_path m) = Some (File orig k)" "untouched m (w_fs w (resolv_path m)) (w_fs w)"
    "w_fs w (resolv_path m) = Some (File orig k)" by (rule idle_stat [OF assms(3)])
  have "always (recoverable h m (Some (File orig k)) orig (redirect_body m addr)) (take_over h m addr) w"
    using take_over_outcome [OF assms(1) k(2,1), of h addr] unfolding k(3) outcome_def by blast
  then show ?thesis by (rule always_mono) (use recoverable_phase assms(2) in \<open>auto simp: shares_codec_def\<close>)
qed

text \<open>The two operations that look at the state first, on a disk with a recorded takeover.\<close>

lemma active_state:
  assumes "shares_codec ser h" "quiet w" "phase_of m ser orig (Active p) (w_fs w)"
  obtains st where "passes (leaving m ser orig p) (read_state h m) w (Some st) (w_fs w)" "ts_pid st = p"
proof -
  obtain st k where st: "w_fs w (state_path m) = Some (File (ser st) k)" "ts_pid st = p"
    using assms(3) by (auto simp: phase_of_def records_def)
  have "yields (read_state h m) w (Some st) (w_fs w)"
    using read_state_some [OF assms(2) st(1)] assms(1) by (simp add: shares_codec_def)
  then have "passes (leaving m ser orig p) (read_state h m) w (Some st) (w_fs w)"
    using assms(3) by (intro passes_reading reads_only_read_state) (simp_all add: leaving_def)
  then show thesis using st(2) by (rule that)
qed

lemma recover_active_phase:
  assumes "layout m" "shares_codec ser h" "quiet w" "phase_of m ser orig (Active p) (w_fs w)" "\<not> process_is_alive h p"
  obtains st t where "passes (leaving m ser orig p) (reconcile_after_crash h m) w (Some st) t"
    "phase_of m ser orig Idle t" "t (resolv_path m) = Some (File orig 420)"
proof -
  obtain st where st: "passes (leaving m ser orig p) (read_state h m) w (Some st) (w_fs w)" "ts_pid st = p"
    by (rule active_state [OF assms(2-4)])
  obtain w1 where w1: "read_state h m w = (Inr (Some st), w1)" "quiet w1" "w_fs w1 = w_fs w"
    using st(1) by (auto simp: passes_def elim: yieldsE)
  obtain t where t: "passes (leaving m ser orig p) (restore h m) w1 () t" "phase_of m ser orig Idle t"
    "t (resolv_path m) = Some (File orig 420)"
    using restore_passes [OF assms(1) w1(2) assms(2), of orig p] assms(4) unfolding w1(3) by metis
  have ret: "passes (leaving m ser orig p) (return_io (Some st)) w2 (Some st) t" if "w_fs w2 = t" "quiet w2" for w2
    using passes_return [where P = "leaving m ser orig p", OF that(2), of "Some st"] t(2) that(1) by (simp add: leaving_def)
  have "passes (leaving m ser orig p) (bind_io (restore h m) (\<lambda>_. return_io (Some st))) w1 (Some st) t"
    by (rule passes_bind [OF t(1) ret])
  then have "passes (leaving m ser orig p) (reconcile_after_crash h m) w (Some st) t"
    unfolding reconcile_after_crash_def
    by (intro passes_bind_run [OF st(1)]) (use st(2) assms(5) w1(1) in simp)
  then show thesis using t(2,3) by (rule that)
qed

lemma prepare_phase:
  assumes "layout m" "shares_codec ser h" "phase_of m ser orig Idle (w_fs w)"
  shows "always (\<lambda>t. phase_of m ser orig Idle t \<or> phase_of m ser orig (Active (h_pid h)) t)
    (bind_io (take_over_prepare h m) (take_over_redirect m addr)) w"
proof -
  obtain k where k: "stat (w_fs w) (resolv_path m) = Some (File orig k)" "untouched m (w_fs w (resolv_path m)) (w_fs w)"
    "w_fs w (resolv_path m) = Some (File orig k)" by (rule idle_stat [OF assms(3)])
  have "outcome (recoverable h m (Some (File orig k)) orig (redirect_body m addr))
      (\<lambda>_ t. t (resolv_path m) = Some (File (redirect_body m addr) 420))
      (bind_io (take_over_prepare h m) (take_over_redirect m addr)) w"
    by (rule outcome_bind [OF prepare_outcome [OF assms(1) k(2,1), unfolded k(3)]]) (rule redirect_outcome [OF assms(1)])
  then have "always (recoverable h m (Some (File orig k)) orig (redirect_body m addr))
      (bind_io (take_over_prepare h m) (take_over_redirect m addr)) w" by (simp add: outcome_def)
  then show ?thesis by (rule always_mono) (use recoverable_phase assms(2) in \<open>auto simp: shares_codec_def\<close>)
qed

lemma begin_active_phase:
  assumes "layout m" "shares_codec ser h" "quiet w" "phase_of m ser orig (Active p) (w_fs w)"
  shows "always (\<lambda>t. if process_is_alive h p then phase_of m ser orig (Active p) t
      else leaving m ser orig p t \<or> phase_of m ser orig (Active (h_pid h)) t) (take_over h m addr) w"
    (is "always ?P _ _")
  unfolding take_over_def
proof (rule always_bind)
  have P0: "?P (w_fs w)" using assms(4) by (simp add: leaving_def)
  show "always ?P (read_state h m) w" by (rule reads_only_always [where P = ?P, OF reads_only_read_state]) (rule P0)
  fix x w1 assume run: "read_state h m w = (Inr x, w1)"
  obtain st where "passes (leaving m ser orig p) (read_state h m) w (Some st) (w_fs w)" and pid: "ts_pid st = p"
    by (rule active_state [OF assms(2-4)])
  with run have x: "x = Some st" and w1: "w_fs w1 = w_fs w" "quiet w1" by (auto simp: passes_def yields_def)
  show "always ?P (bind_io (case x of Some existing \<Rightarrow>
        if process_is_alive h (ts_pid existing) then fail_io (AlreadyActive (ts_pid existing)) else restore h m
      | None \<Rightarrow> return_io ()) (\<lambda>_. bind_io (take_over_prepare h m) (take_over_redirect m addr))) w1"
  proof (cases "process_is_alive h p")
    case True
    then show ?thesis using P0 w1(1) unfolding x pid option.case if_P [OF True] by (intro always_bind always_fail) (auto simp: fail_io_def)
  next
    case False
    obtain t where t: "passes (leaving m ser orig p) (restore h m) w1 () t" "phase_of m ser orig Idle t"
      by (rule restore_passes [OF assms(1) w1(2) assms(2), of orig p]) (use assms(4) w1(1) in simp_all)
    have "always ?P (bind_io (restore h m) (\<lambda>_. bind_io (take_over_prepare h m) (take_over_redirect m addr))) w1"
    proof (rule always_bind)
      show "always ?P (restore h m) w1" using t(1) False by (auto simp: passes_def intro: always_mono)
      fix y w2 assume "restore h m w1 = (Inr y, w2)"
      then have "w_fs w2 = t" using t(1) by (simp add: passes_def yields_def)
      then have "always (\<lambda>t. phase_of m ser orig Idle t \<or> phase_of m ser orig (Active (h_pid h)) t)
          (bind_io (take_over_prepare h m) (take_over_redirect m addr)) w2"
        using prepare_phase [OF assms(1,2)] t(2) by simp
      then show "always ?P (bind_io (take_over_prepare h m) (take_over_redirect m addr)) w2"
        by (rule always_mono) (use False in \<open>auto simp: leaving_def\<close>)
    qed
    with False show ?thesis by (simp add: x pid)
  qed
qed

lemma finish_phase:
  assumes "layout m" "shares_codec ser h" "quiet w" "phase_of m ser orig (Active p) (w_fs w)"
  shows "always (leaving m ser orig p) (restore h m) w"
  using restore_passes [OF assms(1,3,2,4)] by (auto simp: passes_def)

lemma recover_phase:
  assumes "layout m" "shares_codec ser h" "quiet w" "phase_of m ser orig p (w_fs w)"
  shows "always (\<lambda>t. case p of Idle \<Rightarrow> phase_of m ser orig Idle t
      | Active pid \<Rightarrow> if process_is_alive h pid then phase_of m ser orig p t else leaving m ser orig pid t)
    (reconcile_after_crash h m) w"
proof (cases p)
  case Idle
  have stat: "w_fs w (state_path m) = None" using assms(4) by (simp add: Idle phase_of_def)
  have "always (phase_of m ser orig Idle) (reconcile_after_crash h m) w"
    unfolding reconcile_after_crash_def
  proof (rule always_bind)
    show "always (phase_of m ser orig Idle) (read_state h m) w"
      using assms(4) Idle by (intro reads_only_always reads_only_read_state) simp
    fix x w1 assume "read_state h m w = (Inr x, w1)" and w1: "phase_of m ser orig Idle (w_fs w1)"
    with read_state_none [OF assms(3) stat, of h] have "x = None" by (simp add: yields_def)
    with w1 show "always (phase_of m ser orig Idle) (case x of None \<Rightarrow> return_io None
        | Some state \<Rightarrow> if process_is_alive h (ts_pid state) then fail_io (AlreadyActive (ts_pid state))
           else bind_io (restore h m) (\<lambda>_. return_io (Some state))) w1" by (simp add: always_return)
  qed
  with Idle show ?thesis by simp
next
  case (Active pid)
  show ?thesis
  proof (cases "process_is_alive h pid")
    case True
    obtain st where st: "passes (leaving m ser orig pid) (read_state h m) w (Some st) (w_fs w)" "ts_pid st = pid"
      by (rule active_state [OF assms(2,3)]) (use assms(4) Active in simp)
    have "always (phase_of m ser orig p) (reconcile_after_crash h m) w"
      unfolding reconcile_after_crash_def
    proof (rule always_bind)
      show "always (phase_of m ser orig p) (read_state h m) w"
        using assms(4) by (rule reads_only_always [OF reads_only_read_state])
      fix x w1 assume "read_state h m w = (Inr x, w1)" and w1: "phase_of m ser orig p (w_fs w1)"
      with st have "x = Some st" by (simp add: passes_def yields_def)
      with w1 True st(2) show "always (phase_of m ser orig p) (case x of None \<Rightarrow> return_io None
          | Some state \<Rightarrow> if process_is_alive h (ts_pid state) then fail_io (AlreadyActive (ts_pid state))
             else bind_io (restore h m) (\<lambda>_. return_io (Some state))) w1" by (simp add: always_fail)
    qed
    with True Active show ?thesis by simp
  next
    case False
    obtain st t where "passes (leaving m ser orig pid) (reconcile_after_crash h m) w (Some st) t"
      by (rule recover_active_phase [OF assms(1-3) _ False, of orig]) (use assms(4) Active in simp_all)
    with False Active show ?thesis by (simp add: passes_def)
  qed
qed

lemma session_step_refines:
  assumes "layout m" "session_step m ser t e t'" "phase_of m ser orig p t"
  shows "\<exists>q. phase_step p e q \<and> phase_of m ser orig q t'"
  using assms(2)
proof cases
  case (begins h w addr)
  show ?thesis
  proof (cases p)
    case Idle
    with visited_always [OF begin_idle_phase [OF assms(1) begins(3)] begins(5)] assms(3) begins(1)
    show ?thesis unfolding begins(2) by (auto intro: phase_step.begin_idle)
  next
    case (Active pid)
    then have "quiet w" using begins(4) assms(3) begins(1) by (auto simp: phase_of_def records_def)
    moreover have "phase_of m ser orig (Active pid) (w_fs w)" using assms(3) Active begins(1) by simp
    ultimately have "if process_is_alive h pid then phase_of m ser orig (Active pid) t'
        else leaving m ser orig pid t' \<or> phase_of m ser orig (Active (h_pid h)) t'"
      using visited_always [OF begin_active_phase [OF assms(1) begins(3)] begins(5)] by blast
    then show ?thesis unfolding begins(2) Active
      by (cases "process_is_alive h pid") (auto simp: leaving_def intro: phase_step.begin_refused phase_step.begin_stale [of _ _ Idle]
          phase_step.begin_stale [of _ _ "Active pid"] phase_step.begin_stale [of _ _ "Active (h_pid h)"])
  qed
next
  case (finishes h w)
  then obtain pid where p: "p = Active pid" using assms(3) by (cases p) (auto simp: phase_of_def)
  then have "phase_of m ser orig (Active pid) (w_fs w)" using assms(3) finishes(1) by simp
  then have "leaving m ser orig pid t'"
    using visited_always [OF finish_phase [OF assms(1) finishes(3,4)] finishes(6)] by blast
  then show ?thesis unfolding finishes(2) p by (auto simp: leaving_def intro: phase_step.finish)
next
  case (recovers h w)
  have "phase_of m ser orig p (w_fs w)" using assms(3) recovers(1) by simp
  from visited_always [OF recover_phase [OF assms(1) recovers(3,4) this] recovers(5)] show ?thesis unfolding recovers(2)
    by (cases p) (auto simp: leaving_def intro: phase_step.recover_idle phase_step.recover_refused phase_step.recover_stale split: if_splits)
qed

lemma sessions_run:
  assumes "layout m" "sessions m ser t es t'" "phase_of m ser orig p t"
  obtains q where "phase_run p es q" "phase_of m ser orig q t'"
proof -
  from assms(2,3) have "\<exists>q. phase_run p es q \<and> phase_of m ser orig q t'"
  proof (induction arbitrary: p rule: sessions.induct)
    case (no_session t)
    then show ?case using phase_done by blast
  next
    case (more_sessions t e t' es t'')
    from session_step_refines [OF assms(1) more_sessions(1,4)] obtain q where "phase_step p e q" "phase_of m ser orig q t'" by blast
    moreover from more_sessions(3) [OF this(2)] obtain r where "phase_run q es r" "phase_of m ser orig r t''" by blast
    ultimately show ?case using phase_more by blast
  qed
  then show thesis using that by blast
qed

lemma recover_end:
  assumes "layout m" "shares_codec ser h" "quiet w" "phase_of m ser orig p (w_fs w)" "\<And>pid. p = Active pid \<Longrightarrow> \<not> process_is_alive h pid"
  obtains res t where "yields (reconcile_after_crash h m) w res t" "phase_of m ser orig Idle t"
proof (cases p)
  case Idle
  then have "w_fs w (state_path m) = None" using assms(4) by (simp add: phase_of_def)
  then show thesis using that reconcile_nothing [OF assms(3)] assms(4) Idle by blast
next
  case (Active pid)
  obtain st t where "passes (leaving m ser orig pid) (reconcile_after_crash h m) w (Some st) t" "phase_of m ser orig Idle t"
    by (rule recover_active_phase [OF assms(1-3) _ assms(5) [OF Active], of orig]) (use assms(4) Active in simp_all)
  then show thesis using that by (auto simp: passes_def)
qed

section \<open>Properties\<close>



text \<open>One takeover on the machine of \<open>demo_disk\<close>.\<close>

lemma visited_final: "always P act w \<Longrightarrow> w_fs (snd (act w)) \<in> visited act w"
  by (auto simp: always_def visited_def)

lemma demo_idle: "phase_of manager_default demo_ser ''nameserver 8.8.8.8'' Idle demo_disk"
  using demo_nodes by (auto simp: phase_of_def regular_def)

lemma demo_shares: "shares_codec demo_ser (demo_host demo_ser demo_de)"
  using demo_codec_law by (simp add: shares_codec_def) (simp add: demo_host_def)

lemma demo_session:
  obtains t where "sessions manager_default demo_ser demo_disk [Begin 77 (\<lambda>_. False)] t"
    "redirected manager_default (t RESOLV_CONF)" "t (state_path manager_default) \<noteq> None"
proof -
  let ?h = "demo_host demo_ser demo_de" and ?m = manager_default and ?o = "''nameserver 8.8.8.8''"
  let ?t = "disk_redirected ?h ?m (V4 127 0 0 53) ?o demo_disk"
  note neq = layout_neqs [OF layout_default]
  have rp: "RESOLV_CONF = resolv_path ?m" by (simp add: manager_default_def)
  have w: "w_fs (demo_world []) = demo_disk" by (simp add: demo_world_def)
  have end_: "w_fs (snd (take_over ?h ?m (V4 127 0 0 53) (demo_world []))) = ?t"
    using take_over_yields [OF layout_default _ demo_quiet, of ?o ?h "V4 127 0 0 53"] demo_fresh by (simp add: w yields_def)
  have "always (\<lambda>t. phase_of ?m demo_ser ?o Idle t \<or> phase_of ?m demo_ser ?o (Active (h_pid ?h)) t)
      (take_over ?h ?m (V4 127 0 0 53)) (demo_world [])"
    by (rule begin_idle_phase [OF layout_default demo_shares]) (simp add: w demo_idle)
  from visited_final [OF this] have v: "?t \<in> visited (take_over ?h ?m (V4 127 0 0 53)) (demo_world [])" by (simp add: end_)
  have alive: "process_is_alive ?h = (\<lambda>_. False)" and pid: "h_pid ?h = 77"
    by (simp_all add: fun_eq_iff process_is_alive_def demo_host_def)
  have "session_step ?m demo_ser (w_fs (demo_world [])) (Begin (h_pid ?h) (process_is_alive ?h)) ?t"
    using begins [OF demo_shares disjI1 [OF demo_quiet] v] .
  then have "sessions ?m demo_ser demo_disk [Begin 77 (\<lambda>_. False)] ?t"
    unfolding w alive pid by (rule more_sessions [OF _ no_session])
  moreover have "redirected ?m (?t RESOLV_CONF)" "?t (state_path ?m) \<noteq> None"
    unfolding rp by (auto simp: redirected_def disk_redirected_def disk_state_def neq)
  ultimately show thesis by (rule that)
qed



section \<open>A link as the original\<close>

text \<open>C19: Giving back a link is not atomic: between the removal of the redirected file and the new link
  there is no \<open>resolv.conf\<close> at all, and a helper that dies there leaves the machine without name
  resolution; backup and state are still there, so that a later restore puts the link back.\<close>

theorem restore_link_gap:
  assumes "layout m" "quiet w" "sane m (w_fs w)" "w_fs w (state_path m) = Some (File c k)" "h_de h c = Some st"
    "ts_original_symlink_target st = Some l" "w_fs w (backup_path m) = Some (File orig k')" "w_fs w (resolv_path m) \<noteq> Some Dir"
  shows "\<exists>crashed \<in> set (w_trace (snd (restore h m w))). crashed (resolv_path m) = None \<and>
    (\<forall>w1. quiet w1 \<and> w_fs w1 = crashed \<longrightarrow> (\<exists>t. yields (restore h m) w1 () t \<and> t (resolv_path m) = Some (Link l)))"
proof (intro bexI [of _ "(w_fs w)(resolv_path m := None)"] conjI allI impI)
  let ?r = "resolv_path m" and ?b = "backup_path m" and ?c = "(w_fs w)(resolv_path m := None)"
  note neq = layout_neqs [OF assms(1)]
  show "?c ?r = None" by simp
  have sb: "stat (w_fs w) ?b = Some (File orig k')" using assms(7) by (subst stat_self) (simp_all add: is_link_def)
  have "visits ?c (restore h m) w"
    unfolding restore_def Let_def
  proof (rule visits_later [OF yields_exists [OF assms(2)]])
    fix w1 :: world assume w1: "w_fs w1 = w_fs w" "quiet w1"
    have rs: "yields (read_state h m) w1 (Some st) (w_fs w)" using read_state_some [OF w1(2), of m c k h st] assms(4,5) w1(1) by simp
    have rd: "yields (read_to_string ?b) w2 orig (w_fs w)" if "w_fs w2 = w_fs w" "quiet w2" for w2
      using yields_read [OF that(2)] sb that(1) by simp
    have link: "visits ?c (bind_io (ignore (remove_file ?r)) (\<lambda>_. map_err (io_err ?r) (make_symlink l ?r))) w2"
      if "w_fs w2 = w_fs w" "quiet w2" for w2
      by (rule visits_now [OF visits_yields])
        (use yields_ignore_remove [OF that(2), of ?r] assms(8) that(1) in \<open>auto intro!: grow_intros\<close>)
    show "visits ?c (if \<not> stat (w_fs w) ?b \<noteq> None then bind_io (ignore (remove_file (state_path m))) (\<lambda>_. fail_io NoBackup)
        else bind_io (ok (read_state h m)) (\<lambda>sto. bind_io (map_err (io_err ?b) (read_to_string ?b)) (\<lambda>contents.
          bind_io (case (case (case sto of Some s \<Rightarrow> s | None \<Rightarrow> None) of Some s \<Rightarrow> ts_original_symlink_target s | None \<Rightarrow> None) of
                 Some target \<Rightarrow> bind_io (ignore (remove_file ?r)) (\<lambda>_. map_err (io_err ?r) (make_symlink target ?r))
               | None \<Rightarrow> write_atomic ?r contents 420) (\<lambda>_.
          bind_io (if (case (case sto of Some s \<Rightarrow> s | None \<Rightarrow> None) of Some s \<Rightarrow> ts_wrote_nm_dropin s | None \<Rightarrow> True)
               then ignore (remove_file (nm_dropin m)) else return_io ()) (\<lambda>_.
          bind_io (ignore (remove_file (state_path m))) (\<lambda>_. ignore (remove_file ?b))))))) w1"
      unfolding sb
      by (simp, rule visits_later [OF yields_ok [OF rs]], rule visits_later [OF yields_map_err [OF rd]], assumption, assumption,
          simp only: option.case assms(6), rule visits_now [OF link], assumption, assumption)
        (auto intro!: grow_intros)
  qed
  then show "?c \<in> set (w_trace (snd (restore h m w)))" by (simp add: visits_def)
  fix w1 assume w1: "quiet w1 \<and> w_fs w1 = ?c"
  have "sane m ?c" using assms(3) by (intro sane_upd [OF assms(1)] own_simps) simp_all
  then have "yields (restore h m) w1 () (restored m st orig ?c)"
    using restore_yields [OF assms(1), of w1 c k h st orig k'] w1 assms(4,5,7) by (simp add: neq)
  moreover have "restored m st orig ?c ?r = Some (Link l)" by (simp add: restored_def assms(6) neq)
  ultimately show "\<exists>t. yields (restore h m) w1 () t \<and> t ?r = Some (Link l)" by blast
qed

theorem restore_link_gap_witness:
  "\<exists>w crashed. crashed \<in> set (w_trace (snd (restore (demo_host demo_ser demo_de) manager_default w))) \<and>
     redirected manager_default (w_fs w RESOLV_CONF) \<and> crashed RESOLV_CONF = None"
proof -
  let ?h = "demo_host demo_ser demo_de" and ?m = manager_default and ?l = "Absolute [''run'', ''stub'']"
  let ?st = "\<lparr>ts_pid = 42, ts_taken_over_at = 0, ts_original_nameservers = [],
      ts_original_symlink_target = Some ?l, ts_wrote_nm_dropin = False\<rparr>"
  let ?t = "demo_disk(state_path ?m \<mapsto> File (demo_ser ?st) 384, backup_path ?m \<mapsto> File ''o'' 384,
      resolv_path ?m \<mapsto> File (redirect_body ?m (V4 127 0 0 53)) 420)"
  let ?w = "\<lparr>w_fs = ?t, w_faults = [], w_trace = [?t]\<rparr>"
  note neq = layout_neqs [OF layout_default]
  have "quiet ?w" by (simp add: quiet_def)
  moreover have "sane ?m (w_fs ?w)" by (simp, intro sane_upd [OF layout_default] demo_nodes own_simps) simp_all
  moreover have "w_fs ?w (state_path ?m) = Some (File (demo_ser ?st) 384)" by (simp add: neq)
  moreover have "h_de ?h (demo_ser ?st) = Some ?st" using demo_codec_law [of ?st] by (simp add: demo_host_def)
  moreover have "ts_original_symlink_target ?st = Some ?l" by simp
  moreover have "w_fs ?w (backup_path ?m) = Some (File ''o'' 384)" by (simp add: neq)
  moreover have "w_fs ?w (resolv_path ?m) \<noteq> Some Dir" by simp
  ultimately have "\<exists>crashed \<in> set (w_trace (snd (restore ?h ?m ?w))). crashed (resolv_path ?m) = None \<and>
      (\<forall>w1. quiet w1 \<and> w_fs w1 = crashed \<longrightarrow> (\<exists>t. yields (restore ?h ?m) w1 () t \<and> t (resolv_path ?m) = Some (Link ?l)))"
    by (rule restore_link_gap [OF layout_default])
  moreover have "redirected ?m (?t RESOLV_CONF)" by (auto simp: redirected_def manager_default_def)
  ultimately show ?thesis by (intro exI [of _ ?w]) (auto simp: manager_default_def)
qed

end
