(* ===== verification/Ranges.thy ===== *)
theory Ranges
  imports Apps Filter_Route
begin

text \<open>
  Networks in CIDR notation, as \<open>nftables\<close> reads them, and what the address lists of the tunnel
  and of the filter route exempt, compared with the test by which \<open>apps.rs\<close> decides which
  connections of an attached application need not be reset.
\<close>

section \<open>CIDR networks\<close>

fun ip_num :: "ip_addr \<Rightarrow> nat" where
  "ip_num (V4 a b c d) = horner 256 (map unat [a, b, c, d])"
| "ip_num (V6 a b c d e f g h) = horner 65536 (map unat [a, b, c, d, e, f, g, h])"

definition ip_width :: "ip_addr \<Rightarrow> nat" where
  "ip_width ip = (if is_ipv4 ip then 32 else 128)"

definition cidr_of :: "string \<Rightarrow> (ip_addr \<times> nat) option" where
  "cidr_of s = do {
     (a, n) \<leftarrow> split_once (CHR ''/'') s;
     net \<leftarrow> parse_ip a;
     len \<leftarrow> parse_uint 256 n;
     Some (net, len)
   }"

definition in_cidr :: "ip_addr \<Rightarrow> string \<Rightarrow> bool" where
  "in_cidr ip s =
     (case cidr_of s of
        Some (net, len) \<Rightarrow> is_ipv4 net = is_ipv4 ip \<and> len \<le> ip_width ip \<and>
          ip_num ip div 2 ^ (ip_width ip - len) = ip_num net div 2 ^ (ip_width ip - len)
      | None \<Rightarrow> False)"

lemma cidrs_v4:
  "cidr_of ''127.0.0.0/8'' = Some (V4 127 0 0 0, 8)" "cidr_of ''10.0.0.0/8'' = Some (V4 10 0 0 0, 8)"
  "cidr_of ''172.16.0.0/12'' = Some (V4 172 16 0 0, 12)" "cidr_of ''192.168.0.0/16'' = Some (V4 192 168 0 0, 16)"
  "cidr_of ''169.254.0.0/16'' = Some (V4 169 254 0 0, 16)" "cidr_of ''100.64.0.0/10'' = Some (V4 100 64 0 0, 10)"
  by (simp_all add: cidr_of_def ip_eval parse_uint_def digit_val_def horner_def)

lemma cidrs_v6:
  "cidr_of ''::1/128'' = Some (V6 0 0 0 0 0 0 0 1, 128)" "cidr_of ''fc00::/7'' = Some (V6 0xfc00 0 0 0 0 0 0 0, 7)"
  "cidr_of ''fe80::/10'' = Some (V6 0xfe80 0 0 0 0 0 0 0, 10)"
  by (simp_all add: cidr_of_def ip_eval parse_uint_def digit_val_def horner_def)

section \<open>Address ranges as numbers\<close>

lemma octet [simp]: "unat (x :: u8) < 256" and segment [simp]: "unat (y :: u16) < 65536"
  using unsigned_less [of x] unsigned_less [of y] by simp_all

lemma octet_eq: "(x :: u8) = numeral n \<longleftrightarrow> unat x = unat (numeral n :: u8)"
  by (simp add: word_unat_eq_iff)

text \<open>The first octet, the first two, and parts of them.\<close>

lemma v4_div:
  "ip_num (V4 a b c d) div 16777216 = unat a"
  "ip_num (V4 a b c d) div 65536 = unat a * 256 + unat b"
  "ip_num (V4 a b c d) div 1048576 = unat a * 16 + unat b div 16"
  "ip_num (V4 a b c d) div 4194304 = unat a * 4 + unat b div 64"
proof -
  have o: "unat a < 256" "unat b < 256" "unat c < 256" "unat d < 256" by simp_all
  have n: "ip_num (V4 a b c d) = (unat a * 256 + unat b) * 65536 + (unat c * 256 + unat d)" by (simp add: horner_def)
  have q: "(x * 65536 + y) div 65536 = x" if "y < 65536" for x y :: nat using that by simp
  have low: "unat c * 256 + unat d < 65536" using o by linarith
  then show 1: "ip_num (V4 a b c d) div 65536 = unat a * 256 + unat b" unfolding n by (rule q)
  have split: "ip_num (V4 a b c d) div (65536 * k) = (unat a * 256 + unat b) div k" for k
    by (simp only: div_mult2_eq 1)
  show "ip_num (V4 a b c d) div 16777216 = unat a" using split [of 256] o by simp
  show "ip_num (V4 a b c d) div 1048576 = unat a * 16 + unat b div 16" using split [of 16] by simp
  show "ip_num (V4 a b c d) div 4194304 = unat a * 4 + unat b div 64" using split [of 64] by simp
qed

lemma two_digits:
  assumes "y < n" "y' < (n :: nat)"
  shows "x * n + y = x' * n + y' \<longleftrightarrow> x = x' \<and> y = y'"
proof
  assume eq: "x * n + y = x' * n + y'"
  have "x = (x * n + y) div n" "x' = (x' * n + y') div n" using assms by simp_all
  with eq show "x = x' \<and> y = y'" by simp
qed simp

lemma div_range: "0 < k \<Longrightarrow> n div k = (q :: nat) \<longleftrightarrow> q * k \<le> n \<and> n < Suc q * k"
  by (simp only: div_less_iff_less_mult [symmetric] less_eq_div_iff_mult_less_eq [symmetric]) linarith

lemma in_v4:
  "in_cidr (V4 a b c d) ''127.0.0.0/8'' \<longleftrightarrow> a = 127"
  "in_cidr (V4 a b c d) ''10.0.0.0/8'' \<longleftrightarrow> a = 10"
  "in_cidr (V4 a b c d) ''172.16.0.0/12'' \<longleftrightarrow> a = 172 \<and> 16 \<le> unat b \<and> unat b \<le> 31"
  "in_cidr (V4 a b c d) ''192.168.0.0/16'' \<longleftrightarrow> a = 192 \<and> b = 168"
  "in_cidr (V4 a b c d) ''169.254.0.0/16'' \<longleftrightarrow> a = 169 \<and> b = 254"
  "in_cidr (V4 a b c d) ''100.64.0.0/10'' \<longleftrightarrow> a = 100 \<and> 64 \<le> unat b \<and> unat b < 128"
proof -
  have b: "unat b div 16 < 16" "unat b div 64 < 4" "unat b < 256" using octet [of b] by (simp_all add: less_mult_imp_div_less del: octet)
  note eqs = in_cidr_def cidrs_v4 ip_width_def v4_div
  show "in_cidr (V4 a b c d) ''127.0.0.0/8'' \<longleftrightarrow> a = 127" "in_cidr (V4 a b c d) ''10.0.0.0/8'' \<longleftrightarrow> a = 10"
    by (simp_all add: eqs octet_eq del: ip_num.simps)
  have "in_cidr (V4 a b c d) ''172.16.0.0/12'' \<longleftrightarrow> unat a * 16 + unat b div 16 = 172 * 16 + 1"
    by (simp add: eqs del: ip_num.simps)
  also have "\<dots> \<longleftrightarrow> unat a = 172 \<and> unat b div 16 = 1" using b by (intro two_digits) simp_all
  finally show "in_cidr (V4 a b c d) ''172.16.0.0/12'' \<longleftrightarrow> a = 172 \<and> 16 \<le> unat b \<and> unat b \<le> 31"
    by (auto simp: octet_eq div_range)
  have "in_cidr (V4 a b c d) ''100.64.0.0/10'' \<longleftrightarrow> unat a * 4 + unat b div 64 = 100 * 4 + 1"
    by (simp add: eqs del: ip_num.simps)
  also have "\<dots> \<longleftrightarrow> unat a = 100 \<and> unat b div 64 = 1" using b by (intro two_digits) simp_all
  finally show "in_cidr (V4 a b c d) ''100.64.0.0/10'' \<longleftrightarrow> a = 100 \<and> 64 \<le> unat b \<and> unat b < 128"
    by (auto simp: octet_eq div_range)
  have "in_cidr (V4 a b c d) ''192.168.0.0/16'' \<longleftrightarrow> unat a * 256 + unat b = 192 * 256 + 168"
    "in_cidr (V4 a b c d) ''169.254.0.0/16'' \<longleftrightarrow> unat a * 256 + unat b = 169 * 256 + 254"
    by (simp_all add: eqs del: ip_num.simps)
  then show "in_cidr (V4 a b c d) ''192.168.0.0/16'' \<longleftrightarrow> a = 192 \<and> b = 168"
    "in_cidr (V4 a b c d) ''169.254.0.0/16'' \<longleftrightarrow> a = 169 \<and> b = 254"
    using b by (simp_all only: two_digits octet_eq) (simp_all add: octet_eq)
qed

text \<open>The first segment of an IPv6 address, and its leading bits.\<close>

lemma v6_div:
  "ip_num (V6 a b c d e f g h) div 2658455991569831745807614120560689152 = unat a div 512"
  "ip_num (V6 a b c d e f g h) div 332306998946228968225951765070086144 = unat a div 64"
proof -
  let ?low = "horner 65536 (map unat [b, c, d, e, f, g, h])"
  have "?low < 65536 ^ length (map unat [b, c, d, e, f, g, h])" by (rule horner_less) simp
  then have low: "?low < 2 ^ 112" by simp
  have n: "ip_num (V6 a b c d e f g h) = unat a * 2 ^ 112 + ?low" by (simp add: horner_def)
  have 1: "ip_num (V6 a b c d e f g h) div 2 ^ 112 = unat a" unfolding n using low by simp
  have split: "ip_num (V6 a b c d e f g h) div (2 ^ 112 * k) = unat a div k" for k
    by (simp only: div_mult2_eq 1)
  show "ip_num (V6 a b c d e f g h) div 2658455991569831745807614120560689152 = unat a div 512"
    "ip_num (V6 a b c d e f g h) div 332306998946228968225951765070086144 = unat a div 64"
    using split [of 512] split [of 64] by simp_all
qed

lemma leading_bits:
  fixes a :: u16
  assumes "m = NOT (mask n)" "v = push_bit n w" "drop_bit n v = w"
  shows "a AND m = v \<longleftrightarrow> drop_bit n a = w"
proof -
  have m: "a AND m = push_bit n (drop_bit n a)"
    unfolding assms(1) by (rule bit_eqI) (auto simp: bit_simps)
  have "drop_bit n (push_bit n (drop_bit n a)) = drop_bit n a"
    by (rule bit_eqI) (auto simp: bit_simps dest: bit_imp_le_length)
  then show ?thesis unfolding m using assms(2,3) by metis
qed

lemma v6_masks:
  fixes a :: u16
  shows "a AND 0xfe00 = 0xfc00 \<longleftrightarrow> unat a div 512 = 126" "a AND 0xffc0 = 0xfe80 \<longleftrightarrow> unat a div 64 = 1018"
proof -
  have "a AND 0xfe00 = 0xfc00 \<longleftrightarrow> drop_bit 9 a = 126"
    by (rule leading_bits) (simp_all add: mask_eq_exp_minus_1 push_bit_eq_mult drop_bit_eq_div not_eq_complement)
  then show "a AND 0xfe00 = 0xfc00 \<longleftrightarrow> unat a div 512 = 126"
    by (simp add: word_unat_eq_iff unat_div_distrib drop_bit_eq_div)
  have "a AND 0xffc0 = 0xfe80 \<longleftrightarrow> drop_bit 6 a = 1018"
    by (rule leading_bits) (simp_all add: mask_eq_exp_minus_1 push_bit_eq_mult drop_bit_eq_div not_eq_complement)
  then show "a AND 0xffc0 = 0xfe80 \<longleftrightarrow> unat a div 64 = 1018"
    by (simp add: word_unat_eq_iff unat_div_distrib drop_bit_eq_div)
qed

lemma in_v6:
  "in_cidr (V6 a b c d e f g h) ''fc00::/7'' \<longleftrightarrow> a AND 0xfe00 = 0xfc00"
  "in_cidr (V6 a b c d e f g h) ''fe80::/10'' \<longleftrightarrow> a AND 0xffc0 = 0xfe80"
  by (simp_all add: in_cidr_def cidrs_v6 ip_width_def v6_masks v6_div del: ip_num.simps)

lemma in_v6_loopback: "in_cidr ip ''::1/128'' \<longleftrightarrow> \<not> is_ipv4 ip \<and> ip_is_loopback ip"
proof (cases ip)
  case (V6 a b c d e f g h)
  have "ip_num ip = ip_num (V6 0 0 0 0 0 0 0 1) \<longleftrightarrow> map unat [a, b, c, d, e, f, g, h] = map unat [0, 0, 0, 0, 0, 0, 0, 1 :: u16]"
    unfolding V6 ip_num.simps by (auto dest!: horner_inj [where b = 65536, rotated 3])
  then show ?thesis by (simp add: V6 in_cidr_def cidrs_v6 ip_width_def word_unat_eq_iff del: ip_num.simps)
qed (simp add: in_cidr_def cidrs_v6)

section \<open>The lists\<close>


end
