(* ===== verification/Servers.thy ===== *)
theory Servers
  imports Proxy "HOL-Library.Multiset"
begin

text \<open>
  The accept loops of \<open>proxy.rs\<close> and \<open>dpi_proxy.rs\<close>, whose tasks interleave. A DNS query is a task
  that runs without interruption up to its first network request and again after the last one;
  between the two any other task and the purge loop may run (nothing in the program changes the policy). Each half
  is a function of the shared state, \<open>server_run\<close> runs them in any order, and the result is
  that every reply is one the sequential \<open>proxy_handle\<close> gives. The transparent proxy recovers
  the address of a redirected connection from the socket option that \<open>original_destination\<close> reads.
\<close>

section \<open>The two halves of a query\<close>

text \<open>Where a task waits: for the providers, or for the system resolvers.\<close>

datatype 'n awaiting =
    Ask_Doh u16 'n record_type
  | Ask_System u16 'n record_type

definition log_query ::
    "('n, 'd, 'c) env \<Rightarrow> 'n \<Rightarrow> record_type \<Rightarrow> route \<Rightarrow> string \<Rightarrow> string list \<Rightarrow> ('n, 'd) proxy_state \<Rightarrow> ('n, 'd) proxy_state" where
  "log_query ev name rt route outcome answers s = s\<lparr>s_log := log_push
     \<lparr>ql_name = ev_show_name ev name, ql_record_type = ev_show_type ev rt,
      ql_route = (case route of Doh \<Rightarrow> ''doh'' | SystemUpstream \<Rightarrow> ''system''),
      ql_outcome = outcome, ql_elapsed_ms = of_nat (as_millis (ev_elapsed ev)),
      ql_answers = answers\<rparr> (s_log s)\<rparr>"

definition doh_reply ::
    "('n, 'd, 'c) env \<Rightarrow> u16 \<Rightarrow> resolve_error + ('n, 'd) message \<Rightarrow> bytes \<times> string \<times> string list" where
  "doh_reply ev qid result =
     (case result of
        Inr response \<Rightarrow>
          (let response = response\<lparr>m_id := qid\<rparr> in
           case enc (ev_codec ev) response of
             Inr bytes \<Rightarrow> (bytes, ev_debug_rcode ev (m_rcode response), describe_answers (ev_show_rdata ev) response)
           | Inl e \<Rightarrow> (servfail (ev_codec ev) qid ServFail, ''EncodeError'', []))
      | Inl e \<Rightarrow> (servfail (ev_codec ev) qid ServFail, show_resolve_error e, []))"

definition system_reply ::
    "('n, 'd, 'c) env \<Rightarrow> u16 \<Rightarrow> upstream_error + bytes \<Rightarrow> bytes \<times> string \<times> string list" where
  "system_reply ev qid result =
     (case result of
        Inr bytes \<Rightarrow>
          (bytes, ''Forwarded'',
           case dec (ev_codec ev) bytes of Inr m \<Rightarrow> describe_answers (ev_show_rdata ev) m | Inl _ \<Rightarrow> [])
      | Inl e \<Rightarrow> (servfail (ev_codec ev) qid ServFail, show_upstream_error e, []))"

text \<open>Up to the first request; \<open>Inl\<close>: the task is done, with its reply.\<close>

definition handle_begin ::
    "('n, 'd, 'c) env \<Rightarrow> 'c proxy \<Rightarrow> bytes \<Rightarrow> ('n, 'd) proxy_state \<Rightarrow> (bytes \<times> ('n, 'd) proxy_state) + 'n awaiting" where
  "handle_begin ev x query_bytes s =
     (case dec (ev_codec ev) query_bytes of
        Inl e \<Rightarrow> Inl (servfail_from_raw (ev_codec ev) query_bytes, s)
      | Inr query \<Rightarrow>
          (let qid = m_id query in
           case m_queries query of
             [] \<Rightarrow> Inl (servfail (ev_codec ev) qid FormErr, s)
           | question # _ \<Rightarrow>
               (let name = q_name question; rt = q_type question in
                case policy_route (ev_to_ascii ev) (x_policy x) name of
                  Doh \<Rightarrow>
                    (case cache_get_at (s_cache s) (key_new (ev_to_lowercase ev) name rt) (ev_now1 ev) of
                       Some hit \<Rightarrow>
                         (let (reply, outcome, answers) = doh_reply ev qid (Inr hit) in
                          Inl (reply, log_query ev name rt Doh outcome answers s))
                     | None \<Rightarrow> Inr (Ask_Doh qid name rt))
                | SystemUpstream \<Rightarrow> Inr (Ask_System qid name rt))))"

text \<open>After the last request.\<close>

fun handle_end ::
    "('n, 'd, 'c) env \<Rightarrow> 'c proxy \<Rightarrow> bytes \<Rightarrow> 'n awaiting \<Rightarrow> ('n, 'd) proxy_state \<Rightarrow> bytes \<times> ('n, 'd) proxy_state" where
  "handle_end ev x query_bytes (Ask_Doh qid name rt) s =
     (let result = resolve_uncached (ev_codec ev) (ev_post ev) (x_resolver x) (build_query name rt);
          s = (case result of
                 Inr response \<Rightarrow> s\<lparr>s_cache := fst (cache_insert_at (s_cache s) (key_new (ev_to_lowercase ev) name rt) response (ev_now2 ev))\<rparr>
               | Inl _ \<Rightarrow> s);
          (reply, outcome, answers) = doh_reply ev qid result in
      (reply, log_query ev name rt Doh outcome answers s))"
| "handle_end ev x query_bytes (Ask_System qid name rt) s =
     (let (reply, outcome, answers) = system_reply ev qid (forward (ev_udp ev) (x_forwarder x) query_bytes) in
      (reply, log_query ev name rt SystemUpstream outcome answers s))"

section \<open>The loops of the DNS server\<close>

text \<open>A query in progress: who asked, over UDP or TCP, the bytes, and where it waits once started.\<close>

record ('p, 'n) task =
  tk_peer :: 'p
  tk_udp :: bool
  tk_query :: bytes
  tk_awaiting :: "'n awaiting option"

record ('p, 'n, 'd) server =
  sv_shared :: "('n, 'd) proxy_state"
  sv_tasks :: "('p, 'n) task list"
  sv_received :: "('p \<times> bool \<times> bytes) list"
  sv_sent :: "('p \<times> bytes) list"

definition server_start :: "nat \<Rightarrow> ('p, 'n, 'd) server" where
  "server_start cap = \<lparr>sv_shared = \<lparr>s_cache = cache_new cap, s_log = log_default\<rparr>,
     sv_tasks = [], sv_received = [], sv_sent = []\<rparr>"

definition frame_reply :: "('n, 'd) codec \<Rightarrow> bool \<Rightarrow> bytes \<Rightarrow> bytes \<Rightarrow> bytes" where
  "frame_reply codec udp query response =
     (if udp then truncate_if_needed codec response query
      else to_be_bytes (of_nat (length response)) @ response)"

definition spawn_query :: "'p \<Rightarrow> bool \<Rightarrow> bytes \<Rightarrow> ('p, 'n, 'd) server \<Rightarrow> ('p, 'n, 'd) server" where
  "spawn_query peer udp query sv = sv\<lparr>sv_tasks := sv_tasks sv @ [\<lparr>tk_peer = peer, tk_udp = udp, tk_query = query, tk_awaiting = None\<rparr>],
     sv_received := (peer, udp, query) # sv_received sv\<rparr>"

text \<open>\<open>serve_udp\<close> takes a datagram; \<open>serve_tcp\<close> a connection, whose task ends without a trace when
  the frame is short.\<close>

definition accept_datagram :: "'p \<Rightarrow> bytes \<Rightarrow> ('p, 'n, 'd) server \<Rightarrow> ('p, 'n, 'd) server" where
  "accept_datagram peer datagram = spawn_query peer True (take MAX_UDP datagram)"

definition read_frame :: "stream \<Rightarrow> bytes option" where
  "read_frame stream =
     (case read_exact 2 stream of
        Inl _ \<Rightarrow> None
      | Inr (len_buf, stream) \<Rightarrow>
          (case read_exact (unat (from_be_bytes (len_buf ! 0) (len_buf ! 1))) stream of
             Inl _ \<Rightarrow> None
           | Inr (query, _) \<Rightarrow> Some query))"

definition accept_connection :: "'p \<Rightarrow> stream \<Rightarrow> ('p, 'n, 'd) server \<Rightarrow> ('p, 'n, 'd) server" where
  "accept_connection peer stream sv =
     (case read_frame stream of Some query \<Rightarrow> spawn_query peer False query sv | None \<Rightarrow> sv)"

text \<open>One run of task number \<open>i\<close> up to its next wait or its end.\<close>

definition run_task ::
    "('n, 'd, 'c) env \<Rightarrow> 'c proxy \<Rightarrow> nat \<Rightarrow> ('p, 'n, 'd) server \<Rightarrow> ('p, 'n, 'd) server" where
  "run_task ev x i sv =
     (let t = sv_tasks sv ! i;
          done = (\<lambda>(reply, s). sv\<lparr>sv_shared := s, sv_tasks := take i (sv_tasks sv) @ drop (Suc i) (sv_tasks sv),
            sv_sent := (tk_peer t, frame_reply (ev_codec ev) (tk_udp t) (tk_query t) reply) # sv_sent sv\<rparr>) in
      case tk_awaiting t of
        None \<Rightarrow>
          (case handle_begin ev x (tk_query t) (sv_shared sv) of
             Inl result \<Rightarrow> done result
           | Inr a \<Rightarrow> sv\<lparr>sv_tasks := (sv_tasks sv)[i := t\<lparr>tk_awaiting := Some a\<rparr>]\<rparr>)
      | Some a \<Rightarrow> done (handle_end ev x (tk_query t) a (sv_shared sv)))"

text \<open>Two environments of one program: they may differ in what the network answers and in the time.\<close>

definition same_code :: "('n, 'd, 'c) env \<Rightarrow> ('n, 'd, 'c) env \<Rightarrow> bool" where
  "same_code ev ev' \<longleftrightarrow> ev' = ev\<lparr>ev_post := ev_post ev', ev_udp := ev_udp ev', ev_interfere := ev_interfere ev',
     ev_now1 := ev_now1 ev', ev_now2 := ev_now2 ev', ev_elapsed := ev_elapsed ev'\<rparr>"

inductive server_run ::
    "('n, 'd, 'c) env \<Rightarrow> 'c proxy \<Rightarrow> nat \<Rightarrow> ('p, 'n, 'd) server \<Rightarrow> bool" for ev x cap where
  run_serving: "server_run ev x cap (server_start cap)"
| run_datagram: "server_run ev x cap sv \<Longrightarrow> server_run ev x cap (accept_datagram peer datagram sv)"
| run_connection: "server_run ev x cap sv \<Longrightarrow> server_run ev x cap (accept_connection peer stream sv)"
| run_query: "server_run ev x cap sv \<Longrightarrow> same_code ev ev' \<Longrightarrow> i < length (sv_tasks sv) \<Longrightarrow>
    server_run ev x cap (run_task ev' x i sv)"
| run_purging: "server_run ev x cap sv \<Longrightarrow> server_run ev x cap (sv\<lparr>sv_shared := purge_tick now (sv_shared sv)\<rparr>)"

section \<open>Halves and whole\<close>

text \<open>\<open>proxy_handle\<close> on each kind of query, in terms of the replies of the two halves.\<close>

lemma proxy_handle_doh:
  assumes "dec (ev_codec ev) b = Inr query" "m_queries query = qu # qs"
    "policy_route (ev_to_ascii ev) (x_policy x) (q_name qu) = Doh"
    "resolve (ev_codec ev) (ev_post ev) (ev_to_lowercase ev) (ev_interfere ev) (x_resolver x)
      (q_name qu) (q_type qu) (ev_now1 ev) (ev_now2 ev) (s_cache s) = (result, c)"
    "doh_reply ev (m_id query) result = (reply, outcome, answers)"
  shows "proxy_handle ev x b s = (reply, log_query ev (q_name qu) (q_type qu) Doh outcome answers (s\<lparr>s_cache := c\<rparr>))"
  using assms(5)
  by (simp add: proxy_handle_def assms(1-4) Let_def log_query_def doh_reply_def split: sum.splits) auto

lemma proxy_handle_system:
  assumes "dec (ev_codec ev) b = Inr query" "m_queries query = qu # qs"
    "policy_route (ev_to_ascii ev) (x_policy x) (q_name qu) = SystemUpstream"
    "system_reply ev (m_id query) (forward (ev_udp ev) (x_forwarder x) b) = (reply, outcome, answers)"
  shows "proxy_handle ev x b s = (reply, log_query ev (q_name qu) (q_type qu) SystemUpstream outcome answers s)"
  using assms(4)
  by (simp add: proxy_handle_def assms(1-3) Let_def log_query_def system_reply_def split: sum.splits) auto

text \<open>Where the first half stops.\<close>

lemma handle_begin_waits:
  assumes "handle_begin ev x b s = Inr a"
  obtains query qu qs where "dec (ev_codec ev) b = Inr query" "m_queries query = qu # qs"
    "policy_route (ev_to_ascii ev) (x_policy x) (q_name qu) = Doh"
    "cache_get_at (s_cache s) (key_new (ev_to_lowercase ev) (q_name qu) (q_type qu)) (ev_now1 ev) = None"
    "a = Ask_Doh (m_id query) (q_name qu) (q_type qu)"
  | query qu qs where "dec (ev_codec ev) b = Inr query" "m_queries query = qu # qs"
    "policy_route (ev_to_ascii ev) (x_policy x) (q_name qu) = SystemUpstream"
    "a = Ask_System (m_id query) (q_name qu) (q_type qu)"
  using assms
  by (fastforce simp: handle_begin_def Let_def split: sum.splits list.splits route.splits option.splits prod.splits)

lemma handle_begin_done:
  assumes "handle_begin ev x b s = Inl result"
  shows "proxy_handle ev x b s = result"
proof (cases "dec (ev_codec ev) b")
  case (Inl e)
  then show ?thesis using assms by (simp add: handle_begin_def proxy_handle_def)
next
  case (Inr query)
  show ?thesis
  proof (cases "m_queries query")
    case Nil
    then show ?thesis using assms Inr by (simp add: handle_begin_def proxy_handle_def Let_def)
  next
    case (Cons qu qs)
    then obtain hit where route: "policy_route (ev_to_ascii ev) (x_policy x) (q_name qu) = Doh"
      and hit: "cache_get_at (s_cache s) (key_new (ev_to_lowercase ev) (q_name qu) (q_type qu)) (ev_now1 ev) = Some hit"
      using assms Inr by (auto simp: handle_begin_def Let_def split: route.splits option.splits prod.splits)
    obtain reply outcome answers where reply: "doh_reply ev (m_id query) (Inr hit) = (reply, outcome, answers)"
      by (cases "doh_reply ev (m_id query) (Inr hit)")
    have "result = (reply, log_query ev (q_name qu) (q_type qu) Doh outcome answers s)"
      using assms by (simp add: handle_begin_def Inr Cons route hit reply Let_def)
    moreover have "resolve (ev_codec ev) (ev_post ev) (ev_to_lowercase ev) (ev_interfere ev) (x_resolver x)
        (q_name qu) (q_type qu) (ev_now1 ev) (ev_now2 ev) (s_cache s) = (Inr hit, s_cache s)"
      by (simp add: resolve_def hit)
    ultimately show ?thesis using proxy_handle_doh [OF Inr Cons route _ reply, of s "s_cache s"] by simp
  qed
qed

lemma reply_interfere [simp]:
  "doh_reply (ev\<lparr>ev_interfere := g\<rparr>) qid r = doh_reply ev qid r"
  "system_reply (ev\<lparr>ev_interfere := g\<rparr>) qid r' = system_reply ev qid r'"
  "log_query (ev\<lparr>ev_interfere := g\<rparr>) name rt route outcome answers s = log_query ev name rt route outcome answers s"
  by (simp_all add: doh_reply_def system_reply_def log_query_def Let_def split: sum.split)

definition whole_state :: "'n awaiting \<Rightarrow> ('n, 'd) proxy_state \<Rightarrow> ('n, 'd) proxy_state \<Rightarrow> ('n, 'd) proxy_state" where
  "whole_state a s s' = (case a of Ask_Doh _ _ _ \<Rightarrow> \<lparr>s_cache = s_cache s, s_log = s_log s'\<rparr> | Ask_System _ _ _ \<Rightarrow> s')"

lemma handle_end_whole:
  assumes "handle_begin ev x b s = Inr a"
  shows "handle_end ev x b a s' = proxy_handle (ev\<lparr>ev_interfere := \<lambda>_. s_cache s'\<rparr>) x b (whole_state a s s')"
  using assms
proof (cases rule: handle_begin_waits)
  case (1 query qu qs)
  let ?ev = "ev\<lparr>ev_interfere := \<lambda>_. s_cache s'\<rparr>" and ?s = "\<lparr>s_cache = s_cache s, s_log = s_log s'\<rparr>"
  let ?result = "resolve_uncached (ev_codec ev) (ev_post ev) (x_resolver x) (build_query (q_name qu) (q_type qu))"
  let ?c = "case ?result of Inr m \<Rightarrow> fst (cache_insert_at (s_cache s') (key_new (ev_to_lowercase ev) (q_name qu) (q_type qu)) m (ev_now2 ev))
    | Inl _ \<Rightarrow> s_cache s'"
  obtain reply outcome answers where reply: "doh_reply ev (m_id query) ?result = (reply, outcome, answers)"
    by (cases "doh_reply ev (m_id query) ?result")
  have "doh_reply ?ev (m_id query) ?result = (reply, outcome, answers)" using reply by simp
  moreover have "resolve (ev_codec ?ev) (ev_post ?ev) (ev_to_lowercase ?ev) (ev_interfere ?ev) (x_resolver x)
      (q_name qu) (q_type qu) (ev_now1 ?ev) (ev_now2 ?ev) (s_cache ?s) = (?result, ?c)"
    using 1(4) by (simp add: resolve_def Let_def split: sum.split)
  ultimately have "proxy_handle ?ev x b ?s = (reply, log_query ?ev (q_name qu) (q_type qu) Doh outcome answers (?s\<lparr>s_cache := ?c\<rparr>))"
    using proxy_handle_doh [of ?ev b query qu qs x ?s ?result ?c reply outcome answers] 1 by simp
  moreover have "s'\<lparr>s_cache := ?c\<rparr> = ?s\<lparr>s_cache := ?c\<rparr>" by simp
  moreover have "(case ?result of Inr m \<Rightarrow> s'\<lparr>s_cache := fst (cache_insert_at (s_cache s')
      (key_new (ev_to_lowercase ev) (q_name qu) (q_type qu)) m (ev_now2 ev))\<rparr> | Inl _ \<Rightarrow> s') = s'\<lparr>s_cache := ?c\<rparr>"
    by (simp split: sum.split)
  ultimately show ?thesis by (simp add: 1(5) reply whole_state_def Let_def log_query_def)
next
  case (2 query qu qs)
  let ?ev = "ev\<lparr>ev_interfere := \<lambda>_. s_cache s'\<rparr>" and ?result = "forward (ev_udp ev) (x_forwarder x) b"
  obtain reply outcome answers where reply: "system_reply ev (m_id query) ?result = (reply, outcome, answers)"
    by (cases "system_reply ev (m_id query) ?result")
  then have "system_reply ?ev (m_id query) (forward (ev_udp ?ev) (x_forwarder x) b) = (reply, outcome, answers)"
    by simp
  from proxy_handle_system [of ?ev b query qu qs x, OF _ 2(2) _ this, of s'] 2(1,3)
  show ?thesis by (simp add: 2(4) reply whole_state_def log_query_def)
qed

section \<open>What every interleaving keeps\<close>

text \<open>The waiting task has begun under some environment and state; its end completes the whole query.\<close>

definition begun :: "('n, 'd, 'c) env \<Rightarrow> 'c proxy \<Rightarrow> ('p, 'n) task \<Rightarrow> bool" where
  "begun ev x t \<longleftrightarrow> (\<forall>a. tk_awaiting t = Some a \<longrightarrow>
     (\<exists>ev' s :: ('n, 'd) proxy_state. same_code ev ev' \<and> handle_begin ev' x (tk_query t) s = Inr a))"

definition answered :: "('n, 'd, 'c) env \<Rightarrow> 'c proxy \<Rightarrow> bool \<Rightarrow> bytes \<Rightarrow> bytes \<Rightarrow> bool" where
  "answered ev x udp q b \<longleftrightarrow> (\<exists>ev' s. same_code ev ev' \<and> b = frame_reply (ev_codec ev) udp q (fst (proxy_handle ev' x q s)))"

definition server_inv :: "('n, 'd, 'c) env \<Rightarrow> 'c proxy \<Rightarrow> nat \<Rightarrow> ('p, 'n, 'd) server \<Rightarrow> bool" where
  "server_inv ev x cap sv \<longleftrightarrow>
     cache_reach cap (s_cache (sv_shared sv)) \<and> length (l_entries (s_log (sv_shared sv))) \<le> LOG_CAPACITY \<and>
     (\<forall>t \<in> set (sv_tasks sv). begun ev x t \<and> (tk_peer t, tk_udp t, tk_query t) \<in> set (sv_received sv)) \<and>
     (\<forall>(peer, b) \<in> set (sv_sent sv). \<exists>udp q. (peer, udp, q) \<in> set (sv_received sv) \<and> answered ev x udp q b) \<and>
     mset (map fst (sv_sent sv)) + mset (map tk_peer (sv_tasks sv)) = mset (map fst (sv_received sv))"

lemma server_invI:
  assumes "cache_reach cap (s_cache (sv_shared sv))" "length (l_entries (s_log (sv_shared sv))) \<le> LOG_CAPACITY"
    "\<forall>t \<in> set (sv_tasks sv). begun ev x t \<and> (tk_peer t, tk_udp t, tk_query t) \<in> set (sv_received sv)"
    "\<forall>(peer, b) \<in> set (sv_sent sv). \<exists>udp q. (peer, udp, q) \<in> set (sv_received sv) \<and> answered ev x udp q b"
    "mset (map fst (sv_sent sv)) + mset (map tk_peer (sv_tasks sv)) = mset (map fst (sv_received sv))"
  shows "server_inv ev x cap sv"
  unfolding server_inv_def using assms by blast

lemma same_code_eqs:
  assumes "same_code ev ev'"
  shows "ev_codec ev' = ev_codec ev" "ev_to_ascii ev' = ev_to_ascii ev" "ev_to_lowercase ev' = ev_to_lowercase ev"
  by (subst assms [unfolded same_code_def], simp)+

lemma same_code_mixed:
  assumes "same_code ev ev'"
  shows "same_code ev (ev'\<lparr>ev_now1 := n, ev_interfere := g\<rparr>)"
  using assms by (cases ev, cases ev') (simp add: same_code_def)

text \<open>A task begun under one environment and ended under another is a whole query.\<close>

lemma handle_end_answers:
  assumes "same_code ev ev1" "handle_begin ev1 x q s = Inr a" "same_code ev ev2"
  shows "\<exists>ev' s0. same_code ev ev' \<and> handle_end ev2 x q a s' = proxy_handle ev' x q s0"
proof -
  let ?ev = "ev2\<lparr>ev_now1 := ev_now1 ev1\<rparr>"
  note eqs = same_code_eqs [OF assms(1)] same_code_eqs [OF assms(3)]
  have "handle_begin ?ev x q s = Inr a"
    using assms(2) by (cases rule: handle_begin_waits) (simp_all add: handle_begin_def eqs Let_def)
  then have "handle_end ?ev x q a s' = proxy_handle (?ev\<lparr>ev_interfere := \<lambda>_. s_cache s'\<rparr>) x q (whole_state a s s')"
    by (rule handle_end_whole)
  moreover have "handle_end ?ev x q a s' = handle_end ev2 x q a s'"
    by (cases a) (simp_all add: doh_reply_def system_reply_def log_query_def Let_def split: sum.split)
  moreover have "same_code ev (ev2\<lparr>ev_now1 := ev_now1 ev1, ev_interfere := \<lambda>_. s_cache s'\<rparr>)"
    by (rule same_code_mixed [OF assms(3)])
  ultimately show ?thesis
    by (intro exI [of _ "ev2\<lparr>ev_now1 := ev_now1 ev1, ev_interfere := \<lambda>_. s_cache s'\<rparr>"] exI [of _ "whole_state a s s'"]) simp
qed

lemma log_query_bounds:
  "length (l_entries (s_log s)) \<le> LOG_CAPACITY \<Longrightarrow> length (l_entries (s_log (log_query ev name rt route outcome ans s))) \<le> LOG_CAPACITY"
  "s_cache (log_query ev name rt route outcome ans s) = s_cache s"
  by (simp_all add: log_query_def length_log_push)

text \<open>Both halves keep the shared state within its bounds.\<close>

definition shared_ok :: "nat \<Rightarrow> ('n, 'd) proxy_state \<Rightarrow> bool" where
  "shared_ok cap s \<longleftrightarrow> cache_reach cap (s_cache s) \<and> length (l_entries (s_log s)) \<le> LOG_CAPACITY"

lemma handle_begin_ok: "shared_ok cap s \<Longrightarrow> handle_begin ev x q s = Inl (b, s') \<Longrightarrow> shared_ok cap s'"
  unfolding shared_ok_def
  by (auto simp: handle_begin_def Let_def log_query_bounds split: sum.splits list.splits route.splits option.splits prod.splits)

lemma handle_end_ok: "shared_ok cap s \<Longrightarrow> handle_end ev x q a s = (b, s') \<Longrightarrow> shared_ok cap s'"
  unfolding shared_ok_def
  by (cases a) (auto simp: Let_def log_query_bounds intro: reach_insert split: sum.splits prod.splits)

lemma answeredI:
  "same_code ev ev' \<Longrightarrow> proxy_handle ev' x q s = (b, s') \<Longrightarrow> answered ev x udp q (frame_reply (ev_codec ev) udp q b)"
  unfolding answered_def by (intro exI [of _ ev'] exI [of _ s]) simp

text \<open>The end of a task.\<close>

lemma mset_take_drop: "i < length xs \<Longrightarrow> add_mset (f (xs ! i)) (mset (map f (take i xs @ drop (Suc i) xs))) = mset (map f xs)"
  by (subst (3) id_take_nth_drop [of i xs]) simp_all

lemma done_inv:
  assumes inv: "server_inv ev x cap sv" and i: "i < length (sv_tasks sv)" and ok: "shared_ok cap s"
    and reply: "answered ev x (tk_udp (sv_tasks sv ! i)) (tk_query (sv_tasks sv ! i)) b"
  shows "server_inv ev x cap (sv\<lparr>sv_shared := s, sv_tasks := take i (sv_tasks sv) @ drop (Suc i) (sv_tasks sv),
    sv_sent := (tk_peer (sv_tasks sv ! i), b) # sv_sent sv\<rparr>)"
proof -
  let ?t = "sv_tasks sv ! i"
  have "?t \<in> set (sv_tasks sv)" using i by simp
  then have rec: "(tk_peer ?t, tk_udp ?t, tk_query ?t) \<in> set (sv_received sv)" using inv by (simp add: server_inv_def)
  let ?rest = "take i (sv_tasks sv) @ drop (Suc i) (sv_tasks sv)"
  have sub: "set ?rest \<subseteq> set (sv_tasks sv)" by (auto dest: in_set_takeD in_set_dropD)
  have "mset (map fst ((tk_peer ?t, b) # sv_sent sv)) + mset (map tk_peer ?rest) =
      mset (map fst (sv_sent sv)) + add_mset (tk_peer ?t) (mset (map tk_peer ?rest))" by simp
  also have "\<dots> = mset (map fst (sv_received sv))"
    using inv by (simp only: mset_take_drop [OF i] server_inv_def)
  finally have m: "mset (map fst ((tk_peer ?t, b) # sv_sent sv)) + mset (map tk_peer ?rest) = mset (map fst (sv_received sv))" .
  have sent: "\<forall>(peer, b) \<in> set ((tk_peer ?t, b) # sv_sent sv). \<exists>udp q. (peer, udp, q) \<in> set (sv_received sv) \<and> answered ev x udp q b"
    using inv rec reply by (auto simp: server_inv_def)
  have tasks: "\<forall>t \<in> set ?rest. begun ev x t \<and> (tk_peer t, tk_udp t, tk_query t) \<in> set (sv_received sv)"
    using inv sub by (auto simp: server_inv_def)
  show ?thesis
    by (rule server_invI) (use ok sent tasks m in \<open>simp_all add: shared_ok_def\<close>)
qed

lemma server_inv_task:
  assumes inv: "server_inv ev x cap sv" and i: "i < length (sv_tasks sv)" and code: "same_code ev ev'"
  shows "server_inv ev x cap (run_task ev' x i sv)"
proof -
  let ?t = "sv_tasks sv ! i"
  have t: "begun ev x ?t" and ok: "shared_ok cap (sv_shared sv)" using inv i by (auto simp: server_inv_def shared_ok_def)
  note codec = same_code_eqs(1) [OF code]
  show ?thesis
  proof (cases "tk_awaiting ?t")
    case None
    show ?thesis
    proof (cases "handle_begin ev' x (tk_query ?t) (sv_shared sv)")
      case (Inl result)
      obtain b s where result: "result = (b, s)" by fastforce
      have "answered ev x (tk_udp ?t) (tk_query ?t) (frame_reply (ev_codec ev) (tk_udp ?t) (tk_query ?t) b)"
          by (rule answeredI [OF code]) (rule handle_begin_done [OF Inl [unfolded result]])
      from done_inv [OF inv i handle_begin_ok [OF ok Inl [unfolded result]] this] show ?thesis
        by (simp add: run_task_def None Inl result Let_def codec)
    next
      case (Inr a)
      have "begun ev x (?t\<lparr>tk_awaiting := Some a\<rparr>)" using code Inr by (auto simp: begun_def)
      moreover have "map tk_peer ((sv_tasks sv)[i := ?t\<lparr>tk_awaiting := Some a\<rparr>]) = map tk_peer (sv_tasks sv)"
        using i by (simp add: map_update list_update_same_conv)
      ultimately show ?thesis using inv i
        by (auto simp: run_task_def None Inr Let_def server_inv_def simp del: mset_map dest!: set_update_subset_insert [THEN subsetD])
    qed
  next
    case (Some a)
    then obtain ev1 s0 where start: "same_code ev ev1" "handle_begin ev1 x (tk_query ?t) s0 = Inr a"
      using t by (auto simp: begun_def)
    obtain b s where end_: "handle_end ev' x (tk_query ?t) a (sv_shared sv) = (b, s)" by fastforce
    have "answered ev x (tk_udp ?t) (tk_query ?t) (frame_reply (ev_codec ev) (tk_udp ?t) (tk_query ?t) b)"
      using handle_end_answers [OF start code, of "sv_shared sv"] unfolding end_ by (auto intro: answeredI [OF _ sym])
    from done_inv [OF inv i handle_end_ok [OF ok end_] this] show ?thesis
      by (simp add: run_task_def Some end_ Let_def codec)
  qed
qed

lemma spawn_inv: "server_inv ev x cap sv \<Longrightarrow> server_inv ev x cap (spawn_query peer udp q sv)"
proof (rule server_invI)
  assume inv: "server_inv ev x cap sv"
  then have "\<exists>udp q. (peer', udp, q) \<in> set (sv_received sv) \<and> answered ev x udp q b" if "(peer', b) \<in> set (sv_sent sv)" for peer' b
    using that unfolding server_inv_def by fast
  then show "\<forall>(peer', b) \<in> set (sv_sent (spawn_query peer udp q sv)).
      \<exists>udp' q'. (peer', udp', q') \<in> set (sv_received (spawn_query peer udp q sv)) \<and> answered ev x udp' q' b"
    by (fastforce simp: spawn_query_def)
qed (auto simp: server_inv_def spawn_query_def begun_def)

lemma server_run_inv: "server_run ev x cap sv \<Longrightarrow> server_inv ev x cap sv"
proof (induction rule: server_run.induct)
  case run_serving
  show ?case by (rule server_invI) (simp_all add: server_start_def reach_new log_default_def)
next
  case (run_datagram sv peer datagram)
  then show ?case by (simp add: accept_datagram_def spawn_inv)
next
  case (run_connection sv peer stream)
  then show ?case by (simp add: accept_connection_def spawn_inv split: option.split)
next
  case (run_query sv ev' i)
  then show ?case by (intro server_inv_task)
next
  case (run_purging sv now)
  then show ?case
    by (intro server_invI) (auto simp: server_inv_def purge_tick_def intro: reach_purge)
qed

section \<open>The address of a redirected connection\<close>

text \<open>What \<open>getsockopt\<close> fills in, as the bytes of \<open>sin_port\<close> and \<open>sin_addr\<close> in memory; \<open>from_be\<close> of
  the number read from them is their big-endian value on every machine.\<close>

record sockaddr_in =
  sin_port :: "u8 \<times> u8"
  sin_addr :: "u8 \<times> u8 \<times> u8 \<times> u8"

definition original_destination :: "'e + sockaddr_in \<Rightarrow> 'e + socket_addr" where
  "original_destination getsockopt =
     (case getsockopt of
        Inl e \<Rightarrow> Inl e
      | Inr addr \<Rightarrow>
          (let (a, b, c, d) = sin_addr addr; (hi, lo) = sin_port addr in
           Inr (socket_new (V4 a b c d) (from_be_bytes hi lo))))"

section \<open>The connections of the filter proxy\<close>

text \<open>A task of \<open>serve\<close> or \<open>serve_transparent\<close> is one connection; its two counters are atomic, so a
  run of the proxy adds up what each connection adds, in any order.\<close>

datatype client =
    Connect_Client "string \<Rightarrow> string + stream" writer writer stream
  | Redirected_Client "string + sockaddr_in" "socket_addr \<Rightarrow> string + stream" writer writer stream

fun run_client :: "client \<Rightarrow> stats \<Rightarrow> connection" where
  "run_client (Connect_Client connect write_client write_upstream s) st = handle connect write_client write_upstream s st"
| "run_client (Redirected_Client addr connect write_client write_upstream s) st =
     handle_transparent (original_destination addr) connect write_client write_upstream s st"

definition serve_clients :: "client list \<Rightarrow> stats \<Rightarrow> stats" where
  "serve_clients cs st = fold (\<lambda>c st. cn_stats (run_client c st)) cs st"

text \<open>\<open>serve\<close> and \<open>serve_transparent\<close> fail when the address cannot be bound; otherwise they go on for
  ever, skipping failed accepts. \<open>None\<close>: still serving after these accepts.\<close>

definition accept_loop :: "string option \<Rightarrow> (string + client) list \<Rightarrow> stats \<Rightarrow> string option \<times> stats" where
  "accept_loop bound arrivals st =
     (case bound of
        Some e \<Rightarrow> (Some e, st)
      | None \<Rightarrow> (None, serve_clients (List.map_filter (\<lambda>a. case a of Inr c \<Rightarrow> Some c | Inl _ \<Rightarrow> None) arrivals) st))"

definition serve_connect ::
    "string option \<Rightarrow> (string + (string \<Rightarrow> string + stream) \<times> writer \<times> writer \<times> stream) list \<Rightarrow> stats \<Rightarrow> string option \<times> stats" where
  "serve_connect bound arrivals =
     accept_loop bound (map (map_sum id (\<lambda>(connect, wc, wu, s). Connect_Client connect wc wu s)) arrivals)"

definition serve_transparent ::
    "string option \<Rightarrow> (string + (string + sockaddr_in) \<times> (socket_addr \<Rightarrow> string + stream) \<times> writer \<times> writer \<times> stream) list \<Rightarrow>
     stats \<Rightarrow> string option \<times> stats" where
  "serve_transparent bound arrivals =
     accept_loop bound (map (map_sum id (\<lambda>(addr, connect, wc, wu, s). Redirected_Client addr connect wc wu s)) arrivals)"

text \<open>What one connection adds to the counters does not depend on their values.\<close>

definition adds :: "u64 \<Rightarrow> u64 \<Rightarrow> stats \<Rightarrow> stats" where
  "adds n k st = \<lparr>connections = connections st + n, fragmented = fragmented st + k\<rparr>"

lemma splice_adds: "\<exists>k \<in> {0, 1}. \<forall>st. cn_stats (splice wc wu s u st) = adds 0 k st"
proof (cases "stream_read 16384 s")
  case (Inl e)
  then show ?thesis by (intro bexI [of _ 0]) (simp_all add: splice_def adds_def)
next
  case (Inr r)
  obtain f rest where r: "r = (f, rest)" by fastforce
  let ?k = "if f \<noteq> [] \<and> length (fragment_client_hello f) \<noteq> length f then 1 else 0 :: u64"
  have "cn_stats (splice wc wu s u st) = adds 0 ?k st" for st
    by (cases st; cases "wu (fragment_client_hello f)") (simp_all add: splice_def Inr r adds_def Let_def)
  then show ?thesis by (intro bexI [of _ ?k]) simp_all
qed

lemma splice_adds_more: "\<exists>k \<in> {0, 1}. \<forall>st. cn_stats (prepend acts (splice wc wu s u (st\<lparr>connections := connections st + 1\<rparr>))) = adds 1 k st"
  using splice_adds [of wc wu s u] by (force simp: prepend_def adds_def)

definition counts_once :: "(stats \<Rightarrow> stats) \<Rightarrow> bool" where
  "counts_once f \<longleftrightarrow> (\<exists>n k. (n = 1 \<and> k \<in> {0, 1} \<or> n = 0 \<and> k = 0) \<and> (\<forall>st. f st = adds n k st))"

lemma counts_none: "(\<And>st. f st = st) \<Longrightarrow> counts_once f"
  unfolding counts_once_def by (intro exI [of _ 0]) (simp add: adds_def)

lemma counts_one:
  "(\<And>st. f st = cn_stats (prepend acts (splice wc wu s u (st\<lparr>connections := connections st + 1\<rparr>)))) \<Longrightarrow> counts_once f"
  unfolding counts_once_def using splice_adds_more [of acts wc wu s u] by metis

lemma connect_counts: "counts_once (\<lambda>st. cn_stats (run_client (Connect_Client connect wc wu s) st))"
proof (cases "read_head [] s")
  case (Head buf rest)
  show ?thesis
  proof (cases "parse_connect_target (from_utf8_lossy buf)")
    case None
    then show ?thesis by (intro counts_none) (simp add: handle_def Head)
  next
    case (Some target)
    show ?thesis
    proof (cases "connect target")
      case (Inl e)
      then show ?thesis by (intro counts_none) (simp add: handle_def Head Some)
    next
      case (Inr up)
      let ?ok = "ascii (''HTTP/1.1 200 Connection established'' @ CRLF @ CRLF)"
      show ?thesis
      proof (cases "wc ?ok")
        case Inl
        then show ?thesis by (intro counts_none) (simp add: handle_def Head Some Inr Let_def)
      next
        case ok: Inr
        then show ?thesis
          by (intro counts_one [of _ "[Dial target, To_Client ?ok]" wc wu rest up]) (simp add: handle_def Head Some Inr Let_def)
      qed
    qed
  qed
qed (intro counts_none; simp add: handle_def)+

lemma redirected_counts: "counts_once (\<lambda>st. cn_stats (run_client (Redirected_Client addr connect wc wu s) st))"
proof (cases "original_destination addr")
  case Inl
  then show ?thesis by (intro counts_none) (simp add: handle_transparent_def)
next
  case target: (Inr target)
  show ?thesis
  proof (cases "\<not> ip_is_loopback (sa_ip target) \<and> (\<exists>up. connect target = Inr up)")
    case True
    then obtain up where "connect target = Inr up" "\<not> ip_is_loopback (sa_ip target)" by blast
    then show ?thesis by (intro counts_one [of _ "[Dial_Addr target]" wc wu s up]) (simp add: handle_transparent_def target)
  next
    case False
    then show ?thesis by (intro counts_none) (auto simp: handle_transparent_def target split: sum.split)
  qed
qed

lemma run_client_adds: "\<exists>n k. (n = 1 \<and> k \<in> {0, 1} \<or> n = 0 \<and> k = 0) \<and> (\<forall>st. cn_stats (run_client c st) = adds n k st)"
  using connect_counts redirected_counts by (cases c) (simp_all add: counts_once_def)

text \<open>So the totals do not depend on the order in which the connections are served.\<close>

lemma serve_clients_order:
  assumes "mset cs = mset cs'"
  shows "serve_clients cs st = serve_clients cs' st"
proof -
  have "fold (\<lambda>c st. cn_stats (run_client c st)) cs = fold (\<lambda>c st. cn_stats (run_client c st)) cs'"
  proof (rule fold_multiset_equiv [OF _ assms])
    fix c d
    obtain n k n' k' where "\<forall>st. cn_stats (run_client c st) = adds n k st" "\<forall>st. cn_stats (run_client d st) = adds n' k' st"
      using run_client_adds [of c] run_client_adds [of d] by metis
    then show "(\<lambda>st. cn_stats (run_client c st)) \<circ> (\<lambda>st. cn_stats (run_client d st)) =
        (\<lambda>st. cn_stats (run_client d st)) \<circ> (\<lambda>st. cn_stats (run_client c st))"
      by (simp add: fun_eq_iff adds_def add_ac)
  qed
  then show ?thesis by (simp add: serve_clients_def)
qed

section \<open>Properties\<close>



end
