(* ===== verification/Addr_Text.thy ===== *)
theory Addr_Text
  imports Apps
begin

text \<open>
  What the address printers write, the parsers read back: \<open>Display\<close> and \<open>FromStr\<close> of \<open>std::net\<close> for
  both families (with the zero run that \<open>::\<close> compresses and the dotted quad of a mapped address),
  and the endpoints that \<open>ss_kill_filter\<close> writes.
\<close>

section \<open>Groups of hexadecimal digits\<close>

lemma hex_char_val [simp]: "n < 16 \<Longrightarrow> hex_char n \<noteq> CHR '':'' \<and> hex_char n \<noteq> CHR ''.''"
proof -
  assume "n < 16"
  then have "hex_val (hex_char n) \<noteq> None" by simp
  moreover have "hex_val (CHR '':'') = None" "hex_val (CHR ''.'') = None" by (simp_all add: hex_val_def)
  ultimately show ?thesis by metis
qed

lemma show_hex_less: "n < 16 \<Longrightarrow> show_hex n = [hex_char n]"
  by (subst show_hex.simps) simp

lemma show_hex_step: "16 \<le> n \<Longrightarrow> show_hex n = show_hex (n div 16) @ [hex_char (n mod 16)]"
  by (subst show_hex.simps) simp

lemma show_hex_digits: "\<exists>ds. digits_of hex_val (show_hex n) = Some ds \<and> horner 16 ds = n"
proof (induction n rule: show_hex.induct)
  case (1 n)
  show ?case
  proof (cases "n < 16")
    case True
    then show ?thesis by (simp add: show_hex_less horner_def)
  next
    case False
    with 1 obtain ds where ds: "digits_of hex_val (show_hex (n div 16)) = Some ds" "horner 16 ds = n div 16"
      by auto
    then have "digits_of hex_val (show_hex n) = Some (ds @ [n mod 16])"
      using False by (simp add: show_hex_step digits_of_append)
    then show ?thesis using ds(2) by (simp only: horner_snoc option.inject) auto
  qed
qed

lemma length_show_hex: "n < 16 ^ Suc k \<Longrightarrow> length (show_hex n) \<le> Suc k"
proof (induction k arbitrary: n)
  case 0
  then show ?case by (simp add: show_hex_less)
next
  case (Suc k)
  then show ?case
    by (cases "n < 16") (simp_all add: show_hex_less show_hex_step less_mult_imp_div_less)
qed

lemma show_hex_set: "c \<in> set (show_hex n) \<Longrightarrow> hex_val c \<noteq> None"
  using show_hex_digits [of n] digits_of_digit [of hex_val "show_hex n" _ c] by auto

definition group_end :: "string \<Rightarrow> bool" where
  "group_end r \<longleftrightarrow> r = [] \<or> hex_val (hd r) = None \<and> hd r \<noteq> CHR ''.''"

lemma group_end_colon [simp]: "group_end (CHR '':'' # r)"
  by (simp add: group_end_def hex_val_def)

lemma read_group_show:
  assumes "n < 65536" "group_end r"
  shows "read_number hex_val 16 (Some 4) True 65536 (show_hex n @ r) = Some (n, r)"
proof -
  obtain ds where ds: "digits_of hex_val (show_hex n) = Some ds" "horner 16 ds = n"
    using show_hex_digits by blast
  have "span_digits hex_val (show_hex n @ r) = (ds, r)"
    using ds(1) assms(2) by (auto intro!: span_digits_of simp: group_end_def)
  moreover have "length ds \<le> 4" "ds \<noteq> []"
    using length_show_hex [of n 3] assms(1) digits_of_length [OF ds(1)] by auto
  ultimately show ?thesis using ds(2) assms(1) by (simp add: read_number_def)
qed

lemma span_digits_rest: "snd (span_digits f s) = dropWhile (\<lambda>c. f c \<noteq> None) s"
  by (induction f s rule: span_digits.induct) (auto split: option.splits prod.splits)

lemma read_octet_rest: "read_octet s = Some (n, r) \<Longrightarrow> r = dropWhile is_ascii_digit s"
  using span_digits_rest [of digit_val s]
  by (auto simp: read_octet_def read_number_def is_ascii_digit_def [abs_def] Let_def split: prod.splits if_splits)

text \<open>A dotted quad needs a dot after its first digits.\<close>

lemma read_ipv4_none:
  assumes "read_char (CHR ''.'') (dropWhile is_ascii_digit s) = None"
  shows "read_ipv4 s = None"
proof (cases "read_octet s")
  case (Some p)
  then obtain n r where p: "read_octet s = Some (n, r)" by (cases p) auto
  with read_octet_rest [OF p] assms show ?thesis by (simp add: read_ipv4_def)
qed (simp add: read_ipv4_def)

lemma digit_is_hex: "is_ascii_digit c \<Longrightarrow> hex_val c \<noteq> None"
  by (simp add: is_ascii_digit_def digit_val_def hex_val_def Let_def split: if_splits)

lemma dot_not_hex: "hex_val (CHR ''.'') = None"
  by (simp add: hex_val_def)

lemma read_char_hd: "s \<noteq> [] \<Longrightarrow> hd s \<noteq> c \<Longrightarrow> read_char c s = None" "read_char c [] = None"
  by (cases s) simp_all

lemma read_ipv4_group:
  assumes "group_end r"
  shows "read_ipv4 (show_hex n @ r) = None"
proof (rule read_ipv4_none)
  have "hd (dropWhile is_ascii_digit (show_hex n @ r)) \<noteq> CHR ''.''" if "dropWhile is_ascii_digit (show_hex n @ r) \<noteq> []"
  proof (cases "\<forall>c \<in> set (show_hex n). is_ascii_digit c")
    case True
    then have "dropWhile is_ascii_digit (show_hex n @ r) = dropWhile is_ascii_digit r" by simp
    with that assms digit_is_hex [of "hd r"] show ?thesis by (cases r) (auto simp: group_end_def)
  next
    case False
    then obtain c where c: "c \<in> set (show_hex n)" "\<not> is_ascii_digit c" by blast
    then have eq: "dropWhile is_ascii_digit (show_hex n @ r) = dropWhile is_ascii_digit (show_hex n) @ r"
      and ne: "dropWhile is_ascii_digit (show_hex n) \<noteq> []" by auto
    then have "hd (dropWhile is_ascii_digit (show_hex n)) \<in> set (show_hex n)"
      by (meson hd_in_set set_dropWhileD)
    with eq ne show_hex_set dot_not_hex show ?thesis by (metis hd_append)
  qed
  then show "read_char (CHR ''.'') (dropWhile is_ascii_digit (show_hex n @ r)) = None"
    by (metis read_char_hd)
qed

section \<open>Lists of groups\<close>

definition more_groups :: "nat list \<Rightarrow> string" where
  "more_groups gs = concat (map (\<lambda>g. CHR '':'' # show_hex g) gs)"

lemma more_groups_simps [simp]:
  "more_groups [] = []" "more_groups (g # gs) = CHR '':'' # show_hex g @ more_groups gs"
  by (simp_all add: more_groups_def)

lemma show_groups_Cons: "show_groups (g # gs) = show_hex g @ more_groups gs"
  by (induction gs arbitrary: g) (simp_all add: show_groups_def)

lemma show_groups_Nil [simp]: "show_groups [] = []"
  by (simp add: show_groups_def)

text \<open>No further group can be read.\<close>

definition stops :: "nat \<Rightarrow> string \<Rightarrow> bool" where
  "stops i r \<longleftrightarrow> Option.bind (read_sep i r) read_ipv4 = None \<and>
     Option.bind (read_sep i r) (read_number hex_val 16 (Some 4) True 65536) = None"

lemma read_nothing:
  assumes "r = [] \<or> hex_val (hd r) = None"
  shows "read_number hex_val 16 (Some 4) True 65536 r = None" "read_ipv4 r = None"
proof -
  have "span_digits hex_val r = ([], r)" using assms by (cases r) auto
  then show "read_number hex_val 16 (Some 4) True 65536 r = None" by (simp add: read_number_def)
  have "digit_val (hd r) = None" if "r \<noteq> []"
    using assms that digit_is_hex [of "hd r"] by (cases "digit_val (hd r)") (auto simp: is_ascii_digit_def)
  then have "span_digits digit_val r = ([], r)" by (cases r) auto
  then show "read_ipv4 r = None" by (simp add: read_ipv4_def read_octet_def read_number_def)
qed

lemma stops_double_colon [simp]: "stops i (CHR '':'' # CHR '':'' # r)"
proof -
  have "hex_val (CHR '':'') = None" by (simp add: hex_val_def)
  then show ?thesis
    using read_nothing [of "CHR '':'' # r"] read_nothing [of "CHR '':'' # CHR '':'' # r"]
    by (simp add: stops_def read_sep_def)
qed

lemma stops_end: "group_end r \<Longrightarrow> r = [] \<or> hd r \<noteq> CHR '':'' \<Longrightarrow> stops i r"
  using read_nothing [of r] by (cases r) (auto simp: stops_def read_sep_def group_end_def)

lemma read_groups_stop: "stops i r \<Longrightarrow> read_groups n i r = ([], False, r)"
  by (cases n) (auto simp: stops_def)

lemma group_end_more: "group_end r \<Longrightarrow> group_end (more_groups gs @ r)"
  by (cases gs) simp_all

lemma read_groups_more:
  assumes "\<forall>g \<in> set gs. g < 65536" "group_end r" "length gs = n \<or> length gs < n \<and> (\<forall>i. stops i r)"
  shows "read_groups n (Suc i) (more_groups gs @ r) = (gs, False, r)"
  using assms
proof (induction gs arbitrary: n i)
  case Nil
  then show ?case by (auto simp: read_groups_stop)
next
  case (Cons g gs)
  then obtain m where n: "n = Suc m" by (cases n) auto
  have ih: "read_groups m (Suc (Suc i)) (more_groups gs @ r) = (gs, False, r)"
    by (rule Cons.IH) (use Cons.prems n in auto)
  have "read_ipv4 (show_hex g @ more_groups gs @ r) = None"
    "read_number hex_val 16 (Some 4) True 65536 (show_hex g @ more_groups gs @ r) = Some (g, more_groups gs @ r)"
    using Cons.prems by (auto intro!: read_ipv4_group read_group_show group_end_more)
  with ih show ?case by (cases m) (simp_all add: n read_sep_def)
qed

lemma read_groups_show:
  assumes "\<forall>g \<in> set gs. g < 65536" "group_end r" "length gs = n \<or> length gs < n \<and> (\<forall>i. stops i r)"
  shows "read_groups n 0 (show_groups gs @ r) = (gs, False, r)"
proof (cases gs)
  case Nil
  with assms show ?thesis by (auto simp: read_groups_stop)
next
  case (Cons g hs)
  with assms(3) obtain m where n: "n = Suc m" by (cases n) auto
  have "read_groups m (Suc 0) (more_groups hs @ r) = (hs, False, r)"
    by (rule read_groups_more) (use assms Cons n in auto)
  moreover have "read_ipv4 (show_hex g @ more_groups hs @ r) = None"
    "read_number hex_val 16 (Some 4) True 65536 (show_hex g @ more_groups hs @ r) = Some (g, more_groups hs @ r)"
    using assms Cons by (auto intro!: read_ipv4_group read_group_show group_end_more)
  ultimately show ?thesis by (cases m) (simp_all add: n Cons show_groups_Cons read_sep_def)
qed

section \<open>The compressed run of zeros\<close>

lemma zero_run_zeros:
  assumes "zero_run gs i (cs, cn) (bs, bn) = (s, n)"
    and "cn = 0 \<or> cs + cn = length pre \<and> take cn (drop cs pre) = replicate cn 0"
    and "bs + bn \<le> length pre" "take bn (drop bs pre) = replicate bn 0" "i = length pre"
  shows "s + n \<le> length (pre @ gs) \<and> take n (drop s (pre @ gs)) = replicate n 0"
  using assms
proof (induction gs arbitrary: i cs cn bs bn pre)
  case Nil
  then show ?case by simp
next
  case (Cons g gs)
  have best: "bs + bn \<le> length (pre @ [g])" "take bn (drop bs (pre @ [g])) = replicate bn 0"
    using Cons.prems(3,4) by simp_all
  show ?case
  proof (cases "g = 0")
    case False
    then have "zero_run gs (Suc i) (0, 0) (bs, bn) = (s, n)" using Cons.prems(1) by simp
    from Cons.IH [OF this _ best] Cons.prems(5) show ?thesis by simp
  next
    case True
    obtain cs' cn' where cur: "(if cn = 0 then (i, 1) else (cs, cn + 1)) = (cs', cn')"
      by (cases "cn = 0") auto
    have cur_ok: "cs' + cn' = length (pre @ [g])" "take cn' (drop cs' (pre @ [g])) = replicate cn' 0"
    proof -
      show "cs' + cn' = length (pre @ [g])" using cur Cons.prems(2,5) by (auto split: if_splits)
      show "take cn' (drop cs' (pre @ [g])) = replicate cn' 0"
      proof (cases "cn = 0")
        case True
        with cur Cons.prems(5) \<open>g = 0\<close> show ?thesis by auto
      next
        case False
        with Cons.prems(2) have "cs + cn = length pre" "drop cs pre = replicate cn 0" by auto
        with cur False \<open>g = 0\<close> show ?thesis by (auto simp: replicate_append_same)
      qed
    qed
    let ?best = "if bn < cn' then (cs', cn') else (bs, bn)"
    obtain bs' bn' where b: "?best = (bs', bn')" by (cases ?best)
    have "zero_run gs (Suc i) (cs', cn') (bs', bn') = (s, n)"
      using Cons.prems(1) True cur b by (simp add: Let_def split: if_splits)
    moreover have "bs' + bn' \<le> length (pre @ [g])" "take bn' (drop bs' (pre @ [g])) = replicate bn' 0"
      using b best cur_ok by (auto split: if_splits)
    ultimately show ?thesis using Cons.IH [of "Suc i" cs' cn' bs' bn' "pre @ [g]"] cur_ok Cons.prems(5) by simp
  qed
qed

lemma zero_run_split:
  assumes "zero_run gs 0 (0, 0) (0, 0) = (s, n)"
  shows "s + n \<le> length gs \<and> gs = take s gs @ replicate n 0 @ drop (s + n) gs"
proof -
  from zero_run_zeros [OF assms, of "[]"] have *: "s + n \<le> length gs" "take n (drop s gs) = replicate n 0" by auto
  have "gs = take s gs @ take n (drop s gs) @ drop n (drop s gs)" by (simp only: append_take_drop_id)
  with * show ?thesis by (simp add: add.commute)
qed

lemma read_ipv6_show:
  assumes "length gs = 8" "\<forall>g \<in> set gs. g < 65536" "group_end r" "\<forall>i. stops i r"
  shows "read_ipv6 (show_v6_groups gs @ r) = Some (gs, r)"
proof -
  obtain s n where run: "zero_run gs 0 (0, 0) (0, 0) = (s, n)" by fastforce
  show ?thesis
  proof (cases "1 < n")
    case False
    have "read_groups 8 0 (show_groups gs @ r) = (gs, False, r)"
      by (rule read_groups_show) (use assms in auto)
    with False assms(1) show ?thesis by (simp add: read_ipv6_def show_v6_groups_def run)
  next
    case True
    let ?tail = "drop (s + n) gs"
    from zero_run_split [OF run] assms(1) have len: "s + n \<le> 8" and split: "gs = take s gs @ replicate n 0 @ ?tail" by auto
    have small: "\<forall>g \<in> set (take s gs). g < 65536" "\<forall>g \<in> set ?tail. g < 65536"
      using assms(2) by (auto dest: in_set_takeD in_set_dropD)
    have hd_part: "read_groups 8 0 (show_groups (take s gs) @ ''::'' @ show_groups ?tail @ r) =
        (take s gs, False, ''::'' @ show_groups ?tail @ r)"
      by (rule read_groups_show) (use small len True assms(1) in auto)
    have tl_part: "read_groups (8 - (s + 1)) 0 (show_groups ?tail @ r) = (?tail, False, r)"
      by (rule read_groups_show) (use small len True assms in auto)
    have "8 - s - length ?tail = n" using assms(1) len by simp
    with split have "take s gs @ replicate (8 - s - length ?tail) 0 @ ?tail = gs" by simp
    moreover have "length (take s gs) = s" "s \<noteq> 8" using assms(1) len True by auto
    ultimately show ?thesis
      using hd_part tl_part True by (simp add: read_ipv6_def show_v6_groups_def run)
  qed
qed

lemma read_ipv4_v6_text:
  assumes "length gs = 8" "group_end r"
  shows "read_ipv4 (show_v6_groups gs @ r) = None"
proof -
  obtain s n where run: "zero_run gs 0 (0, 0) (0, 0) = (s, n)" by fastforce
  obtain g hs where gs: "gs = g # hs" using assms(1) by (cases gs) auto
  have "show_v6_groups gs @ r = (if 1 < n \<and> s = 0 then ''::'' @ show_groups (drop n gs) @ r
      else show_hex g @ (if 1 < n then more_groups (take (s - 1) hs) @ ''::'' @ show_groups (drop (s + n) gs) @ r
        else more_groups hs @ r))"
    unfolding show_v6_groups_def unfolding run prod.case unfolding gs by (cases s) (simp_all add: show_groups_Cons)
  moreover have "read_ipv4 (''::'' @ x) = None" for x
    using read_nothing(2) [of "''::'' @ x"] by (simp add: hex_val_def)
  ultimately show ?thesis
    using read_ipv4_group [of _ g] group_end_more assms(2) by simp
qed

section \<open>Addresses\<close>

lemma segment_halves:
  "unat (of_nat (unat (x :: u16) div 256) :: u8) * 256 + unat (of_nat (unat x mod 256) :: u8) = unat x"
proof -
  have "unat x < 65536" using unsigned_less [of x] by simp
  then have "unat x div 256 < 256" "unat x mod 256 < 256" by (auto intro: less_mult_imp_div_less)
  then show ?thesis by (simp add: take_bit_nat_eq_self unsigned_of_nat)
qed

lemma show_quad_dot: "read_char (CHR '':'') (show_quad a b c d @ r) = None"
proof -
  have "CHR '':'' \<notin> set (show_quad a b c d)" by (rule show_quad_no) (simp_all add: str_defs)
  then show ?thesis by (cases "show_quad a b c d") auto
qed

lemma read_mapped:
  assumes "group_end r"
  shows "read_ipv6 (''::ffff:'' @ show_quad a b c d @ r) =
    Some ([0, 0, 0, 0, 0, 65535, unat a * 256 + unat b, unat c * 256 + unat d], r)"
proof -
  let ?q = "show_quad a b c d @ r"
  have r: "r = [] \<or> \<not> is_ascii_digit (hd r)" using assms digit_is_hex [of "hd r"] by (auto simp: group_end_def)
  have hex: "show_hex 65535 = ''ffff''" by (simp add: show_hex_step show_hex_less hex_char_def char_of_letters)
  have quad: "read_groups 6 (Suc 0) (CHR '':'' # ?q) = ([unat a * 256 + unat b, unat c * 256 + unat d], True, r)"
    using read_ipv4_show [OF r, of a b c d] by (subst read_groups_numeral) (simp add: read_sep_def)
  have "read_ipv4 (show_hex 65535 @ CHR '':'' # ?q) = None" by (rule read_ipv4_group) simp
  moreover have "read_number hex_val 16 (Some 4) True 65536 (show_hex 65535 @ CHR '':'' # ?q) = Some (65535, CHR '':'' # ?q)"
    by (rule read_group_show) simp_all
  ultimately have "read_groups 7 0 (show_hex 65535 @ CHR '':'' # ?q) =
      ([65535, unat a * 256 + unat b, unat c * 256 + unat d], True, r)"
    by (subst read_groups_numeral) (simp add: read_sep_def quad)
  then have tl_part: "read_groups 7 0 (''ffff:'' @ ?q) = ([65535, unat a * 256 + unat b, unat c * 256 + unat d], True, r)"
    unfolding hex by simp
  have "read_groups 8 0 (CHR '':'' # CHR '':'' # ''ffff:'' @ ?q) = ([], False, CHR '':'' # CHR '':'' # ''ffff:'' @ ?q)"
    by (rule read_groups_stop) (rule stops_double_colon)
  with tl_part show ?thesis by (simp add: read_ipv6_def replicate_num)
qed

text \<open>What may follow the text of an address.\<close>

definition addr_end :: "string \<Rightarrow> bool" where
  "addr_end r \<longleftrightarrow> group_end r \<and> (r = [] \<or> hd r \<noteq> CHR '':'')"

lemma addr_end_eval [simp]: "addr_end []" "addr_end (CHR '']'' # r)" "addr_end (CHR ''%'' # r)"
  by (simp_all add: addr_end_def group_end_def hex_val_def)

lemma read_v6_show:
  assumes "addr_end r"
  shows "read_ipv6 (show_ip (V6 a b c d e f g h) @ r) = Some (map unat [a, b, c, d, e, f, g, h], r)"
proof (cases "a = 0 \<and> b = 0 \<and> c = 0 \<and> d = 0 \<and> e = 0 \<and> f = 0xFFFF")
  case True
  with read_mapped [of r "of_nat (unat g div 256)" "of_nat (unat g mod 256)" "of_nat (unat h div 256)" "of_nat (unat h mod 256)"]
    assms show ?thesis by (simp add: segment_halves addr_end_def)
next
  case False
  have small: "unat x < 65536" for x :: u16 using unsigned_less [of x] by simp
  have "read_ipv6 (show_v6_groups (map unat [a, b, c, d, e, f, g, h]) @ r) = Some (map unat [a, b, c, d, e, f, g, h], r)"
    using assms small by (intro read_ipv6_show) (auto simp: addr_end_def intro: stops_end)
  with False show ?thesis by (simp only: show_ip.simps if_False)
qed

lemma read_v4_of_v6:
  assumes "addr_end r"
  shows "read_ipv4 (show_ip (V6 a b c d e f g h) @ r) = None"
proof (cases "a = 0 \<and> b = 0 \<and> c = 0 \<and> d = 0 \<and> e = 0 \<and> f = 0xFFFF")
  case True
  then show ?thesis by (simp add: read_nothing hex_val_def)
next
  case False
  then show ?thesis using assms unfolding show_ip.simps if_not_P [OF False]
    by (intro read_ipv4_v6_text) (simp_all add: addr_end_def)
qed

lemma parse_ip_show [simp]: "parse_ip (show_ip ip) = Some ip"
proof (cases ip)
  case (V4 a b c d)
  then show ?thesis by (simp only: parse_ip_show_V4)
next
  case (V6 a b c d e f g h)
  have "read_ipv4 (show_ip ip) = None" "read_ipv6 (show_ip ip) = Some (map unat [a, b, c, d, e, f, g, h], [])"
    using read_v4_of_v6 [of "[]" a b c d e f g h] read_v6_show [of "[]" a b c d e f g h] by (simp_all only: V6 addr_end_eval append_Nil2 simp_thms)
  then show ?thesis by (simp add: parse_ip_def read_ip_def whole_def V6 del: show_ip.simps)
qed

lemma read_number_show:
  assumes "n < bound" "r = [] \<or> \<not> is_ascii_digit (hd r)"
  shows "read_number digit_val 10 None True bound (show_nat n @ r) = Some (n, r)"
proof -
  obtain ds where ds: "digits_of digit_val (show_nat n) = Some ds" "horner 10 ds = n"
    using show_nat_digits by blast
  have "span_digits digit_val (show_nat n @ r) = (ds, r)"
    using ds(1) assms(2) by (auto intro!: span_digits_of simp: is_ascii_digit_def)
  moreover have "ds \<noteq> []" using digits_of_length [OF ds(1)] by auto
  ultimately show ?thesis using ds(2) assms(1) by (simp add: read_number_def)
qed

lemma port_less: "unat (p :: u16) < 65536" and scope_less: "unat (q :: u32) < 4294967296"
  using unsigned_less [of p] unsigned_less [of q] by simp_all

lemma parse_socket_show:
  assumes "is_ipv4 (sa_ip s) \<Longrightarrow> sa_scope s = 0"
  shows "parse_socket (show_socket s) = Some s"
proof (cases "sa_ip s")
  case (V4 a b c d)
  with assms have "s = socket_new (V4 a b c d) (sa_port s)" by (simp add: socket_new_def)
  then show ?thesis using parse_socket_show_V4 by metis
next
  case (V6 a b c d e f g h)
  let ?port = "CHR '':'' # show_nat (unat (sa_port s))"
  define scope where "scope = (if sa_scope s = 0 then [] else ''%'' @ show_nat (unat (sa_scope s)))"
  have sock: "show_socket s = CHR ''['' # show_ip (sa_ip s) @ scope @ CHR '']'' # ?port"
    by (simp add: show_socket_def scope_def V6)
  have ending: "addr_end (scope @ CHR '']'' # ?port)" by (simp add: scope_def)
  have "read_scope (scope @ CHR '']'' # ?port) = (if sa_scope s = 0 then None else Some (unat (sa_scope s), CHR '']'' # ?port))"
    using read_number_show [OF scope_less, of "CHR '']'' # ?port" "sa_scope s"]
    by (simp add: read_scope_def scope_def str_defs)
  then have sc: "(case read_scope (scope @ CHR '']'' # ?port) of Some r \<Rightarrow> r | None \<Rightarrow> (0, scope @ CHR '']'' # ?port)) =
      (unat (sa_scope s), CHR '']'' # ?port)"
    by (simp add: scope_def)
  have port: "read_port ?port = Some (unat (sa_port s), [])"
    using read_number_show [OF port_less, of "[]" "sa_port s"] by (simp add: read_port_def)
  have "read_ipv4 (CHR ''['' # x) = None" for x by (rule read_nothing) (simp add: hex_val_def)
  then have "read_socket_v4 (show_socket s) = None" by (simp add: read_socket_v4_def sock)
  moreover have "read_socket_v6 (show_socket s) = Some (s, [])"
    using read_v6_show [OF ending, of a b c d e f g h] port sc
    by (simp add: read_socket_v6_def sock V6 del: show_ip.simps)
  ultimately show ?thesis by (simp add: parse_socket_def whole_def)
qed

section \<open>Endpoints of \<open>ss\<close>\<close>

lemma show_quad_hex: "c \<in> set (show_quad p q r s) \<Longrightarrow> hex_val c \<noteq> None \<or> c = CHR ''.''"
  using show_quad_chars [of c p q r s] digit_is_hex by blast

lemma more_groups_set: "c \<in> set (more_groups gs) \<Longrightarrow> hex_val c \<noteq> None \<or> c = CHR '':''"
  by (induction gs) (auto dest: show_hex_set)

lemma show_groups_set: "c \<in> set (show_groups gs) \<Longrightarrow> hex_val c \<noteq> None \<or> c = CHR '':''"
  by (cases gs) (auto simp: show_groups_Cons dest: show_hex_set more_groups_set)

lemma show_v6_groups_set: "c \<in> set (show_v6_groups gs) \<Longrightarrow> hex_val c \<noteq> None \<or> c = CHR '':''"
  by (auto simp: show_v6_groups_def dest: show_groups_set split: prod.splits if_splits)

lemma show_ip_set:
  assumes "x \<in> set (show_ip ip)"
  shows "hex_val x \<noteq> None \<or> x = CHR '':'' \<or> x = CHR ''.''"
proof (cases ip)
  case (V4 a b c d)
  with assms show ?thesis by (auto dest: show_quad_hex)
next
  case (V6 a b c d e f g h)
  have "hex_val (CHR ''f'') \<noteq> None" by (simp add: hex_val_def)
  with assms V6 show_quad_hex [of x] show_v6_groups_set [of x] show ?thesis
    by (auto split: if_splits)
qed

lemma show_ip_no:
  assumes "hex_val c = None" "c \<noteq> CHR '':''" "c \<noteq> CHR ''.''"
  shows "c \<notin> set (show_ip ip)"
  using assms show_ip_set by blast

lemma show_ip_clean [simp]:
  "CHR ''['' \<notin> set (show_ip ip)" "CHR '']'' \<notin> set (show_ip ip)" "CHR ''%'' \<notin> set (show_ip ip)" "CHR '' '' \<notin> set (show_ip ip)"
  by (rule show_ip_no; simp add: hex_val_def)+

lemma trim_start_matches_id: "c \<notin> set s \<Longrightarrow> trim_start_matches c s = s"
  by (cases s) (auto simp: trim_start_matches_def)

lemma trim_end_matches_id: "c \<notin> set s \<Longrightarrow> trim_end_matches c s = s"
  by (cases s rule: rev_cases) (auto simp: trim_end_matches_def trim_end_by_def)

lemma parse_endpoint [simp]: "parse_sockaddr (ss_endpoint a) = Some (socket_new (sa_ip a) (sa_port a))"
proof -
  define addr where "addr = (if is_ipv4 (sa_ip a) then show_ip (sa_ip a) else ''['' @ show_ip (sa_ip a) @ '']'')"
  have colon: "CHR '':'' \<notin> set (show_nat n)" for n by (rule show_nat_no) (simp add: str_defs)
  have "ss_endpoint a = addr @ CHR '':'' # show_nat (unat (sa_port a))" by (simp add: ss_endpoint_def addr_def)
  then have split: "rsplit_once (CHR '':'') (ss_endpoint a) = Some (addr, show_nat (unat (sa_port a)))"
    using colon by (simp add: rsplit_once_Some)
  have "trim_start_matches (CHR ''['') addr = (if is_ipv4 (sa_ip a) then show_ip (sa_ip a) else show_ip (sa_ip a) @ [CHR '']''])"
  proof (cases "is_ipv4 (sa_ip a)")
    case False
    have "trim_start_matches (CHR ''['') (CHR ''['' # r) = trim_start_matches (CHR ''['') r" for r
      by (simp add: trim_start_matches_def)
    then show ?thesis using False trim_start_matches_id [of "CHR ''[''" "show_ip (sa_ip a) @ [CHR '']'']"] by (simp add: addr_def)
  qed (simp add: addr_def trim_start_matches_id)
  then have "trim_end_matches (CHR '']'') (trim_start_matches (CHR ''['') addr) = show_ip (sa_ip a)"
    by (simp add: trim_end_matches_id)
  then have "parse_ip (hd (split_on (CHR ''%'') (trim_end_matches (CHR '']'') (trim_start_matches (CHR ''['') addr)))) = Some (sa_ip a)"
    by (simp add: split_on_none)
  moreover have "parse_u16 (show_nat (unat (sa_port a))) = Some (unat (sa_port a))"
    using port_less by (rule parse_uint_show_nat)
  ultimately show ?thesis by (simp add: parse_sockaddr_def split)
qed

lemma endpoint_no_space: "CHR '' '' \<notin> set (ss_endpoint a)"
proof -
  have "CHR '' '' \<notin> set (show_nat n)" for n by (rule show_nat_no) (simp add: str_defs)
  then show ?thesis by (simp add: ss_endpoint_def)
qed

lemma parse_sockaddr_new: "parse_sockaddr s = Some a \<Longrightarrow> a = socket_new (sa_ip a) (sa_port a)"
  by (auto simp: parse_sockaddr_def socket_new_def bind_eq_Some_conv)

lemma parse_ss_line_ends:
  assumes "parse_ss_line line = Some s"
  shows "parse_sockaddr (ss_endpoint (se_local s)) = Some (se_local s)" "parse_sockaddr (ss_endpoint (se_peer s)) = Some (se_peer s)"
  using assms parse_sockaddr_new
  by (auto simp: parse_ss_line_def Let_def bind_eq_Some_conv split: if_splits)

lemma kill_filter_split:
  assumes "ss_kill_filter s = ss_kill_filter s'"
  shows "ss_endpoint (se_local s) = ss_endpoint (se_local s')" "ss_endpoint (se_peer s) = ss_endpoint (se_peer s')"
proof -
  have head: "takeWhile (\<lambda>c. c \<noteq> CHR '' '') (ss_endpoint a @ CHR '' '' # r) = ss_endpoint a" for a r
    using endpoint_no_space [of a] by (subst takeWhile_append2) auto
  have eq: "ss_endpoint (se_local s) @ '' and dst '' @ ss_endpoint (se_peer s) =
      ss_endpoint (se_local s') @ '' and dst '' @ ss_endpoint (se_peer s')"
    using assms by (simp add: ss_kill_filter_def)
  then show "ss_endpoint (se_local s) = ss_endpoint (se_local s')"
    using head [of "se_local s" "''and dst '' @ ss_endpoint (se_peer s)"] head [of "se_local s'" "''and dst '' @ ss_endpoint (se_peer s')"]
    by simp
  with eq show "ss_endpoint (se_peer s) = ss_endpoint (se_peer s')" by simp
qed

section \<open>Properties\<close>

text \<open>C34: Round trip of addresses: what \<open>Display\<close> writes for a socket address, IPv4 or IPv6, is parsed
  back by \<open>FromStr\<close>; and the filter given to \<open>ss -K\<close> for a listed socket contains its two
  endpoints as \<open>parse_sockaddr\<close> reads them, so two listed sockets with the same filter have the
  same ends and no other connection is reset.\<close>

theorem kill_filter_roundtrip:
  assumes "parse_ss_line line = Some s"
  shows "(\<exists>src dst. ss_kill_filter s = ''src '' @ src @ '' and dst '' @ dst \<and>
      parse_sockaddr src = Some (se_local s) \<and> parse_sockaddr dst = Some (se_peer s)) \<and>
    parse_socket (show_socket (se_peer s)) = Some (se_peer s) \<and>
    (\<forall>line' s'. parse_ss_line line' = Some s' \<longrightarrow> ss_kill_filter s' = ss_kill_filter s \<longrightarrow>
      se_local s' = se_local s \<and> se_peer s' = se_peer s)"
proof (intro conjI allI impI)
  note ends = parse_ss_line_ends [OF assms]
  show "\<exists>src dst. ss_kill_filter s = ''src '' @ src @ '' and dst '' @ dst \<and>
      parse_sockaddr src = Some (se_local s) \<and> parse_sockaddr dst = Some (se_peer s)"
    using ends unfolding ss_kill_filter_def by blast
  have "sa_scope (se_peer s) = 0" using parse_sockaddr_new [OF ends(2)] by (metis socket_addr.select_convs(2) socket_new_def)
  then show "parse_socket (show_socket (se_peer s)) = Some (se_peer s)" by (simp add: parse_socket_show)
  fix line' s' assume s': "parse_ss_line line' = Some s'" "ss_kill_filter s' = ss_kill_filter s"
  note ends' = parse_ss_line_ends [OF s'(1)]
  show "se_local s' = se_local s" "se_peer s' = se_peer s"
    using ends ends' kill_filter_split [OF s'(2)] by simp_all
qed

text \<open>A connection over IPv6, as \<open>ss\<close> lists it.\<close>

definition sample_line :: string where
  "sample_line = ''tcp ESTAB 0 0 [fd00::2]:40000 [2001:db8::1]:443 pid=7''"

lemma sample_line_words:
  "split_whitespace sample_line = [''tcp'', ''ESTAB'', ''0'', ''0'', ''[fd00::2]:40000'', ''[2001:db8::1]:443'', ''pid=7'']"
  by (simp add: sample_line_def split_whitespace_def is_ws_def)

lemma sample_endpoints:
  "parse_sockaddr ''[fd00::2]:40000'' = Some (socket_new (V6 0xfd00 0 0 0 0 0 0 2) 40000)"
  "parse_sockaddr ''[2001:db8::1]:443'' = Some (socket_new (V6 0x2001 0xdb8 0 0 0 0 0 1) 443)"
  by (simp_all add: parse_sockaddr_def rsplit_once_def split_on_def ip_eval parse_uint_def)

lemma sample_pids:
  "List.map_filter (\<lambda>p. parse_u32 (takeWhile is_ascii_digit p)) (drop 1 (split_str ''pid='' ''pid=7'')) = [7]"
proof -
  have "split_str ''pid='' ''pid=7'' = [[], ''7'']" by (simp add: split_str.simps)
  moreover have "parse_u32 ''7'' = Some 7" "is_ascii_digit (CHR ''7'')"
    by (simp_all add: parse_uint_def str_defs horner_def)
  ultimately show ?thesis by (simp add: List.map_filter_simps)
qed

lemma sample_line_parsed:
  "\<exists>s. parse_ss_line sample_line = Some s \<and> se_peer s = socket_new (V6 0x2001 0xdb8 0 0 0 0 0 1) 443 \<and> 7 \<in> set (se_pids s)"
  by (simp add: parse_ss_line_def Let_def sample_line_words sample_endpoints sample_pids [simplified])

theorem kill_filter_roundtrip_witness:
  "\<exists>dst r. parse_sockaddr dst = Some (socket_new (V6 0x2001 0xdb8 0 0 0 0 0 1) 443) \<and>
    map_option ss_kill_filter (parse_ss_line sample_line) = Some (r @ dst)"
proof -
  obtain s where s: "parse_ss_line sample_line = Some s" "se_peer s = socket_new (V6 0x2001 0xdb8 0 0 0 0 0 1) 443"
    using sample_line_parsed by blast
  from kill_filter_roundtrip [OF s(1), THEN conjunct1] obtain src dst where
    "ss_kill_filter s = ''src '' @ src @ '' and dst '' @ dst" "parse_sockaddr dst = Some (se_peer s)" by blast
  then have "ss_kill_filter s = (''src '' @ src @ '' and dst '') @ dst \<and> parse_sockaddr dst = Some (se_peer s)" by simp
  with s show ?thesis by (metis option.map(2))
qed

end
