(* ===== verification/Resets.thy ===== *)
theory Resets
  imports Helper Addr_Text
begin

text \<open>
  Which commands attaching an application runs: the connections of exactly the processes that
  were moved are reset, except those that stay outside the tunnel anyway.
\<close>

section \<open>The commands of a run\<close>

text \<open>The machine with its commands and their outcomes logged.\<close>

type_synonym 'k commanded = "'k \<times> (string list \<times> (io_kind + bool \<times> string)) list"

definition log_output :: "'k machine \<Rightarrow> 'k commanded machine" where
  "log_output mc = \<lparr>
     mc_sys = \<lparr>sf_list = (\<lambda>p (k, _). sf_list (mc_sys mc) p k), sf_read = (\<lambda>p (k, _). sf_read (mc_sys mc) p k),
       sf_write_pid = (\<lambda>p n (k, c). case sf_write_pid (mc_sys mc) p n k of (r, k') \<Rightarrow> (r, k', c)),
       sf_now = (\<lambda>(k, _). sf_now (mc_sys mc) k), sf_sleep = (\<lambda>d (k, c). (sf_sleep (mc_sys mc) d k, c))\<rparr>,
     mc_canonicalize = (\<lambda>p (k, _). mc_canonicalize mc p k),
     mc_output = (\<lambda>argv (k, c). case mc_output mc argv k of (r, k') \<Rightarrow> (r, k', c @ [(argv, r)])),
     mc_exec = (\<lambda>t argv (k, c). case mc_exec mc t argv k of (r, k') \<Rightarrow> (r, k', c)),
     mc_lookup = mc_lookup mc, mc_env = mc_env mc, mc_getuid = mc_getuid mc, mc_show_io = mc_show_io mc\<rparr>"

text \<open>The processes of the logged writes that succeeded.\<close>

definition moved_pids :: "'k sysfs \<Rightarrow> (path \<times> nat \<times> 'k) list \<Rightarrow> nat list" where
  "moved_pids sf writes = map (\<lambda>(f, pid, k). pid) (filter (\<lambda>(f, pid, k). fst (sf_write_pid sf f pid k) = Moved) writes)"

lemma moved_pids_append [simp]: "moved_pids sf (l @ l') = moved_pids sf l @ moved_pids sf l'"
  by (simp add: moved_pids_def)

definition kill_argv :: "socket_entry \<Rightarrow> string list" where
  "kill_argv s = [''ss'', ''-K'', if se_proto s = ''udp'' then ''-u'' else ''-t'', ss_kill_filter s]"

definition to_reset :: "nat list \<Rightarrow> socket_entry \<Rightarrow> bool" where
  "to_reset moved s \<longleftrightarrow> (\<exists>p \<in> set (se_pids s). p \<in> set moved) \<and> \<not> is_local_destination (sa_ip (se_peer s))"

section \<open>Moving\<close>

lemma move_all_moved:
  assumes "move_all (log_sys sf) sh file batch moved (k, l) = (Inr moved', k', l')"
  shows "\<exists>new. l' = l @ new \<and> moved' = moved @ moved_pids sf new"
  using assms
proof (induction batch arbitrary: moved k l)
  case (Cons pid batch)
  obtain res k1 where w: "sf_write_pid sf file pid k = (res, k1)" by fastforce
  then have "sf_write_pid (log_sys sf) file pid (k, l) = (res, k1, l @ [(file, pid, k)])" by (simp add: log_sys_def)
  with Cons.prems have rest: "move_all (log_sys sf) sh file batch (moved @ moved_pids sf [(file, pid, k)]) (k1, l @ [(file, pid, k)]) =
      (Inr moved', k', l')"
    by (cases res) (simp_all add: moved_pids_def w)
  from Cons.IH [OF rest] obtain new where new: "l' = (l @ [(file, pid, k)]) @ new"
    "moved' = (moved @ moved_pids sf [(file, pid, k)]) @ moved_pids sf new" by blast
  show ?case by (rule exI [of _ "[(file, pid, k)] @ new"]) (simp only: new moved_pids_append append_assoc)
qed (simp add: moved_pids_def)

lemma move_rounds_moved:
  assumes "move_rounds (log_sys sf) sh uid file roots rounds moved (k, l) = (Inr moved', k', l')"
  shows "\<exists>new. l' = l @ new \<and> moved' = moved @ moved_pids sf new"
  using assms
proof (induction rounds arbitrary: moved k l)
  case (Suc rounds)
  let ?batch = "filter (\<lambda>p. p \<notin> set moved \<and> process_uid (log_sys sf) p (k, l) = Some uid)
    (descendants roots (process_table (log_sys sf) (k, l)))"
  show ?case
  proof (cases "?batch = []")
    case True
    with Suc.prems show ?thesis by (simp add: moved_pids_def)
  next
    case False
    obtain res k1 l1 where ma: "move_all (log_sys sf) sh file ?batch moved (k, l) = (res, k1, l1)"
      by (rule prod_cases3)
    with False Suc.prems obtain m1 where res: "res = Inr m1"
      and rest: "move_rounds (log_sys sf) sh uid file roots rounds m1 (k1, l1) = (Inr moved', k', l')"
      by (cases res) (simp_all add: Let_def)
    from move_all_moved [OF ma [unfolded res]] Suc.IH [OF rest] show ?thesis by (metis append_assoc moved_pids_append)
  qed
qed (simp add: moved_pids_def)

text \<open>Moving runs no command.\<close>

lemma move_all_silent: "move_all (log_sys (mc_sys (log_output mc))) sh file batch moved ((k, c), l) = (r, k', l') \<Longrightarrow> snd k' = c"
proof (induction batch arbitrary: moved k l)
  case (Cons pid batch)
  obtain res k1 where w: "sf_write_pid (mc_sys mc) file pid k = (res, k1)" by fastforce
  then have "sf_write_pid (log_sys (mc_sys (log_output mc))) file pid ((k, c), l) = (res, (k1, c), l @ [(file, pid, k, c)])"
    by (simp add: log_sys_def log_output_def)
  with Cons show ?case by (cases res) (auto split: prod.splits)
qed auto

lemma move_rounds_silent:
  "move_rounds (log_sys (mc_sys (log_output mc))) sh uid file roots rounds moved ((k, c), l) = (r, k', l') \<Longrightarrow> snd k' = c"
proof (induction rounds arbitrary: moved k l)
  case (Suc rounds)
  let ?sf = "log_sys (mc_sys (log_output mc))"
  let ?batch = "filter (\<lambda>p. p \<notin> set moved \<and> process_uid ?sf p ((k, c), l) = Some uid)
    (descendants roots (process_table ?sf ((k, c), l)))"
  obtain res k1 c1 l1 where ma: "move_all ?sf sh file ?batch moved ((k, c), l) = (res, (k1, c1), l1)"
    by (cases "move_all ?sf sh file ?batch moved ((k, c), l)") fastforce
  have c1: "c1 = c" using move_all_silent [OF ma] by simp
  show ?case
  proof (cases "?batch = []")
    case True
    with Suc.prems show ?thesis by auto
  next
    case False
    show ?thesis
    proof (cases res)
      case (Inl e)
      with Suc.prems ma c1 False have "k' = (k1, c)" by (simp add: Let_def)
      then show ?thesis by simp
    next
      case (Inr m1)
      with Suc.prems ma c1 False have "move_rounds ?sf sh uid file roots rounds m1 ((k1, c), l1) = (r, k', l')" by (simp add: Let_def)
      then show ?thesis by (rule Suc.IH)
    qed
  qed
qed auto

section \<open>Resetting\<close>

lemma log_output_run:
  "mc_output (log_machine (log_output mc)) argv ((k, c), l) = (fst (mc_output mc argv k), (snd (mc_output mc argv k), c @ [(argv, fst (mc_output mc argv k))]), l)"
  by (simp add: log_machine_def log_output_def split: prod.split)

lemma reset_loop_commands:
  assumes "reset_loop (mc_output (log_machine (log_output mc))) moved ls n ((k, c), l) = (m, (k', c'), l')"
  shows "l' = l \<and> (\<exists>new. c' = c @ new \<and> map fst new = map kill_argv (filter (to_reset moved) (List.map_filter parse_ss_line ls)))"
  using assms
proof (induction ls arbitrary: n k c)
  case (Cons line ls)
  show ?case
  proof (cases "parse_ss_line line")
    case None
    with Cons show ?thesis by (simp add: List.map_filter_simps)
  next
    case (Some sock)
    show ?thesis
    proof (cases "to_reset moved sock")
      case False
      then have "reset_loop (mc_output (log_machine (log_output mc))) moved ls n ((k, c), l) = (m, (k', c'), l')"
        using Cons.prems Some by (auto simp: to_reset_def list_ex_iff split: if_splits)
      from Cons.IH [OF this] False Some show ?thesis by (simp add: List.map_filter_simps)
    next
      case True
      let ?r = "mc_output mc (kill_argv sock) k"
      have "\<exists>n'. reset_loop (mc_output (log_machine (log_output mc))) moved ls n' ((snd ?r, c @ [(kill_argv sock, fst ?r)]), l) = (m, (k', c'), l')"
        using Cons.prems Some True
        by (auto simp: to_reset_def list_ex_iff kill_argv_def log_output_run Let_def split: if_splits sum.splits prod.splits bool.splits)
      then obtain n' where rest: "reset_loop (mc_output (log_machine (log_output mc))) moved ls n' ((snd ?r, c @ [(kill_argv sock, fst ?r)]), l) =
          (m, (k', c'), l')" by blast
      from Cons.IH [OF rest] obtain new where "l' = l" "c' = c @ ((kill_argv sock, fst ?r) # new)"
        "map fst new = map kill_argv (filter (to_reset moved) (List.map_filter parse_ss_line ls))" by auto
      with True Some show ?thesis
        by (intro conjI exI [of _ "(kill_argv sock, fst ?r) # new"]) (simp_all add: List.map_filter_simps)
    qed
  qed
qed (simp add: List.map_filter_simps)

section \<open>Properties\<close>

text \<open>C33: Attaching with a reset resets exactly the right connections: when it succeeds, it has run the
  listing of \<open>ss\<close> and then, in the order of the listing, one \<open>ss -K\<close> for every listed socket that
  belongs to a process it has moved and whose peer the tunnel would not exempt, and no other
  command.\<close>

theorem attach_resets:
  assumes "attach (log_machine (log_output mc)) uid hold roots True ((k, []), []) = ((out, Inr ()), (k', cmds), writes)"
  shows "\<exists>success listing kills. cmds = ([''ss'', ''-tunpH''], Inr (success, listing)) # kills \<and>
    map fst kills = map kill_argv (filter (to_reset (moved_pids (mc_sys (log_output mc)) writes))
      (List.map_filter parse_ss_line (str_lines listing)))"
proof -
  let ?mc = "log_machine (log_output mc)" and ?ss = "[''ss'', ''-tunpH'']"
  note at = assms [unfolded attach_def Let_def]
  from at obtain scope where scope: "mc_canonicalize ?mc hold ((k, []), []) = Inr scope" and uid: "uid \<noteq> 0"
    by (cases "mc_canonicalize ?mc hold ((k, []), [])") (auto split: if_splits)
  with at have slice: "prefix (user_service_cgroup uid @ [SLICE]) scope" "scope \<noteq> user_service_cgroup uid @ [SLICE]"
    by (auto split: if_splits)
  note at = at [unfolded scope sum.case]
  obtain u where roots: "check_roots (mc_sys ?mc) uid roots ((k, []), []) = Inr u"
    using at uid slice by (cases "check_roots (mc_sys ?mc) uid roots ((k, []), [])") (auto split: if_splits)
  obtain r k2 l2 where mr: "move_rounds (mc_sys ?mc) (mc_show_io ?mc) uid (scope @ [''cgroup.procs'']) roots 5 [] ((k, []), []) = (r, k2, l2)"
    by (rule prod_cases3)
  obtain moved where r: "r = Inr moved"
    using at uid slice roots mr by (cases r) (auto split: if_splits)
  have sys: "mc_sys ?mc = log_sys (mc_sys (log_output mc))" by (simp add: log_machine_def)
  from move_rounds_moved [OF mr [unfolded r sys]] have moved: "moved = moved_pids (mc_sys (log_output mc)) l2" by (simp add: moved_pids_def)
  obtain k3 where k2: "k2 = (k3, [])"
    using move_rounds_silent [OF mr [unfolded sys]] by (cases k2) simp
  let ?r = "mc_output mc ?ss k3"
  have listing: "mc_output ?mc ?ss ((k3, []), l2) = (fst ?r, (snd ?r, [(?ss, fst ?r)]), l2)" by (simp add: log_output_run)
  obtain success listed where res: "fst ?r = Inr (success, listed)"
    using at uid slice roots mr r k2 listing by (cases "fst ?r") (auto split: if_splits)
  obtain m k4 c4 l4 where rl: "reset_loop (mc_output ?mc) moved (str_lines listed) 0 ((snd ?r, [(?ss, fst ?r)]), l2) = (m, (k4, c4), l4)"
    by (cases "reset_loop (mc_output ?mc) moved (str_lines listed) 0 ((snd ?r, [(?ss, fst ?r)]), l2)") fastforce
  from reset_loop_commands [OF rl] obtain kills where kills: "l4 = l2" "c4 = [(?ss, fst ?r)] @ kills"
    "map fst kills = map kill_argv (filter (to_reset moved) (List.map_filter parse_ss_line (str_lines listed)))" by blast
  have "cmds = c4" "writes = l4"
    using at uid slice roots mr r k2 listing res rl by simp_all
  with kills res moved show ?thesis by auto
qed

text \<open>The machine with one process, number 7, which has the connection of \<open>sample_line\<close>.\<close>

definition demo_connected :: "unit machine" where
  "demo_connected = demo_machine\<lparr>mc_output := \<lambda>argv k. (Inr (True, if argv = [''ss'', ''-tunpH''] then sample_line else []), k)\<rparr>"

lemma demo_connected_sys: "process_uid (log_sys (mc_sys (log_output demo_connected))) pid s = Some 1000"
  "process_table (log_sys (mc_sys (log_output demo_connected))) s = []"
  "sf_write_pid (log_sys (mc_sys (log_output demo_connected))) f pid (((), c), l) = (Moved, ((), c), l @ [(f, pid, (), c)])"
proof -
  obtain u c l where s: "s = ((u, c), l)" by (metis prod.collapse)
  have "process_uid (mc_sys (log_output demo_connected)) pid (u, c) = process_uid (mc_sys demo_machine) pid u"
    by (simp add: process_uid_def log_output_def demo_connected_def)
  then show "process_uid (log_sys (mc_sys (log_output demo_connected))) pid s = Some 1000"
    by (simp add: s process_uid_log demo_owner)
  show "process_table (log_sys (mc_sys (log_output demo_connected))) s = []"
    by (simp add: s process_table_def log_sys_def log_output_def demo_connected_def demo_machine_def List.map_filter_simps)
qed (simp add: log_sys_def log_output_def demo_connected_def demo_machine_def)

lemma demo_connected_moves:
  "move_rounds (log_sys (mc_sys (log_output demo_connected))) sh 1000 f [7] 5 [] (((), []), []) = (Inr [7], ((), []), [(f, 7, (), [])])"
proof -
  have tree: "descendants [7] [] = [7]" by (simp add: descendants_def descend.simps add_children_def)
  have "move_rounds (log_sys (mc_sys (log_output demo_connected))) sh 1000 f [7] (Suc (Suc n)) [] (((), []), []) =
      (Inr [7], ((), []), [(f, 7, (), [])])" for n
    by (cases n) (simp_all add: demo_connected_sys tree Let_def)
  from this [of 3] show ?thesis by (simp add: numeral_eq_Suc)
qed

lemma demo_connected_attach:
  "\<exists>out cmds f. attach (log_machine (log_output demo_connected)) 1000 ''h'' [7] True (((), []), []) =
     ((out, Inr ()), ((), cmds), [(f, 7, (), [])]) \<and> hd cmds = ([''ss'', ''-tunpH''], Inr (True, sample_line))"
proof -
  let ?mc = "log_machine (log_output demo_connected)" and ?ss = "[''ss'', ''-tunpH'']"
  have can: "mc_canonicalize ?mc ''h'' (((), []), []) = Inr demo_scope"
    by (simp add: log_machine_def log_output_def demo_connected_def demo_machine_def)
  have sys: "mc_sys ?mc = log_sys (mc_sys (log_output demo_connected))" by (simp add: log_machine_def)
  have roots: "check_roots (log_sys (mc_sys (log_output demo_connected))) 1000 [7] (((), []), []) = Inr ()"
    by (simp add: demo_connected_sys)
  have listing: "mc_output ?mc ?ss (((), []), l) = (Inr (True, sample_line), ((), [(?ss, Inr (True, sample_line))]), l)" for l
    by (simp add: log_output_run) (simp add: demo_connected_def)
  have pre: "prefix (user_service_cgroup 1000 @ [SLICE]) demo_scope" "demo_scope \<noteq> user_service_cgroup 1000 @ [SLICE]"
    by (simp_all add: demo_scope_def)
  let ?f = "demo_scope @ [''cgroup.procs'']"
  obtain m k c l where rl: "reset_loop (mc_output ?mc) [7] (str_lines sample_line) 0
      (((), [(?ss, Inr (True, sample_line))]), [(?f, 7, (), [])]) = (m, (k, c), l)"
    by (metis prod.collapse)
  from reset_loop_commands [OF rl] obtain new where "l = [(?f, 7, (), [])]" "c = [(?ss, Inr (True, sample_line))] @ new" by blast
  then show ?thesis
    unfolding attach_def Let_def can sum.case sys roots demo_connected_moves using pre rl listing by simp
qed

theorem attach_resets_witness:
  "\<exists>s. parse_ss_line sample_line = Some s \<and> (\<exists>out cmds writes.
     attach (log_machine (log_output demo_connected)) 1000 ''h'' [7] True (((), []), []) = ((out, Inr ()), ((), cmds), writes) \<and>
     map fst cmds = [[''ss'', ''-tunpH''], kill_argv s])"
proof -
  obtain out cmds f where at: "attach (log_machine (log_output demo_connected)) 1000 ''h'' [7] True (((), []), []) =
      ((out, Inr ()), ((), cmds), [(f, 7, (), [])])" and hd: "hd cmds = ([''ss'', ''-tunpH''], Inr (True, sample_line))"
    using demo_connected_attach by blast
  obtain s where s: "parse_ss_line sample_line = Some s" "se_peer s = socket_new (V6 0x2001 0xdb8 0 0 0 0 0 1) 443"
      "7 \<in> set (se_pids s)" using sample_line_parsed by blast
  have "str_lines sample_line = [sample_line]" by (simp add: sample_line_def str_lines_def split_on_def strip_cr_def strip_suffix_def)
  moreover have "moved_pids (mc_sys (log_output demo_connected)) [(f, 7, (), [])] = [7]"
    by (simp add: moved_pids_def log_output_def demo_connected_def demo_machine_def)
  moreover have "to_reset [7] s" using s by (simp add: to_reset_def socket_new_def)
  ultimately have "map fst cmds = [[''ss'', ''-tunpH''], kill_argv s]"
    using attach_resets [OF at] hd s(1) by (auto simp: List.map_filter_simps)
  with at s(1) show ?thesis by (intro exI [of _ s] exI [of _ out] exI [of _ cmds] exI [of _ "[(f, 7, (), [])]"] conjI)
qed

end
