(* ===== verification/Core_Tests.thy ===== *)
theory Core_Tests
  imports Config
begin

text \<open>
  The unit tests of \<open>crates/dns-core\<close> on the model: each test function of the \<open>tests\<close> modules
  of \<open>policy.rs\<close>, \<open>provider.rs\<close>, \<open>cache.rs\<close>, \<open>config.rs\<close> and \<open>resolver.rs\<close> whose code is modelled is
  a definition, the conjunction of its assertions, and a lemma that it passes. They check the
  model against what its authors expect of the code. \<open>Name::from_str(s)\<close> is the text \<open>s\<close> of a fully qualified name,
  so \<open>to_ascii\<close> is the identity on it.
\<close>

section \<open>\<open>policy.rs\<close>\<close>

definition test_route :: "policy \<Rightarrow> string \<Rightarrow> route" where
  "test_route p host = policy_route id p host"

lemmas route_eval = test_route_def policy_route_def normalise_def normalise_str_def policy_default_def
  suffix_matches_def is_builtin_local_def LOCAL_SUFFIXES_def is_private_reverse_def is_private_v4_octets_def
  str_defs Let_def

definition public_names_default_to_doh :: bool where
  "public_names_default_to_doh =
     (let p = policy_default in
      test_route p ''example.com.'' = Doh \<and> test_route p ''cdn.example.co.uk.'' = Doh)"

lemma public_names_default_to_doh: public_names_default_to_doh
  by code_simp

definition ordinary_browsing_needs_no_configuration :: bool where
  "ordinary_browsing_needs_no_configuration =
     (let p = policy_default in
      force_doh p = [] \<and>
      list_all (\<lambda>host. test_route p host = Doh)
        [''youtube.com.'', ''www.youtube.com.'', ''googlevideo.com.'', ''rr1---sn-4g5e6nsz.googlevideo.com.'',
         ''i.ytimg.com.'', ''yt3.ggpht.com.'', ''github.com.'', ''en.wikipedia.org.''])"

lemma ordinary_browsing_needs_no_configuration: ordinary_browsing_needs_no_configuration
  by code_simp

definition local_suffixes_stay_on_system_resolver :: bool where
  "local_suffixes_stay_on_system_resolver =
     list_all (\<lambda>host. test_route policy_default host = SystemUpstream)
       [''printer.local.'', ''nas.lan.'', ''router.home.arpa.'', ''host.internal.'']"

lemma local_suffixes_stay_on_system_resolver: local_suffixes_stay_on_system_resolver
  by code_simp

definition single_label_names_stay_local :: bool where
  "single_label_names_stay_local \<longleftrightarrow> test_route policy_default ''router.'' = SystemUpstream"

lemma single_label_names_stay_local: single_label_names_stay_local
  by code_simp

definition private_reverse_lookups_stay_local :: bool where
  "private_reverse_lookups_stay_local =
     list_all (\<lambda>host. test_route policy_default host = SystemUpstream)
       [''1.0.42.10.in-addr.arpa.'', ''5.1.168.192.in-addr.arpa.'', ''8.0.16.172.in-addr.arpa.'', ''1.0.0.127.in-addr.arpa.'']"

lemma private_reverse_lookups_stay_local: private_reverse_lookups_stay_local
  by code_simp

definition public_reverse_lookups_use_doh :: bool where
  "public_reverse_lookups_use_doh \<longleftrightarrow>
     test_route policy_default ''34.216.184.93.in-addr.arpa.'' = Doh \<and>
     test_route policy_default ''8.0.32.172.in-addr.arpa.'' = Doh"

lemma public_reverse_lookups_use_doh: public_reverse_lookups_use_doh
  by code_simp

definition suffix_match_respects_label_boundary :: bool where
  "suffix_match_respects_label_boundary \<longleftrightarrow>
     suffix_matches ''cdn.example.com'' ''example.com'' \<and>
     suffix_matches ''example.com'' ''example.com'' \<and>
     \<not> suffix_matches ''notexample.com'' ''example.com'' \<and>
     \<not> suffix_matches ''example.com.evil.test'' ''example.com''"

lemma suffix_match_respects_label_boundary: suffix_match_respects_label_boundary
  by code_simp

definition wildcard_matches_subdomains_only :: bool where
  "wildcard_matches_subdomains_only \<longleftrightarrow>
     suffix_matches ''cdn.example.com'' ''*.example.com'' \<and> \<not> suffix_matches ''example.com'' ''*.example.com''"

lemma wildcard_matches_subdomains_only: wildcard_matches_subdomains_only
  by code_simp

definition force_local_beats_force_doh :: bool where
  "force_local_beats_force_doh =
     (let p = \<lparr>default_doh = True, force_doh = [''example.com''], force_local = [''dev.example.com'']\<rparr> in
      test_route p ''dev.example.com.'' = SystemUpstream \<and> test_route p ''www.example.com.'' = Doh)"

lemma force_local_beats_force_doh: force_local_beats_force_doh
  by code_simp

definition force_doh_applies_when_default_is_local :: bool where
  "force_doh_applies_when_default_is_local =
     (let p = set_force_doh (policy_default\<lparr>default_doh := False\<rparr>) [''Example.COM.''] in
      test_route p ''cdn.example.com.'' = Doh \<and> test_route p ''other.test.'' = SystemUpstream)"

lemma force_doh_applies_when_default_is_local: force_doh_applies_when_default_is_local
  by code_simp

section \<open>\<open>provider.rs\<close>\<close>

definition extracts_host_from_url :: bool where
  "extracts_host_from_url \<longleftrightarrow>
     provider_host cloudflare = Some ''cloudflare-dns.com'' \<and>
     provider_host google = Some ''dns.google'' \<and>
     provider_host (provider_new ''p'' ''https://example.com:8443/dns-query'' []) = Some ''example.com'' \<and>
     provider_host (provider_new ''p'' ''https://example.com'' []) = Some ''example.com''"

lemma extracts_host_from_url: extracts_host_from_url
  by (simp add: extracts_host_from_url_def provider_host_def preset_defs)

definition rejects_non_https_endpoint :: bool where
  "rejects_non_https_endpoint \<longleftrightarrow> provider_host (provider_new ''p'' ''http://example.com/dns-query'' []) = None"

lemma rejects_non_https_endpoint: rejects_non_https_endpoint
  by (simp add: rejects_non_https_endpoint_def provider_host_def)

definition bootstrap_addrs_use_https_port :: bool where
  "bootstrap_addrs_use_https_port =
     (let addrs = bootstrap_addrs cloudflare in
      list_all (\<lambda>a. sa_port a = 443) addrs \<and> list_ex (\<lambda>a. show_ip (sa_ip a) = ''1.1.1.1'') addrs)"

lemma bootstrap_addrs_use_https_port: bootstrap_addrs_use_https_port
  by (simp add: bootstrap_addrs_use_https_port_def bootstrap_addrs_def preset_bootstrap socket_new_def show_quad_def show_nat_eval)

definition malformed_bootstrap_entries_are_dropped :: bool where
  "malformed_bootstrap_entries_are_dropped =
     (let p = provider_new ''p'' ''https://example.com/dns-query'' [''1.1.1.1'', ''not-an-ip''] in
      length (p_bootstrap p) = 1)"

lemma malformed_bootstrap_entries_are_dropped: malformed_bootstrap_entries_are_dropped
  by (simp add: malformed_bootstrap_entries_are_dropped_def List.map_filter_simps parsed_literals)
    (simp add: ip_eval)

section \<open>\<open>cache.rs\<close>\<close>

definition response_with_ttl :: "string \<Rightarrow> u32 \<Rightarrow> (string, unit) message" where
  "response_with_ttl host ttl = message_new\<lparr>m_rcode := NoError,
     m_answers := [\<lparr>rr_name = host, rr_type = RT_A, rr_ttl = ttl, rr_data = Some (RD_A 93 184 216 34)\<rparr>]\<rparr>"

definition test_key :: "string \<Rightarrow> string key" where
  "test_key host = key_new to_ascii_lowercase host RT_A"

definition test_insert :: "string \<Rightarrow> (string, unit) message \<Rightarrow> nat \<Rightarrow> (string, unit) cache \<Rightarrow> (string, unit) cache" where
  "test_insert host m now c = fst (cache_insert_at c (test_key host) m now)"

lemmas cache_test_eval = test_insert_def test_key_def key_new_def response_with_ttl_def message_new_def
  cache_insert_at_def cache_get_at_def cacheable_ttl_def cache_new_def cache_len_def cache_evict_one_def
  entry_remaining_def checked_sub_def spend_ttl_def saturating_sub32_def clamp_def
  MIN_TTL_def MAX_TTL_def NEGATIVE_TTL_def secs_def as_secs_def to_ascii_lowercase_def lower_char_def

definition stores_and_retrieves :: bool where
  "stores_and_retrieves =
     (let c = test_insert ''example.com.'' (response_with_ttl ''example.com.'' 300) 0 (cache_new 16) in
      map_option (\<lambda>got. length (m_answers got)) (cache_get_at c (test_key ''example.com.'') 0) = Some 1)"

lemma stores_and_retrieves: stores_and_retrieves
  by (simp add: stores_and_retrieves_def cache_test_eval)

definition lookup_is_case_insensitive :: bool where
  "lookup_is_case_insensitive =
     (let c = test_insert ''Example.COM.'' (response_with_ttl ''example.com.'' 300) 0 (cache_new 16) in
      cache_get_at c (test_key ''example.com.'') 0 \<noteq> None)"

lemma lookup_is_case_insensitive: lookup_is_case_insensitive
  by (simp add: lookup_is_case_insensitive_def cache_test_eval char_of_letters)

definition entry_expires_after_ttl :: bool where
  "entry_expires_after_ttl =
     (let c = test_insert ''example.com.'' (response_with_ttl ''example.com.'' 30) 0 (cache_new 16) in
      cache_get_at c (test_key ''example.com.'') (secs 10) \<noteq> None \<and>
      cache_get_at c (test_key ''example.com.'') (secs 31) = None)"

lemma entry_expires_after_ttl: entry_expires_after_ttl
  by (simp add: entry_expires_after_ttl_def cache_test_eval)

definition ttl_counts_down_while_cached :: bool where
  "ttl_counts_down_while_cached =
     (let c = test_insert ''example.com.'' (response_with_ttl ''example.com.'' 300) 0 (cache_new 16) in
      map_option (\<lambda>got. rr_ttl (m_answers got ! 0)) (cache_get_at c (test_key ''example.com.'') (secs 100)) = Some 200)"

lemma ttl_counts_down_while_cached: ttl_counts_down_while_cached
  by (simp add: ttl_counts_down_while_cached_def cache_test_eval)

definition ttl_is_clamped_to_max :: bool where
  "ttl_is_clamped_to_max \<longleftrightarrow>
     snd (cache_insert_at (cache_new 16) (test_key ''example.com.'') (response_with_ttl ''example.com.'' 86400) 0) = Some MAX_TTL"

lemma ttl_is_clamped_to_max: ttl_is_clamped_to_max
  by (simp add: ttl_is_clamped_to_max_def cache_test_eval)

definition ttl_is_clamped_to_min :: bool where
  "ttl_is_clamped_to_min \<longleftrightarrow>
     snd (cache_insert_at (cache_new 16) (test_key ''example.com.'') (response_with_ttl ''example.com.'' 1) 0) = Some MIN_TTL"

lemma ttl_is_clamped_to_min: ttl_is_clamped_to_min
  by (simp add: ttl_is_clamped_to_min_def cache_test_eval)

definition servfail_is_not_cached :: bool where
  "servfail_is_not_cached =
     (let m = message_new\<lparr>m_rcode := ServFail\<rparr> :: (string, unit) message;
          (c, ttl) = cache_insert_at (cache_new 16) (test_key ''example.com.'') m 0 in
      ttl = None \<and> cache_get_at c (test_key ''example.com.'') 0 = None)"

lemma servfail_is_not_cached: servfail_is_not_cached
  by (simp add: servfail_is_not_cached_def cache_test_eval)

definition nxdomain_gets_negative_ttl :: bool where
  "nxdomain_gets_negative_ttl =
     (let m = message_new\<lparr>m_rcode := NXDomain\<rparr> :: (string, unit) message in
      snd (cache_insert_at (cache_new 16) (test_key ''nope.invalid.'') m 0) = Some NEGATIVE_TTL)"

lemma nxdomain_gets_negative_ttl: nxdomain_gets_negative_ttl
  by (simp add: nxdomain_gets_negative_ttl_def cache_test_eval)

definition evicts_when_over_capacity :: bool where
  "evicts_when_over_capacity =
     (let c = test_insert ''c.test.'' (response_with_ttl ''c.test.'' 600) 0
                (test_insert ''b.test.'' (response_with_ttl ''b.test.'' 10) 0
                  (test_insert ''a.test.'' (response_with_ttl ''a.test.'' 600) 0 (cache_new 2))) in
      cache_len c = 2 \<and>
      cache_get_at c (test_key ''b.test.'') 0 = None \<and>
      cache_get_at c (test_key ''a.test.'') 0 \<noteq> None \<and>
      cache_get_at c (test_key ''c.test.'') 0 \<noteq> None)"

lemma evicts_when_over_capacity: evicts_when_over_capacity
  by (simp add: evicts_when_over_capacity_def cache_test_eval char_of_letters)

definition purge_drops_only_expired :: bool where
  "purge_drops_only_expired =
     (let c = test_insert ''a.test.'' (response_with_ttl ''a.test.'' 600) 0 (cache_new 16) in
      cache_len (cache_purge_expired c 0) = 1)"

lemma purge_drops_only_expired: purge_drops_only_expired
  by (simp add: purge_drops_only_expired_def cache_purge_expired_def cache_test_eval)

section \<open>\<open>config.rs\<close>\<close>

definition process_name_defaults_to_command_basename :: bool where
  "process_name_defaults_to_command_basename \<longleftrightarrow>
     process_name (tunnel_app_new ''X'' ''/opt/foo/bin/foo'') = ''foo'' \<and>
     process_name ((tunnel_app_new ''Y'' ''flatpak'')\<lparr>ta_process := Some ''real''\<rparr>) = ''real''"

lemma process_name_defaults_to_command_basename: process_name_defaults_to_command_basename
  by code_simp

text \<open>The path of the test is absent on the disk; the codec is not called.\<close>

definition missing_file_yields_defaults :: bool where
  "missing_file_yields_defaults =
     (let w = \<lparr>w_fs = [[] \<mapsto> Dir], w_faults = [], w_trace = []\<rparr> in
      case fst (load (\<lambda>_. Inl []) [''nonexistent'', ''detour'', ''config.toml''] w) of
        Inr c \<Rightarrow> c_profiles c = [] \<and> length (c_tunnel_apps c) = 2
      | Inl _ \<Rightarrow> False)"

lemma missing_file_yields_defaults: missing_file_yields_defaults
proof -
  let ?w = "\<lparr>w_fs = [[] \<mapsto> Dir], w_faults = [], w_trace = []\<rparr>" and ?p = "[''nonexistent'', ''detour'', ''config.toml'']"
  have "stat (w_fs ?w) ?p = None" by (subst stat_self) (simp_all add: is_link_def)
  then have "read_to_string ?p ?w = (Inl NotFound, ?w)"
    unfolding read_to_string_def query_def by (intro sys_quiet_error) (simp_all add: quiet_def)
  then show ?thesis
    by (simp add: missing_file_yields_defaults_def load_def attempt_def bind_io_def return_io_def config_default_def default_tunnel_apps_def)
qed

definition test_profile :: "string \<Rightarrow> string \<Rightarrow> string \<Rightarrow> app_profile" where
  "test_profile pid name domain = \<lparr>ap_id = pid, ap_name = name, ap_domains = [domain],
     ap_launch_command = None, ap_launch_args = [], ap_notes = None\<rparr>"

definition profile_domains_are_forced_onto_doh :: bool where
  "profile_domains_are_forced_onto_doh =
     (let config = config_default\<lparr>c_policy := (c_policy config_default)\<lparr>default_doh := False\<rparr>,
            c_profiles := [test_profile ''game'' ''Game'' ''*.example.com'']\<rparr>;
          policy = policy_for config (Some ''game'') in
      policy_route id policy ''cdn.example.com.'' = Doh \<and>
      policy_route id policy ''unrelated.test.'' = SystemUpstream)"

lemma test_policy:
  "policy_for (config_default\<lparr>c_policy := p, c_profiles := [test_profile pid n d]\<rparr>) (Some pid) =
     set_force_doh p (force_doh p @ [d])"
  by (simp add: policy_for_def profile_def test_profile_def)

lemma profile_domains_are_forced_onto_doh: profile_domains_are_forced_onto_doh
proof -
  have "policy_route id (set_force_doh (policy_default\<lparr>default_doh := False\<rparr>) [''*.example.com'']) ''cdn.example.com.'' = Doh"
    "policy_route id (set_force_doh (policy_default\<lparr>default_doh := False\<rparr>) [''*.example.com'']) ''unrelated.test.'' = SystemUpstream"
    by code_simp+
  then show ?thesis
    unfolding profile_domains_are_forced_onto_doh_def Let_def test_policy by (simp add: config_default_def policy_default_def)
qed

definition profile_domains_add_to_user_force_doh_list :: bool where
  "profile_domains_add_to_user_force_doh_list =
     (let config = config_default\<lparr>c_policy := (c_policy config_default)\<lparr>force_doh := [''mine.example'']\<rparr>,
            c_profiles := [test_profile ''p'' ''P'' ''game.example'']\<rparr>;
          policy = policy_for config (Some ''p'') in
      ''mine.example'' \<in> set (force_doh policy) \<and> ''game.example'' \<in> set (force_doh policy))"

lemma profile_domains_add_to_user_force_doh_list: profile_domains_add_to_user_force_doh_list
  unfolding profile_domains_add_to_user_force_doh_list_def Let_def test_policy
  by (simp add: set_force_doh_def normalise_str_def str_defs)

definition default_config_is_valid :: bool where
  "default_config_is_valid \<longleftrightarrow> validate config_default = Inr ()"

lemma default_config_is_valid: default_config_is_valid
  by (simp add: default_config_is_valid_def default_valid)

definition validation_rejects_settings_that_break_dns :: bool where
  "validation_rejects_settings_that_break_dns =
     (let c = config_default; first = hd (c_providers c); rest = tl (c_providers c);
          rejected = (\<lambda>c. case validate c of Inl _ \<Rightarrow> True | Inr _ \<Rightarrow> False) in
      rejected (c\<lparr>c_providers := []\<rparr>) \<and>
      rejected (c\<lparr>c_providers := first\<lparr>p_url := ''http://insecure.example/dns-query''\<rparr> # rest\<rparr>) \<and>
      rejected (c\<lparr>c_providers := first\<lparr>p_bootstrap := []\<rparr> # rest\<rparr>) \<and>
      rejected (c\<lparr>c_listen := ''nonsense''\<rparr>))"

lemma rejected_iff: "(case validate c of Inl _ \<Rightarrow> True | Inr _ \<Rightarrow> False) \<longleftrightarrow> validate c \<noteq> Inr ()"
  by (simp split: sum.split)

lemma validation_rejects_settings_that_break_dns: validation_rejects_settings_that_break_dns
proof -
  have "provider_host (p\<lparr>p_url := ''http://insecure.example/dns-query''\<rparr>) = None" for p by (simp add: provider_host_def)
  moreover have "parse_socket ''nonsense'' = None"
    by (simp add: parse_socket_def read_socket_v4_def read_socket_v6_def ip_eval)
  ultimately show ?thesis
    by (simp add: validation_rejects_settings_that_break_dns_def Let_def rejected_iff validate_ok)
qed

definition presets_are_all_valid_and_exclude_family_filters :: bool where
  "presets_are_all_valid_and_exclude_family_filters \<longleftrightarrow>
     validate (config_default\<lparr>c_providers := presets\<rparr>) = Inr () \<and>
     list_all (\<lambda>p. \<not> str_contains ''family'' (p_url p)) presets"

lemma presets_are_all_valid_and_exclude_family_filters: presets_are_all_valid_and_exclude_family_filters
proof -
  have "validate (config_default\<lparr>c_providers := presets\<rparr>) = Inr ()"
  proof -
    have "\<forall>p \<in> set presets. trim (p_name p) = p_name p" by (simp add: presets_def preset_defs trim_word is_ws_def)
    moreover have "parse_socket (c_listen config_default) \<noteq> None" using default_valid by (simp add: validate_ok)
    ultimately show ?thesis using presets_ok by (auto simp: validate_ok presets_def)
  qed
  moreover have "list_all (\<lambda>p. \<not> str_contains ''family'' (p_url p)) presets"
    by (simp add: presets_def preset_defs starts_with_def)
  ultimately show ?thesis by (simp add: presets_are_all_valid_and_exclude_family_filters_def)
qed

definition unknown_profile_leaves_policy_untouched :: bool where
  "unknown_profile_leaves_policy_untouched \<longleftrightarrow>
     force_doh (policy_for config_default (Some ''does-not-exist'')) = []"

lemma unknown_profile_leaves_policy_untouched: unknown_profile_leaves_policy_untouched
  by (simp add: unknown_profile_leaves_policy_untouched_def policy_for_def profile_def config_default_def policy_default_def)

section \<open>\<open>resolver.rs\<close>\<close>

definition build_query_sets_rfc8484_defaults :: bool where
  "build_query_sets_rfc8484_defaults =
     (let q = build_query ''example.com.'' RT_A :: (string, unit) message in
      m_id q = 0 \<and> m_rd q \<and> m_type q = MT_Query \<and> length (m_queries q) = 1 \<and> q_type (m_queries q ! 0) = RT_A)"

lemma build_query_sets_rfc8484_defaults: build_query_sets_rfc8484_defaults
  by (simp add: build_query_sets_rfc8484_defaults_def build_query_def)

text \<open>Any builder of HTTP clients.\<close>

definition rejects_empty_provider_list :: "'c client_builder \<Rightarrow> bool" where
  "rejects_empty_provider_list client_build =
     (case resolver_new client_build [] :: resolve_error + 'c doh_resolver \<times> (string, unit) cache of
        Inl NoProviders \<Rightarrow> True | _ \<Rightarrow> False)"

lemma rejects_empty_provider_list: "rejects_empty_provider_list client_build"
  by (simp add: rejects_empty_provider_list_def resolver_new_def resolver_with_capacity_def)

definition rejects_provider_without_https_endpoint :: "'c client_builder \<Rightarrow> bool" where
  "rejects_provider_without_https_endpoint client_build =
     (let bad = provider_new ''Bad'' ''http://insecure.example/dns-query'' [''1.2.3.4''] in
      case resolver_new client_build [bad] :: resolve_error + 'c doh_resolver \<times> (string, unit) cache of
        Inl (BadEndpoint _ _) \<Rightarrow> True | _ \<Rightarrow> False)"

lemma rejects_provider_without_https_endpoint: "rejects_provider_without_https_endpoint client_build"
  by (simp add: rejects_provider_without_https_endpoint_def resolver_new_def resolver_with_capacity_def
      build_upstream_def provider_host_def)

definition builds_with_default_providers :: bool where
  "builds_with_default_providers =
     (case resolver_new (\<lambda>pin. Inr ()) default_providers :: resolve_error + unit doh_resolver \<times> (string, unit) cache of
        Inr (r, _) \<Rightarrow> provider_names r = [''Cloudflare'', ''Quad9'', ''Google'']
      | Inl _ \<Rightarrow> False)"

lemma builds_with_default_providers: builds_with_default_providers
  by (simp add: builds_with_default_providers_def resolver_new_def resolver_with_capacity_def default_providers_def
      preset_defs build_upstream_def provider_host_def provider_names_def Let_def)

end
