(* ===== verification/Helper_Tests.thy ===== *)
theory Helper_Tests
  imports Helper Addr_Text
begin

text \<open>
  The unit tests of \<open>crates/dns-helper\<close> on the model, as in \<open>Core_Tests\<close>: those of \<open>dpi.rs\<close>,
  \<open>dpi_proxy.rs\<close>, \<open>upstream.rs\<close>, \<open>apps.rs\<close>, \<open>diagnose.rs\<close> and \<open>resolvconf.rs\<close>, and those
  of \<open>proxy.rs\<close> that do not depend on the DNS codec.
\<close>

section \<open>\<open>dpi.rs\<close>\<close>

text \<open>\<open>slice::windows\<close>.\<close>

definition windows :: "nat \<Rightarrow> 'a list \<Rightarrow> 'a list list" where
  "windows n xs = map (\<lambda>i. take n (drop i xs)) [0..<Suc (length xs) - n]"

text \<open>\<open>Iterator::position\<close>.\<close>

fun position :: "('a \<Rightarrow> bool) \<Rightarrow> 'a list \<Rightarrow> nat option" where
  "position p [] = None"
| "position p (x # xs) = (if p x then Some 0 else map_option Suc (position p xs))"

definition test_client_hello :: "string \<Rightarrow> bytes" where
  "test_client_hello host =
     (let sni = to_be_bytes (of_nat (length host + 3)) @ [0] @ to_be_bytes (of_nat (length host)) @ ascii host;
          ext = to_be_bytes EXT_SNI @ to_be_bytes (of_nat (length sni)) @ sni;
          body = [0x03, 0x03] @ replicate 32 0 @ [0] @ to_be_bytes 2 @ [0x13, 0x01] @ [1] @ [0] @
            to_be_bytes (of_nat (length ext)) @ ext;
          hs = HANDSHAKE_CLIENT_HELLO # [of_nat (length body div 65536), of_nat (length body div 256), of_nat (length body)] @ body in
      CONTENT_HANDSHAKE # [0x03, 0x01] @ to_be_bytes (of_nat (length hs)) @ hs)"

lemmas hello_eval = test_client_hello_def Let_def to_be_bytes_def EXT_SNI_def HANDSHAKE_CLIENT_HELLO_def CONTENT_HANDSHAKE_def
  ascii_def replicate_num TLS_HEADER_def

definition test_hello :: bytes where
  "test_hello = [22, 3, 1, 0, 71, 1, 0, 0, 67, 3, 3] @ replicate 32 0 @ [0, 0, 2, 19, 1, 1, 0, 0, 24, 0, 0, 0, 20, 0, 18, 0, 0, 15] @
     [119, 119, 119, 46, 121, 111, 117, 116, 117, 98, 101, 46, 99, 111, 109]"

lemma test_hello: "test_client_hello ''www.youtube.com'' = test_hello"
  by (simp add: hello_eval test_hello_def)

lemma test_offset: "sni_split_offset (drop 5 test_hello) = Some 63"
  by (simp add: sni_split_offset_def get_def u16be_def sni_loop.simps sni_name_offset_def hello_eval test_hello_def)

lemma test_fragments:
  "fragment_client_hello test_hello = [22, 3, 1, 0, 63] @ take 63 (drop 5 test_hello) @ [22, 3, 1, 0, 8] @ drop 68 test_hello"
proof -
  have "length test_hello = 76" "test_hello ! 0 = CONTENT_HANDSHAKE" "u16be test_hello 3 = Some 71"
    "test_hello ! 1 = 3" "test_hello ! 2 = 1"
    by (simp_all add: test_hello_def CONTENT_HANDSHAKE_def u16be_def get_def)
  then show ?thesis
    by (simp add: fragment_client_hello_def TLS_HEADER_def Let_def test_offset [simplified] tls_record_def to_be_bytes_def CONTENT_HANDSHAKE_def)
qed

definition finds_offset_inside_hostname :: bool where
  "finds_offset_inside_hostname =
     (let payload = drop TLS_HEADER (test_client_hello ''www.youtube.com'') in
      case (sni_split_offset payload, position (\<lambda>w. w = ascii ''www.youtube.com'') (windows 15 payload)) of
        (Some off, Some name_pos) \<Rightarrow> name_pos < off \<and> off < name_pos + 15
      | _ \<Rightarrow> False)"

lemma finds_offset_inside_hostname: finds_offset_inside_hostname
proof -
  have "position (\<lambda>w. w = ascii ''www.youtube.com'') (windows 15 (drop 5 test_hello)) = Some 56"
    by (simp add: windows_def test_hello_def ascii_def replicate_num upt_rec)
  then show ?thesis by (simp add: finds_offset_inside_hostname_def test_hello TLS_HEADER_def test_offset)
qed

definition fragmenting_produces_two_records_and_preserves_bytes :: bool where
  "fragmenting_produces_two_records_and_preserves_bytes =
     (let rec = test_client_hello ''www.youtube.com''; out = fragment_client_hello rec in
      out ! 0 = CONTENT_HANDSHAKE \<and>
      (case u16be out 3 of
         None \<Rightarrow> False
       | Some len1 \<Rightarrow>
           (let second = TLS_HEADER + len1 in
            out ! second = CONTENT_HANDSHAKE \<and>
            (case u16be out (second + 3) of
               None \<Rightarrow> False
             | Some len2 \<Rightarrow>
                 drop TLS_HEADER (take second out) @ take len2 (drop (second + TLS_HEADER) out) = drop TLS_HEADER rec))))"

lemma fragmenting_produces_two_records_and_preserves_bytes: fragmenting_produces_two_records_and_preserves_bytes
  unfolding fragmenting_produces_two_records_and_preserves_bytes_def test_hello Let_def test_fragments
  by (simp add: test_hello_def CONTENT_HANDSHAKE_def TLS_HEADER_def u16be_def get_def replicate_num)

definition split_falls_inside_hostname_so_name_is_severed :: bool where
  "split_falls_inside_hostname_so_name_is_severed =
     (let out = fragment_client_hello (test_client_hello ''www.youtube.com'') in
      case u16be out 3 of
        None \<Rightarrow> False
      | Some len1 \<Rightarrow> list_all (\<lambda>w. w \<noteq> ascii ''youtube'') (windows 7 (take (TLS_HEADER + len1) out)))"

lemma split_falls_inside_hostname_so_name_is_severed: split_falls_inside_hostname_so_name_is_severed
  unfolding split_falls_inside_hostname_so_name_is_severed_def test_hello Let_def test_fragments
  by (simp add: test_hello_def TLS_HEADER_def u16be_def get_def replicate_num windows_def upt_rec ascii_def)

definition non_tls_data_passes_through_unchanged :: bool where
  "non_tls_data_passes_through_unchanged =
     (let http = ascii (''CONNECT www.youtube.com:443 HTTP/1.1'' @ CRLF @ CRLF) in
      fragment_client_hello http = http \<and> fragment_client_hello [] = [] \<and> fragment_client_hello [0x16, 0x03] = [0x16, 0x03])"

lemma non_tls_data_passes_through_unchanged: non_tls_data_passes_through_unchanged
  by (simp add: non_tls_data_passes_through_unchanged_def fragment_client_hello_def TLS_HEADER_def CONTENT_HANDSHAKE_def ascii_def)

definition partial_record_is_not_reframed :: bool where
  "partial_record_is_not_reframed =
     (let rec = test_client_hello ''www.youtube.com''; truncated = take (length rec - 3) rec in
      fragment_client_hello truncated = truncated)"

lemma partial_record_is_not_reframed: partial_record_is_not_reframed
  unfolding partial_record_is_not_reframed_def test_hello Let_def
  by (simp add: test_hello_def fragment_client_hello_def TLS_HEADER_def CONTENT_HANDSHAKE_def u16be_def get_def replicate_num)

definition client_hello_without_sni_still_splits_safely :: bool where
  "client_hello_without_sni_still_splits_safely =
     (let body = [0x03, 0x03] @ replicate 32 0 @ [0] @ to_be_bytes 2 @ [0x13, 0x01] @ [1] @ [0] @ to_be_bytes 0;
          hs = HANDSHAKE_CLIENT_HELLO # [0, of_nat (length body div 256), of_nat (length body)] @ body;
          rec = [CONTENT_HANDSHAKE, 0x03, 0x01] @ to_be_bytes (of_nat (length hs)) @ hs;
          out = fragment_client_hello rec in
      out \<noteq> rec \<and> length rec < length out)"

lemma client_hello_without_sni_still_splits_safely: client_hello_without_sni_still_splits_safely
  by (simp add: client_hello_without_sni_still_splits_safely_def hello_eval fragment_client_hello_def u16be_def get_def
      sni_split_offset_def sni_loop.simps tls_record_def)

section \<open>\<open>dpi_proxy.rs\<close>\<close>

definition parses_connect_line :: bool where
  "parses_connect_line \<longleftrightarrow>
     parse_connect_target (''CONNECT www.youtube.com:443 HTTP/1.1'' @ CRLF @ ''Host: x'' @ CRLF @ CRLF) = Some ''www.youtube.com:443''"

lemma parses_connect_line: parses_connect_line
  by (simp add: parses_connect_line_def parse_connect_target_def CRLF_def str_defs strip_suffix_def char_of_letters parse_uint_def horner_def)

definition rejects_non_connect_and_malformed :: bool where
  "rejects_non_connect_and_malformed \<longleftrightarrow>
     parse_connect_target (''GET / HTTP/1.1'' @ CRLF @ CRLF) = None \<and>
     parse_connect_target (''CONNECT nohost HTTP/1.1'' @ CRLF @ CRLF) = None \<and>
     parse_connect_target (''CONNECT host:notaport HTTP/1.1'' @ CRLF @ CRLF) = None \<and>
     parse_connect_target [] = None"

lemma rejects_non_connect_and_malformed: rejects_non_connect_and_malformed
  by (simp add: rejects_non_connect_and_malformed_def parse_connect_target_def CRLF_def str_defs strip_suffix_def char_of_letters parse_uint_def horner_def)

definition accepts_ipv6_authority :: bool where
  "accepts_ipv6_authority \<longleftrightarrow>
     parse_connect_target (''CONNECT [2606:4700::1]:443 HTTP/1.1'' @ CRLF @ CRLF) = Some ''[2606:4700::1]:443''"

lemma accepts_ipv6_authority: accepts_ipv6_authority
  by (simp add: accepts_ipv6_authority_def parse_connect_target_def CRLF_def str_defs strip_suffix_def char_of_letters parse_uint_def horner_def)

section \<open>\<open>upstream.rs\<close>\<close>

definition empty_forwarder_reports_no_upstreams :: "udp \<Rightarrow> bool" where
  "empty_forwarder_reports_no_upstreams net =
     (let f = forwarder_new [] in
      forward net f (ascii ''anything'') = Inl NoUpstreams \<and> forwarder_is_empty f)"

lemma empty_forwarder_reports_no_upstreams: "empty_forwarder_reports_no_upstreams net"
  by (simp add: empty_forwarder_reports_no_upstreams_def forward_def forwarder_new_def forwarder_is_empty_def)

text \<open>On a network where nothing comes back from the reserved address.\<close>

definition unreachable_upstream_times_out_and_reports_failure :: "udp \<Rightarrow> bool" where
  "unreachable_upstream_times_out_and_reports_failure net =
     (case parse_socket ''203.0.113.1:53'' of
        None \<Rightarrow> False
      | Some dead \<Rightarrow> forward (net\<lparr>ud_recv := \<lambda>a q t. None\<rparr>) (forwarder_new [dead]) [0, 0, 1, 0] = Inl (AllFailed 1))"

lemma unreachable_upstream_times_out_and_reports_failure: "unreachable_upstream_times_out_and_reports_failure net"
proof -
  have "parse_socket ''203.0.113.1:53'' = Some (socket_new (V4 203 0 113 1) 53)"
    by (simp add: parse_socket_def read_socket_v4_def read_port_def ip_eval)
  then show ?thesis
    by (simp add: unreachable_upstream_times_out_and_reports_failure_def forward_def forwarder_new_def try_one_def Let_def
        split: sum.split)
qed

section \<open>\<open>diagnose.rs\<close>\<close>

definition ips :: "string list \<Rightarrow> ip_addr list" where
  "ips = map (\<lambda>s. the (parse_ip s))"

lemma test_ips: "parse_ip ''1.2.3.4'' = Some (V4 1 2 3 4)" "parse_ip ''5.6.7.8'' = Some (V4 5 6 7 8)"
  "parse_ip ''10.10.10.10'' = Some (V4 10 10 10 10)"
  by (simp_all add: ip_eval)

lemmas conclude_eval = ips_def test_ips conclude_def same_set_def Let_def

definition agreeing_and_reachable_is_healthy :: bool where
  "agreeing_and_reachable_is_healthy = (let both = ips [''1.2.3.4''] in conclude both both both = Healthy)"

lemma agreeing_and_reachable_is_healthy: agreeing_and_reachable_is_healthy
  by (simp add: agreeing_and_reachable_is_healthy_def conclude_eval)

definition isp_dead_doh_alive_is_interference :: bool where
  "isp_dead_doh_alive_is_interference =
     (let isp = ips [''10.10.10.10'']; doh = ips [''1.2.3.4''] in conclude isp doh doh = DnsInterference)"

lemma isp_dead_doh_alive_is_interference: isp_dead_doh_alive_is_interference
  by (simp add: isp_dead_doh_alive_is_interference_def conclude_eval)

definition isp_returning_nothing_while_doh_works_is_interference :: bool where
  "isp_returning_nothing_while_doh_works_is_interference =
     (let doh = ips [''1.2.3.4''] in conclude [] doh doh = DnsInterference)"

lemma isp_returning_nothing_while_doh_works_is_interference: isp_returning_nothing_while_doh_works_is_interference
  by (simp add: isp_returning_nothing_while_doh_works_is_interference_def conclude_eval)

definition nothing_reachable_is_blocked_beyond_dns :: bool where
  "nothing_reachable_is_blocked_beyond_dns =
     (let addrs = ips [''1.2.3.4''] in conclude addrs addrs [] = BlockedBeyondDns)"

lemma nothing_reachable_is_blocked_beyond_dns: nothing_reachable_is_blocked_beyond_dns
  by (simp add: nothing_reachable_is_blocked_beyond_dns_def conclude_eval)

definition no_answers_at_all_is_resolution_failure :: bool where
  "no_answers_at_all_is_resolution_failure \<longleftrightarrow> conclude [] [] [] = ResolutionFailed"

lemma no_answers_at_all_is_resolution_failure: no_answers_at_all_is_resolution_failure
  by (simp add: no_answers_at_all_is_resolution_failure_def conclude_def)

definition different_but_working_addresses_are_not_flagged :: bool where
  "different_but_working_addresses_are_not_flagged =
     (let isp = ips [''1.2.3.4'']; doh = ips [''5.6.7.8'']; reachable = ips [''1.2.3.4'', ''5.6.7.8''] in
      conclude isp doh reachable = DivergentButHealthy)"

lemma different_but_working_addresses_are_not_flagged: different_but_working_addresses_are_not_flagged
  by (simp add: different_but_working_addresses_are_not_flagged_def conclude_eval)

definition level_of :: "string \<Rightarrow> string option" where
  "level_of s = restriction_level (the (parse_ip s))"

lemma restriction_ips:
  "parse_ip ''216.239.38.120'' = Some (V4 216 239 38 120)" "parse_ip ''216.239.38.119'' = Some (V4 216 239 38 119)"
  "parse_ip ''2001:4860:4802:32::78'' = Some (V6 0x2001 0x4860 0x4802 0x32 0 0 0 0x78)"
  "parse_ip ''2001:4860:4802:32::77'' = Some (V6 0x2001 0x4860 0x4802 0x32 0 0 0 0x77)"
  "parse_ip ''142.251.154.4'' = Some (V4 142 251 154 4)" "parse_ip ''142.250.206.14'' = Some (V4 142 250 206 14)"
  "parse_ip ''2001:4860:4827:400::'' = Some (V6 0x2001 0x4860 0x4827 0x400 0 0 0 0)"
  by (simp_all add: ip_eval)

lemma hex_digit: "n < 10 \<Longrightarrow> hex_char n = digit_char n"
  by (simp add: hex_char_def digit_char_def)

lemmas level_eval = level_of_def restriction_level_def RESTRICTION_TARGETS_def restriction_ips show_quad_def show_v6_groups_def
  show_groups_def show_nat_eval show_hex.simps hex_digit

definition identifies_known_restriction_targets :: bool where
  "identifies_known_restriction_targets \<longleftrightarrow>
     (case level_of ''216.239.38.120'' of Some l \<Rightarrow> str_contains ''strict'' l | None \<Rightarrow> False) \<and>
     (case level_of ''216.239.38.119'' of Some l \<Rightarrow> str_contains ''moderate'' l | None \<Rightarrow> False) \<and>
     level_of ''2001:4860:4802:32::78'' \<noteq> None \<and> level_of ''2001:4860:4802:32::77'' \<noteq> None"

lemma identifies_known_restriction_targets: identifies_known_restriction_targets
  by (simp add: identifies_known_restriction_targets_def level_eval starts_with_def)

definition normal_youtube_addresses_are_not_flagged :: bool where
  "normal_youtube_addresses_are_not_flagged =
     list_all (\<lambda>ip. level_of ip = None) [''142.251.154.4'', ''142.250.206.14'', ''2001:4860:4827:400::'']"

lemma normal_youtube_addresses_are_not_flagged: normal_youtube_addresses_are_not_flagged
  by (simp add: normal_youtube_addresses_are_not_flagged_def level_eval)

definition every_conclusion_has_an_explanation :: bool where
  "every_conclusion_has_an_explanation =
     list_all (\<lambda>c. explain c \<noteq> [])
       [Healthy, DnsInterference, BlockedBeyondDns, ResolutionFailed, DivergentButHealthy, ContentRestrictionForced]"

lemma every_conclusion_has_an_explanation: every_conclusion_has_an_explanation
  by (simp add: every_conclusion_has_an_explanation_def)

section \<open>\<open>resolvconf.rs\<close>\<close>

lemma resolv_ips:
  "parse_ip ''8.8.8.8'' = Some (V4 8 8 8 8)" "parse_ip ''8.8.4.4'' = Some (V4 8 8 4 4)" "parse_ip ''9.9.9.9'' = Some (V4 9 9 9 9)"
  "parse_ip ''1.1.1.1'' = Some (V4 1 1 1 1)" "parse_ip ''127.0.0.53'' = Some (V4 127 0 0 53)" "parse_ip ''bogus'' = None"
  "parse_ip ''2001:4860:4860::8888'' = Some (V6 0x2001 0x4860 0x4860 0 0 0 0 0x8888)" "parse_ip ''fe80::1'' = Some (V6 0xfe80 0 0 0 0 0 0 1)"
  by (simp_all add: ip_eval)

lemma not_our_proxy: "is_our_proxy ip \<longleftrightarrow> ip = V4 127 0 0 53"
proof -
  have "show_ip (V4 127 0 0 53) = ''127.0.0.53''" by (simp add: show_quad_def show_nat_eval)
  then show ?thesis unfolding is_our_proxy_def PROXY_ADDR_def by (metis parse_ip_show option.inject resolv_ips(5))
qed

lemma parse_nameservers_lines:
  "list_all plain_line ls \<Longrightarrow> parse_nameservers (unlines ls) = filter (\<lambda>ip. \<not> is_our_proxy ip)
     (List.map_filter (\<lambda>addr. parse_ip (case head_opt (split_on (CHR ''%'') addr) of Some a \<Rightarrow> a | None \<Rightarrow> addr))
       (List.map_filter (\<lambda>rest. head_opt (split_whitespace (trim rest)))
         (List.map_filter (strip_prefix ''nameserver'')
           (filter (\<lambda>l. \<not> starts_with ''#'' l \<and> \<not> starts_with '';'' l) (map trim ls)))))"
  by (simp add: parse_nameservers_def str_lines_unlines list_all_iff)

lemmas nameservers_eval = parse_nameservers_lines plain_line_def str_defs head_opt_def List.map_filter_simps resolv_ips not_our_proxy

definition parses_nameservers :: bool where
  "parses_nameservers \<longleftrightarrow>
     parse_nameservers (unlines [''# comment'', ''nameserver 8.8.8.8'', ''nameserver 8.8.4.4'', ''options edns0'']) =
     [the (parse_ip ''8.8.8.8''), the (parse_ip ''8.8.4.4'')]"

lemma parses_nameservers: parses_nameservers
  by (simp add: parses_nameservers_def nameservers_eval)

definition ignores_comments_and_junk :: bool where
  "ignores_comments_and_junk \<longleftrightarrow>
     parse_nameservers (unlines [''; semicolon comment'', ''#nameserver 1.2.3.4'', ''search example.com'', ''nameserver bogus'',
       ''nameserver 9.9.9.9'']) = [the (parse_ip ''9.9.9.9'')]"

lemma ignores_comments_and_junk: ignores_comments_and_junk
  by (simp add: ignores_comments_and_junk_def nameservers_eval)

definition parses_ipv6_and_strips_zone_index :: bool where
  "parses_ipv6_and_strips_zone_index =
     (let got = parse_nameservers (unlines [''nameserver 2001:4860:4860::8888'', ''nameserver fe80::1%wlan0'']) in
      length got = 2 \<and> show_ip (got ! 0) = ''2001:4860:4860::8888'' \<and> show_ip (got ! 1) = ''fe80::1'')"

lemma parses_ipv6_and_strips_zone_index: parses_ipv6_and_strips_zone_index
proof -
  have "hex_char 15 = CHR ''f''" "hex_char 14 = CHR ''e''" by (simp_all add: hex_char_def char_of_letters)
  then have "show_ip (V6 0x2001 0x4860 0x4860 0 0 0 0 0x8888) = ''2001:4860:4860::8888''" "show_ip (V6 0xfe80 0 0 0 0 0 0 1) = ''fe80::1''"
    by (simp_all add: show_v6_groups_def show_groups_def show_hex.simps hex_digit digit_char_eval)
  then show ?thesis by (simp add: parses_ipv6_and_strips_zone_index_def nameservers_eval del: show_ip.simps)
qed

definition never_returns_our_own_proxy_as_upstream :: bool where
  "never_returns_our_own_proxy_as_upstream \<longleftrightarrow>
     parse_nameservers (unlines [''nameserver 127.0.0.53'', ''nameserver 8.8.8.8'']) = [the (parse_ip ''8.8.8.8'')]"

lemma never_returns_our_own_proxy_as_upstream: never_returns_our_own_proxy_as_upstream
  by (simp add: never_returns_our_own_proxy_as_upstream_def nameservers_eval)

definition socket_addrs_use_port_53 :: bool where
  "socket_addrs_use_port_53 =
     (let addrs = to_socket_addrs [the (parse_ip ''1.1.1.1'')] in show_socket (addrs ! 0) = ''1.1.1.1:53'')"

lemma socket_addrs_use_port_53: socket_addrs_use_port_53
  by (simp add: socket_addrs_use_port_53_def to_socket_addrs_def resolv_ips show_socket_def socket_new_def show_quad_def show_nat_eval)

section \<open>\<open>proxy.rs\<close>\<close>

definition log_is_bounded_and_newest_first :: bool where
  "log_is_bounded_and_newest_first =
     (let entry = (\<lambda>i. \<lparr>ql_name = ''host'' @ show_nat i @ ''.test.'', ql_record_type = ''A'', ql_route = ''doh'',
            ql_outcome = ''NoError'', ql_elapsed_ms = 1, ql_answers = []\<rparr>);
          lg = fold log_push (map entry [0..<LOG_CAPACITY + 50]) log_default;
          recent = log_recent lg 3 in
      ql_name (recent ! 0) = ''host'' @ show_nat (LOG_CAPACITY + 49) @ ''.test.'' \<and> length (l_entries lg) = LOG_CAPACITY)"

lemma log_is_bounded_and_newest_first: log_is_bounded_and_newest_first
proof -
  have "take 3 (rev (drop 50 (map f [0..<550]))) ! 0 = f 549 \<and> length (drop 50 (map f [0..<550])) = 500"
    for f :: "nat \<Rightarrow> query_log_entry"
    by (simp add: rev_nth)
  then show ?thesis
    unfolding log_is_bounded_and_newest_first_def Let_def log_recent_def by (simp add: log_pushes LOG_CAPACITY_def)
qed

definition response_within_limit_is_left_alone :: "('n, 'd) codec \<Rightarrow> bytes \<Rightarrow> bool" where
  "response_within_limit_is_left_alone codec query_bytes =
     (let small = replicate 100 7 in truncate_if_needed codec small query_bytes = small)"

lemma response_within_limit_is_left_alone: "response_within_limit_is_left_alone codec query_bytes"
  by (simp add: response_within_limit_is_left_alone_def truncate_if_needed_def advertised_def clamp_def MAX_UDP_def Let_def)

section \<open>\<open>apps.rs\<close>\<close>

definition detects_flatpak_app_id :: bool where
  "detects_flatpak_app_id \<longleftrightarrow>
     flatpak_app_id ''flatpak'' [''run'', ''com.heroicgameslauncher.hgl''] = Some ''com.heroicgameslauncher.hgl'' \<and>
     flatpak_app_id ''/usr/bin/flatpak'' [''run'', ''--branch=stable'', ''org.x.App'', ''--arg''] = Some ''org.x.App''"

lemma detects_flatpak_app_id: detects_flatpak_app_id
  by (simp add: detects_flatpak_app_id_def flatpak_app_id_def str_defs)

definition native_commands_are_not_flatpak :: bool where
  "native_commands_are_not_flatpak \<longleftrightarrow>
     flatpak_app_id ''brave'' [] = None \<and> flatpak_app_id ''flatpak'' [''list''] = None"

lemma native_commands_are_not_flatpak: native_commands_are_not_flatpak
  by (simp add: native_commands_are_not_flatpak_def flatpak_app_id_def str_defs)

definition hold_unit_names_are_safe :: bool where
  "hold_unit_names_are_safe \<longleftrightarrow>
     hold_unit ''Heroic Games'' = ''detour-hold-heroic_games.scope'' \<and> CHR ''/'' \<notin> set (hold_unit ''a/b..c'')"

lemma hold_unit_names_are_safe: hold_unit_names_are_safe
  by (simp add: hold_unit_names_are_safe_def hold_unit_def str_defs char_of_letters)

text \<open>A cgroup tree with the three scopes of the test, and a \<open>cgroup.procs\<close> file.\<close>

definition fake_tree :: "string list option \<Rightarrow> unit sysfs" where
  "fake_tree scopes = \<lparr>sf_list = (\<lambda>p k. if p = [''t'', ''app.slice''] then scopes else None),
     sf_read = (\<lambda>p k. if p = [''t'', ''cgroup.procs''] then Some (unlines [''10'', ''20'', []]) else None),
     sf_write_pid = (\<lambda>p n k. (Moved, k)), sf_now = (\<lambda>k. 0), sf_sleep = (\<lambda>d k. k)\<rparr>"

definition finds_only_the_matching_flatpak_scopes :: bool where
  "finds_only_the_matching_flatpak_scopes =
     (let t = fake_tree (Some [''app-flatpak-org.x.App-123.scope'', ''app-flatpak-org.other-9.scope'', ''app-org.x.App-1.scope'']);
          found = flatpak_scopes t [''t''] ''org.x.App'' () in
      length found = 1 \<and> last (found ! 0) = ''app-flatpak-org.x.App-123.scope'')"

lemma finds_only_the_matching_flatpak_scopes: finds_only_the_matching_flatpak_scopes
  by (simp add: finds_only_the_matching_flatpak_scopes_def flatpak_scopes_def fake_tree_def str_defs)

definition missing_app_slice_yields_nothing :: bool where
  "missing_app_slice_yields_nothing \<longleftrightarrow> flatpak_scopes (fake_tree None) [''t''] ''org.x.App'' () = []"

lemma missing_app_slice_yields_nothing: missing_app_slice_yields_nothing
  by (simp add: missing_app_slice_yields_nothing_def flatpak_scopes_def fake_tree_def)

definition procs_parses_cgroup_procs :: bool where
  "procs_parses_cgroup_procs \<longleftrightarrow>
     procs (fake_tree None) [''t''] () = [10, 20] \<and> procs (fake_tree None) [''t'', ''absent''] () = []"

lemma procs_parses_cgroup_procs: procs_parses_cgroup_procs
proof -
  have "str_lines (unlines [''10'', ''20'', []]) = [''10'', ''20'', []]" by (rule str_lines_unlines) (simp add: plain_line_def)
  then show ?thesis
    by (simp add: procs_parses_cgroup_procs_def procs_def fake_tree_def List.map_filter_simps str_defs parse_uint_def horner_def)
qed

definition ppid_survives_awkward_command_names :: bool where
  "ppid_survives_awkward_command_names \<longleftrightarrow>
     parse_ppid ''123 (brave) S 45 123 123 0'' = Some 45 \<and> parse_ppid ''9 (a (b) c) R 7 9 9'' = Some 7 \<and>
     parse_ppid ''garbage'' = None"

lemma ppid_survives_awkward_command_names: ppid_survives_awkward_command_names
  by (simp add: ppid_survives_awkward_command_names_def parse_ppid_def str_defs parse_uint_def horner_def)

definition descendants_walks_the_whole_tree_only :: bool where
  "descendants_walks_the_whole_tree_only =
     (let table = [(1, 0), (10, 1), (11, 10), (12, 11), (20, 1), (13, 10)] in
      sort (descendants [10] table) = [10, 11, 12, 13])"

lemma descendants_walks_the_whole_tree_only: descendants_walks_the_whole_tree_only
  by (simp add: descendants_walks_the_whole_tree_only_def descendants_def descend.simps add_children_def)

definition quoted :: "string \<Rightarrow> string" where "quoted s = [CHR 0x22] @ s @ [CHR 0x22]"

definition multiple_owners_line :: string where
  "multiple_owners_line = ''tcp   ESTAB 0      0      10.100.33.202:43210   142.251.151.4:443   users:(('' @ quoted ''brave'' @
     '',pid=4778,fd=33),('' @ quoted ''brave'' @ '',pid=4800,fd=12))''"

definition parses_ss_tcp_line_with_multiple_owners :: bool where
  "parses_ss_tcp_line_with_multiple_owners =
     (case parse_ss_line multiple_owners_line of
        Some s \<Rightarrow> se_proto s = ''tcp'' \<and> show_socket (se_peer s) = ''142.251.151.4:443'' \<and> se_pids s = [4778, 4800]
      | None \<Rightarrow> False)"

lemmas endpoint_eval = parse_sockaddr_def rsplit_once_def split_on_def ip_eval parse_uint_def

lemma multiple_owners_words:
  "split_whitespace multiple_owners_line = [''tcp'', ''ESTAB'', ''0'', ''0'', ''10.100.33.202:43210'', ''142.251.151.4:443'',
     ''users:(('' @ quoted ''brave'' @ '',pid=4778,fd=33),('' @ quoted ''brave'' @ '',pid=4800,fd=12))'']"
  by (simp add: multiple_owners_line_def split_whitespace_def is_ws_def quoted_def)

lemma multiple_owners_pids:
  "List.map_filter (\<lambda>p. parse_u32 (takeWhile is_ascii_digit p)) (drop 1 (split_str ''pid=''
     (''users:(('' @ quoted ''brave'' @ '',pid=4778,fd=33),('' @ quoted ''brave'' @ '',pid=4800,fd=12))''))) = [4778, 4800]"
proof -
  have "split_str ''pid='' (''users:(('' @ quoted ''brave'' @ '',pid=4778,fd=33),('' @ quoted ''brave'' @ '',pid=4800,fd=12))'') =
      [''users:(('' @ quoted ''brave'' @ '','', ''4778,fd=33),('' @ quoted ''brave'' @ '','', ''4800,fd=12))'']"
    by (simp add: split_str.simps quoted_def)
  moreover have "parse_u32 ''4778'' = Some 4778" "parse_u32 ''4800'' = Some 4800"
    by (simp_all add: parse_uint_def str_defs horner_def)
  ultimately show ?thesis by (simp add: List.map_filter_simps str_defs)
qed

lemma parses_ss_tcp_line_with_multiple_owners: parses_ss_tcp_line_with_multiple_owners
proof -
  have "parse_sockaddr ''10.100.33.202:43210'' = Some (socket_new (V4 10 100 33 202) 43210)"
    "parse_sockaddr ''142.251.151.4:443'' = Some (socket_new (V4 142 251 151 4) 443)" by (simp_all add: endpoint_eval)
  moreover have "show_socket (socket_new (V4 142 251 151 4) 443) = ''142.251.151.4:443''"
    by (simp add: show_socket_def socket_new_def show_quad_def show_nat_eval)
  ultimately show ?thesis
    using multiple_owners_pids
    by (simp add: parses_ss_tcp_line_with_multiple_owners_def parse_ss_line_def Let_def multiple_owners_words)
qed

definition ss_line :: "string \<Rightarrow> string \<Rightarrow> string \<Rightarrow> string" where
  "ss_line start owner pid = start @ '' users:(('' @ quoted owner @ '',pid='' @ pid @ '',fd=3))''"

definition parses_ss_ipv6_line :: bool where
  "parses_ss_ipv6_line =
     (case parse_ss_line (ss_line ''udp   ESTAB 0 0 [2001:db8::1]:5000 [2404:6800:4007::200e]:443'' ''brave'' ''7'') of
        Some s \<Rightarrow> sa_port (se_peer s) = 443 \<and> \<not> Net_Addr.is_ipv4 (sa_ip (se_local s))
      | None \<Rightarrow> False)"

lemma parses_ss_ipv6_line: parses_ss_ipv6_line
proof -
  have "split_whitespace (ss_line ''udp   ESTAB 0 0 [2001:db8::1]:5000 [2404:6800:4007::200e]:443'' ''brave'' ''7'') =
      [''udp'', ''ESTAB'', ''0'', ''0'', ''[2001:db8::1]:5000'', ''[2404:6800:4007::200e]:443'', ''users:(('' @ quoted ''brave'' @ '',pid=7,fd=3))'']"
    by (simp add: ss_line_def split_whitespace_def is_ws_def quoted_def)
  moreover have "parse_sockaddr ''[2001:db8::1]:5000'' = Some (socket_new (V6 0x2001 0xdb8 0 0 0 0 0 1) 5000)"
    "parse_sockaddr ''[2404:6800:4007::200e]:443'' = Some (socket_new (V6 0x2404 0x6800 0x4007 0 0 0 0 0x200e) 443)"
    by (simp_all add: endpoint_eval)
  ultimately show ?thesis by (simp add: parses_ss_ipv6_line_def parse_ss_line_def Let_def socket_new_def)
qed

definition unconnected_sockets_are_skipped :: bool where
  "unconnected_sockets_are_skipped \<longleftrightarrow>
     parse_ss_line (ss_line ''udp   UNCONN 0 0 0.0.0.0:5353 0.0.0.0:*'' ''brave'' ''7'') = None"

lemma unconnected_sockets_are_skipped: unconnected_sockets_are_skipped
proof -
  have "split_whitespace (ss_line ''udp   UNCONN 0 0 0.0.0.0:5353 0.0.0.0:*'' ''brave'' ''7'') =
      [''udp'', ''UNCONN'', ''0'', ''0'', ''0.0.0.0:5353'', ''0.0.0.0:*'', ''users:(('' @ quoted ''brave'' @ '',pid=7,fd=3))'']"
    by (simp add: ss_line_def split_whitespace_def is_ws_def quoted_def)
  moreover have "parse_sockaddr ''0.0.0.0:*'' = None" by (simp add: endpoint_eval)
  ultimately show ?thesis by (simp add: unconnected_sockets_are_skipped_def parse_ss_line_def Let_def)
qed

definition local_destinations_are_recognised :: bool where
  "local_destinations_are_recognised \<longleftrightarrow>
     list_all (\<lambda>ip. is_local_destination (the (parse_ip ip)))
       [''127.0.0.53'', ''10.100.32.1'', ''192.168.1.5'', ''100.64.0.1'', ''fe80::1'', ''fd00::1'', ''::1''] \<and>
     list_all (\<lambda>ip. \<not> is_local_destination (the (parse_ip ip))) [''142.251.151.4'', ''2404:6800:4007::200e'']"

lemma local_destinations_are_recognised: local_destinations_are_recognised
  by (simp add: local_destinations_are_recognised_def ip_eval)

text \<open>The lines of this test have one owner.\<close>

definition test_filter :: "string \<Rightarrow> string option" where
  "test_filter start = map_option ss_kill_filter (parse_ss_line (ss_line start ''x'' ''1''))"

definition kill_filter_targets_one_socket :: bool where
  "kill_filter_targets_one_socket \<longleftrightarrow>
     test_filter ''tcp ESTAB 0 0 10.0.0.2:5000 1.2.3.4:443'' = Some ''src 10.0.0.2:5000 and dst 1.2.3.4:443'' \<and>
     test_filter ''tcp ESTAB 0 0 [fd00::2]:5000 [2001:db8::9]:443'' = Some ''src [fd00::2]:5000 and dst [2001:db8::9]:443''"

lemma kill_filter_targets_one_socket: kill_filter_targets_one_socket
proof -
  let ?users = "''users:(('' @ quoted ''x'' @ '',pid=1,fd=3))''"
  have "split_whitespace (ss_line ''tcp ESTAB 0 0 10.0.0.2:5000 1.2.3.4:443'' ''x'' ''1'') =
      [''tcp'', ''ESTAB'', ''0'', ''0'', ''10.0.0.2:5000'', ''1.2.3.4:443'', ?users]"
    "split_whitespace (ss_line ''tcp ESTAB 0 0 [fd00::2]:5000 [2001:db8::9]:443'' ''x'' ''1'') =
      [''tcp'', ''ESTAB'', ''0'', ''0'', ''[fd00::2]:5000'', ''[2001:db8::9]:443'', ?users]"
    by (simp_all add: ss_line_def split_whitespace_def is_ws_def quoted_def)
  moreover have "parse_sockaddr ''10.0.0.2:5000'' = Some (socket_new (V4 10 0 0 2) 5000)"
    "parse_sockaddr ''1.2.3.4:443'' = Some (socket_new (V4 1 2 3 4) 443)"
    "parse_sockaddr ''[fd00::2]:5000'' = Some (socket_new (V6 0xfd00 0 0 0 0 0 0 2) 5000)"
    "parse_sockaddr ''[2001:db8::9]:443'' = Some (socket_new (V6 0x2001 0xdb8 0 0 0 0 0 9) 443)"
    by (simp_all add: endpoint_eval)
  moreover have "ss_endpoint (socket_new (V4 10 0 0 2) 5000) = ''10.0.0.2:5000''" "ss_endpoint (socket_new (V4 1 2 3 4) 443) = ''1.2.3.4:443''"
    by (simp_all add: ss_endpoint_def socket_new_def show_quad_def show_nat_eval)
  moreover have "hex_char 15 = CHR ''f''" "hex_char 13 = CHR ''d''" "hex_char 11 = CHR ''b''"
    by (simp_all add: hex_char_def char_of_letters)
  then have "ss_endpoint (socket_new (V6 0xfd00 0 0 0 0 0 0 2) 5000) = ''[fd00::2]:5000''"
    "ss_endpoint (socket_new (V6 0x2001 0xdb8 0 0 0 0 0 9) 443) = ''[2001:db8::9]:443''"
    by (simp_all add: ss_endpoint_def socket_new_def show_v6_groups_def show_groups_def show_nat_eval show_hex.simps hex_digit)
  ultimately show ?thesis
    by (simp add: kill_filter_targets_one_socket_def test_filter_def parse_ss_line_def Let_def ss_kill_filter_def)
qed

end
