(* ===== verification/Codec_Tests.thy ===== *)
theory Codec_Tests
  imports Helper_Tests Core_Tests
begin

text \<open>
  The unit tests of \<open>proxy.rs\<close> and \<open>resolver.rs\<close> that encode and decode messages. The codec of
  \<open>hickory_proto\<close> is an argument of each test, as in the model; what a lemma needs of it is that the
  messages of the test survive encoding and decoding, that bytes which are no message are
  rejected, and the twelve bytes of a message without sections. Names are their texts, as in \<open>Core_Tests\<close>.
\<close>

definition round_trips :: "('n, 'd) codec \<Rightarrow> ('n, 'd) message \<Rightarrow> bool" where
  "round_trips codec m \<longleftrightarrow> (\<exists>b. enc codec m = Inr b \<and> dec codec b = Inr m)"

text \<open>\<open>to_vec().unwrap()\<close> and \<open>Message::from_bytes(..).unwrap()\<close>: a test fails where they would panic.\<close>

definition to_vec_and :: "('n, 'd) codec \<Rightarrow> ('n, 'd) message \<Rightarrow> (bytes \<Rightarrow> bool) \<Rightarrow> bool" where
  "to_vec_and codec m f = (case enc codec m of Inr b \<Rightarrow> f b | Inl e \<Rightarrow> False)"

definition from_bytes_and :: "('n, 'd) codec \<Rightarrow> bytes \<Rightarrow> (('n, 'd) message \<Rightarrow> bool) \<Rightarrow> bool" where
  "from_bytes_and codec b f = (case dec codec b of Inr m \<Rightarrow> f m | Inl e \<Rightarrow> False)"

lemma to_vec_and: "round_trips codec m \<Longrightarrow> (\<And>b. enc codec m = Inr b \<Longrightarrow> dec codec b = Inr m \<Longrightarrow> f b) \<Longrightarrow> to_vec_and codec m f"
  by (auto simp: round_trips_def to_vec_and_def)

section \<open>\<open>resolver.rs\<close>\<close>

definition query_round_trips_through_wire_format :: "(string, 'd) codec \<Rightarrow> bool" where
  "query_round_trips_through_wire_format codec =
     (let q = build_query ''example.com.'' RT_AAAA in
      to_vec_and codec q (\<lambda>bytes. from_bytes_and codec bytes (\<lambda>decoded.
        q_name (m_queries decoded ! 0) = ''example.com.'' \<and> q_type (m_queries decoded ! 0) = RT_AAAA)))"

lemma query_round_trips_through_wire_format:
  assumes "round_trips codec (build_query ''example.com.'' RT_AAAA)"
  shows "query_round_trips_through_wire_format codec"
  unfolding query_round_trips_through_wire_format_def Let_def
  by (rule to_vec_and [OF assms]) (simp add: from_bytes_and_def build_query_def)

section \<open>\<open>proxy.rs\<close>\<close>

text \<open>\<open>test_proxy\<close>: the handler with one provider, an unreachable system resolver and the given policy.\<close>

definition test_proxy :: "'c client_builder \<Rightarrow> policy \<Rightarrow> ('c proxy \<times> (string, 'd) proxy_state) option" where
  "test_proxy client policy =
     (case (resolver_new client [cloudflare], parse_socket ''203.0.113.1:53'') of
        (Inr (resolver, cache), Some dead) \<Rightarrow> Some (proxy_new resolver (forwarder_new [dead]) policy, \<lparr>s_cache = cache, s_log = log_default\<rparr>)
      | _ \<Rightarrow> None)"

definition handled :: "(string, 'd, 'c) env \<Rightarrow> 'c client_builder \<Rightarrow> bytes \<Rightarrow> (bytes \<times> (string, 'd) proxy_state) option" where
  "handled ev client query_bytes =
     map_option (\<lambda>(x, s). proxy_handle ev x query_bytes s) (test_proxy client policy_default)"

lemma test_proxy_builds:
  assumes "\<forall>pin. \<exists>c. client pin = Inr c"
  obtains x and s :: "(string, 'd) proxy_state" where "test_proxy client policy = Some (x, s)" "x_policy x = policy"
    "s_log s = log_default"
proof -
  have "parse_socket ''203.0.113.1:53'' = Some (socket_new (V4 203 0 113 1) 53)"
    by (simp add: parse_socket_def read_socket_v4_def read_port_def ip_eval)
  moreover obtain us where "build_upstreams client [cloudflare] = Inr us"
    using build_upstreams_total [of "[cloudflare]" client] assms by (auto simp: preset_defs provider_host_def)
  ultimately have "test_proxy client policy = Some (proxy_new \<lparr>r_upstreams = us\<rparr> (forwarder_new [socket_new (V4 203 0 113 1) 53]) policy,
      \<lparr>s_cache = cache_new DEFAULT_CACHE_CAPACITY, s_log = log_default\<rparr> :: (string, 'd) proxy_state)"
    by (simp add: test_proxy_def resolver_new_def resolver_with_capacity_def)
  then show thesis by (rule that) (simp_all add: proxy_new_def)
qed

definition servfail_preserves_query_id :: "('n, 'd) codec \<Rightarrow> bool" where
  "servfail_preserves_query_id codec =
     (let bytes = servfail codec 0xbeef ServFail in
      from_bytes_and codec bytes (\<lambda>msg. m_id msg = 0xbeef \<and> m_type msg = MT_Response \<and> m_rcode msg = ServFail))"

lemma servfail_decodes:
  assumes "round_trips codec (servfail_message i code)"
  shows "dec codec (servfail codec i code) = Inr (servfail_message i code)"
  using assms by (auto simp: round_trips_def servfail_def)

lemma servfail_preserves_query_id:
  assumes "round_trips codec (servfail_message 0xbeef ServFail)"
  shows "servfail_preserves_query_id codec"
  using servfail_decodes [OF assms] by (simp add: servfail_preserves_query_id_def from_bytes_and_def servfail_message_def)

definition raw_servfail_salvages_id_from_prefix :: "('n, 'd) codec \<Rightarrow> bool" where
  "raw_servfail_salvages_id_from_prefix codec =
     from_bytes_and codec (servfail_from_raw codec [0xab, 0xcd, 0xff]) (\<lambda>msg. m_id msg = 0xabcd)"

lemma be_bytes: "from_be_bytes 0xab 0xcd = 0xabcd" "from_be_bytes 0x12 0x34 = 0x1234"
  by (rule word_unat_eq_iff [THEN iffD2], simp add: from_be_bytes_value)+

lemma raw_servfail_salvages_id_from_prefix:
  assumes "round_trips codec (servfail_message 0xabcd FormErr)"
  shows "raw_servfail_salvages_id_from_prefix codec"
  using servfail_decodes [OF assms]
  by (simp add: raw_servfail_salvages_id_from_prefix_def from_bytes_and_def servfail_from_raw_def be_bytes)
    (simp add: servfail_message_def)

definition raw_servfail_handles_empty_input :: "('n, 'd) codec \<Rightarrow> bool" where
  "raw_servfail_handles_empty_input codec =
     from_bytes_and codec (servfail_from_raw codec []) (\<lambda>msg. m_id msg = 0)"

lemma raw_servfail_handles_empty_input:
  assumes "round_trips codec (servfail_message 0 FormErr)"
  shows "raw_servfail_handles_empty_input codec"
  using servfail_decodes [OF assms]
  by (simp add: raw_servfail_handles_empty_input_def from_bytes_and_def servfail_from_raw_def) (simp add: servfail_message_def)

definition garbage_query_yields_formerr_not_panic :: "(string, 'd, 'c) env \<Rightarrow> 'c client_builder \<Rightarrow> bool" where
  "garbage_query_yields_formerr_not_panic ev client =
     (case handled ev client [0x12, 0x34, 0x99] of
        None \<Rightarrow> False
      | Some (reply, _) \<Rightarrow> from_bytes_and (ev_codec ev) reply (\<lambda>msg. m_id msg = 0x1234 \<and> m_rcode msg = FormErr))"

lemma garbage_query_yields_formerr_not_panic:
  fixes ev :: "(string, 'd, 'c) env"
  assumes "\<forall>pin. \<exists>c. client pin = Inr c" "dec (ev_codec ev) [0x12, 0x34, 0x99] = Inl e"
    and "round_trips (ev_codec ev) (servfail_message 0x1234 FormErr)"
  shows "garbage_query_yields_formerr_not_panic ev client"
proof -
  obtain x and s :: "(string, 'd) proxy_state" where x: "test_proxy client policy_default = Some (x, s)" using test_proxy_builds [OF assms(1)] by metis
  from servfail_decodes [OF assms(3)] show ?thesis
    by (simp add: garbage_query_yields_formerr_not_panic_def handled_def x proxy_handle_def assms(2) servfail_from_raw_def
        be_bytes from_bytes_and_def) (simp add: servfail_message_def)
qed

definition query_with_no_question_yields_formerr :: "(string, 'd, 'c) env \<Rightarrow> 'c client_builder \<Rightarrow> bool" where
  "query_with_no_question_yields_formerr ev client =
     (let empty = message_new\<lparr>m_id := 7, m_type := MT_Query\<rparr> in
      to_vec_and (ev_codec ev) empty (\<lambda>query.
        case handled ev client query of
          None \<Rightarrow> False
        | Some (reply, _) \<Rightarrow> from_bytes_and (ev_codec ev) reply (\<lambda>msg. m_id msg = 7 \<and> m_rcode msg = FormErr)))"

lemma query_with_no_question_yields_formerr:
  fixes ev :: "(string, 'd, 'c) env"
  assumes "\<forall>pin. \<exists>c. client pin = Inr c" "round_trips (ev_codec ev) (message_new\<lparr>m_id := 7, m_type := MT_Query\<rparr>)"
    and "round_trips (ev_codec ev) (servfail_message 7 FormErr)"
  shows "query_with_no_question_yields_formerr ev client"
proof -
  obtain x and s :: "(string, 'd) proxy_state" where x: "test_proxy client policy_default = Some (x, s)" using test_proxy_builds [OF assms(1)] by metis
  have empty: "m_id (message_new\<lparr>m_id := 7, m_type := MT_Query\<rparr>) = 7"
    "m_queries (message_new\<lparr>m_id := 7, m_type := MT_Query\<rparr>) = []" by (simp_all add: message_new_def)
  from servfail_decodes [OF assms(3)] show ?thesis
    unfolding query_with_no_question_yields_formerr_def Let_def
    by (intro to_vec_and [OF assms(2)])
      (simp add: handled_def x proxy_handle_def empty from_bytes_and_def Let_def, simp add: servfail_message_def)
qed

definition local_name_is_routed_to_upstream_and_logged :: "(string, 'd, 'c) env \<Rightarrow> 'c client_builder \<Rightarrow> bool" where
  "local_name_is_routed_to_upstream_and_logged ev client =
     (let q = (build_query ''nas.lan.'' RT_A)\<lparr>m_id := 99\<rparr> in
      to_vec_and (ev_codec ev) q (\<lambda>query.
        case handled ev client query of
          None \<Rightarrow> False
        | Some (_, s) \<Rightarrow>
            (let recent = log_recent (s_log s) 1 in
             length recent = 1 \<and> ql_name (recent ! 0) = ''nas.lan.'' \<and> ql_route (recent ! 0) = ''system'')))"

lemma nas_lan_route: "policy_route (\<lambda>n. n) policy_default ''nas.lan.'' = SystemUpstream"
proof -
  have "test_route policy_default ''nas.lan.'' = SystemUpstream"
    using local_suffixes_stay_on_system_resolver by (simp add: local_suffixes_stay_on_system_resolver_def)
  then show ?thesis by (simp add: test_route_def id_def)
qed

lemma local_name_is_routed_to_upstream_and_logged:
  fixes ev :: "(string, 'd, 'c) env"
  assumes "\<forall>pin. \<exists>c. client pin = Inr c" "round_trips (ev_codec ev) ((build_query ''nas.lan.'' RT_A)\<lparr>m_id := 99\<rparr>)"
    and "ev_to_ascii ev = (\<lambda>n. n)" "ev_show_name ev = (\<lambda>n. n)"
  shows "local_name_is_routed_to_upstream_and_logged ev client"
proof -
  obtain x and s :: "(string, 'd) proxy_state" where x: "test_proxy client policy_default = Some (x, s)"
    "x_policy x = policy_default" "s_log s = log_default"
    using test_proxy_builds [OF assms(1)] by metis
  have q: "m_queries ((build_query ''nas.lan.'' RT_A)\<lparr>m_id := 99\<rparr>) = [\<lparr>q_name = ''nas.lan.'', q_type = RT_A\<rparr>]"
    by (simp add: build_query_def)
  show ?thesis
    unfolding local_name_is_routed_to_upstream_and_logged_def Let_def
    by (intro to_vec_and [OF assms(2)])
      (simp add: handled_def x proxy_handle_def q assms(3,4) nas_lan_route Let_def log_recent_def log_push_def log_default_def
        LOG_CAPACITY_def split: sum.split)
qed

definition oversized_response :: "(string, 'd) message" where
  "oversized_response = message_new\<lparr>m_id := 5, m_type := MT_Response,
     m_answers := map (\<lambda>i. \<lparr>rr_name = ''very-long-host-name-number-'' @ show_nat i @ ''.example.com.'', rr_type = RT_A,
       rr_ttl = 300, rr_data = Some (RD_A 1 2 3 4)\<rparr>) [0..<40]\<rparr>"

definition oversized_response_is_truncated_with_tc_bit :: "(string, 'd) codec \<Rightarrow> bool" where
  "oversized_response_is_truncated_with_tc_bit codec =
     to_vec_and codec (build_query ''example.com.'' RT_A) (\<lambda>query_bytes.
     to_vec_and codec oversized_response (\<lambda>encoded.
       512 < length encoded \<and>
       (let out = truncate_if_needed codec encoded query_bytes in
        from_bytes_and codec out (\<lambda>parsed. m_tc parsed \<and> m_id parsed = 5 \<and> length out \<le> 512))))"

lemma plain_query_limit:
  assumes "dec codec b = Inr m" "m_edns_payload m = None"
  shows "advertised codec b = 512"
  using assms by (simp add: advertised_def clamp_def MAX_UDP_def)

lemma build_query_no_edns [simp]: "m_edns_payload (build_query n rt) = None"
  by (simp add: build_query_def message_new_def)

lemma oversized_response_is_truncated_with_tc_bit:
  fixes codec :: "(string, 'd) codec"
  assumes "round_trips codec (build_query ''example.com.'' RT_A)" "round_trips codec (oversized_response :: (string, 'd) message)"
    and "\<forall>b. enc codec (oversized_response :: (string, 'd) message) = Inr b \<longrightarrow> 512 < length b"
    and "\<forall>m. m_queries m = [] \<and> m_answers m = [] \<and> m_name_servers m = [] \<and> m_additionals m = [] \<and> m_edns_payload m = None
      \<longrightarrow> (\<exists>b. enc codec m = Inr b \<and> dec codec b = Inr m \<and> length b = 12)"
  shows "oversized_response_is_truncated_with_tc_bit codec"
  unfolding oversized_response_is_truncated_with_tc_bit_def
proof (rule to_vec_and [OF assms(1)], rule to_vec_and [OF assms(2)])
  fix query_bytes encoded
  assume q: "dec codec query_bytes = Inr (build_query ''example.com.'' RT_A)"
    and r: "enc codec oversized_response = Inr encoded" "dec codec encoded = Inr oversized_response"
  let ?t = "truncated_message (oversized_response :: (string, 'd) message)"
  have "m_queries ?t = [] \<and> m_answers ?t = [] \<and> m_name_servers ?t = [] \<and> m_additionals ?t = [] \<and> m_edns_payload ?t = None"
    by (simp add: truncated_message_def oversized_response_def message_new_def)
  then obtain b where b: "enc codec ?t = Inr b" "dec codec b = Inr ?t" "length b = 12" using assms(4) by blast
  have long: "512 < length encoded" using assms(3) r(1) by blast
  then have "truncate_if_needed codec encoded query_bytes = b"
    using plain_query_limit [OF q] r(2) b(1) by (simp add: truncate_if_needed_def)
  moreover have "m_tc ?t" "m_id ?t = 5" by (simp_all add: truncated_message_def oversized_response_def)
  ultimately show "512 < length encoded \<and> (let out = truncate_if_needed codec encoded query_bytes in
      from_bytes_and codec out (\<lambda>parsed. m_tc parsed \<and> m_id parsed = 5 \<and> length out \<le> 512))"
    using long b by (simp add: from_bytes_and_def)
qed

definition malformed :: bytes where
  "malformed = ((((((replicate 1200 0)[0 := 0x12])[1 := 0x34])[4 := 0])[5 := 1])[12 := 0xC0])[13 := 0x0C]"

definition unparseable_oversized_response_is_passed_through_untouched :: "(string, 'd) codec \<Rightarrow> bool" where
  "unparseable_oversized_response_is_passed_through_untouched codec =
     to_vec_and codec (build_query ''example.com.'' RT_A) (\<lambda>query_bytes.
       isl (dec codec malformed) \<and> truncate_if_needed codec malformed query_bytes = malformed)"

lemma unparseable_oversized_response_is_passed_through_untouched:
  assumes "round_trips codec (build_query ''example.com.'' RT_A)" "dec codec malformed = Inl e"
  shows "unparseable_oversized_response_is_passed_through_untouched codec"
  unfolding unparseable_oversized_response_is_passed_through_untouched_def
  by (rule to_vec_and [OF assms(1)]) (simp add: truncate_if_needed_def assms(2))

end
