(* ===== verification/File_Tests.thy ===== *)
theory File_Tests
  imports Config Resolvconf Status
begin

text \<open>
  The unit tests of \<open>status.rs\<close>, \<open>config.rs\<close> and \<open>resolvconf.rs\<close> that use files, on the disk of
  \<open>Filesystem\<close>. A test is a program of file calls that ends with the conjunction of its
  assertions; \<open>unwrap\<close> ends it where the test would panic. It is run in a fresh temporary
  directory (\<open>tempdir\<close>); the removal of the directory at its end is left out. What a lemma needs of
  the JSON and TOML codecs is that the value of the test is read back, and that the text that
  is neither is rejected.
\<close>

section \<open>Running a test\<close>

definition unwrap :: "('e, 'a) io \<Rightarrow> (unit, 'a) io" where
  "unwrap m = map_err (\<lambda>_. ()) m"

definition passes :: "(unit, bool) io \<Rightarrow> world \<Rightarrow> bool" where
  "passes m w \<longleftrightarrow> fst (m w) = Inr True"

definition tempdir :: "path \<Rightarrow> world \<Rightarrow> bool" where
  "tempdir d w \<longleftrightarrow> quiet w \<and> (\<forall>k. w_fs w (take k d) = Some Dir) \<and> (\<forall>q. q \<noteq> [] \<longrightarrow> w_fs w (d @ q) = None)"

lemma tempdirD:
  assumes "tempdir d w"
  shows "quiet w" "w_fs w d = Some Dir" "w_fs w (d @ x # xs) = None" "\<forall>k. w_fs w (take k d) \<in> {None, Some Dir}"
proof -
  have all: "w_fs w (take k d) = Some Dir" for k using assms unfolding tempdir_def by blast
  from all [of "length d"] show "w_fs w d = Some Dir" by simp
  show "\<forall>k. w_fs w (take k d) \<in> {None, Some Dir}" by (simp add: all)
  show "quiet w" "w_fs w (d @ x # xs) = None" using assms by (simp_all add: tempdir_def)
qed

lemma unwrap_yields: "yields m w x t \<Longrightarrow> yields (unwrap m) w x t"
  by (simp add: unwrap_def yields_map_err)

lemma test_bind:
  assumes "yields m w x t" "\<And>w1. w_fs w1 = t \<Longrightarrow> quiet w1 \<Longrightarrow> passes (f x) w1"
  shows "passes (bind_io m f) w"
  using assms by (cases "m w") (auto simp: yields_def passes_def bind_io_def)

lemma test_return: "b \<Longrightarrow> passes (return_io b) w"
  by (simp add: passes_def return_io_def)

lemma passes_last: "fst (m w) = Inr x \<Longrightarrow> b x \<Longrightarrow> passes (bind_io m (\<lambda>x. return_io (b x))) w"
  by (cases "m w") (simp add: passes_def bind_io_def return_io_def)

lemma passes_unwrap: "fst (m w) = Inr x \<Longrightarrow> b x \<Longrightarrow> passes (bind_io (unwrap m) (\<lambda>x. return_io (b x))) w"
  by (cases "m w") (simp add: passes_def bind_io_def return_io_def unwrap_def map_err_def)

section \<open>\<open>status.rs\<close>\<close>

definition sample_snapshot :: "nat \<Rightarrow> snapshot" where
  "sample_snapshot updated_at =
     snapshot_inactive\<lparr>sn_active := True, sn_listen := ''127.0.0.53:53'', sn_updated_at := updated_at\<rparr>"

abbreviation status_file :: "path \<Rightarrow> path" where
  "status_file dir \<equiv> dir @ [''status.json'']"

text \<open>The clock is read again, at \<open>later\<close>, when the file is.\<close>

definition round_trips_through_the_file ::
    "(snapshot \<Rightarrow> io_kind + string) \<Rightarrow> (string \<Rightarrow> snapshot option) \<Rightarrow> path \<Rightarrow> nat \<Rightarrow> nat \<Rightarrow> (unit, bool) io" where
  "round_trips_through_the_file to_json of_json dir now later =
     bind_io (unwrap (write_snapshot to_json (status_file dir) (sample_snapshot now))) (\<lambda>_.
     bind_io (unwrap (read_snapshot of_json later (status_file dir) (secs 5))) (\<lambda>read.
       return_io (sn_active read \<and> sn_listen read = ''127.0.0.53:53'')))"

lemma status_tmp: "with_extension (status_file dir) ''json.tmp'' = dir @ [''status.json.tmp'']"
proof -
  have "rsplit_once (CHR ''.'') ''status.json'' = Some (''status'', ''json'')" by code_simp
  then show ?thesis by (simp add: with_extension_def)
qed

lemma snapshot_written:
  assumes "tempdir dir w" "to_json sn = Inr b"
  obtains t where "yields (unwrap (write_snapshot to_json (status_file dir) sn)) w () t" "t (status_file dir) = Some (File b 420)"
proof
  note d = tempdirD [OF assms(1)]
  show "yields (unwrap (write_snapshot to_json (status_file dir) sn)) w ()
      ((make_dirs (butlast (status_file dir)) (w_fs w))(dir @ [''status.json.tmp''] := None, status_file dir \<mapsto> File b 420))"
    by (rule unwrap_yields, rule write_snapshot_yields_at [OF d(1)]) (use d assms(2) in \<open>simp_all add: status_tmp\<close>)
qed simp

lemma round_trips_through_the_file:
  assumes "tempdir dir w" "to_json (sample_snapshot now) = Inr b" "of_json b = Some (sample_snapshot now)" "later \<le> now + 5"
  shows "passes (round_trips_through_the_file to_json of_json dir now later) w"
proof -
  obtain t where t: "yields (unwrap (write_snapshot to_json (status_file dir) (sample_snapshot now))) w () t"
    "t (status_file dir) = Some (File b 420)" by (rule snapshot_written [where to_json = to_json, OF assms(1,2)])
  show ?thesis
    unfolding round_trips_through_the_file_def
  proof (rule test_bind [OF t(1)])
    fix w1 :: world assume w1: "w_fs w1 = t" "quiet w1"
    with t(2) have "w_fs w1 (status_file dir) = Some (File b 420)" by simp
    from read_snapshot_file [where of_json = of_json, OF w1(2) this assms(3), of later "secs 5"] assms(4)
    have "fst (read_snapshot of_json later (status_file dir) (secs 5) w1) = Inr (sample_snapshot now)"
      by (simp add: sample_snapshot_def split: if_splits)
    then show "passes (bind_io (unwrap (read_snapshot of_json later (status_file dir) (secs 5)))
        (\<lambda>read. return_io (sn_active read \<and> sn_listen read = ''127.0.0.53:53''))) w1"
      by (rule passes_unwrap) (simp add: sample_snapshot_def)
  qed
qed

definition missing_file_reads_as_inactive :: "(string \<Rightarrow> snapshot option) \<Rightarrow> nat \<Rightarrow> (unit, bool) io" where
  "missing_file_reads_as_inactive of_json now =
     bind_io (unwrap (read_snapshot of_json now [''nonexistent'', ''status.json''] (secs 5))) (\<lambda>snap. return_io (\<not> sn_active snap))"

lemma missing_file_reads_as_inactive:
  assumes "quiet w" "w_fs w [''nonexistent'', ''status.json''] = None"
  shows "passes (missing_file_reads_as_inactive of_json now) w"
  unfolding missing_file_reads_as_inactive_def
  by (rule passes_unwrap, rule read_snapshot_none [OF assms]) (simp add: snapshot_inactive_def)

definition corrupt_file_reads_as_inactive_rather_than_panicking ::
    "(string \<Rightarrow> snapshot option) \<Rightarrow> path \<Rightarrow> nat \<Rightarrow> (unit, bool) io" where
  "corrupt_file_reads_as_inactive_rather_than_panicking of_json dir now =
     bind_io (unwrap (fs_write (status_file dir) ''{ not json'')) (\<lambda>_.
     bind_io (unwrap (read_snapshot of_json now (status_file dir) (secs 5))) (\<lambda>read. return_io (\<not> sn_active read)))"

lemma temp_write:
  assumes "tempdir dir w"
  obtains k where "yields (unwrap (fs_write (dir @ [name]) s)) w () ((w_fs w)(dir @ [name] \<mapsto> File s k))"
proof -
  note d = tempdirD [OF assms]
  have "stat (w_fs w) (butlast (dir @ [name])) = Some Dir"
    using d(2) by (subst stat_self) (simp_all add: is_link_def)
  moreover have "plain_node (w_fs w (dir @ [name]))" using d(3) by simp
  ultimately obtain k where "yields (fs_write (dir @ [name]) s) w () ((w_fs w)(dir @ [name] \<mapsto> File s k))"
    using fs_write_yields [OF d(1)] by metis
  then show thesis by (rule that [OF unwrap_yields])
qed

lemma read_snapshot_corrupt:
  assumes "quiet w" "w_fs w p = Some (File c k)" "of_json c = None"
  shows "fst (read_snapshot of_json now p max_age w) = Inr snapshot_inactive"
proof -
  have "stat (w_fs w) p = Some (File c k)" using assms(2) by (subst stat_self) (simp_all add: is_link_def)
  from yields_read [OF assms(1) this] have "yields (ok (read_to_string p) :: (io_kind, string option) io) w (Some c) (w_fs w)"
    by (rule yields_ok)
  then show ?thesis using assms(3) by (auto simp: read_snapshot_def yields_def bind_io_def return_io_def split: prod.splits)
qed

lemma corrupt_file_reads_as_inactive_rather_than_panicking:
  assumes "tempdir dir w" "of_json ''{ not json'' = None"
  shows "passes (corrupt_file_reads_as_inactive_rather_than_panicking of_json dir now) w"
proof -
  obtain k where k: "yields (unwrap (fs_write (status_file dir) ''{ not json'')) w ()
      ((w_fs w)(status_file dir \<mapsto> File ''{ not json'' k))" by (rule temp_write [OF assms(1)])
  show ?thesis
    unfolding corrupt_file_reads_as_inactive_rather_than_panicking_def
  proof (rule test_bind [OF k])
    fix w1 :: world assume "w_fs w1 = (w_fs w)(status_file dir \<mapsto> File ''{ not json'' k)" "quiet w1"
    then have "fst (read_snapshot of_json now (status_file dir) (secs 5) w1) = Inr snapshot_inactive"
      using assms(2) by (intro read_snapshot_corrupt) simp_all
    then show "passes (bind_io (unwrap (read_snapshot of_json now (status_file dir) (secs 5)))
        (\<lambda>read. return_io (\<not> sn_active read))) w1"
      by (rule passes_unwrap) (simp add: snapshot_inactive_def)
  qed
qed

definition stale_snapshot_reads_as_inactive ::
    "(snapshot \<Rightarrow> io_kind + string) \<Rightarrow> (string \<Rightarrow> snapshot option) \<Rightarrow> path \<Rightarrow> nat \<Rightarrow> nat \<Rightarrow> (unit, bool) io" where
  "stale_snapshot_reads_as_inactive to_json of_json dir now later =
     bind_io (unwrap (write_snapshot to_json (status_file dir) (sample_snapshot (now - 60)))) (\<lambda>_.
     bind_io (unwrap (read_snapshot of_json later (status_file dir) (secs 5))) (\<lambda>read. return_io (\<not> sn_active read)))"

lemma stale_snapshot_reads_as_inactive:
  assumes "tempdir dir w" "to_json (sample_snapshot (now - 60)) = Inr b" "of_json b = Some (sample_snapshot (now - 60))"
    and "60 \<le> now" "now \<le> later"
  shows "passes (stale_snapshot_reads_as_inactive to_json of_json dir now later) w"
proof -
  obtain t where t: "yields (unwrap (write_snapshot to_json (status_file dir) (sample_snapshot (now - 60)))) w () t"
    "t (status_file dir) = Some (File b 420)" by (rule snapshot_written [where to_json = to_json, OF assms(1,2)])
  show ?thesis
    unfolding stale_snapshot_reads_as_inactive_def
  proof (rule test_bind [OF t(1)])
    fix w1 :: world assume w1: "w_fs w1 = t" "quiet w1"
    with t(2) have "w_fs w1 (status_file dir) = Some (File b 420)" by simp
    from read_snapshot_file [where of_json = of_json, OF w1(2) this assms(3), of later "secs 5"] assms(4,5)
    have "fst (read_snapshot of_json later (status_file dir) (secs 5) w1) = Inr snapshot_inactive"
      by (simp add: sample_snapshot_def split: if_splits)
    then show "passes (bind_io (unwrap (read_snapshot of_json later (status_file dir) (secs 5)))
        (\<lambda>read. return_io (\<not> sn_active read))) w1"
      by (rule passes_unwrap) (simp add: snapshot_inactive_def)
  qed
qed

text \<open>\<open>metadata(path)?.permissions().mode()\<close>, the permission bits.\<close>

definition file_mode :: "path \<Rightarrow> (io_kind, nat) io" where
  "file_mode p = query (\<lambda>t. case stat t p of
     None \<Rightarrow> Inl NotFound | Some (File c k) \<Rightarrow> Inr k | Some _ \<Rightarrow> Inl Other_Kind)"

definition snapshot_is_world_readable :: "(snapshot \<Rightarrow> io_kind + string) \<Rightarrow> path \<Rightarrow> nat \<Rightarrow> (unit, bool) io" where
  "snapshot_is_world_readable to_json dir now =
     bind_io (unwrap (write_snapshot to_json (status_file dir) (sample_snapshot now))) (\<lambda>_.
     bind_io (unwrap (file_mode (status_file dir))) (\<lambda>mode. return_io (mode div 4 mod 2 = 1)))"

lemma snapshot_is_world_readable:
  assumes "tempdir dir w" "to_json (sample_snapshot now) = Inr b"
  shows "passes (snapshot_is_world_readable to_json dir now) w"
proof -
  obtain t where t: "yields (unwrap (write_snapshot to_json (status_file dir) (sample_snapshot now))) w () t"
    "t (status_file dir) = Some (File b 420)" by (rule snapshot_written [where to_json = to_json, OF assms])
  show ?thesis
    unfolding snapshot_is_world_readable_def
  proof (rule test_bind [OF t(1)])
    fix w1 :: world assume w1: "w_fs w1 = t" "quiet w1"
    have "stat (w_fs w1) (status_file dir) = Some (File b 420)"
      using w1 t(2) by (subst stat_self) (simp_all add: is_link_def)
    then have "yields (unwrap (file_mode (status_file dir))) w1 420 (w_fs w1)"
      unfolding file_mode_def using w1(2) by (intro unwrap_yields yields_query) simp_all
    then show "passes (bind_io (unwrap (file_mode (status_file dir))) (\<lambda>mode. return_io (mode div 4 mod 2 = 1))) w1"
      by (rule test_bind) (rule test_return, simp)
  qed
qed

definition clear_removes_the_file :: "(snapshot \<Rightarrow> io_kind + string) \<Rightarrow> path \<Rightarrow> nat \<Rightarrow> (unit, bool) io" where
  "clear_removes_the_file to_json dir now =
     bind_io (unwrap (write_snapshot to_json (status_file dir) (sample_snapshot now))) (\<lambda>_.
     bind_io (unwrap (clear (status_file dir))) (\<lambda>_.
     bind_io (path_exists (status_file dir)) (\<lambda>there. return_io (\<not> there))))"

lemma clear_removes_the_file:
  assumes "tempdir dir w" "to_json (sample_snapshot now) = Inr b"
  shows "passes (clear_removes_the_file to_json dir now) w"
proof -
  obtain t where t: "yields (unwrap (write_snapshot to_json (status_file dir) (sample_snapshot now))) w () t"
    "t (status_file dir) = Some (File b 420)" by (rule snapshot_written [where to_json = to_json, OF assms])
  have cl: "yields (unwrap (clear (status_file dir))) w1 () (t(status_file dir := None))" if "w_fs w1 = t" "quiet w1" for w1
    using yields_ignore_remove [OF that(2), of "status_file dir"] that(1) t(2) by (intro unwrap_yields) (simp add: clear_def)
  have "stat (t(status_file dir := None)) (status_file dir) = None" by (subst stat_self) (simp_all add: is_link_def)
  then have gone: "yields (path_exists (status_file dir)) w2 False (w_fs w2)" if "w_fs w2 = t(status_file dir := None)" "quiet w2" for w2
    using yields_exists [OF that(2), of "status_file dir"] that(1) by simp
  show ?thesis
    unfolding clear_removes_the_file_def
    by (rule test_bind [OF t(1)], rule test_bind [OF cl], assumption, assumption, rule test_bind [OF gone],
        assumption, assumption, rule test_return, simp)
qed

section \<open>\<open>config.rs\<close>\<close>

definition default_config_round_trips_through_toml :: "(config \<Rightarrow> string + string) \<Rightarrow> (string \<Rightarrow> string + config) \<Rightarrow> bool" where
  "default_config_round_trips_through_toml to_toml of_toml =
     (case to_toml config_default of
        Inl e \<Rightarrow> False
      | Inr text \<Rightarrow>
          (case of_toml text of
             Inl e \<Rightarrow> False
           | Inr parsed \<Rightarrow> c_listen parsed = ''127.0.0.53:53'' \<and> length (c_providers parsed) = 3 \<and>
               c_profiles parsed = [] \<and> c_tunnel_apps parsed = default_tunnel_apps))"

lemma default_config_round_trips_through_toml:
  assumes "to_toml config_default = Inr text" "of_toml text = Inr config_default"
  shows "default_config_round_trips_through_toml to_toml of_toml"
  by (simp add: default_config_round_trips_through_toml_def assms)
    (simp add: config_default_def default_listen_def default_providers_def)

definition invalid_toml_is_an_error_not_a_silent_default :: "(string \<Rightarrow> string + config) \<Rightarrow> path \<Rightarrow> (unit, bool) io" where
  "invalid_toml_is_an_error_not_a_silent_default of_toml temp_dir =
     (let dir = temp_dir @ [''detour-test-invalid'']; path = dir @ [''config.toml''] in
      bind_io (unwrap (create_dir_all dir)) (\<lambda>_.
      bind_io (unwrap (fs_write path ''this is not [ valid toml'')) (\<lambda>_.
      bind_io (attempt (load of_toml path)) (\<lambda>r.
        return_io (case r of Inl (Config_Parse _ _) \<Rightarrow> True | _ \<Rightarrow> False)))))"

lemma temp_subdir:
  assumes "tempdir dir w"
  shows "yields (unwrap (create_dir_all (dir @ [name]))) w () ((w_fs w)(dir @ [name] \<mapsto> Dir))"
proof -
  note d = tempdirD [OF assms]
  have "make_dirs (dir @ [name]) (w_fs w) = (w_fs w)(dir @ [name] \<mapsto> Dir)"
  proof
    fix q
    show "make_dirs (dir @ [name]) (w_fs w) q = ((w_fs w)(dir @ [name] \<mapsto> Dir)) q"
    proof (cases "q = dir @ [name]")
      case True
      with d(3) show ?thesis by (simp add: make_dirs_def)
    next
      case False
      have "w_fs w q \<noteq> None" if "prefix q (dir @ [name])"
      proof -
        from that False have "prefix q dir" by (simp add: prefix_snoc)
        then obtain z where "dir = q @ z" by (rule prefixE)
        then have "take (length q) dir = q" by simp
        moreover have "w_fs w (take (length q) dir) = Some Dir" using assms unfolding tempdir_def by blast
        ultimately show ?thesis by simp
      qed
      with False show ?thesis by (auto simp: make_dirs_def)
    qed
  qed
  moreover have "\<forall>k. w_fs w (take k (dir @ [name])) \<in> {None, Some Dir}"
  proof
    fix k show "w_fs w (take k (dir @ [name])) \<in> {None, Some Dir}"
      using d(3,4) by (cases "k \<le> length dir") (auto simp: take_Cons')
  qed
  ultimately show ?thesis using dirs_yields [OF d(1), of "dir @ [name]"] by (intro unwrap_yields) simp
qed

text \<open>A file in a new directory of the temporary one.\<close>

lemma file_below:
  assumes "tempdir dir w" "w_fs w1 = (w_fs w)(dir @ [name] \<mapsto> Dir)" "quiet w1"
  obtains k where "yields (unwrap (fs_write ((dir @ [name]) @ [file]) s)) w1 () ((w_fs w1)((dir @ [name]) @ [file] \<mapsto> File s k))"
proof -
  have "stat (w_fs w1) (butlast ((dir @ [name]) @ [file])) = Some Dir"
    using assms(2) by (subst stat_self) (simp_all add: is_link_def butlast_append)
  moreover have "plain_node (w_fs w1 ((dir @ [name]) @ [file]))" using tempdirD(3) [OF assms(1)] assms(2) by simp
  ultimately obtain k where "yields (fs_write ((dir @ [name]) @ [file]) s) w1 () ((w_fs w1)((dir @ [name]) @ [file] \<mapsto> File s k))"
    using fs_write_yields [OF assms(3)] by metis
  then show thesis by (rule that [OF unwrap_yields])
qed

lemma load_parse_error:
  assumes "quiet w" "stat (w_fs w) path = Some (File c k)" "of_toml c = Inl e"
  shows "fst (load of_toml path w) = Inl (Config_Parse (display path) e)"
proof -
  from yields_read [OF assms(1,2)] obtain w1 where "read_to_string path w = (Inr c, w1)" by (rule yieldsE)
  then show ?thesis by (simp add: load_def bind_io_def attempt_def assms(3) fail_io_def)
qed

lemma invalid_toml_is_an_error_not_a_silent_default:
  assumes "tempdir dir w" "of_toml ''this is not [ valid toml'' = Inl e"
  shows "passes (invalid_toml_is_an_error_not_a_silent_default of_toml dir) w"
  unfolding invalid_toml_is_an_error_not_a_silent_default_def Let_def
proof (rule test_bind [OF temp_subdir [OF assms(1)]])
  let ?p = "(dir @ [''detour-test-invalid'']) @ [''config.toml'']" and ?s = "''this is not [ valid toml''"
  fix w1 :: world assume w1: "w_fs w1 = (w_fs w)(dir @ [''detour-test-invalid''] \<mapsto> Dir)" "quiet w1"
  obtain k where k: "yields (unwrap (fs_write ?p ?s)) w1 () ((w_fs w1)(?p \<mapsto> File ?s k))"
    by (rule file_below [OF assms(1) w1])
  show "passes (bind_io (unwrap (fs_write ?p ?s)) (\<lambda>_. bind_io (attempt (load of_toml ?p)) (\<lambda>r.
      return_io (case r of Inl (Config_Parse _ _) \<Rightarrow> True | _ \<Rightarrow> False)))) w1"
  proof (rule test_bind [OF k])
    fix w2 :: world assume w2: "w_fs w2 = (w_fs w1)(?p \<mapsto> File ?s k)" "quiet w2"
    have "stat (w_fs w2) ?p = Some (File ?s k)" using w2 by (subst stat_self) (simp_all add: is_link_def)
    from load_parse_error [where of_toml = of_toml, OF w2(2) this assms(2)]
    have "fst (attempt (load of_toml ?p) w2) = Inr (Inl (Config_Parse (display ?p) e))"
      by (cases "load of_toml ?p w2") (simp add: attempt_def)
    then show "passes (bind_io (attempt (load of_toml ?p)) (\<lambda>r.
        return_io (case r of Inl (Config_Parse _ _) \<Rightarrow> True | _ \<Rightarrow> False))) w2"
      by (rule passes_last) simp
  qed
qed

definition other_game :: app_profile where
  "other_game = \<lparr>ap_id = ''other-game'', ap_name = ''Other Game'', ap_domains = [''cdn.example.com''],
     ap_launch_command = Some ''wine'', ap_launch_args = [''game.exe''], ap_notes = None\<rparr>"

definition save_then_load_preserves_profiles ::
    "(config \<Rightarrow> string + string) \<Rightarrow> (string \<Rightarrow> string + config) \<Rightarrow> path \<Rightarrow> (unit, bool) io" where
  "save_then_load_preserves_profiles to_toml of_toml temp_dir =
     (let path = (temp_dir @ [''detour-test-roundtrip'']) @ [''config.toml''];
          config = config_default\<lparr>c_profiles := c_profiles config_default @ [other_game]\<rparr> in
      bind_io (unwrap (save to_toml config path)) (\<lambda>_.
      bind_io (unwrap (load of_toml path)) (\<lambda>loaded.
        return_io (length (c_profiles loaded) = 1 \<and>
          map_option ap_domains (profile loaded ''other-game'') = Some [''cdn.example.com'']))))"

lemma save_then_load_preserves_profiles:
  assumes "tempdir dir w" "to_toml (config_default\<lparr>c_profiles := [other_game]\<rparr>) = Inr text"
    and "of_toml text = Inr (config_default\<lparr>c_profiles := [other_game]\<rparr>)"
  shows "passes (save_then_load_preserves_profiles to_toml of_toml dir) w"
proof -
  let ?p = "(dir @ [''detour-test-roundtrip'']) @ [''config.toml'']" and ?c = "config_default\<lparr>c_profiles := [other_game]\<rparr>"
  note d = tempdirD [OF assms(1)]
  have dirs: "\<forall>k. w_fs w (take k (butlast ?p)) \<in> {None, Some Dir}"
  proof
    fix k show "w_fs w (take k (butlast ?p)) \<in> {None, Some Dir}"
      using d(3,4) by (cases "k \<le> length dir") (auto simp: take_Cons' butlast_append)
  qed
  have plain: "plain_node (w_fs w ?p)" using d(3) by simp
  obtain k where k: "yields (save to_toml ?c ?p) w () ((make_dirs (butlast ?p) (w_fs w))(?p \<mapsto> File text k))"
    using save_yields [where to_toml = to_toml, OF d(1) _ plain dirs assms(2)] by blast
  have same: "config_default\<lparr>c_profiles := c_profiles config_default @ [other_game]\<rparr> = ?c" by (simp add: config_default_def)
  show ?thesis
    unfolding save_then_load_preserves_profiles_def Let_def same
  proof (rule test_bind [OF unwrap_yields [OF k]])
    fix w1 :: world assume w1: "w_fs w1 = (make_dirs (butlast ?p) (w_fs w))(?p \<mapsto> File text k)" "quiet w1"
    have "stat (w_fs w1) ?p = Some (File text k)" using w1 by (subst stat_self) (simp_all add: is_link_def)
    from load_yields [where of_toml = of_toml, OF w1(2) this assms(3)]
    show "passes (bind_io (unwrap (load of_toml ?p)) (\<lambda>loaded. return_io (length (c_profiles loaded) = 1 \<and>
        map_option ap_domains (profile loaded ''other-game'') = Some [''cdn.example.com'']))) w1"
      by (rule test_bind [OF unwrap_yields]) (rule test_return, simp add: profile_def other_game_def)
  qed
qed

section \<open>\<open>resolvconf.rs\<close>\<close>

definition current_pid_is_alive_and_pid_zero_is_not :: "host \<Rightarrow> bool" where
  "current_pid_is_alive_and_pid_zero_is_not h \<longleftrightarrow> process_is_alive h (h_pid h) \<and> \<not> process_is_alive h 0"

lemma current_pid_is_alive_and_pid_zero_is_not:
  assumes "h_pid h \<noteq> 0" "h_kill0 h (sint (h_pid h))"
  shows "current_pid_is_alive_and_pid_zero_is_not h"
  using assms by (simp add: current_pid_is_alive_and_pid_zero_is_not_def process_is_alive_def)

end
