(* ===== verification/Takeover_Tests.thy ===== *)
theory Takeover_Tests
  imports File_Tests Helper_Tests
begin

text \<open>
  The integration tests of \<open>crates/dns-helper/tests/takeover.rs\<close> on the model: each test is a program
  that makes a sandbox in a fresh temporary directory, calls the manager's operations and ends with the conjunction
  of its assertions. The process of the test (its number, the clock, \<open>kill\<close> and the JSON codec of the
  state) is the argument \<open>h\<close>; the lemmas need that it is alive and that the codec reads back what it wrote.
\<close>

section \<open>The sandbox\<close>

definition sandbox_manager :: "path \<Rightarrow> manager" where
  "sandbox_manager dir = \<lparr>resolv_path = dir @ [''resolv.conf''], state_dir = dir @ [''state''],
     nm_dropin = dir @ [''NetworkManager'', ''conf.d'', ''00-detour.conf'']\<rparr>"

definition sandbox_new :: "path \<Rightarrow> string \<Rightarrow> (unit, unit) io" where
  "sandbox_new dir resolv_contents =
     bind_io (unwrap (create_dir_all (dir @ [''NetworkManager'', ''conf.d'']))) (\<lambda>_.
       unwrap (fs_write (dir @ [''resolv.conf'']) resolv_contents))"

definition resolv_contents :: "path \<Rightarrow> (unit, string) io" where
  "resolv_contents dir = unwrap (read_to_string (dir @ [''resolv.conf'']))"

definition proxy_ip :: ip_addr where "proxy_ip = the (parse_ip ''127.0.0.53'')"

definition ORIGINAL :: string where
  "ORIGINAL = unlines [''# Generated by NetworkManager'', ''nameserver 8.8.8.8'', ''nameserver 8.8.4.4'']"

definition this_process :: "host \<Rightarrow> bool" where
  "this_process h \<longleftrightarrow> process_is_alive h (h_pid h) \<and> (\<forall>st. h_de h (h_ser h st) = Some st)"

lemmas sandbox_eval = sandbox_manager_def backup_path_def state_path_def tmp_path_def own_files_def

lemma sandbox_layout: "layout (sandbox_manager dir)"
  by (simp add: layout_def sandbox_eval butlast_append)

definition sandbox_disk :: "path \<Rightarrow> string \<Rightarrow> nat \<Rightarrow> files \<Rightarrow> files" where
  "sandbox_disk dir orig k t = (make_dirs (dir @ [''NetworkManager'', ''conf.d'']) t)(dir @ [''resolv.conf''] \<mapsto> File orig k)"

lemma sandbox_dirs:
  assumes "tempdir dir w"
  shows "make_dirs (dir @ [''NetworkManager'', ''conf.d'']) (w_fs w) dir = Some Dir"
    "make_dirs (dir @ [''NetworkManager'', ''conf.d'']) (w_fs w) (dir @ [''NetworkManager'', ''conf.d'']) = Some Dir"
    "hd q \<noteq> ''NetworkManager'' \<Longrightarrow> q \<noteq> [] \<Longrightarrow> make_dirs (dir @ [''NetworkManager'', ''conf.d'']) (w_fs w) (dir @ q) = None"
    "q \<noteq> [] \<Longrightarrow> make_dirs (dir @ [''NetworkManager'', ''conf.d'']) (w_fs w) (dir @ [''NetworkManager'', ''conf.d''] @ q) = None"
    "make_dirs (dir @ [''NetworkManager'', ''conf.d'']) (w_fs w) (take k dir) = Some Dir"
proof -
  from assms have all: "w_fs w (take k dir) = Some Dir" "\<And>q. q \<noteq> [] \<Longrightarrow> w_fs w (dir @ q) = None" for k
    unfolding tempdir_def by blast+
  show "make_dirs (dir @ [''NetworkManager'', ''conf.d'']) (w_fs w) dir = Some Dir" using all(1) [of "length dir"] by (simp add: make_dirs_def)
  show "make_dirs (dir @ [''NetworkManager'', ''conf.d'']) (w_fs w) (dir @ [''NetworkManager'', ''conf.d'']) = Some Dir"
    by (simp add: make_dirs_def all)
  show "make_dirs (dir @ [''NetworkManager'', ''conf.d'']) (w_fs w) (dir @ q) = None" if "hd q \<noteq> ''NetworkManager''" "q \<noteq> []"
    using that by (cases q) (simp_all add: make_dirs_def all)
  show "make_dirs (dir @ [''NetworkManager'', ''conf.d'']) (w_fs w) (dir @ [''NetworkManager'', ''conf.d''] @ q) = None" if "q \<noteq> []"
    using that by (cases q) (simp_all add: make_dirs_def all(2) [of "''NetworkManager'' # ''conf.d'' # _", simplified])
  show "make_dirs (dir @ [''NetworkManager'', ''conf.d'']) (w_fs w) (take k dir) = Some Dir" by (simp add: make_dirs_def all)
qed

lemma sandbox_made:
  assumes "tempdir dir w"
  obtains k where "yields (sandbox_new dir orig) w () (sandbox_disk dir orig k (w_fs w))"
proof -
  note d = tempdirD [OF assms] and s = sandbox_dirs [OF assms]
  let ?nm = "dir @ [''NetworkManager'', ''conf.d'']"
  have dirs: "\<forall>k. w_fs w (take k ?nm) \<in> {None, Some Dir}"
  proof
    fix k show "w_fs w (take k ?nm) \<in> {None, Some Dir}"
      using d(3,4) by (cases "k \<le> length dir") (auto simp: take_Cons')
  qed
  obtain w1 where w1: "create_dir_all ?nm w = (Inr (), w1)" "quiet w1" "w_fs w1 = make_dirs ?nm (w_fs w)"
    by (rule yieldsE [OF dirs_yields [OF d(1) dirs]])
  have "stat (w_fs w1) (butlast (dir @ [''resolv.conf''])) = Some Dir"
    using s(1) w1(3) by (subst stat_self) (simp_all add: is_link_def)
  moreover have "plain_node (w_fs w1 (dir @ [''resolv.conf'']))" using s(3) [of "[''resolv.conf'']"] w1(3) by simp
  ultimately obtain k where k: "yields (fs_write (dir @ [''resolv.conf'']) orig) w1 () (sandbox_disk dir orig k (w_fs w))"
    using fs_write_yields [OF w1(2)] w1(3) unfolding sandbox_disk_def by metis
  have "yields (sandbox_new dir orig) w () (sandbox_disk dir orig k (w_fs w))"
    unfolding sandbox_new_def using w1(1) unwrap_yields [OF k]
    by (simp add: yields_def bind_io_def unwrap_def map_err_def)
  then show thesis by (rule that)
qed

lemma sandbox_fresh:
  assumes "tempdir dir w" "d \<in> {Map.empty, [dir @ [''NetworkManager'', ''conf.d'', ''00-detour.conf''] \<mapsto> File own k']}"
  shows "fresh (sandbox_manager dir) orig (sandbox_disk dir orig k (w_fs w) ++ d)" (is "fresh ?m orig ?t")
proof -
  note s = sandbox_dirs [OF assms(1)]
  have nm: "?t (dir @ [''NetworkManager'', ''conf.d'']) = Some Dir" "?t dir = Some Dir"
    using assms(2) s(1,2) by (auto simp: sandbox_disk_def)
  have own: "?t (dir @ [''resolv.conf'']) = Some (File orig k)"
    using assms(2) by (auto simp: sandbox_disk_def)
  have none: "?t (dir @ [x]) = None" if "x \<noteq> ''NetworkManager''" "x \<noteq> ''resolv.conf''" for x
    using assms(2) s(3) [of "[x]"] that by (auto simp: sandbox_disk_def)
  have st: "?t (dir @ [''state'', x]) = None" for x
    using assms(2) s(3) [of "[''state'', x]"] by (auto simp: sandbox_disk_def)
  have drop: "plain_node (?t (nm_dropin ?m))" "?t (tmp_path (nm_dropin ?m)) = None"
    using assms(2) s(4) [of "[''00-detour.conf'']"] s(4) [of "[''.00-detour.conf.detour.tmp'']"]
    by (auto simp: sandbox_disk_def sandbox_eval butlast_append)
  have sane: "sane ?m ?t"
    using own none [of "''.resolv.conf.detour.tmp''"] st drop nm
    by (simp add: sane_def sandbox_eval butlast_append) (auto simp: plain_node_def)
  have dirs: "?t (take k (state_dir ?m)) \<in> {None, Some Dir}" for k
  proof (cases "k \<le> length dir")
    case True
    have "take k dir \<noteq> dir @ x # xs" for x xs
    proof
      assume "take k dir = dir @ x # xs"
      then have "length (take k dir) = length (dir @ x # xs)" by simp
      then show False by simp
    qed
    with True assms(2) s(5) [of k] show ?thesis by (auto simp: sandbox_disk_def sandbox_manager_def)
  next
    case False
    then have "take k (state_dir ?m) = dir @ [''state'']" by (simp add: sandbox_manager_def)
    with none [of "''state''"] show ?thesis by simp
  qed
  have "\<not> is_link ?t (resolv_path ?m)" using own by (simp add: is_link_def sandbox_manager_def)
  then have "real_path 41 ?t (resolv_path ?m) = Some (resolv_path ?m)" by (rule real_path_41)
  moreover have "?t (resolv_path ?m) = Some (File orig k)" using own by (simp add: sandbox_manager_def)
  ultimately have "\<exists>k e. real_path 41 ?t (resolv_path ?m) = Some e \<and> ?t e = Some (File orig k) \<and>
      e \<notin> set (own_files ?m) - {resolv_path ?m}" by (intro exI [of _ k] exI [of _ "resolv_path ?m"]) blast
  moreover have "\<not> is_link ?t (butlast (nm_dropin ?m))" using nm by (simp add: is_link_def sandbox_manager_def butlast_append)
  moreover have "?t (state_path ?m) = None" "plain_node (?t (backup_path ?m))" using st by (simp_all add: sandbox_eval del: map_add_None)
  ultimately show ?thesis unfolding fresh_def using sane drop(1) dirs by blast
qed

text \<open>After a takeover in the sandbox, and after a restore.\<close>

definition taken :: "host \<Rightarrow> path \<Rightarrow> string \<Rightarrow> takeover_state \<Rightarrow> world \<Rightarrow> bool" where
  "taken h dir orig st w \<longleftrightarrow> quiet w \<and> sane (sandbox_manager dir) (w_fs w) \<and>
     w_fs w (state_dir (sandbox_manager dir)) = Some Dir \<and>
     w_fs w (resolv_path (sandbox_manager dir)) = Some (File (redirect_body (sandbox_manager dir) proxy_ip) 420) \<and>
     w_fs w (backup_path (sandbox_manager dir)) = Some (File orig 384) \<and>
     (\<exists>k. w_fs w (state_path (sandbox_manager dir)) = Some (File (h_ser h st) k)) \<and>
     ts_original_symlink_target st = None \<and> ts_wrote_nm_dropin st \<and>
     w_fs w (nm_dropin (sandbox_manager dir)) = Some (File NM_DROPIN_BODY 420)"

definition given_back :: "path \<Rightarrow> string \<Rightarrow> world \<Rightarrow> bool" where
  "given_back dir orig w \<longleftrightarrow> quiet w \<and> w_fs w (resolv_path (sandbox_manager dir)) = Some (File orig 420) \<and>
     w_fs w (state_path (sandbox_manager dir)) = None \<and> w_fs w (backup_path (sandbox_manager dir)) = None \<and>
     w_fs w (nm_dropin (sandbox_manager dir)) = None"

lemma redirected_nodes:
  assumes "layout m" "writes_dropin m t" "fresh m orig t"
  shows "disk_redirected h m addr orig t (resolv_path m) = Some (File (redirect_body m addr) 420)"
    "disk_redirected h m addr orig t (backup_path m) = Some (File orig 384)"
    "disk_redirected h m addr orig t (state_path m) = Some (File (h_ser h (recorded h m orig t)) 384)"
    "disk_redirected h m addr orig t (nm_dropin m) = Some (File NM_DROPIN_BODY 420)"
    "disk_redirected h m addr orig t (state_dir m) = Some Dir"
  using state_dir_made [OF assms(1,3)]
  by (simp_all add: disk_redirected_def disk_state_def disk_dropin_def disk_backup_def layout_neqs [OF assms(1)] assms(2))

lemma after_sandbox:
  assumes "tempdir dir w"
    and "\<And>w1 k. quiet w1 \<Longrightarrow> fresh (sandbox_manager dir) orig (w_fs w1) \<Longrightarrow> writes_dropin (sandbox_manager dir) (w_fs w1) \<Longrightarrow>
      w_fs w1 (dir @ [''resolv.conf'']) = Some (File orig k) \<Longrightarrow> w_fs w1 = sandbox_disk dir orig k (w_fs w) \<Longrightarrow> passes (f ()) w1"
  shows "passes (bind_io (sandbox_new dir orig) f) w"
proof -
  obtain k where k: "yields (sandbox_new dir orig) w () (sandbox_disk dir orig k (w_fs w))" by (rule sandbox_made [OF assms(1)])
  have fr: "fresh (sandbox_manager dir) orig (sandbox_disk dir orig k (w_fs w))"
    using sandbox_fresh [OF assms(1), of Map.empty] by simp
  have "writes_dropin (sandbox_manager dir) (sandbox_disk dir orig k (w_fs w))"
    using sandbox_dirs(2,4) [OF assms(1)] sandbox_dirs(4) [OF assms(1), of "[''00-detour.conf'']"]
    by (simp add: writes_dropin_def sandbox_disk_def sandbox_manager_def butlast_append make_dirs_def [of "_ @ [''state'']"])
  then show ?thesis
    by (intro test_bind [OF k] assms(2)) (use fr in \<open>simp_all add: sandbox_disk_def\<close>)
qed

lemma after_take_over:
  assumes "quiet w" "fresh (sandbox_manager dir) orig (w_fs w)" "writes_dropin (sandbox_manager dir) (w_fs w)"
    and "w_fs w (dir @ [''resolv.conf'']) = Some (File orig k)"
    and "\<And>w1 st. taken h dir orig st w1 \<Longrightarrow> ts_original_nameservers st = parse_nameservers orig \<Longrightarrow> ts_pid st = h_pid h \<Longrightarrow> passes (f st) w1"
  shows "passes (bind_io (unwrap (take_over h (sandbox_manager dir) proxy_ip)) f) w"
proof (rule test_bind [OF unwrap_yields [OF take_over_yields [OF sandbox_layout assms(2,1)]]])
  let ?m = "sandbox_manager dir" and ?st = "recorded h (sandbox_manager dir) orig (w_fs w)"
  fix w1 :: world assume w1: "w_fs w1 = disk_redirected h ?m proxy_ip orig (w_fs w)" "quiet w1"
  have "sane ?m (w_fs w)" using assms(2) by (simp add: fresh_def)
  then have "taken h dir orig ?st w1"
    unfolding taken_def w1(1) redirected_nodes [OF sandbox_layout assms(3,2)]
    using w1(2) disk_sane(4) [OF sandbox_layout] assms(3,4) by (simp add: recorded_def) (simp add: sandbox_manager_def)
  then show "passes (f ?st) w1" by (rule assms(5)) (simp_all add: recorded_def)
qed

lemma in_sandbox:
  assumes "tempdir dir w"
    and "\<And>w1 st. taken h dir orig st w1 \<Longrightarrow> ts_original_nameservers st = parse_nameservers orig \<Longrightarrow> ts_pid st = h_pid h \<Longrightarrow> passes (f st) w1"
  shows "passes (bind_io (sandbox_new dir orig) (\<lambda>_. bind_io (unwrap (take_over h (sandbox_manager dir) proxy_ip)) f)) w"
  by (rule after_sandbox [OF assms(1)], rule after_take_over) (assumption | rule assms(2))+

lemma taken_restored:
  assumes "taken h dir orig st w" "h_de h (h_ser h st) = Some st"
  obtains t where "yields (restore h (sandbox_manager dir)) w () t" "\<And>w1. w_fs w1 = t \<Longrightarrow> quiet w1 \<Longrightarrow> given_back dir orig w1"
proof -
  let ?m = "sandbox_manager dir"
  from assms(1) obtain k where k: "w_fs w (state_path ?m) = Some (File (h_ser h st) k)" by (auto simp: taken_def)
  from assms(1) have t: "quiet w" "sane ?m (w_fs w)" "w_fs w (backup_path ?m) = Some (File orig 384)" "w_fs w (resolv_path ?m) \<noteq> Some Dir"
    "ts_original_symlink_target st = None" "ts_wrote_nm_dropin st" by (simp_all add: taken_def)
  have "yields (restore h ?m) w () (restored ?m st orig (w_fs w))"
    by (rule restore_yields [OF sandbox_layout t(1,2) k assms(2) t(3,4)])
  then show thesis
    by (rule that) (simp add: given_back_def restored_def t(5,6) layout_neqs [OF sandbox_layout])
qed

lemma after_restore:
  assumes "taken h dir orig st w" "this_process h" "\<And>w1. given_back dir orig w1 \<Longrightarrow> passes (f ()) w1"
  shows "passes (bind_io (unwrap (restore h (sandbox_manager dir))) f) w"
proof -
  have "h_de h (h_ser h st) = Some st" using assms(2) by (simp add: this_process_def)
  from taken_restored [OF assms(1) this] obtain t where t: "yields (restore h (sandbox_manager dir)) w () t"
    "\<And>w1. w_fs w1 = t \<Longrightarrow> quiet w1 \<Longrightarrow> given_back dir orig w1" by metis
  then show ?thesis by (intro test_bind [OF unwrap_yields [OF t(1)]] assms(3)) blast
qed

text \<open>Reading leaves the disk as it is, so what is known of it stays known.\<close>

lemma reads_contents:
  assumes "quiet w" "w_fs w (dir @ [''resolv.conf'']) = Some (File c k)"
  shows "yields (resolv_contents dir) w c (w_fs w)"
proof -
  have "stat (w_fs w) (dir @ [''resolv.conf'']) = Some (File c k)" using assms(2) by (subst stat_self) (simp_all add: is_link_def)
  then show ?thesis unfolding resolv_contents_def by (intro unwrap_yields yields_read [OF assms(1)])
qed

lemma taken_same: "taken h dir orig st w \<Longrightarrow> w_fs w1 = w_fs w \<Longrightarrow> quiet w1 \<Longrightarrow> taken h dir orig st w1"
  by (simp add: taken_def)

lemma given_back_same: "given_back dir orig w \<Longrightarrow> w_fs w1 = w_fs w \<Longrightarrow> quiet w1 \<Longrightarrow> given_back dir orig w1"
  by (simp add: given_back_def)

lemma taken_contents:
  assumes "taken h dir orig st w" "\<And>w1. taken h dir orig st w1 \<Longrightarrow> passes (f (redirect_body (sandbox_manager dir) proxy_ip)) w1"
  shows "passes (bind_io (resolv_contents dir) f) w"
proof -
  have "yields (resolv_contents dir) w (redirect_body (sandbox_manager dir) proxy_ip) (w_fs w)"
    by (rule reads_contents) (use assms(1) in \<open>simp_all add: taken_def, simp add: sandbox_manager_def\<close>)
  then show ?thesis by (rule test_bind) (rule assms(2), rule taken_same [OF assms(1)])
qed

lemma given_back_contents:
  assumes "given_back dir orig w" "\<And>w1. given_back dir orig w1 \<Longrightarrow> passes (f orig) w1"
  shows "passes (bind_io (resolv_contents dir) f) w"
proof -
  have "yields (resolv_contents dir) w orig (w_fs w)"
    by (rule reads_contents) (use assms(1) in \<open>simp_all add: given_back_def, simp add: sandbox_manager_def\<close>)
  then show ?thesis by (rule test_bind) (rule assms(2), rule given_back_same [OF assms(1)])
qed

lemma taken_state:
  assumes "taken h dir orig st w" "this_process h"
  shows "yields (read_state h (sandbox_manager dir)) w (Some st) (w_fs w)"
proof -
  from assms(1) obtain k where k: "w_fs w (state_path (sandbox_manager dir)) = Some (File (h_ser h st) k)" "quiet w"
    by (auto simp: taken_def)
  have "h_de h (h_ser h st) = Some st" using assms(2) by (simp add: this_process_def)
  then show ?thesis by (rule read_state_some [OF k(2,1)])
qed

lemma taken_active:
  assumes "taken h dir orig st w" "this_process h" "\<And>w1. taken h dir orig st w1 \<Longrightarrow> passes (f (process_is_alive h (ts_pid st))) w1"
  shows "passes (bind_io (unwrap (is_active h (sandbox_manager dir))) f) w"
proof -
  have "yields (is_active h (sandbox_manager dir)) w (process_is_alive h (ts_pid st)) (w_fs w)"
    unfolding is_active_def
    by (rule yields_bind [OF taken_state [OF assms(1,2)]]) (metis option.case(2) yields_return)
  from unwrap_yields [OF this] show ?thesis by (rule test_bind) (rule assms(3), rule taken_same [OF assms(1)])
qed

lemma given_back_active:
  assumes "given_back dir orig w" "\<And>w1. given_back dir orig w1 \<Longrightarrow> passes (f False) w1"
  shows "passes (bind_io (unwrap (is_active h (sandbox_manager dir))) f) w"
proof -
  from assms(1) have "quiet w" "w_fs w (state_path (sandbox_manager dir)) = None" by (simp_all add: given_back_def)
  then have "yields (is_active h (sandbox_manager dir)) w False (w_fs w)"
    unfolding is_active_def by (rule yields_bind [OF read_state_none]) (metis option.case(1) yields_return)
  from unwrap_yields [OF this] show ?thesis by (rule test_bind) (rule assms(2), rule given_back_same [OF assms(1)])
qed

section \<open>The tests\<close>

definition takeover_rewrites_resolv_conf_and_records_originals :: "host \<Rightarrow> path \<Rightarrow> (unit, bool) io" where
  "takeover_rewrites_resolv_conf_and_records_originals h dir =
     bind_io (sandbox_new dir ORIGINAL) (\<lambda>_.
     bind_io (unwrap (take_over h (sandbox_manager dir) proxy_ip)) (\<lambda>state.
     bind_io (resolv_contents dir) (\<lambda>contents.
     bind_io (unwrap (is_active h (sandbox_manager dir))) (\<lambda>active.
       return_io (str_contains ''nameserver 127.0.0.53'' contents \<and>
         ts_original_nameservers state = [the (parse_ip ''8.8.8.8''), the (parse_ip ''8.8.4.4'')] \<and> active)))))"

lemma proxy_ip_eval: "show_ip proxy_ip = ''127.0.0.53''"
proof -
  have "parse_ip ''127.0.0.53'' = Some (V4 127 0 0 53)" by (simp add: ip_eval)
  then show ?thesis by (simp add: proxy_ip_def show_quad_def show_nat_eval)
qed

lemma redirect_contains: "str_contains ''nameserver 127.0.0.53'' (redirect_body m proxy_ip)"
  unfolding redirect_body_def proxy_ip_eval
  by (simp add: unlines_def str_contains_iff)
    (rule exI [of _ "''# Managed by Detour. The original file is backed up at'' @ [nl] @ ''# '' @ display (backup_path m) @ [nl] @
       ''# and is restored automatically when DNS protection is turned off.'' @ [nl]"], simp)

lemma original_servers: "parse_nameservers ORIGINAL = [the (parse_ip ''8.8.8.8''), the (parse_ip ''8.8.4.4'')]"
  by (simp add: ORIGINAL_def nameservers_eval)

lemma takeover_rewrites_resolv_conf_and_records_originals:
  assumes "tempdir dir w" "this_process h"
  shows "passes (takeover_rewrites_resolv_conf_and_records_originals h dir) w"
  unfolding takeover_rewrites_resolv_conf_and_records_originals_def
  by (rule in_sandbox [OF assms(1)], rule taken_contents, assumption, rule taken_active [OF _ assms(2)], assumption, rule test_return)
    (use assms(2) in \<open>simp add: redirect_contains original_servers this_process_def\<close>)

definition restore_returns_the_original_file_byte_for_byte :: "host \<Rightarrow> path \<Rightarrow> (unit, bool) io" where
  "restore_returns_the_original_file_byte_for_byte h dir =
     bind_io (sandbox_new dir ORIGINAL) (\<lambda>_.
     bind_io (unwrap (take_over h (sandbox_manager dir) proxy_ip)) (\<lambda>_.
     bind_io (resolv_contents dir) (\<lambda>during.
     bind_io (unwrap (restore h (sandbox_manager dir))) (\<lambda>_.
     bind_io (resolv_contents dir) (\<lambda>after.
     bind_io (unwrap (is_active h (sandbox_manager dir))) (\<lambda>active.
       return_io (during \<noteq> ORIGINAL \<and> after = ORIGINAL \<and> \<not> active)))))))"

lemma redirect_differs: "redirect_body m proxy_ip \<noteq> ORIGINAL"
  by (simp add: redirect_body_def ORIGINAL_def unlines_def)

lemma restore_returns_the_original_file_byte_for_byte:
  assumes "tempdir dir w" "this_process h"
  shows "passes (restore_returns_the_original_file_byte_for_byte h dir) w"
  unfolding restore_returns_the_original_file_byte_for_byte_def
  by (rule in_sandbox [OF assms(1)], rule taken_contents, assumption, rule after_restore [OF _ assms(2)], assumption,
      rule given_back_contents, assumption, rule given_back_active, assumption, rule test_return)
    (simp add: redirect_differs)

definition crash_recovery_restores_when_the_owning_process_is_gone :: "host \<Rightarrow> path \<Rightarrow> (unit, bool) io" where
  "crash_recovery_restores_when_the_owning_process_is_gone h dir =
     (let manager = sandbox_manager dir in
      bind_io (sandbox_new dir ORIGINAL) (\<lambda>_.
      bind_io (unwrap (take_over h manager proxy_ip)) (\<lambda>_.
      bind_io (unwrap (read_to_string (state_path manager))) (\<lambda>text.
      bind_io (case h_de h text of Some state \<Rightarrow> return_io state | None \<Rightarrow> fail_io ()) (\<lambda>state.
      bind_io (unwrap (fs_write (state_path manager) (h_ser h (state\<lparr>ts_pid := 0x7FFFFFFE\<rparr>)))) (\<lambda>_.
      bind_io (unwrap (is_active h manager)) (\<lambda>active.
      bind_io (unwrap (reconcile_after_crash h manager)) (\<lambda>recovered.
      bind_io (resolv_contents dir) (\<lambda>contents.
        return_io (\<not> active \<and> map_option ts_pid recovered = Some 0x7FFFFFFE \<and> contents = ORIGINAL))))))))))"

lemma taken_text:
  assumes "taken h dir orig st w"
  shows "yields (unwrap (read_to_string (state_path (sandbox_manager dir)))) w (h_ser h st) (w_fs w)"
proof -
  from assms obtain k where k: "w_fs w (state_path (sandbox_manager dir)) = Some (File (h_ser h st) k)" "quiet w"
    by (auto simp: taken_def)
  have "stat (w_fs w) (state_path (sandbox_manager dir)) = Some (File (h_ser h st) k)"
    using k(1) by (subst stat_self) (simp_all add: is_link_def)
  then show ?thesis by (intro unwrap_yields yields_read [OF k(2)])
qed

lemma taken_rewritten:
  assumes "taken h dir orig st w" "ts_original_symlink_target st' = None" "ts_wrote_nm_dropin st'"
    and "\<And>w1. taken h dir orig st' w1 \<Longrightarrow> passes (f ()) w1"
  shows "passes (bind_io (unwrap (fs_write (state_path (sandbox_manager dir)) (h_ser h st'))) f) w"
proof -
  let ?m = "sandbox_manager dir" and ?s = "state_path (sandbox_manager dir)"
  from assms(1) obtain k where k: "w_fs w ?s = Some (File (h_ser h st) k)" "quiet w" by (auto simp: taken_def)
  have "stat (w_fs w) (butlast ?s) = Some Dir"
    using assms(1) by (subst stat_self) (simp_all add: taken_def is_link_def butlast_backup)
  then obtain k' where "yields (fs_write ?s (h_ser h st')) w () ((w_fs w)(?s \<mapsto> File (h_ser h st') k'))"
    using fs_write_yields [OF k(2)] k(1) by (metis plain_node_simps(2))
  then show ?thesis
  proof (rule test_bind [OF unwrap_yields])
    fix w1 :: world assume w1: "w_fs w1 = (w_fs w)(?s \<mapsto> File (h_ser h st') k')" "quiet w1"
    have "sane ?m (w_fs w1)"
      unfolding w1(1) using assms(1) by (intro sane_upd [OF sandbox_layout]) (simp_all add: taken_def own_simps)
    then have "taken h dir orig st' w1"
      using assms(1-3) w1 by (simp add: taken_def layout_neqs [OF sandbox_layout])
    then show "passes (f ()) w1" by (rule assms(4))
  qed
qed

lemma taken_reconciled:
  assumes "taken h dir orig st w" "\<forall>st. h_de h (h_ser h st) = Some st" "\<not> process_is_alive h (ts_pid st)"
    and "\<And>w1. given_back dir orig w1 \<Longrightarrow> passes (f (Some st)) w1"
  shows "passes (bind_io (unwrap (reconcile_after_crash h (sandbox_manager dir))) f) w"
proof -
  let ?m = "sandbox_manager dir"
  from assms(1) obtain k where k: "w_fs w (state_path ?m) = Some (File (h_ser h st) k)" "quiet w" by (auto simp: taken_def)
  have de: "h_de h (h_ser h st) = Some st" using assms(2) by blast
  from read_state_some [OF k(2,1) de] obtain w1 where w1: "read_state h ?m w = (Inr (Some st), w1)" "quiet w1" "w_fs w1 = w_fs w"
    by (rule yieldsE)
  obtain t where t: "yields (restore h ?m) w1 () t" "\<And>w1. w_fs w1 = t \<Longrightarrow> quiet w1 \<Longrightarrow> given_back dir orig w1"
    using taken_restored [OF taken_same [OF assms(1) w1(3,2)] de] by metis
  have "yields (reconcile_after_crash h ?m) w (Some st) t"
    using t(1) w1(1) assms(3) by (auto simp: reconcile_after_crash_def yields_def bind_io_def return_io_def split: prod.splits)
  from unwrap_yields [OF this] show ?thesis by (rule test_bind) (rule assms(4), rule t(2))
qed

lemma crash_recovery_restores_when_the_owning_process_is_gone:
  assumes "tempdir dir w" "this_process h" "\<not> h_kill0 h 0x7FFFFFFE"
  shows "passes (crash_recovery_restores_when_the_owning_process_is_gone h dir) w"
proof -
  have de: "\<forall>st. h_de h (h_ser h st) = Some st" using assms(2) by (simp add: this_process_def)
  have dead: "\<not> process_is_alive h (ts_pid (st\<lparr>ts_pid := 0x7FFFFFFE\<rparr>))" for st :: takeover_state
    using assms(3) by (simp add: process_is_alive_def)
  show ?thesis
    unfolding crash_recovery_restores_when_the_owning_process_is_gone_def Let_def
  proof (rule in_sandbox [OF assms(1)])
    fix w1 and st :: takeover_state
    let ?st = "st\<lparr>ts_pid := 0x7FFFFFFE\<rparr>" and ?m = "sandbox_manager dir"
    assume taken: "taken h dir ORIGINAL st w1"
    then have kept: "ts_original_symlink_target ?st = None" "ts_wrote_nm_dropin ?st" by (simp_all add: taken_def)
    show "passes (bind_io (unwrap (read_to_string (state_path ?m))) (\<lambda>text.
        bind_io (case h_de h text of None \<Rightarrow> fail_io () | Some state \<Rightarrow> return_io state) (\<lambda>state.
        bind_io (unwrap (fs_write (state_path ?m) (h_ser h (state\<lparr>ts_pid := 0x7FFFFFFE\<rparr>)))) (\<lambda>_.
        bind_io (unwrap (is_active h ?m)) (\<lambda>active.
        bind_io (unwrap (reconcile_after_crash h ?m)) (\<lambda>recovered.
        bind_io (resolv_contents dir) (\<lambda>contents.
          return_io (\<not> active \<and> map_option ts_pid recovered = Some 0x7FFFFFFE \<and> contents = ORIGINAL)))))))) w1"
    proof (rule test_bind [OF taken_text [OF taken]], simp only: de option.case)
      fix w2 :: world assume w2: "w_fs w2 = w_fs w1" "quiet w2"
      show "passes (bind_io (return_io st) (\<lambda>state.
        bind_io (unwrap (fs_write (state_path ?m) (h_ser h (state\<lparr>ts_pid := 0x7FFFFFFE\<rparr>)))) (\<lambda>_.
        bind_io (unwrap (is_active h ?m)) (\<lambda>active.
        bind_io (unwrap (reconcile_after_crash h ?m)) (\<lambda>recovered.
        bind_io (resolv_contents dir) (\<lambda>contents.
          return_io (\<not> active \<and> map_option ts_pid recovered = Some 0x7FFFFFFE \<and> contents = ORIGINAL))))))) w2"
        by (rule test_bind [OF yields_return [OF w2(2)]], rule taken_rewritten [OF _ kept],
            rule taken_same [OF taken_same [OF taken w2]], assumption, assumption,
            rule taken_active [OF _ assms(2)], assumption, rule taken_reconciled [OF _ de dead], assumption,
            rule given_back_contents, assumption, rule test_return) (use dead in simp)
    qed
  qed
qed

definition reconcile_refuses_to_disturb_a_live_takeover :: "host \<Rightarrow> path \<Rightarrow> (unit, bool) io" where
  "reconcile_refuses_to_disturb_a_live_takeover h dir =
     bind_io (sandbox_new dir ORIGINAL) (\<lambda>_.
     bind_io (unwrap (take_over h (sandbox_manager dir) proxy_ip)) (\<lambda>_.
     bind_io (attempt (reconcile_after_crash h (sandbox_manager dir))) (\<lambda>r.
     bind_io (resolv_contents dir) (\<lambda>contents.
       return_io ((case r of Inl (AlreadyActive _) \<Rightarrow> True | _ \<Rightarrow> False) \<and> str_contains ''127.0.0.53'' contents)))))"

definition second_takeover_while_active_is_refused :: "host \<Rightarrow> path \<Rightarrow> (unit, bool) io" where
  "second_takeover_while_active_is_refused h dir =
     bind_io (sandbox_new dir ORIGINAL) (\<lambda>_.
     bind_io (unwrap (take_over h (sandbox_manager dir) proxy_ip)) (\<lambda>_.
     bind_io (attempt (take_over h (sandbox_manager dir) proxy_ip)) (\<lambda>r.
       return_io (case r of Inl (AlreadyActive _) \<Rightarrow> True | _ \<Rightarrow> False))))"

text \<open>Both are refused before they touch anything.\<close>

lemma live_refused:
  assumes "taken h dir orig st w" "this_process h" "ts_pid st = h_pid h"
  shows "yields (attempt (reconcile_after_crash h (sandbox_manager dir)) :: (unit, resolv_error + takeover_state option) io) w
      (Inl (AlreadyActive (h_pid h))) (w_fs w)"
    "yields (attempt (take_over h (sandbox_manager dir) proxy_ip) :: (unit, resolv_error + takeover_state) io) w
      (Inl (AlreadyActive (h_pid h))) (w_fs w)"
proof -
  obtain w1 where "read_state h (sandbox_manager dir) w = (Inr (Some st), w1)" "quiet w1" "w_fs w1 = w_fs w"
    by (rule yieldsE [OF taken_state [OF assms(1,2)]])
  then show "yields (attempt (reconcile_after_crash h (sandbox_manager dir)) :: (unit, resolv_error + takeover_state option) io) w
      (Inl (AlreadyActive (h_pid h))) (w_fs w)"
    "yields (attempt (take_over h (sandbox_manager dir) proxy_ip) :: (unit, resolv_error + takeover_state) io) w
      (Inl (AlreadyActive (h_pid h))) (w_fs w)"
    using assms(2,3) by (simp_all add: yields_def attempt_def reconcile_after_crash_def take_over_def bind_io_def fail_io_def this_process_def)
qed

lemma str_contains_suffix: "str_contains (a @ b) s \<Longrightarrow> str_contains b s"
  by (auto simp: str_contains_iff) (metis append.assoc)

lemma reconcile_refuses_to_disturb_a_live_takeover:
  assumes "tempdir dir w" "this_process h"
  shows "passes (reconcile_refuses_to_disturb_a_live_takeover h dir) w"
proof -
  have "str_contains ''127.0.0.53'' (redirect_body (sandbox_manager dir) proxy_ip)"
    by (rule str_contains_suffix [of "''nameserver ''"]) (simp add: redirect_contains)
  then show ?thesis
    unfolding reconcile_refuses_to_disturb_a_live_takeover_def
    by (intro in_sandbox [OF assms(1)])
      (rule test_bind [OF live_refused(1) [OF _ assms(2)]], assumption, assumption,
       rule taken_contents, rule taken_same, assumption, assumption, assumption, rule test_return, simp)
qed

lemma second_takeover_while_active_is_refused:
  assumes "tempdir dir w" "this_process h"
  shows "passes (second_takeover_while_active_is_refused h dir) w"
  unfolding second_takeover_while_active_is_refused_def
  by (intro in_sandbox [OF assms(1)])
    (rule test_bind [OF live_refused(2) [OF _ assms(2)]], assumption, assumption, rule test_return, simp)

definition reconcile_is_a_noop_when_nothing_was_taken_over :: "host \<Rightarrow> path \<Rightarrow> (unit, bool) io" where
  "reconcile_is_a_noop_when_nothing_was_taken_over h dir =
     bind_io (sandbox_new dir ORIGINAL) (\<lambda>_.
     bind_io (unwrap (reconcile_after_crash h (sandbox_manager dir))) (\<lambda>r.
     bind_io (resolv_contents dir) (\<lambda>contents. return_io (r = None \<and> contents = ORIGINAL))))"

lemma reconcile_is_a_noop_when_nothing_was_taken_over:
  assumes "tempdir dir w"
  shows "passes (reconcile_is_a_noop_when_nothing_was_taken_over h dir) w"
  unfolding reconcile_is_a_noop_when_nothing_was_taken_over_def
proof (rule after_sandbox [OF assms])
  fix w1 k assume w1: "quiet w1" "fresh (sandbox_manager dir) ORIGINAL (w_fs w1)" "w_fs w1 (dir @ [''resolv.conf'']) = Some (File ORIGINAL k)"
  then have "yields (unwrap (reconcile_after_crash h (sandbox_manager dir))) w1 None (w_fs w1)"
    by (intro unwrap_yields reconcile_nothing) (simp_all add: fresh_def)
  then show "passes (bind_io (unwrap (reconcile_after_crash h (sandbox_manager dir))) (\<lambda>r.
     bind_io (resolv_contents dir) (\<lambda>contents. return_io (r = None \<and> contents = ORIGINAL)))) w1"
    by (rule test_bind) (rule test_bind [OF reads_contents], assumption, simp add: w1(3), simp add: test_return)
qed

text \<open>A restore without a backup only removes a state file.\<close>

lemma no_backup:
  assumes "quiet w" "w_fs w (backup_path m) = None" "w_fs w (state_path m) = None"
  shows "yields (attempt (restore h m) :: (unit, resolv_error + unit) io) w (Inl NoBackup) (w_fs w)"
proof -
  have "stat (w_fs w) (backup_path m) = None" using assms(2) by (subst stat_self) (simp_all add: is_link_def)
  then obtain w1 :: world where w1: "(path_exists (backup_path m) :: (resolv_error, bool) io) w = (Inr False, w1)" "quiet w1" "w_fs w1 = w_fs w"
    using yieldsE [OF yields_exists [OF assms(1), of "backup_path m"]] by metis
  have "(w_fs w1)(state_path m := None) = w_fs w" using w1(3) assms(3) by auto
  then obtain w2 where "(ignore (remove_file (state_path m)) :: (resolv_error, unit) io) w1 = (Inr (), w2)" "quiet w2" "w_fs w2 = w_fs w"
    using yieldsE [OF yields_ignore_remove [OF w1(2), of "state_path m"]] w1(3) assms(3) by (metis option.distinct(1))
  with w1(1) show ?thesis by (simp add: yields_def attempt_def restore_def bind_io_def fail_io_def Let_def)
qed

definition restore_without_backup_reports_no_backup :: "host \<Rightarrow> path \<Rightarrow> (unit, bool) io" where
  "restore_without_backup_reports_no_backup h dir =
     bind_io (sandbox_new dir ORIGINAL) (\<lambda>_.
     bind_io (attempt (restore h (sandbox_manager dir))) (\<lambda>r.
     bind_io (resolv_contents dir) (\<lambda>contents. return_io (r = Inl NoBackup \<and> contents = ORIGINAL))))"

lemma restore_without_backup_reports_no_backup:
  assumes "tempdir dir w"
  shows "passes (restore_without_backup_reports_no_backup h dir) w"
  unfolding restore_without_backup_reports_no_backup_def
proof (rule after_sandbox [OF assms])
  fix w1 k
  assume w1: "quiet w1" "w_fs w1 = sandbox_disk dir ORIGINAL k (w_fs w)" "w_fs w1 (dir @ [''resolv.conf'']) = Some (File ORIGINAL k)"
  have "w_fs w1 (dir @ [''state'', x]) = None" for x
    using w1(2) sandbox_dirs(3) [OF assms, of "[''state'', x]"] by (simp add: sandbox_disk_def)
  then have "yields (attempt (restore h (sandbox_manager dir)) :: (unit, resolv_error + unit) io) w1 (Inl NoBackup) (w_fs w1)"
    by (intro no_backup w1(1)) (simp_all add: sandbox_eval)
  then show "passes (bind_io (attempt (restore h (sandbox_manager dir))) (\<lambda>r.
     bind_io (resolv_contents dir) (\<lambda>contents. return_io (r = Inl NoBackup \<and> contents = ORIGINAL)))) w1"
    by (rule test_bind) (rule test_bind [OF reads_contents], assumption, simp add: w1(3), simp add: test_return)
qed

definition restore_twice_is_safe :: "host \<Rightarrow> path \<Rightarrow> (unit, bool) io" where
  "restore_twice_is_safe h dir =
     bind_io (sandbox_new dir ORIGINAL) (\<lambda>_.
     bind_io (unwrap (take_over h (sandbox_manager dir) proxy_ip)) (\<lambda>_.
     bind_io (unwrap (restore h (sandbox_manager dir))) (\<lambda>_.
     bind_io (attempt (restore h (sandbox_manager dir))) (\<lambda>r.
     bind_io (resolv_contents dir) (\<lambda>contents. return_io (r = Inl NoBackup \<and> contents = ORIGINAL))))))"

lemma restore_twice_is_safe:
  assumes "tempdir dir w" "this_process h"
  shows "passes (restore_twice_is_safe h dir) w"
  unfolding restore_twice_is_safe_def
proof (rule in_sandbox [OF assms(1)], rule after_restore [OF _ assms(2)], assumption)
  fix w1 assume gb: "given_back dir ORIGINAL w1"
  then have "yields (attempt (restore h (sandbox_manager dir)) :: (unit, resolv_error + unit) io) w1 (Inl NoBackup) (w_fs w1)"
    by (intro no_backup) (simp_all add: given_back_def)
  then show "passes (bind_io (attempt (restore h (sandbox_manager dir))) (\<lambda>r.
     bind_io (resolv_contents dir) (\<lambda>contents. return_io (r = Inl NoBackup \<and> contents = ORIGINAL)))) w1"
    by (rule test_bind) (rule given_back_contents, rule given_back_same [OF gb], assumption, assumption, simp add: test_return)
qed

definition networkmanager_dropin_is_written_and_removed :: "host \<Rightarrow> path \<Rightarrow> (unit, bool) io" where
  "networkmanager_dropin_is_written_and_removed h dir =
     bind_io (sandbox_new dir ORIGINAL) (\<lambda>_.
     bind_io (unwrap (take_over h (sandbox_manager dir) proxy_ip)) (\<lambda>_.
     bind_io (unwrap (read_to_string (nm_dropin (sandbox_manager dir)))) (\<lambda>dropin.
     bind_io (unwrap (restore h (sandbox_manager dir))) (\<lambda>_.
     bind_io (path_exists (nm_dropin (sandbox_manager dir))) (\<lambda>there.
       return_io (str_contains ''dns=none'' dropin \<and> \<not> there))))))"

lemma dropin_contains: "str_contains ''dns=none'' NM_DROPIN_BODY"
  by (simp add: NM_DROPIN_BODY_def unlines_def str_contains_iff)
    (rule exI [of _ "''# Written by Detour while Detour DNS protection is active.'' @ [nl] @
       ''# Removed automatically when protection is turned off.'' @ [nl] @ ''[main]'' @ [nl]"], simp)

lemma networkmanager_dropin_is_written_and_removed:
  assumes "tempdir dir w" "this_process h"
  shows "passes (networkmanager_dropin_is_written_and_removed h dir) w"
  unfolding networkmanager_dropin_is_written_and_removed_def
proof (rule in_sandbox [OF assms(1)])
  let ?m = "sandbox_manager dir"
  fix w1 and st :: takeover_state assume taken: "taken h dir ORIGINAL st w1"
  then have "stat (w_fs w1) (nm_dropin ?m) = Some (File NM_DROPIN_BODY 420)"
    by (subst stat_self) (simp_all add: taken_def is_link_def)
  with taken have "yields (unwrap (read_to_string (nm_dropin ?m))) w1 NM_DROPIN_BODY (w_fs w1)"
    by (intro unwrap_yields yields_read) (simp_all add: taken_def)
  then show "passes (bind_io (unwrap (read_to_string (nm_dropin ?m))) (\<lambda>dropin.
     bind_io (unwrap (restore h ?m)) (\<lambda>_. bind_io (path_exists (nm_dropin ?m)) (\<lambda>there.
       return_io (str_contains ''dns=none'' dropin \<and> \<not> there))))) w1"
  proof (rule test_bind, intro after_restore [OF taken_same [OF taken] assms(2)])
    fix w3 assume gb: "given_back dir ORIGINAL w3"
    then have "stat (w_fs w3) (nm_dropin ?m) = None" by (subst stat_self) (simp_all add: given_back_def is_link_def)
    moreover have "quiet w3" using gb by (simp add: given_back_def)
    ultimately have "yields (path_exists (nm_dropin ?m)) w3 False (w_fs w3)" using yields_exists by metis
    then show "passes (bind_io (path_exists (nm_dropin ?m)) (\<lambda>there.
       return_io (str_contains ''dns=none'' NM_DROPIN_BODY \<and> \<not> there))) w3"
      by (rule test_bind) (simp add: test_return dropin_contains)
  qed
qed

definition preexisting_networkmanager_dropin_is_left_alone :: "host \<Rightarrow> path \<Rightarrow> (unit, bool) io" where
  "preexisting_networkmanager_dropin_is_left_alone h dir =
     (let own = ''# user'' @ [CHR 0x27] @ ''s own file'' @ [nl] in
      bind_io (sandbox_new dir ORIGINAL) (\<lambda>_.
      bind_io (unwrap (fs_write (nm_dropin (sandbox_manager dir)) own)) (\<lambda>_.
      bind_io (unwrap (take_over h (sandbox_manager dir) proxy_ip)) (\<lambda>_.
      bind_io (unwrap (restore h (sandbox_manager dir))) (\<lambda>_.
      bind_io (unwrap (read_to_string (nm_dropin (sandbox_manager dir)))) (\<lambda>dropin. return_io (dropin = own)))))))"

text \<open>By the round trip of \<open>Resolvconf\<close>, which also covers a drop-in that was there before.\<close>

lemma after_round_trip:
  assumes "layout m" "fresh m orig (w_fs w)" "quiet w" "this_process h"
    and "\<And>w1. quiet w1 \<Longrightarrow> w_fs w1 (resolv_path m) = (case w_fs w (resolv_path m) of Some (File c k) \<Rightarrow> Some (File orig 420) | x \<Rightarrow> x) \<Longrightarrow>
      w_fs w1 (nm_dropin m) = w_fs w (nm_dropin m) \<Longrightarrow> passes (f ()) w1"
  shows "passes (bind_io (unwrap (take_over h m addr)) (\<lambda>_. bind_io (unwrap (restore h m)) f)) w"
proof -
  have "\<forall>st. h_de h (h_ser h st) = Some st" using assms(4) by (simp add: this_process_def)
  from take_over_restore_disk [OF assms(1-3) this, of addr] obtain t where
    t: "yields (bind_io (take_over h m addr) (\<lambda>_. restore h m)) w () t"
    "t (resolv_path m) = (case w_fs w (resolv_path m) of Some (File c k) \<Rightarrow> Some (File orig 420) | x \<Rightarrow> x)"
    "t (nm_dropin m) = w_fs w (nm_dropin m)" by blast
  obtain st w1 where 1: "take_over h m addr w = (Inr st, w1)" by (rule yieldsE [OF take_over_yields [OF assms(1-3)]])
  with t(1) obtain w2 where 2: "restore h m w1 = (Inr (), w2)" "quiet w2" "w_fs w2 = t"
    by (cases "restore h m w1") (auto simp: yields_def bind_io_def)
  have "passes (f ()) w2" by (rule assms(5) [OF 2(2)]) (simp_all only: 2(3) t(2,3))
  with 1 2(1) show ?thesis by (simp add: passes_def bind_io_def unwrap_def map_err_def)
qed

lemma preexisting_networkmanager_dropin_is_left_alone:
  assumes "tempdir dir w" "this_process h"
  shows "passes (preexisting_networkmanager_dropin_is_left_alone h dir) w"
  unfolding preexisting_networkmanager_dropin_is_left_alone_def Let_def
proof (rule after_sandbox [OF assms(1)])
  let ?m = "sandbox_manager dir" and ?own = "''# user'' @ [CHR 0x27] @ ''s own file'' @ [nl]"
  fix w1 k
  assume w1: "quiet w1" "fresh ?m ORIGINAL (w_fs w1)" "w_fs w1 = sandbox_disk dir ORIGINAL k (w_fs w)"
  have "stat (w_fs w1) (butlast (nm_dropin ?m)) = Some Dir"
    using sandbox_dirs(2) [OF assms(1)] w1(3)
    by (subst stat_self) (simp_all add: is_link_def sandbox_disk_def sandbox_manager_def butlast_append)
  moreover have "plain_node (w_fs w1 (nm_dropin ?m))" using w1(2) by (simp add: fresh_def)
  ultimately obtain k' where k': "yields (fs_write (nm_dropin ?m) ?own) w1 () ((w_fs w1)(nm_dropin ?m \<mapsto> File ?own k'))"
    using fs_write_yields [OF w1(1)] by metis
  show "passes (bind_io (unwrap (fs_write (nm_dropin ?m) ?own)) (\<lambda>_. bind_io (unwrap (take_over h ?m proxy_ip)) (\<lambda>_.
      bind_io (unwrap (restore h ?m)) (\<lambda>_. bind_io (unwrap (read_to_string (nm_dropin ?m))) (\<lambda>dropin. return_io (dropin = ?own)))))) w1"
  proof (rule test_bind [OF unwrap_yields [OF k']])
    fix w2 :: world assume w2: "w_fs w2 = (w_fs w1)(nm_dropin ?m \<mapsto> File ?own k')" "quiet w2"
    have "w_fs w2 = sandbox_disk dir ORIGINAL k (w_fs w) ++ [dir @ [''NetworkManager'', ''conf.d'', ''00-detour.conf''] \<mapsto> File ?own k']"
      by (simp add: w2(1) w1(3) sandbox_manager_def)
    then have fr: "fresh ?m ORIGINAL (w_fs w2)"
      using sandbox_fresh [OF assms(1), of "[dir @ [''NetworkManager'', ''conf.d'', ''00-detour.conf''] \<mapsto> File ?own k']"] by simp
    show "passes (bind_io (unwrap (take_over h ?m proxy_ip)) (\<lambda>_. bind_io (unwrap (restore h ?m)) (\<lambda>_.
        bind_io (unwrap (read_to_string (nm_dropin ?m))) (\<lambda>dropin. return_io (dropin = ?own))))) w2"
    proof (rule after_round_trip [OF sandbox_layout fr w2(2) assms(2)])
      fix w3 :: world assume w3: "quiet w3" "w_fs w3 (nm_dropin ?m) = w_fs w2 (nm_dropin ?m)"
      then have "stat (w_fs w3) (nm_dropin ?m) = Some (File ?own k')"
        using w2(1) by (subst stat_self) (simp_all add: is_link_def)
      from unwrap_yields [OF yields_read [OF w3(1) this]]
      show "passes (bind_io (unwrap (read_to_string (nm_dropin ?m))) (\<lambda>dropin. return_io (dropin = ?own))) w3"
        by (rule test_bind) (simp add: test_return)
    qed
  qed
qed

definition takeover_never_leaves_the_system_without_a_nameserver :: "host \<Rightarrow> path \<Rightarrow> (unit, bool) io" where
  "takeover_never_leaves_the_system_without_a_nameserver h dir =
     bind_io (sandbox_new dir ORIGINAL) (\<lambda>_.
     bind_io (unwrap (take_over h (sandbox_manager dir) proxy_ip)) (\<lambda>_.
     bind_io (resolv_contents dir) (\<lambda>during.
     bind_io (unwrap (restore h (sandbox_manager dir))) (\<lambda>_.
     bind_io (resolv_contents dir) (\<lambda>after.
       return_io (str_contains ''nameserver '' during \<and> str_contains ''nameserver '' after))))))"

lemma str_contains_prefix: "str_contains (a @ b) s \<Longrightarrow> str_contains a s"
  by (auto simp: str_contains_iff)

lemma takeover_never_leaves_the_system_without_a_nameserver:
  assumes "tempdir dir w" "this_process h"
  shows "passes (takeover_never_leaves_the_system_without_a_nameserver h dir) w"
proof -
  have during: "str_contains ''nameserver '' (redirect_body (sandbox_manager dir) proxy_ip)"
    by (rule str_contains_prefix [of _ "''127.0.0.53''"]) (simp add: redirect_contains)
  have after: "str_contains ''nameserver '' ORIGINAL"
    by (simp add: ORIGINAL_def unlines_def str_contains_iff)
      (rule exI [of _ "''# Generated by NetworkManager'' @ [nl]"], simp)
  show ?thesis
    unfolding takeover_never_leaves_the_system_without_a_nameserver_def
    by (rule in_sandbox [OF assms(1)], rule taken_contents, assumption, rule after_restore [OF _ assms(2)], assumption,
        rule given_back_contents, assumption, rule test_return) (simp only: during after simp_thms)
qed

definition empty_original_resolv_conf_is_handled :: "host \<Rightarrow> path \<Rightarrow> (unit, bool) io" where
  "empty_original_resolv_conf_is_handled h dir =
     bind_io (sandbox_new dir []) (\<lambda>_.
     bind_io (unwrap (take_over h (sandbox_manager dir) proxy_ip)) (\<lambda>state.
     bind_io (unwrap (restore h (sandbox_manager dir))) (\<lambda>_.
     bind_io (resolv_contents dir) (\<lambda>contents.
       return_io (ts_original_nameservers state = [] \<and> contents = [])))))"

lemma empty_original_resolv_conf_is_handled:
  assumes "tempdir dir w" "this_process h"
  shows "passes (empty_original_resolv_conf_is_handled h dir) w"
proof -
  have none: "parse_nameservers [] = []" by code_simp
  show ?thesis
    unfolding empty_original_resolv_conf_is_handled_def
    by (rule in_sandbox [OF assms(1)], rule after_restore [OF _ assms(2)], assumption,
        rule given_back_contents, assumption, rule test_return) (simp add: none)
qed

definition symlinked_resolv_conf_is_restored_as_a_symlink :: "host \<Rightarrow> path \<Rightarrow> (unit, bool) io" where
  "symlinked_resolv_conf_is_restored_as_a_symlink h dir =
     (let real = dir @ [''real-resolv.conf'']; link = dir @ [''resolv.conf''];
          manager = \<lparr>resolv_path = link, state_dir = dir @ [''state''], nm_dropin = dir @ [''nm.conf'']\<rparr> in
      bind_io (unwrap (fs_write real ORIGINAL)) (\<lambda>_.
      bind_io (unwrap (make_symlink (Absolute real) link)) (\<lambda>_.
      bind_io (unwrap (take_over h manager proxy_ip)) (\<lambda>_.
      bind_io (unwrap (restore h manager)) (\<lambda>_.
      bind_io (unwrap (symlink_metadata link)) (\<lambda>meta.
      bind_io (unwrap (read_link link)) (\<lambda>target.
        return_io ((case meta of Link _ \<Rightarrow> True | _ \<Rightarrow> False) \<and> target = Absolute real))))))))"

lemma symlinked_fresh:
  assumes "tempdir dir w"
  shows "fresh \<lparr>resolv_path = dir @ [''resolv.conf''], state_dir = dir @ [''state''], nm_dropin = dir @ [''nm.conf'']\<rparr> orig
      ((w_fs w)(dir @ [''real-resolv.conf''] \<mapsto> File orig k, dir @ [''resolv.conf''] \<mapsto> Link (Absolute (dir @ [''real-resolv.conf'']))))"
    (is "fresh ?m orig ?t")
proof -
  note d = tempdirD [OF assms]
  have sane: "sane ?m ?t" using d(2,3) by (simp add: sane_def sandbox_eval butlast_append)
  have "\<not> is_link ?t (dir @ [''real-resolv.conf''])" by (simp add: is_link_def)
  from real_path_self [OF this, of 39] have "real_path 41 ?t (resolv_path ?m) = Some (dir @ [''real-resolv.conf''])"
    by (simp add: numeral_eq_Suc target_path_def)
  moreover have "dir @ [''real-resolv.conf''] \<notin> set (own_files ?m) - {resolv_path ?m}" by (simp add: sandbox_eval butlast_append)
  ultimately have "\<exists>k e. real_path 41 ?t (resolv_path ?m) = Some e \<and> ?t e = Some (File orig k) \<and>
      e \<notin> set (own_files ?m) - {resolv_path ?m}"
    by (intro exI [of _ k] exI [of _ "dir @ [''real-resolv.conf'']"]) simp
  moreover have "?t (take j (state_dir ?m)) \<in> {None, Some Dir}" for j
  proof (cases "j \<le> length dir")
    case True
    have "take j dir \<noteq> dir @ [x]" for x
    proof
      assume "take j dir = dir @ [x]"
      then have "length (take j dir) = length (dir @ [x])" by simp
      then show False by simp
    qed
    with True d(4) show ?thesis by simp
  next
    case False
    then show ?thesis using d(3) by simp
  qed
  ultimately show ?thesis
    unfolding fresh_def using sane d(2,3) by (simp add: sandbox_eval is_link_def butlast_append)
qed

lemma symlinked_resolv_conf_is_restored_as_a_symlink:
  assumes "tempdir dir w" "this_process h"
  shows "passes (symlinked_resolv_conf_is_restored_as_a_symlink h dir) w"
  unfolding symlinked_resolv_conf_is_restored_as_a_symlink_def Let_def
proof -
  let ?r = "dir @ [''real-resolv.conf'']" and ?l = "dir @ [''resolv.conf'']"
  let ?m = "\<lparr>resolv_path = ?l, state_dir = dir @ [''state''], nm_dropin = dir @ [''nm.conf'']\<rparr>"
  obtain k where k: "yields (unwrap (fs_write ?r ORIGINAL)) w () ((w_fs w)(?r \<mapsto> File ORIGINAL k))" by (rule temp_write [OF assms(1)])
  let ?t = "(w_fs w)(?r \<mapsto> File ORIGINAL k, ?l \<mapsto> Link (Absolute ?r))"
  have ln: "yields (unwrap (make_symlink (Absolute ?r) ?l)) w1 () ?t" if "w_fs w1 = (w_fs w)(?r \<mapsto> File ORIGINAL k)" "quiet w1" for w1
    unfolding make_symlink_def using that tempdirD(3) [OF assms(1)] by (intro unwrap_yields yields_sys) simp_all
  have lay: "layout ?m" by (simp add: layout_def sandbox_eval butlast_append)
  have "passes (bind_io (unwrap (symlink_metadata ?l)) (\<lambda>meta. bind_io (unwrap (read_link ?l)) (\<lambda>target.
      return_io ((case meta of Link _ \<Rightarrow> True | _ \<Rightarrow> False) \<and> target = Absolute ?r)))) w3"
    if "quiet w3" "w_fs w3 ?l = Some (Link (Absolute ?r))" for w3
  proof -
    have meta: "yields (unwrap (symlink_metadata ?l)) w3 (Link (Absolute ?r)) (w_fs w3)"
      unfolding symlink_metadata_def using that by (intro unwrap_yields yields_query) simp_all
    have target: "yields (unwrap (read_link ?l)) w4 (Absolute ?r) (w_fs w4)" if "w_fs w4 = w_fs w3" "quiet w4" for w4
      unfolding read_link_def using \<open>w_fs w3 ?l = _\<close> that by (intro unwrap_yields yields_query) simp_all
    show ?thesis
      by (rule test_bind [OF meta], rule test_bind [OF target], assumption, assumption, rule test_return) simp
  qed
  note last = this
  show "passes (bind_io (unwrap (fs_write ?r ORIGINAL)) (\<lambda>_. bind_io (unwrap (make_symlink (Absolute ?r) ?l)) (\<lambda>_.
      bind_io (unwrap (take_over h ?m proxy_ip)) (\<lambda>_. bind_io (unwrap (restore h ?m)) (\<lambda>_.
      bind_io (unwrap (symlink_metadata ?l)) (\<lambda>meta. bind_io (unwrap (read_link ?l)) (\<lambda>target.
        return_io ((case meta of Link _ \<Rightarrow> True | _ \<Rightarrow> False) \<and> target = Absolute ?r)))))))) w"
  proof (rule test_bind [OF k], rule test_bind [OF ln], assumption, assumption)
    fix w2 :: world assume w2: "w_fs w2 = ?t" "quiet w2"
    have "fresh ?m ORIGINAL (w_fs w2)" unfolding w2(1) by (rule symlinked_fresh [OF assms(1)])
    then show "passes (bind_io (unwrap (take_over h ?m proxy_ip)) (\<lambda>_. bind_io (unwrap (restore h ?m)) (\<lambda>_.
        bind_io (unwrap (symlink_metadata ?l)) (\<lambda>meta. bind_io (unwrap (read_link ?l)) (\<lambda>target.
          return_io ((case meta of Link _ \<Rightarrow> True | _ \<Rightarrow> False) \<and> target = Absolute ?r)))))) w2"
      by (rule after_round_trip [OF lay _ w2(2) assms(2)]) (rule last, simp_all add: w2(1))
  qed
qed

end
