(* ===== verification/Spec2Isabelle.thy ===== *)
theory Spec2Isabelle
  imports Published Desktop Sessions Ranges Servers Resets Core_Tests Helper_Tests Tunnel_Tests Codec_Tests Takeover_Tests
begin

text \<open>
  \<^bold>\<open>Detour.\<close> Detour keeps a Linux desktop's DNS private. A privileged helper
  (\<open>crates/dns-helper\<close>) binds a local DNS server, points \<open>/etc/resolv.conf\<close> at it, and answers
  each query either over DNS-over-HTTPS or from the system's own resolvers; it can also route
  single applications through a WireGuard tunnel or through a proxy that hides the TLS server
  name from filters. \<open>crates/dns-core\<close> holds what does not need privileges: providers, routing
  policy, response cache, DoH resolver and configuration. A Tauri application (\<open>src-tauri\<close>)
  starts the helper and reads its status file.

  \<^bold>\<open>Theories and sources\<close>, in the order they are built:

  \<^item> \<open>Prelude\<close>, \<open>Text\<close>, \<open>Numbers\<close>: Rust's integers, string and number functions as the sources use
    them, on \<^typ>\<open>string\<close>, one character per ASCII character; case mapping, trimming, splitting,
    printing and parsing, with their laws and round trips. \<open>Net_Addr\<close>: \<open>std::net\<close> addresses,
    their parsers, texts and order. \<open>Streams\<close>: sockets as lists of chunks.
    \<open>Filesystem\<close>: the file calls on an explicit disk, with a fault script and the trace of all
    disks, and three ways to reason about them: \<open>frames\<close> (what is left alone, whatever fails),
    \<open>always\<close> and \<open>outcome\<close> (what holds at every step), \<open>yields\<close> (runs without faults).
  \<^item> \<open>Provider\<close>, \<open>Policy\<close>, \<open>Cache\<close>, \<open>Resolver\<close>, \<open>Config\<close>: \<open>provider.rs\<close>, \<open>policy.rs\<close>, \<open>cache.rs\<close>,
    \<open>resolver.rs\<close>, \<open>config.rs\<close> of \<open>crates/dns-core/src\<close>. \<open>Dns_Message\<close> is the part of \<open>hickory_proto\<close>'s
    message that they read and write.
  \<^item> \<open>Dpi\<close>, \<open>Dpi_Proxy\<close>, \<open>Upstream\<close>, \<open>Proxy\<close>, \<open>Resolvconf\<close>, \<open>Tunnel\<close>, \<open>Filter_Route\<close>, \<open>Apps\<close>, \<open>Status\<close>,
    \<open>Diagnose\<close>: the files of \<open>crates/dns-helper/src\<close> with these names in lower case
    (\<open>dpi_proxy.rs\<close>, \<open>filter_route.rs\<close> and so on). \<open>Helper\<close>: its \<open>main.rs\<close>, the composition of all
    the others: \<open>run\<close> reconciles, reads the original resolvers, builds resolver, policy and proxy,
    takes over, writes the status and restores.
  \<^item> \<open>Gui\<close>: \<open>src-tauri/src/main.rs\<close>, the commands of the desktop application. They run programs
    (the helper through \<open>pkexec\<close> among them), read and write the configuration, and start or move
    applications into the tunnel. \<open>Desktop\<close>: its \<open>main\<close>, the registered commands as one type
    (\<open>invocation\<close>), their dispatch (\<open>invoke\<close>) and sequences of them (\<open>invocations\<close>).
  \<^item> \<open>Servers\<close>: the accept loops of \<open>proxy.rs\<close> and \<open>dpi_proxy.rs\<close>; \<open>handle\<close> is cut at its network requests into
    \<open>handle_begin\<close> and \<open>handle_end\<close>, and \<open>server_run\<close> interleaves the tasks. \<open>Sessions\<close>: sequences of
    takeovers, restores and reconciliations of \<open>resolvconf.rs\<close>, each cut short anywhere, and the
    abstract machine of four phases they refine. \<open>Addr_Text\<close>, \<open>Resets\<close>: printing and parsing of
    addresses, and the commands by which \<open>attach\<close> (\<open>main.rs\<close>, \<open>apps.rs\<close>) resets connections. \<open>Ranges\<close>: the
    address lists of \<open>tunnel.rs\<close>, \<open>filter_route.rs\<close> and \<open>apps.rs\<close> as sets. \<open>Published\<close>: the status file between
    \<open>status.rs\<close> and the desktop application.
  \<^item> \<open>Core_Tests\<close>, \<open>Helper_Tests\<close>, \<open>Tunnel_Tests\<close>: the unit tests of the sources, run on the model;
    \<open>Codec_Tests\<close> and \<open>File_Tests\<close>: those that need a codec or a temporary directory, for any codec that reads
    back what it wrote and any empty directory. \<open>Takeover_Tests\<close>: \<open>crates/dns-helper/tests/takeover.rs\<close>.
  \<^item> \<open>Fallback\<close> is the contract of an ordered list of servers of which the first acceptable
    answer counts; \<open>Resolver\<close> and \<open>Upstream\<close> interpret it. The cache contract of the resolver is
    the locale \<open>ttl_store\<close>, which \<open>Cache\<close> interprets on the model of \<open>cache.rs\<close>.

  \<^bold>\<open>Names and state.\<close> A struct is a record with prefixed fields, an enum a datatype, a function or
  method keeps its name unless it clashes (\<open>cache_get_at\<close>, \<open>proxy_handle\<close>, \<open>filter_up_steps\<close>,
  \<open>restore_cmd\<close>). Shared mutable state is passed explicitly: the cache and the query log
  (\<open>proxy_state\<close>), the disk (\<open>world\<close>), the kernel with its processes, cgroups, interfaces and rules
  (a state of any type \<open>'k\<close>). What other tasks do between the two uses of the cache in one lookup
  is the argument \<open>ev_interfere\<close>, and \<open>resolver_run\<close> interleaves lookups with the purge and
  clearing in any order. Errors are values: a sum with the source's error type, every early
  return a branch.

  \<^bold>\<open>What the lemmas show.\<close> Routing: which names leave the machine (\<open>Policy\<close>, \<open>Proxy\<close>, \<open>Config\<close>). Answers:
  where each served answer comes from and how old it may be (\<open>Cache\<close>, \<open>Resolver\<close>, \<open>Proxy\<close>).
  Fallback: the first accepted reply, for DoH and for plain DNS. Fragmentation: a ClientHello
  is cut inside its server name and reassembles to the same bytes, end to end through the
  proxy (\<open>Dpi\<close>, \<open>Dpi_Proxy\<close>). Takeover: at every crash point \<open>resolv.conf\<close> is whole and the next
  start can restore it; a takeover and a restore are a round trip (\<open>Resolvconf\<close>); a run that ends
  in order gives everything back, an abandoned one does not (\<open>Helper\<close>). Tunnel: only
  whitelisted settings reach \<open>wg\<close>, the rules fail closed, the private key is not left behind when
  nothing fails (\<open>Tunnel\<close>); attaching writes only what it may (\<open>Helper\<close>). Loops: every loop of the
  model is a terminating function; the one that depends on the clock, \<open>capture_loop\<close>, is proved
  to return. Desktop: an
  application is launched only into a tunnel that is up, and what is saved or installed there
  is what the helper later loads (\<open>Gui\<close>); only nine commands can ask for root, what they start as root is
  the helper, and without root nothing outside the configuration directories changes (\<open>Desktop\<close>).
  Concurrency: in every interleaving each reply is one of the sequential handler
  (\<open>Servers\<close>). Refinement: takeover sessions follow the abstract phases, and the next start
  recovers (\<open>Sessions\<close>). Attaching: exactly the connections of the moved processes that
  the tunnel does not exempt are reset, each named by a filter that reads back as its two ends
  (\<open>Resets\<close>, \<open>Addr_Text\<close>, \<open>Ranges\<close>). Snapshots are fresh and reach the desktop (\<open>Status\<close>, \<open>Published\<close>),
  verdicts mean what they say (\<open>Diagnose\<close>).

  \<^bold>\<open>Bounds and fuel.\<close> \<open>real_path\<close> follows 40 links and then fails, as the kernel does.
  \<open>capture_loop\<close> has fuel; one round per five milliseconds of the time limit and one more always
  suffice when the clock advances by what is slept (\<open>capture_returns\<close>). \<open>move_rounds\<close> makes the five
  rounds and \<open>wait_gone\<close> the fifty polls of the code. TTLs, ids, counters, ports and the bytes of
  messages are words of the width in the source; times are naturals in nanoseconds, file
  modes, process and user numbers naturals.

  \<^bold>\<open>Arguments of the model\<close> stand for code outside the repository: the DNS wire codec and the texts
  of names (\<open>hickory_proto\<close>), HTTPS requests (\<open>reqwest\<close>), sockets, name lookup, the TOML and JSON
  codecs, \<open>kill\<close>, the clock, the programs \<open>ip\<close>, \<open>nft\<close>, \<open>wg\<close> and \<open>ss\<close>, the cgroup and process file
  systems. Hypotheses about them are documented behaviour: a codec reads back what it wrote,
  sleeping takes the time asked for, moving a process does not change its owner.

  \<^bold>\<open>Not modelled.\<close> The scheduler of the asynchronous runtime (any order of the tasks' steps is
  allowed, and the end of the server is an argument of \<open>run\<close>);
  command line parsing and logging; serialisation derives; what the kernel stores behind the
  socket option that \<open>original_destination\<close> reads; the tests that need the
  network or a live session, and the one test of the serialisation defaults. Directories on the way to a file
  are real ones, and file permissions other than the mode of a new file are not checked but may appear
  as faults. Of the desktop application the window, the web page and the runtime that delivers commands
  are left out: commands run one after the other.
\<close>

end
